(* ===== verification/Meltem_Prelude.thy ===== *)
theory Meltem_Prelude
  imports Complex_Main "HOL-Library.AList" "HOL-Library.Char_ord" "HOL-Library.List_Lexorder"
begin

text \<open>
  Shared vocabulary of the development: Python numbers and clocks, exceptions of the
  \<open>modbus_connection\<close> package, rounding to even, insertion-ordered dictionaries, and the
  collections of facts the component theories add to.
\<close>

section \<open>Fact collections\<close>

named_theorems const_simps \<open>values of the program's constants\<close>
named_theorems frame_simps \<open>fields an operation leaves alone\<close>
named_theorems health_simps \<open>reading the health a store or a read left behind\<close>

section \<open>Numbers and clocks\<close>

text \<open>
  Python integers are unbounded, so they are \<^typ>\<open>int\<close>. Readings of the monotonic clock and of
  the wall clock, and durations in seconds, are \<^typ>\<open>real\<close>: the program only subtracts, adds and
  compares them.
\<close>

type_synonym seconds = real
type_synonym datetime = real

text \<open>
  Python's \<open>round(a / b)\<close> for integers with \<open>b > 0\<close>: the nearest integer, and the even one of
  the two neighbours when the quotient lies exactly half-way.
\<close>

definition py_round_div :: "int \<Rightarrow> int \<Rightarrow> int" where
  "py_round_div a b =
     (let q = a div b; r = a mod b
      in if 2 * r < b then q
         else if b < 2 * r then q + 1
         else if even q then q else q + 1)"

lemma py_round_div_bounds:
  assumes "0 < b"
  shows "2 * a - b \<le> 2 * b * py_round_div a b \<and> 2 * b * py_round_div a b \<le> 2 * a + b"
proof -
  let ?q = "a div b" and ?r = "a mod b"
  have a: "a = b * ?q + ?r" by simp
  have r: "0 \<le> ?r" "?r < b" using assms by simp_all
  have "py_round_div a b = ?q \<and> 2 * ?r \<le> b \<or> py_round_div a b = ?q + 1 \<and> b \<le> 2 * ?r"
    by (auto simp: py_round_div_def Let_def)
  then show ?thesis
  proof
    assume h: "py_round_div a b = ?q \<and> 2 * ?r \<le> b"
    moreover have "2 * a = 2 * b * ?q + 2 * ?r"
      using a by (metis distrib_left mult.assoc)
    ultimately show ?thesis using r assms by auto
  next
    assume h: "py_round_div a b = ?q + 1 \<and> b \<le> 2 * ?r"
    then have "2 * b * py_round_div a b = 2 * b * ?q + 2 * b"
      by (simp add: algebra_simps)
    moreover have "2 * a = 2 * b * ?q + 2 * ?r"
      using a by (metis distrib_left mult.assoc)
    ultimately show ?thesis using h r by linarith
  qed
qed

lemma py_round_div_nonneg:
  assumes "0 < b" "0 \<le> a"
  shows "0 \<le> py_round_div a b"
proof -
  have "0 \<le> a div b" using assms by (simp add: pos_imp_zdiv_nonneg_iff)
  then show ?thesis by (auto simp: py_round_div_def Let_def)
qed

lemma py_round_div_unique:
  assumes "0 < b" "2 * \<bar>b * n - a\<bar> < b"
  shows "py_round_div a b = n"
proof -
  let ?m = "py_round_div a b"
  have "2 * a - b \<le> 2 * b * ?m" "2 * b * ?m \<le> 2 * a + b"
    using py_round_div_bounds [OF assms(1), of a] by auto
  moreover define x y where "x = b * ?m" and "y = b * n"
  ultimately have "2 * x \<le> 2 * a + b" "2 * a - b \<le> 2 * x" by (simp_all add: algebra_simps)
  moreover have "2 * y < 2 * a + b" "2 * a - b < 2 * y"
    using assms(2) unfolding y_def by (auto simp: abs_if split: if_splits)
  ultimately have "x - y < b" "y - x < b" by auto
  then have "b * (?m - n) < b * 1" "b * (n - ?m) < b * 1"
    unfolding x_def y_def by (simp_all add: right_diff_distrib)
  then have "?m - n < 1" "n - ?m < 1"
    using assms(1) by (simp_all only: mult_less_cancel_left_pos)
  then show ?thesis by simp
qed

lemma py_round_div_exact: "0 < b \<Longrightarrow> py_round_div (b * n) b = n"
  by (rule py_round_div_unique) auto

text \<open>A float read from a register pair: an idealised finite value, or NaN or an infinity.\<close>

datatype pyfloat = Finite real | NonFinite

section \<open>Exceptions of the Modbus package\<close>

text \<open>
  \<open>modbus_connection\<close> is a third-party package, so its class hierarchy is not fixed here: an
  exception carries the list of the classes the code asks about that it is an instance of, and its
  message. \<open>ReadQuarantinedError\<close> is the one class the repository adds.
\<close>

datatype exn_class =
    ModbusError
  | ModbusConnectionError
  | ClientClosedError
  | ModbusTimeoutError
  | ModbusProtocolError
  | ReadQuarantinedError
  | ModbusExceptionError
  | AcknowledgeError
  | GatewayTargetError
  | GatewayPathUnavailableError

record exn =
  isa :: "exn_class list"
  message :: string

definition isinstance :: "exn \<Rightarrow> exn_class list \<Rightarrow> bool" where
  "isinstance e classes \<longleftrightarrow> list_ex (\<lambda>c. c \<in> set classes) (isa e)"

lemma isinstance_iff: "isinstance e classes \<longleftrightarrow> (\<exists>c \<in> set (isa e). c \<in> set classes)"
  by (simp add: isinstance_def list_ex_iff)

text \<open>
  The errors the integration raises itself: \<open>MeltemModbusError\<close>, its subclass
  \<open>MeltemConnectionError\<close> and the subclass \<open>PortInUseError\<close> of that, Home Assistant's two error
  classes, and Python's \<open>ValueError\<close>, \<open>KeyError\<close> and \<open>RuntimeError\<close>; each with the text or
  translation key it is raised with.
\<close>

datatype meltem_error =
    MeltemModbusError string
  | MeltemConnectionError string
  | PortInUseError string
  | HomeAssistantError string
  | ServiceValidationError string
  | ValueError string
  | KeyError string
  | RuntimeError string
  | Cancelled

section \<open>Insertion-ordered dictionaries\<close>

text \<open>
  A Python \<open>dict\<close> keeps the order in which its keys were first inserted. It is an association
  list with distinct keys; \<^const>\<open>AList.update\<close> replaces a value in place or appends,
  \<^const>\<open>AList.delete\<close> is \<open>pop\<close>, and \<^const>\<open>map_of\<close> is \<open>get\<close>.
\<close>

type_synonym ('k, 'v) dict = "('k \<times> 'v) list"

definition dict_get :: "('k, 'v) dict \<Rightarrow> 'k \<Rightarrow> 'v \<Rightarrow> 'v" where
  "dict_get d k v = (case map_of d k of None \<Rightarrow> v | Some w \<Rightarrow> w)"

lemma dict_get_update [simp]:
  "dict_get (AList.update k v d) k' w = (if k' = k then v else dict_get d k' w)"
  by (simp add: dict_get_def update_conv)

lemma dict_get_delete [simp]:
  "dict_get (AList.delete k d) k' w = (if k' = k then w else dict_get d k' w)"
  by (simp add: dict_get_def delete_conv)

lemma dict_get_Nil [simp]: "dict_get [] k w = w"
  by (simp add: dict_get_def)

text \<open>
  \<open>tuple(sorted(d.items()))\<close>: the items in key order. The keys of a dictionary are distinct, so the
  values never take part in the comparison.
\<close>

definition sorted_items :: "(string, 'v) dict \<Rightarrow> (string, 'v) dict" where
  "sorted_items d = sort_key fst d"

lemma map_of_insort_key:
  "k \<notin> fst ` set d \<Longrightarrow> map_of (insort_key fst (k, v) d) = (map_of d)(k \<mapsto> v)"
  by (induction d) (auto simp: fun_eq_iff)

lemma map_of_sorted_items:
  "distinct (map fst d) \<Longrightarrow> map_of (sorted_items d) = map_of d"
  by (induction d) (auto simp: sorted_items_def map_of_insort_key)

lemma distinct_insort_key:
  "distinct (map fst (insort_key fst x d)) \<longleftrightarrow> distinct (map fst (x # d))"
  by (induction d) (auto simp: set_insort_key)

lemma distinct_sorted_items:
  "distinct (map fst (sorted_items d)) \<longleftrightarrow> distinct (map fst d)"
  by (induction d) (simp_all add: sorted_items_def distinct_insort_key)

text \<open>\<open>dict(pairs)\<close>: a later pair overwrites an earlier one.\<close>

definition dict_of :: "('k \<times> 'v) list \<Rightarrow> ('k, 'v) dict" where
  "dict_of ps = fold (\<lambda>(k, v) d. AList.update k v d) ps []"

lemma update_append_fresh:
  "k \<notin> fst ` set d \<Longrightarrow> AList.update k v d = d @ [(k, v)]"
  by (induction d) auto

lemma fold_update_distinct:
  "distinct (map fst (d @ ps)) \<Longrightarrow> fold (\<lambda>(k, v) d. AList.update k v d) ps d = d @ ps"
proof (induction ps arbitrary: d)
  case (Cons p ps)
  obtain k v where p: "p = (k, v)" by fastforce
  from Cons.prems have "AList.update k v d = d @ [(k, v)]"
    by (intro update_append_fresh) (auto simp: p)
  with Cons.IH [of "d @ [(k, v)]"] Cons.prems show ?case by (simp add: p)
qed simp

lemma dict_of_distinct [simp]: "distinct (map fst ps) \<Longrightarrow> dict_of ps = ps"
  using fold_update_distinct [of "[]" ps] by (simp add: dict_of_def)

lemma distinct_fold_update:
  "distinct (map fst d) \<Longrightarrow> distinct (map fst (fold (\<lambda>(k, v) d. AList.update k v d) ps d))"
  by (induction ps arbitrary: d) (auto simp: distinct_update)

lemma distinct_dict_of [simp]: "distinct (map fst (dict_of ps))"
  by (simp add: dict_of_def distinct_fold_update)

section \<open>Keyed stores\<close>

text \<open>
  The one law every store of the program relies on: a lookup after a write sees the written value
  under the written key and the old values elsewhere.
\<close>

locale keyed_store =
  fixes look :: "'s \<Rightarrow> 'k \<Rightarrow> 'v"
    and put :: "'k \<Rightarrow> 'v \<Rightarrow> 's \<Rightarrow> 's"
  assumes look_put: "look (put k v s) k' = (if k' = k then v else look s k')"
begin

lemma look_put_same [simp]: "look (put k v s) k = v"
  by (simp add: look_put)

lemma look_put_other: "k' \<noteq> k \<Longrightarrow> look (put k v s) k' = look s k'"
  by (simp add: look_put)

text \<open>Rewriting every key of a duplicate-free list from its own old value.\<close>

lemma look_fold_modify:
  "distinct ks \<Longrightarrow>
     look (fold (\<lambda>k s. put k (f k (look s k)) s) ks s) k =
       (if k \<in> set ks then f k (look s k) else look s k)"
proof (induction ks arbitrary: s)
  case (Cons j ks)
  then show ?case by (auto simp: look_put)
qed simp

text \<open>Writing values that do not depend on the store.\<close>

lemma look_fold_put:
  "distinct ks \<Longrightarrow>
     look (fold (\<lambda>k s. put k (g k) s) ks s) k = (if k \<in> set ks then g k else look s k)"
  using look_fold_modify [of ks "\<lambda>k _. g k"] by simp

end

interpretation dict_store: keyed_store "\<lambda>d k. dict_get d k v" "AList.update" for v
  by unfold_locales simp

end
