(* ===== verification/Meltem_Const.thy ===== *)
theory Meltem_Const
  imports Meltem_Prelude
begin

text \<open>
  The fixed facts of \<open>const.py\<close>: timing, unit profiles, operating and preset modes with their raw
  codes, register addresses, and the tables of entities, read groups and platforms. Single values
  unfold by simplification; the tables are collected in \<open>const_simps\<close>. A Python dictionary is an
  association list in source order, a frozen set the list of its elements.
\<close>

section \<open>Timing\<close>

definition DEFAULT_GATEWAY_DEVICE_ID :: "int" where [simp]:
  "DEFAULT_GATEWAY_DEVICE_ID = 1"

definition DEFAULT_SCAN_SLAVE_START :: "int" where [simp]:
  "DEFAULT_SCAN_SLAVE_START = 2"

definition DEFAULT_SCAN_SLAVE_END :: "int" where [simp]:
  "DEFAULT_SCAN_SLAVE_END = 16"

definition DEFAULT_NETWORK_PORT :: "int" where [simp]:
  "DEFAULT_NETWORK_PORT = 5020"

definition DEFAULT_MODBUS_TCP_PORT :: "int" where [simp]:
  "DEFAULT_MODBUS_TCP_PORT = 502"

definition FIXED_BAUDRATE :: "int" where [simp]:
  "FIXED_BAUDRATE = 19200"

definition FIXED_BYTESIZE :: "int" where [simp]:
  "FIXED_BYTESIZE = 8"

definition FIXED_STOPBITS :: "int" where [simp]:
  "FIXED_STOPBITS = 1"

definition DEFAULT_MAX_REQUESTS_PER_SECOND :: "seconds" where [simp]:
  "DEFAULT_MAX_REQUESTS_PER_SECOND = 4"

definition FIXED_TIMEOUT :: "seconds" where [simp]:
  "FIXED_TIMEOUT = 4 / 5"

definition NETWORK_TIMEOUT :: "seconds" where [simp]:
  "NETWORK_TIMEOUT = 5"

definition REQUEST_GAP_SECONDS :: "seconds" where [simp]:
  "REQUEST_GAP_SECONDS = 1 / 10"

definition TRANSPORT_LINK_QUIET_SECONDS :: "seconds" where [simp]:
  "TRANSPORT_LINK_QUIET_SECONDS = 10"

definition TRANSPORT_RETRY_DELAY_SECONDS :: "seconds" where [simp]:
  "TRANSPORT_RETRY_DELAY_SECONDS = 5"

definition TRANSPORT_READ_RECOVERY_SECONDS :: "seconds" where [simp]:
  "TRANSPORT_READ_RECOVERY_SECONDS = 5"

definition GATEWAY_UPTIME_REFRESH_SECONDS :: "seconds" where [simp]:
  "GATEWAY_UPTIME_REFRESH_SECONDS = 60"

definition GATEWAY_UPTIME_STALE_SECONDS :: "seconds" where [simp]:
  "GATEWAY_UPTIME_STALE_SECONDS = 180"

definition GATEWAY_UTC_CLOCK_REFRESH_SECONDS :: "seconds" where [simp]:
  "GATEWAY_UTC_CLOCK_REFRESH_SECONDS = 60"

definition GATEWAY_UTC_CLOCK_STALE_SECONDS :: "seconds" where [simp]:
  "GATEWAY_UTC_CLOCK_STALE_SECONDS = 180"

definition GATEWAY_CONNECTED_DEVICES_REFRESH_SECONDS :: "seconds" where [simp]:
  "GATEWAY_CONNECTED_DEVICES_REFRESH_SECONDS = 60"

definition GATEWAY_CONNECTED_DEVICES_STALE_SECONDS :: "seconds" where [simp]:
  "GATEWAY_CONNECTED_DEVICES_STALE_SECONDS = 180"

definition GATEWAY_RF_STATISTICS_REFRESH_SECONDS :: "seconds" where [simp]:
  "GATEWAY_RF_STATISTICS_REFRESH_SECONDS = 60"

definition GATEWAY_RF_STATISTICS_STALE_SECONDS :: "seconds" where [simp]:
  "GATEWAY_RF_STATISTICS_STALE_SECONDS = 180"

definition EXTERNAL_INPUT_REFRESH_SECONDS :: "seconds" where [simp]:
  "EXTERNAL_INPUT_REFRESH_SECONDS = 3600"

definition EXTERNAL_INPUT_STALE_SECONDS :: "seconds" where [simp]:
  "EXTERNAL_INPUT_STALE_SECONDS = 10800"

definition OPTIONAL_READ_RETRY_SECONDS :: "seconds" where [simp]:
  "OPTIONAL_READ_RETRY_SECONDS = 60"

definition FLOW_REFRESH_SECONDS :: "seconds" where [simp]:
  "FLOW_REFRESH_SECONDS = 10"

definition STATUS_REFRESH_SECONDS :: "seconds" where [simp]:
  "STATUS_REFRESH_SECONDS = 60"

definition TEMPERATURE_REFRESH_SECONDS :: "seconds" where [simp]:
  "TEMPERATURE_REFRESH_SECONDS = 60"

definition OPERATING_HOURS_REFRESH_SECONDS :: "seconds" where [simp]:
  "OPERATING_HOURS_REFRESH_SECONDS = 3600"

definition CONTROL_SETTINGS_REFRESH_SECONDS :: "seconds" where [simp]:
  "CONTROL_SETTINGS_REFRESH_SECONDS = 3600"

definition FILTER_REFRESH_SECONDS :: "seconds" where [simp]:
  "FILTER_REFRESH_SECONDS = 3600"

definition AIRFLOW_STALE_AFTER_SECONDS :: "seconds" where [simp]:
  "AIRFLOW_STALE_AFTER_SECONDS = 30"

definition WRITE_SETTLE_SECONDS :: "seconds" where [simp]:
  "WRITE_SETTLE_SECONDS = 1 / 2"

definition CONTROL_SETTING_SETTLE_SECONDS :: "seconds" where [simp]:
  "CONTROL_SETTING_SETTLE_SECONDS = 3 / 2"

definition WRITE_CONFIRMATION_TIMEOUT_SECONDS :: "seconds" where [simp]:
  "WRITE_CONFIRMATION_TIMEOUT_SECONDS = 30"

definition WRITE_HEALTH_RETENTION_SECONDS :: "seconds" where [simp]:
  "WRITE_HEALTH_RETENTION_SECONDS = 600"

definition TARGET_OPTIMISTIC_SECONDS :: "seconds" where [simp]:
  "TARGET_OPTIMISTIC_SECONDS = 15"

definition TRANSPORT_DISCONNECT_AFTER_TIMEOUTS :: "int" where [simp]:
  "TRANSPORT_DISCONNECT_AFTER_TIMEOUTS = 3"

definition READ_FAILURE_THRESHOLD :: "int" where [simp]:
  "READ_FAILURE_THRESHOLD = 3"

section \<open>Unit profiles\<close>

record product_metadata =
  series :: string
  model_id :: string

definition PRODUCT_ID_M_WRG :: "int" where [simp]:
  "PRODUCT_ID_M_WRG = 116819"

definition PRODUCT_ID_M_WRG_II :: "int" where [simp]:
  "PRODUCT_ID_M_WRG_II = 116852"

definition PRODUCT_METADATA :: "(int, product_metadata) dict" where
  "PRODUCT_METADATA =
     [(PRODUCT_ID_M_WRG, \<lparr>series = ''M-WRG'', model_id = ''VMD-22RES22''\<rparr>),
      (PRODUCT_ID_M_WRG_II, \<lparr>series = ''M-WRG-II'', model_id = ''VMD-22RPS44''\<rparr>)]"

definition product_metadata_of :: "int option \<Rightarrow> product_metadata option" where
  "product_metadata_of product =
     (case product of None \<Rightarrow> None | Some p \<Rightarrow> map_of PRODUCT_METADATA p)"

record profile_metadata =
  label :: string
  max_airflow :: int
  capabilities :: "string list"

definition PROFILE_METADATA :: "(string, profile_metadata) dict" where [const_simps]:
  "PROFILE_METADATA =
     [(''s_plain'', \<lparr>label = ''M-WRG-S'', max_airflow = 97, capabilities = []\<rparr>),
      (''s_f'', \<lparr>label = ''M-WRG-S (-F)'', max_airflow = 97, capabilities = [''humidity'']\<rparr>),
      (''s_fc'', \<lparr>label = ''M-WRG-S (-FC)'', max_airflow = 97, capabilities = [''humidity'', ''co2'']\<rparr>),
      (''ii_plain'', \<lparr>label = ''M-WRG-II'', max_airflow = 100, capabilities = []\<rparr>),
      (''ii_f'', \<lparr>label = ''M-WRG-II (-F)'', max_airflow = 100, capabilities = [''humidity'']\<rparr>),
      (''ii_fc'', \<lparr>label = ''M-WRG-II (-FC)'', max_airflow = 100, capabilities = [''humidity'', ''co2'']\<rparr>),
      (''ii_fc_voc'', \<lparr>label = ''M-WRG-II (O/VOC-AUL)'', max_airflow = 100, capabilities = [''humidity'', ''co2'', ''voc'']\<rparr>)]"

definition profiles_with :: "string \<Rightarrow> string list" where
  "profiles_with capability =
     map fst (filter (\<lambda>(_, metadata). capability \<in> set (capabilities metadata)) PROFILE_METADATA)"

definition ALL_PROFILES :: "string list" where
  "ALL_PROFILES = map fst PROFILE_METADATA"

definition HUMIDITY_PROFILES :: "string list" where
  "HUMIDITY_PROFILES = profiles_with ''humidity''"

definition CO2_PROFILES :: "string list" where
  "CO2_PROFILES = profiles_with ''co2''"

definition VOC_PROFILES :: "string list" where
  "VOC_PROFILES = profiles_with ''voc''"

definition SENSOR_CONTROL_PROFILES :: "string list" where
  "SENSOR_CONTROL_PROFILES = List.union HUMIDITY_PROFILES CO2_PROFILES"

definition PLAIN_PROFILES :: "string list" where
  "PLAIN_PROFILES = filter (\<lambda>p. p \<notin> set SENSOR_CONTROL_PROFILES) ALL_PROFILES"

lemma profile_tables [const_simps]:
  "ALL_PROFILES = [''s_plain'', ''s_f'', ''s_fc'', ''ii_plain'', ''ii_f'', ''ii_fc'', ''ii_fc_voc'']"
  "HUMIDITY_PROFILES = [''s_f'', ''s_fc'', ''ii_f'', ''ii_fc'', ''ii_fc_voc'']"
  "CO2_PROFILES = [''s_fc'', ''ii_fc'', ''ii_fc_voc'']"
  "VOC_PROFILES = [''ii_fc_voc'']"
  "set SENSOR_CONTROL_PROFILES = {''s_f'', ''s_fc'', ''ii_f'', ''ii_fc'', ''ii_fc_voc''}"
  "PLAIN_PROFILES = [''s_plain'', ''ii_plain'']"
  by (auto simp: ALL_PROFILES_def HUMIDITY_PROFILES_def CO2_PROFILES_def VOC_PROFILES_def
      SENSOR_CONTROL_PROFILES_def PLAIN_PROFILES_def profiles_with_def PROFILE_METADATA_def)

definition profile_label :: "string \<Rightarrow> string" where
  "profile_label profile =
     (case map_of PROFILE_METADATA profile of None \<Rightarrow> ''M-WRG'' | Some m \<Rightarrow> label m)"

definition profile_max_airflow :: "string \<Rightarrow> int" where
  "profile_max_airflow profile =
     (case map_of PROFILE_METADATA profile of None \<Rightarrow> 100 | Some m \<Rightarrow> max_airflow m)"

text \<open>Every unit is rated at 97 or 100 cubic metres per hour, unknown profiles at 100.\<close>

lemma profile_max_airflow_cases: "profile_max_airflow p = 97 \<or> profile_max_airflow p = 100"
  by (simp add: profile_max_airflow_def PROFILE_METADATA_def)

lemma profile_max_airflow_pos [simp]: "0 < profile_max_airflow p"
  using profile_max_airflow_cases [of p] by auto

section \<open>Operating and preset modes\<close>

definition PRESET_MODE_INTENSIVE :: "string" where [simp]:
  "PRESET_MODE_INTENSIVE = ''intensive''"

definition PRESET_MODE_INACTIVE :: "string" where [simp]:
  "PRESET_MODE_INACTIVE = ''inactive''"

definition PRESET_MODE_EXTRACT_ONLY :: "string" where [simp]:
  "PRESET_MODE_EXTRACT_ONLY = ''extract_only''"

definition PRESET_MODE_SUPPLY_ONLY :: "string" where [simp]:
  "PRESET_MODE_SUPPLY_ONLY = ''supply_only''"

definition OPERATION_MODE_INACTIVE :: "string" where [simp]:
  "OPERATION_MODE_INACTIVE = ''inactive''"

definition OPERATION_MODE_OFF :: "string" where [simp]:
  "OPERATION_MODE_OFF = ''off''"

definition OPERATION_MODE_MANUAL :: "string" where [simp]:
  "OPERATION_MODE_MANUAL = ''manual''"

definition OPERATION_MODE_UNBALANCED :: "string" where [simp]:
  "OPERATION_MODE_UNBALANCED = ''unbalanced''"

definition OPERATION_MODE_HUMIDITY_CONTROL :: "string" where [simp]:
  "OPERATION_MODE_HUMIDITY_CONTROL = ''humidity_control''"

definition OPERATION_MODE_CO2_CONTROL :: "string" where [simp]:
  "OPERATION_MODE_CO2_CONTROL = ''co2_control''"

definition OPERATION_MODE_AUTOMATIC :: "string" where [simp]:
  "OPERATION_MODE_AUTOMATIC = ''automatic''"

definition PRESET_MODE_CODE_LOW :: "int" where [simp]:
  "PRESET_MODE_CODE_LOW = 228"

definition PRESET_MODE_CODE_MEDIUM :: "int" where [simp]:
  "PRESET_MODE_CODE_MEDIUM = 229"

definition PRESET_MODE_CODE_HIGH :: "int" where [simp]:
  "PRESET_MODE_CODE_HIGH = 230"

definition PRESET_MODE_CODE_INTENSIVE :: "int" where [simp]:
  "PRESET_MODE_CODE_INTENSIVE = 227"

definition APP_UNBALANCED_PRESET_BASE :: "int" where [simp]:
  "APP_UNBALANCED_PRESET_BASE = 200"

definition MODE_OFF :: "int" where [simp]:
  "MODE_OFF = 1"

definition MODE_SENSOR_CONTROL :: "int" where [simp]:
  "MODE_SENSOR_CONTROL = 2"

definition MODE_MANUAL :: "int" where [simp]:
  "MODE_MANUAL = 3"

definition MODE_UNBALANCED :: "int" where [simp]:
  "MODE_UNBALANCED = 4"

definition MODE_HUMIDITY_CONTROL_VALUE :: "int" where [simp]:
  "MODE_HUMIDITY_CONTROL_VALUE = 112"

definition MODE_CO2_CONTROL_VALUE :: "int" where [simp]:
  "MODE_CO2_CONTROL_VALUE = 144"

definition MODE_AUTOMATIC_VALUE :: "int" where [simp]:
  "MODE_AUTOMATIC_VALUE = 16"

definition PRESET_MODE_OPTIONS :: "string list" where [const_simps]:
  "PRESET_MODE_OPTIONS = [PRESET_MODE_INACTIVE, ''low'', ''medium'', ''high'']"

definition PRESET_MODE_TO_RAW_CODE :: "(string, int) dict" where [const_simps]:
  "PRESET_MODE_TO_RAW_CODE =
     [(''low'', PRESET_MODE_CODE_LOW),
      (''medium'', PRESET_MODE_CODE_MEDIUM),
      (''high'', PRESET_MODE_CODE_HIGH),
      (PRESET_MODE_INTENSIVE, PRESET_MODE_CODE_INTENSIVE)]"

definition RAW_CODE_TO_PRESET_MODE :: "(int, string) dict" where [const_simps]:
  "RAW_CODE_TO_PRESET_MODE = map (\<lambda>(preset, code). (code, preset)) PRESET_MODE_TO_RAW_CODE"

definition DIRECT_OPERATION_MODES :: "string list" where [const_simps]:
  "DIRECT_OPERATION_MODES = [OPERATION_MODE_OFF, OPERATION_MODE_MANUAL, OPERATION_MODE_UNBALANCED]"

definition SENSOR_MODE_TO_RAW_VALUE :: "(string, int) dict" where [const_simps]:
  "SENSOR_MODE_TO_RAW_VALUE =
     [(OPERATION_MODE_HUMIDITY_CONTROL, MODE_HUMIDITY_CONTROL_VALUE),
      (OPERATION_MODE_CO2_CONTROL, MODE_CO2_CONTROL_VALUE),
      (OPERATION_MODE_AUTOMATIC, MODE_AUTOMATIC_VALUE)]"

definition RAW_VALUE_TO_SENSOR_MODE :: "(int, string) dict" where [const_simps]:
  "RAW_VALUE_TO_SENSOR_MODE = map (\<lambda>(mode, v). (v, mode)) SENSOR_MODE_TO_RAW_VALUE"

definition SENSOR_OPERATION_MODES :: "string list" where [const_simps]:
  "SENSOR_OPERATION_MODES = map fst SENSOR_MODE_TO_RAW_VALUE"

definition MODE_STATUS_SENSOR_MODE_TO_RAW_VALUE :: "(int, int) dict" where [const_simps]:
  "MODE_STATUS_SENSOR_MODE_TO_RAW_VALUE =
     [(48, MODE_AUTOMATIC_VALUE),
      (80, MODE_AUTOMATIC_VALUE),
      (MODE_HUMIDITY_CONTROL_VALUE, MODE_HUMIDITY_CONTROL_VALUE),
      (MODE_CO2_CONTROL_VALUE, MODE_CO2_CONTROL_VALUE),
      (176, MODE_CO2_CONTROL_VALUE),
      (208, MODE_CO2_CONTROL_VALUE)]"

definition DIRECTION_SUPPLY :: string where [simp]:
  "DIRECTION_SUPPLY = ''supply''"

definition DIRECTION_EXTRACT :: string where [simp]:
  "DIRECTION_EXTRACT = ''extract''"

datatype level_source = LEVEL_SOURCE_PENDING | LEVEL_SOURCE_TARGET | LEVEL_SOURCE_MEASURED

datatype level_write_fallback = LEVEL_WRITE_FALLBACK_BALANCED | LEVEL_WRITE_FALLBACK_UNKNOWN_MODE

section \<open>Modbus registers\<close>

definition REGISTER_PRODUCT_ID :: "int" where [simp]:
  "REGISTER_PRODUCT_ID = 40002"

definition REGISTER_APP_SETUP_CODE :: "int" where [simp]:
  "REGISTER_APP_SETUP_CODE = 40000"

definition REGISTER_SOFTWARE_VERSION :: "int" where [simp]:
  "REGISTER_SOFTWARE_VERSION = 40004"

definition REGISTER_RF_LAST_SEEN_AGE :: "int" where [simp]:
  "REGISTER_RF_LAST_SEEN_AGE = 40100"

definition REGISTER_RF_COMM_STATUS :: "int" where [simp]:
  "REGISTER_RF_COMM_STATUS = 40101"

definition REGISTER_DEVICE_FAULT :: "int" where [simp]:
  "REGISTER_DEVICE_FAULT = 40103"

definition REGISTER_VALUE_ERROR_STATUS :: "int" where [simp]:
  "REGISTER_VALUE_ERROR_STATUS = 40104"

definition REGISTER_RF_SIGNAL_STRENGTH :: "int" where [simp]:
  "REGISTER_RF_SIGNAL_STRENGTH = 40109"

definition REGISTER_EXTRACT_AIR_TEMPERATURE :: "int" where [simp]:
  "REGISTER_EXTRACT_AIR_TEMPERATURE = 41000"

definition REGISTER_OUTDOOR_AIR_TEMPERATURE :: "int" where [simp]:
  "REGISTER_OUTDOOR_AIR_TEMPERATURE = 41002"

definition REGISTER_EXHAUST_AIR_TEMPERATURE :: "int" where [simp]:
  "REGISTER_EXHAUST_AIR_TEMPERATURE = 41004"

definition REGISTER_HUMIDITY_EXTRACT_AIR :: "int" where [simp]:
  "REGISTER_HUMIDITY_EXTRACT_AIR = 41006"

definition REGISTER_CO2_EXTRACT_AIR :: "int" where [simp]:
  "REGISTER_CO2_EXTRACT_AIR = 41007"

definition REGISTER_SUPPLY_AIR_TEMPERATURE :: "int" where [simp]:
  "REGISTER_SUPPLY_AIR_TEMPERATURE = 41009"

definition REGISTER_HUMIDITY_SUPPLY_AIR :: "int" where [simp]:
  "REGISTER_HUMIDITY_SUPPLY_AIR = 41011"

definition REGISTER_CO2_SUPPLY_AIR :: "int" where [simp]:
  "REGISTER_CO2_SUPPLY_AIR = 41012"

definition REGISTER_VOC_SUPPLY_AIR :: "int" where [simp]:
  "REGISTER_VOC_SUPPLY_AIR = 41013"

definition REGISTER_VOC_EXTRACT_AIR :: "int" where [simp]:
  "REGISTER_VOC_EXTRACT_AIR = 41008"

definition REGISTER_ERROR_STATUS :: "int" where [simp]:
  "REGISTER_ERROR_STATUS = 41016"

definition REGISTER_FILTER_CHANGE_DUE :: "int" where [simp]:
  "REGISTER_FILTER_CHANGE_DUE = 41017"

definition REGISTER_FROST_PROTECTION_ACTIVE :: "int" where [simp]:
  "REGISTER_FROST_PROTECTION_ACTIVE = 41018"

definition REGISTER_EXTRACT_AIR_FLOW :: "int" where [simp]:
  "REGISTER_EXTRACT_AIR_FLOW = 41020"

definition REGISTER_SUPPLY_AIR_FLOW :: "int" where [simp]:
  "REGISTER_SUPPLY_AIR_FLOW = 41021"

definition REGISTER_DAYS_UNTIL_FILTER_CHANGE :: "int" where [simp]:
  "REGISTER_DAYS_UNTIL_FILTER_CHANGE = 41027"

definition REGISTER_OPERATING_HOURS :: "int" where [simp]:
  "REGISTER_OPERATING_HOURS = 41030"

definition REGISTER_FAN_MOTOR_HOURS :: "int" where [simp]:
  "REGISTER_FAN_MOTOR_HOURS = 41032"

definition REGISTER_MODE_STATUS :: "int" where [simp]:
  "REGISTER_MODE_STATUS = 41100"

definition REGISTER_SUPPLY_MODE_STATUS :: "int" where [simp]:
  "REGISTER_SUPPLY_MODE_STATUS = 41101"

definition REGISTER_EXTRACT_MODE_STATUS :: "int" where [simp]:
  "REGISTER_EXTRACT_MODE_STATUS = 41102"

definition REGISTER_MODE :: "int" where [simp]:
  "REGISTER_MODE = 41120"

definition REGISTER_CURRENT_LEVEL :: "int" where [simp]:
  "REGISTER_CURRENT_LEVEL = 41121"

definition REGISTER_EXTRACT_AIR_TARGET_LEVEL :: "int" where [simp]:
  "REGISTER_EXTRACT_AIR_TARGET_LEVEL = 41122"

definition REGISTER_PRESET_MODE :: "int" where [simp]:
  "REGISTER_PRESET_MODE = 41123"

definition REGISTER_PRESET_VALUE :: "int" where [simp]:
  "REGISTER_PRESET_VALUE = 41124"

definition REGISTER_APPLY :: "int" where [simp]:
  "REGISTER_APPLY = 41132"

definition REGISTER_HUMIDITY_STARTING_POINT :: "int" where [simp]:
  "REGISTER_HUMIDITY_STARTING_POINT = 42000"

definition REGISTER_HUMIDITY_MIN_LEVEL :: "int" where [simp]:
  "REGISTER_HUMIDITY_MIN_LEVEL = 42001"

definition REGISTER_HUMIDITY_MAX_LEVEL :: "int" where [simp]:
  "REGISTER_HUMIDITY_MAX_LEVEL = 42002"

definition REGISTER_CO2_STARTING_POINT :: "int" where [simp]:
  "REGISTER_CO2_STARTING_POINT = 42003"

definition REGISTER_CO2_MIN_LEVEL :: "int" where [simp]:
  "REGISTER_CO2_MIN_LEVEL = 42004"

definition REGISTER_CO2_MAX_LEVEL :: "int" where [simp]:
  "REGISTER_CO2_MAX_LEVEL = 42005"

definition REGISTER_EXTERNAL_INPUT_LEVEL :: "int" where [simp]:
  "REGISTER_EXTERNAL_INPUT_LEVEL = 42007"

definition REGISTER_EXTERNAL_INPUT_ON_DELAY :: "int" where [simp]:
  "REGISTER_EXTERNAL_INPUT_ON_DELAY = 42008"

definition REGISTER_EXTERNAL_INPUT_RUN_ON :: "int" where [simp]:
  "REGISTER_EXTERNAL_INPUT_RUN_ON = 42009"

definition REGISTER_GATEWAY_NUMBER_OF_NODES :: "int" where [simp]:
  "REGISTER_GATEWAY_NUMBER_OF_NODES = 43901"

definition REGISTER_GATEWAY_MAC_START :: "int" where [simp]:
  "REGISTER_GATEWAY_MAC_START = 41012"

definition REGISTER_GATEWAY_UTC_CLOCK :: "int" where [simp]:
  "REGISTER_GATEWAY_UTC_CLOCK = 41015"

definition REGISTER_GATEWAY_UPTIME :: "int" where [simp]:
  "REGISTER_GATEWAY_UPTIME = 41019"

definition REGISTER_GATEWAY_NODE_ADDRESS_1 :: "int" where [simp]:
  "REGISTER_GATEWAY_NODE_ADDRESS_1 = 43902"

definition REGISTER_GATEWAY_RF_MESSAGES_CURRENT_HOUR :: "int" where [simp]:
  "REGISTER_GATEWAY_RF_MESSAGES_CURRENT_HOUR = 42100"

definition REGISTER_GATEWAY_RF_MESSAGES_PREVIOUS_HOUR :: "int" where [simp]:
  "REGISTER_GATEWAY_RF_MESSAGES_PREVIOUS_HOUR = 42101"

definition REGISTER_GATEWAY_RF_LOAD_CURRENT_HOUR :: "int" where [simp]:
  "REGISTER_GATEWAY_RF_LOAD_CURRENT_HOUR = 42102"

definition REGISTER_GATEWAY_RF_LOAD_PREVIOUS_HOUR :: "int" where [simp]:
  "REGISTER_GATEWAY_RF_LOAD_PREVIOUS_HOUR = 42104"

definition BRIDGE_RF_REGISTERS :: "int list" where [const_simps]:
  "BRIDGE_RF_REGISTERS =
     [REGISTER_RF_LAST_SEEN_AGE, REGISTER_RF_COMM_STATUS, REGISTER_DEVICE_FAULT,
      REGISTER_VALUE_ERROR_STATUS, REGISTER_RF_SIGNAL_STRENGTH]"

definition EXTERNAL_INPUT_REGISTERS :: "(string, int) dict" where [const_simps]:
  "EXTERNAL_INPUT_REGISTERS =
     [(''external_input_level'', REGISTER_EXTERNAL_INPUT_LEVEL),
      (''external_input_on_delay'', REGISTER_EXTERNAL_INPUT_ON_DELAY),
      (''external_input_run_on'', REGISTER_EXTERNAL_INPUT_RUN_ON)]"

definition EXTERNAL_INPUT_LIMITS :: "(string, int \<times> int) dict" where [const_simps]:
  "EXTERNAL_INPUT_LIMITS =
     [(''external_input_level'', (10, 100)),
      (''external_input_on_delay'', (0, 240)),
      (''external_input_run_on'', (0, 240))]"

definition CONTROL_SETTING_REGISTERS :: "(string, int) dict" where [const_simps]:
  "CONTROL_SETTING_REGISTERS =
     [(''humidity_starting_point'', REGISTER_HUMIDITY_STARTING_POINT),
      (''humidity_min_level'', REGISTER_HUMIDITY_MIN_LEVEL),
      (''humidity_max_level'', REGISTER_HUMIDITY_MAX_LEVEL),
      (''co2_starting_point'', REGISTER_CO2_STARTING_POINT),
      (''co2_min_level'', REGISTER_CO2_MIN_LEVEL),
      (''co2_max_level'', REGISTER_CO2_MAX_LEVEL)]"

definition CONTROL_SETTING_LIMITS :: "(string, int \<times> int \<times> int) dict" where [const_simps]:
  "CONTROL_SETTING_LIMITS =
     [(''humidity_starting_point'', (40, 80, 1)),
      (''humidity_min_level'', (0, 100, 10)),
      (''humidity_max_level'', (10, 100, 10)),
      (''co2_starting_point'', (500, 1200, 1)),
      (''co2_min_level'', (0, 100, 10)),
      (''co2_max_level'', (10, 100, 10))]"

definition CONTROL_LEVEL_RANGES :: "(string \<times> string) list" where [const_simps]:
  "CONTROL_LEVEL_RANGES =
     [(''humidity_min_level'', ''humidity_max_level''), (''co2_min_level'', ''co2_max_level'')]"

section \<open>Entities, read groups and platforms\<close>

definition READ_GROUP_ENTITY_KEYS :: "(string, string list) dict" where [const_simps]:
  "READ_GROUP_ENTITY_KEYS =
     [(''flow'', [''extract_air_flow'', ''supply_air_flow'', ''airflow_balance'']),
      (''flow_control'', [''operation_mode'', ''preset_mode'', ''supply_level'', ''extract_level'']),
      (''intensive'', [''intensive'']),
      (''status'', [''error_status'', ''frost_protection_active'', ''rf_comm_status'']),
      (''temperature'', [''exhaust_temperature'', ''outdoor_air_temperature'',
        ''extract_air_temperature'', ''supply_air_temperature'']),
      (''air_quality'', [''humidity_extract_air'', ''humidity_supply_air'',
        ''absolute_humidity_extract_air'', ''absolute_humidity_supply_air'',
        ''co2_extract_air'', ''co2_supply_air'', ''voc_extract_air'',
        ''voc_supply_air'']),
      (''filter'', [''filter_change_due'', ''days_until_filter_change'']),
      (''hours'', [''operating_hours'']),
      (''fan_hours'', [''fan_motor_hours'']),
      (''rf_last_seen'', [''rf_last_seen_age_seconds'']),
      (''rf_signal'', [''rf_signal_strength'']),
      (''device_fault'', [''device_fault'']),
      (''value_error'', [''value_error_status'']),
      (''control_settings'', map fst CONTROL_SETTING_REGISTERS)]"

text \<open>
  \<open>READ_GROUP_ENTITY_KEYS[group]\<close>. The program indexes the table only with the groups
  \<open>RefreshPlan.read_groups\<close> and the table itself name, so the \<open>KeyError\<close> of an unknown group is not
  reachable; such a group delivers no entity here.
\<close>

definition group_entities :: "string \<Rightarrow> string list" where
  "group_entities group_key = dict_get READ_GROUP_ENTITY_KEYS group_key []"

definition OPTIONAL_DIAGNOSTIC_READ_GROUPS :: "string list" where [const_simps]:
  "OPTIONAL_DIAGNOSTIC_READ_GROUPS =
     [''rf_last_seen'', ''rf_signal'', ''device_fault'', ''value_error'', ''fan_hours'']"

definition BASE_SUPPORTED_ENTITY_KEYS :: "string list" where [const_simps]:
  "BASE_SUPPORTED_ENTITY_KEYS =
     [''exhaust_temperature'', ''extract_air_flow'', ''supply_air_flow'',
      ''days_until_filter_change'', ''operating_hours'', ''fan_motor_hours'',
      ''rf_last_seen_age_seconds'', ''rf_signal_strength'', ''app_setup_code'',
      ''modbus_slave_id'', ''error_status'', ''frost_protection_active'',
      ''filter_change_due'', ''intensive'', ''rf_comm_status'', ''device_fault'',
      ''value_error_status'', ''operation_mode'', ''preset_mode'', ''supply_level'',
      ''extract_level'', ''airflow_balance'', ''connectivity'',
      ''last_successful_update'']
     @ map fst EXTERNAL_INPUT_REGISTERS"

datatype platform = SENSOR | BINARY_SENSOR | FAN | NUMBER | SELECT | SWITCH

definition ENTITY_PLATFORM_BY_KEY :: "(string, platform) dict" where [const_simps]:
  "ENTITY_PLATFORM_BY_KEY =
     map (\<lambda>key. (key, SENSOR))
       ([''exhaust_temperature'', ''outdoor_air_temperature'',
         ''extract_air_temperature'', ''supply_air_temperature'',
         ''humidity_extract_air'', ''humidity_supply_air'',
         ''absolute_humidity_extract_air'', ''absolute_humidity_supply_air'',
         ''co2_extract_air'', ''co2_supply_air'', ''voc_extract_air'',
         ''voc_supply_air'', ''extract_air_flow'', ''supply_air_flow'',
         ''days_until_filter_change'', ''operating_hours'', ''fan_motor_hours'',
         ''rf_last_seen_age_seconds'', ''rf_signal_strength'', ''app_setup_code'',
         ''modbus_slave_id'', ''airflow_balance'', ''last_successful_update'']
        @ map fst EXTERNAL_INPUT_REGISTERS)
     @ map (\<lambda>key. (key, BINARY_SENSOR))
       [''error_status'', ''frost_protection_active'', ''filter_change_due'',
        ''rf_comm_status'', ''device_fault'', ''value_error_status'', ''data_health'',
        ''connectivity'']
     @ map (\<lambda>key. (key, FAN)) [''supply_level'', ''extract_level'']
     @ map (\<lambda>key. (key, NUMBER)) (map fst CONTROL_SETTING_REGISTERS)
     @ map (\<lambda>key. (key, SELECT)) [''operation_mode'', ''preset_mode'']
     @ [(''intensive'', SWITCH)]"

definition ENTITY_PROFILES :: "(string, string list) dict" where [const_simps]:
  "ENTITY_PROFILES =
     [(''operation_mode'', SENSOR_CONTROL_PROFILES),
      (''outdoor_air_temperature'', HUMIDITY_PROFILES),
      (''extract_air_temperature'', HUMIDITY_PROFILES),
      (''supply_air_temperature'', HUMIDITY_PROFILES),
      (''humidity_extract_air'', HUMIDITY_PROFILES),
      (''humidity_supply_air'', HUMIDITY_PROFILES),
      (''absolute_humidity_extract_air'', HUMIDITY_PROFILES),
      (''absolute_humidity_supply_air'', HUMIDITY_PROFILES),
      (''co2_extract_air'', CO2_PROFILES),
      (''co2_supply_air'', VOC_PROFILES),
      (''voc_extract_air'', VOC_PROFILES),
      (''voc_supply_air'', VOC_PROFILES)]
     @ map (\<lambda>key. (key, if take 9 key = ''humidity_'' then HUMIDITY_PROFILES else CO2_PROFILES))
         (map fst CONTROL_SETTING_REGISTERS)"

definition DATA_HEALTH_ENTITY_KEY :: string where [simp]:
  "DATA_HEALTH_ENTITY_KEY = ''data_health''"

definition GATEWAY_ENTITY_PLATFORM_BY_KEY :: "(string, platform) dict" where [const_simps]:
  "GATEWAY_ENTITY_PLATFORM_BY_KEY =
     [(''modbus_device_path'', SENSOR),
      (''gateway_connectivity'', BINARY_SENSOR),
      (''gateway_last_answer'', SENSOR),
      (''gateway_connected_devices'', SENSOR),
      (''gateway_rf_messages_current_hour'', SENSOR),
      (''gateway_rf_messages_previous_hour'', SENSOR),
      (''gateway_rf_load_current_hour'', SENSOR),
      (''gateway_rf_load_previous_hour'', SENSOR),
      (''gateway_response_time'', SENSOR),
      (''gateway_success_rate'', SENSOR),
      (''gateway_supply_air_flow'', SENSOR),
      (''gateway_extract_air_flow'', SENSOR),
      (''gateway_airflow_delta'', SENSOR),
      (''gateway_uptime'', SENSOR),
      (''gateway_utc_clock'', SENSOR),
      (''gateway_modbus_attempts_total'', SENSOR),
      (''gateway_modbus_failures_total'', SENSOR),
      (''gateway_link_recycles_total'', SENSOR),
      (''gateway_failed_read_groups_total'', SENSOR),
      (''gateway_write_issues_total'', SENSOR)]"

end
