(* ===== verification/Meltem_Models.thy ===== *)
theory Meltem_Models
  imports Meltem_Const
begin

text \<open>
  The dataclasses of \<open>models.py\<close>: a unit's configuration, the health of its read groups, the polled
  state of a unit, the outcome of one read, the outcome of one write, and the refresh plans. Frozen
  dataclasses are records; \<open>replace\<close> is record update; a \<open>None\<close> default is \<^const>\<open>None\<close>.
\<close>

section \<open>Unit configuration\<close>

record room_config =
  room_key :: string
  room_name :: string
  room_profile :: string
  room_slave :: int
  room_preview :: "string option"
  supported_entity_keys :: "string set option"
  room_product_id :: "int option"
  room_app_setup_code :: "string option"
  subentry_id :: "string option"
  name_is_device_name :: bool

definition supports :: "room_config \<Rightarrow> string \<Rightarrow> bool" where
  "supports room entity_key =
     (case supported_entity_keys room of None \<Rightarrow> True | Some keys \<Rightarrow> entity_key \<in> keys)"

definition supports_any :: "room_config \<Rightarrow> string list \<Rightarrow> bool" where
  "supports_any room entity_keys = list_ex (supports room) entity_keys"

lemma supports_any_iff: "supports_any room ks \<longleftrightarrow> (\<exists>k \<in> set ks. supports room k)"
  by (simp add: supports_any_def list_ex_iff)

lemma supports_all: "supported_entity_keys room = None \<Longrightarrow> supports room k"
  by (simp add: supports_def)

section \<open>Read health\<close>

record read_health =
  last_attempt :: "datetime option"
  last_successful_read :: "datetime option"
  consecutive_failures :: int
  last_error :: "string option"
  last_error_timed_out :: bool
  last_success_monotonic :: "seconds option"

definition EMPTY_READ_HEALTH :: read_health where
  "EMPTY_READ_HEALTH =
     \<lparr>last_attempt = None, last_successful_read = None, consecutive_failures = 0,
      last_error = None, last_error_timed_out = False, last_success_monotonic = None\<rparr>"

lemma EMPTY_READ_HEALTH_simps [simp]:
  "last_attempt EMPTY_READ_HEALTH = None"
  "last_successful_read EMPTY_READ_HEALTH = None"
  "consecutive_failures EMPTY_READ_HEALTH = 0"
  "last_error EMPTY_READ_HEALTH = None"
  "last_error_timed_out EMPTY_READ_HEALTH = False"
  "last_success_monotonic EMPTY_READ_HEALTH = None"
  by (simp_all add: EMPTY_READ_HEALTH_def)

text \<open>\<open>ReadHealth.failed\<close>: one more failed read; the counter stops at the threshold.\<close>

definition failed :: "read_health \<Rightarrow> datetime \<Rightarrow> string \<Rightarrow> bool \<Rightarrow> read_health" where
  "failed h attempted_at error timed_out =
     \<lparr>last_attempt = Some attempted_at,
      last_successful_read = last_successful_read h,
      consecutive_failures = min (consecutive_failures h + 1) READ_FAILURE_THRESHOLD,
      last_error = Some error,
      last_error_timed_out = timed_out,
      last_success_monotonic = last_success_monotonic h\<rparr>"

lemma failed_simps [simp]:
  "last_attempt (failed h t e b) = Some t"
  "last_successful_read (failed h t e b) = last_successful_read h"
  "consecutive_failures (failed h t e b) = min (consecutive_failures h + 1) 3"
  "last_error (failed h t e b) = Some e"
  "last_error_timed_out (failed h t e b) = b"
  "last_success_monotonic (failed h t e b) = last_success_monotonic h"
  by (simp_all add: failed_def)

text \<open>The health a successful read records (\<open>_updated_read_health\<close> in \<open>modbus_client.py\<close>).\<close>

definition succeeded :: "datetime \<Rightarrow> seconds \<Rightarrow> read_health" where
  "succeeded now clock =
     EMPTY_READ_HEALTH\<lparr>last_attempt := Some now, last_successful_read := Some now,
       last_success_monotonic := Some clock\<rparr>"

lemma succeeded_simps [simp]:
  "last_attempt (succeeded t m) = Some t"
  "last_successful_read (succeeded t m) = Some t"
  "consecutive_failures (succeeded t m) = 0"
  "last_error (succeeded t m) = None"
  "last_error_timed_out (succeeded t m) = False"
  "last_success_monotonic (succeeded t m) = Some m"
  by (simp_all add: succeeded_def)

text \<open>
  What every recorded health satisfies: a bounded failure counter that is zero exactly when there is
  no error, and an error only after an attempt.
\<close>

definition health_ok :: "read_health \<Rightarrow> bool" where
  "health_ok h \<longleftrightarrow>
     0 \<le> consecutive_failures h \<and> consecutive_failures h \<le> READ_FAILURE_THRESHOLD \<and>
     (consecutive_failures h = 0 \<longleftrightarrow> last_error h = None) \<and>
     (last_attempt h = None \<longrightarrow> last_error h = None \<and> last_successful_read h = None)"

lemma health_ok_intros [intro, simp]:
  "health_ok EMPTY_READ_HEALTH"
  "health_ok (succeeded t m)"
  "health_ok h \<Longrightarrow> health_ok (failed h t e b)"
  by (auto simp: health_ok_def)

section \<open>Outcomes of reads and writes\<close>

record read_job_outcome =
  attempted_groups :: "string set"
  recorded_groups :: "string set"
  errors :: "(string, string) dict"
  answered :: bool
  value_groups :: "string set"
  unit_success_groups :: "string set"
  missing_sensor_values :: "string set"
  sensor_values :: "string set"

record room_read_error =
  error_message :: string
  error_at :: datetime

text \<open>A mode or preset name, a level, a flag, or a supply and extract level pair.\<close>

datatype write_value = WStr string | WInt int | WBool bool | WPair int int

text \<open>Python's \<open>==\<close> on these values: a flag equals the integer it stands for.\<close>

fun value_eq :: "write_value \<Rightarrow> write_value \<Rightarrow> bool" where
  "value_eq (WBool b) (WInt n) = (n = of_bool b)"
| "value_eq (WInt n) (WBool b) = (n = of_bool b)"
| "value_eq v w = (v = w)"

lemma value_eq_refl [simp]: "value_eq v v"
  by (cases v) simp_all

datatype write_status =
    Pending | Confirmed | Mismatch | Unconfirmed | Unverifiable | WriteFailed | Superseded

record write_confirmation =
  expected_value :: write_value
  started_at :: datetime
  status :: write_status
  actual_value :: "write_value option"
  write_error :: "string option"
  issue_counted :: bool
  baseline :: read_health

section \<open>Polled state of a unit\<close>

record room_state =
  exhaust_temperature :: "real option"
  outdoor_air_temperature :: "real option"
  extract_air_temperature :: "real option"
  supply_air_temperature :: "real option"
  humidity_extract_air :: "int option"
  humidity_supply_air :: "int option"
  absolute_humidity_extract_air :: "real option"
  absolute_humidity_supply_air :: "real option"
  co2_extract_air :: "int option"
  co2_supply_air :: "int option"
  voc_extract_air :: "int option"
  voc_supply_air :: "int option"
  extract_air_flow :: "int option"
  supply_air_flow :: "int option"
  error_status :: "bool option"
  filter_change_due :: "bool option"
  frost_protection_active :: "bool option"
  rf_comm_status :: "bool option"
  device_fault :: "bool option"
  value_error_status :: "bool option"
  operation_mode :: "string option"
  preset_mode :: "string option"
  intensive_active :: "bool option"
  mode_status_raw :: "(int \<times> int \<times> int) option"
  target_level :: "int option"
  balanced_target_readback :: "int option"
  extract_target_level :: "int option"
  days_until_filter_change :: "int option"
  operating_hours :: "int option"
  fan_motor_hours :: "int option"
  rf_last_seen_age_seconds :: "int option"
  rf_signal_strength :: "int option"
  software_version :: "int option"
  humidity_starting_point :: "int option"
  humidity_min_level :: "int option"
  humidity_max_level :: "int option"
  co2_starting_point :: "int option"
  co2_min_level :: "int option"
  co2_max_level :: "int option"
  group_read_health :: "(string \<times> read_health) list"

definition EMPTY_ROOM_STATE :: room_state where
  "EMPTY_ROOM_STATE =
     \<lparr>exhaust_temperature = None, outdoor_air_temperature = None, extract_air_temperature = None,
      supply_air_temperature = None, humidity_extract_air = None, humidity_supply_air = None,
      absolute_humidity_extract_air = None, absolute_humidity_supply_air = None,
      co2_extract_air = None, co2_supply_air = None, voc_extract_air = None, voc_supply_air = None,
      extract_air_flow = None, supply_air_flow = None, error_status = None,
      filter_change_due = None, frost_protection_active = None, rf_comm_status = None,
      device_fault = None, value_error_status = None, operation_mode = None, preset_mode = None,
      intensive_active = None, mode_status_raw = None, target_level = None,
      balanced_target_readback = None, extract_target_level = None,
      days_until_filter_change = None, operating_hours = None, fan_motor_hours = None,
      rf_last_seen_age_seconds = None, rf_signal_strength = None, software_version = None,
      humidity_starting_point = None, humidity_min_level = None, humidity_max_level = None,
      co2_starting_point = None, co2_min_level = None, co2_max_level = None,
      group_read_health = []\<rparr>"

text \<open>
  \<open>RoomState.has_data\<close>: any value field other than the raw mode status and the health is known.
\<close>

definition has_data :: "room_state \<Rightarrow> bool" where
  "has_data s \<longleftrightarrow>
     exhaust_temperature s \<noteq> None \<or> outdoor_air_temperature s \<noteq> None \<or>
     extract_air_temperature s \<noteq> None \<or> supply_air_temperature s \<noteq> None \<or>
     humidity_extract_air s \<noteq> None \<or> humidity_supply_air s \<noteq> None \<or>
     absolute_humidity_extract_air s \<noteq> None \<or> absolute_humidity_supply_air s \<noteq> None \<or>
     co2_extract_air s \<noteq> None \<or> co2_supply_air s \<noteq> None \<or> voc_extract_air s \<noteq> None \<or>
     voc_supply_air s \<noteq> None \<or> extract_air_flow s \<noteq> None \<or> supply_air_flow s \<noteq> None \<or>
     error_status s \<noteq> None \<or> filter_change_due s \<noteq> None \<or> frost_protection_active s \<noteq> None \<or>
     rf_comm_status s \<noteq> None \<or> device_fault s \<noteq> None \<or> value_error_status s \<noteq> None \<or>
     operation_mode s \<noteq> None \<or> preset_mode s \<noteq> None \<or> intensive_active s \<noteq> None \<or>
     target_level s \<noteq> None \<or> balanced_target_readback s \<noteq> None \<or>
     extract_target_level s \<noteq> None \<or> days_until_filter_change s \<noteq> None \<or>
     operating_hours s \<noteq> None \<or> fan_motor_hours s \<noteq> None \<or>
     rf_last_seen_age_seconds s \<noteq> None \<or> rf_signal_strength s \<noteq> None \<or>
     software_version s \<noteq> None \<or> humidity_starting_point s \<noteq> None \<or>
     humidity_min_level s \<noteq> None \<or> humidity_max_level s \<noteq> None \<or>
     co2_starting_point s \<noteq> None \<or> co2_min_level s \<noteq> None \<or> co2_max_level s \<noteq> None"

definition read_health_for :: "room_state \<Rightarrow> string \<Rightarrow> read_health" where
  "read_health_for s group_key = dict_get (dict_of (group_read_health s)) group_key EMPTY_READ_HEALTH"

definition with_read_health :: "room_state \<Rightarrow> string \<Rightarrow> read_health \<Rightarrow> room_state" where
  "with_read_health s group_key health =
     (let group_health = AList.update group_key health (dict_of (group_read_health s))
      in s\<lparr>group_read_health := sorted_items group_health\<rparr>)"

lemma read_health_for_EMPTY [simp]: "read_health_for EMPTY_ROOM_STATE g = EMPTY_READ_HEALTH"
  by (simp add: read_health_for_def EMPTY_ROOM_STATE_def dict_of_def)

text \<open>Only the health tuple decides what \<^const>\<open>read_health_for\<close> returns.\<close>

lemma read_health_for_cong:
  "group_read_health s = group_read_health (t :: room_state) \<Longrightarrow> read_health_for s = read_health_for t"
  by (simp add: read_health_for_def fun_eq_iff)

interpretation state_health: keyed_store read_health_for "\<lambda>g h s. with_read_health s g h"
proof unfold_locales
  fix g g' h and s :: room_state
  let ?d = "AList.update g h (dict_of (group_read_health s))"
  have "distinct (map fst ?d)" by (rule distinct_update) simp
  then have "distinct (map fst (sorted_items ?d))" "map_of (sorted_items ?d) = map_of ?d"
    by (simp_all add: distinct_sorted_items map_of_sorted_items)
  then show "read_health_for (with_read_health s g h) g' = (if g' = g then h else read_health_for s g')"
    by (simp add: read_health_for_def with_read_health_def dict_get_def update_conv Let_def)
qed

text \<open>The health tuple is kept sorted by group, without duplicates.\<close>

definition health_sorted :: "room_state \<Rightarrow> bool" where
  "health_sorted s \<longleftrightarrow>
     sorted (map fst (group_read_health s)) \<and> distinct (map fst (group_read_health s))"

lemma health_sorted_EMPTY [simp]: "health_sorted EMPTY_ROOM_STATE"
  by (simp add: health_sorted_def EMPTY_ROOM_STATE_def)

lemma health_sorted_with: "health_sorted (with_read_health s g h)"
proof -
  have "distinct (map fst (AList.update g h (dict_of (group_read_health s))))"
    by (rule distinct_update) simp
  then show ?thesis
    by (simp add: health_sorted_def with_read_health_def Let_def distinct_sorted_items)
      (simp add: sorted_items_def)
qed

section \<open>Refresh plans\<close>

record refresh_plan =
  refresh_airflow :: bool
  refresh_temperatures :: bool
  refresh_environment :: bool
  refresh_status :: bool
  refresh_filter_change_due :: bool
  refresh_filter_days :: bool
  refresh_operating_hours :: bool
  refresh_rf_diagnostics :: bool
  refresh_control_settings :: bool

definition FULL_REFRESH_PLAN :: refresh_plan where
  "FULL_REFRESH_PLAN =
     \<lparr>refresh_airflow = True, refresh_temperatures = True, refresh_environment = True,
      refresh_status = True, refresh_filter_change_due = True, refresh_filter_days = True,
      refresh_operating_hours = True, refresh_rf_diagnostics = True,
      refresh_control_settings = True\<rparr>"

text \<open>\<open>RefreshPlan.only(...)\<close> is this plan with the named groups switched on.\<close>

definition EMPTY_REFRESH_PLAN :: refresh_plan where
  "EMPTY_REFRESH_PLAN =
     \<lparr>refresh_airflow = False, refresh_temperatures = False, refresh_environment = False,
      refresh_status = False, refresh_filter_change_due = False, refresh_filter_days = False,
      refresh_operating_hours = False, refresh_rf_diagnostics = False,
      refresh_control_settings = False\<rparr>"

definition read_groups :: "refresh_plan \<Rightarrow> string list" where
  "read_groups plan =
     (if refresh_airflow plan then [''flow'', ''flow_control'', ''intensive''] else [])
     @ (if refresh_status plan then [''status''] else [])
     @ (if refresh_temperatures plan then [''temperature''] else [])
     @ (if refresh_environment plan then [''air_quality''] else [])
     @ (if refresh_filter_change_due plan \<or> refresh_filter_days plan then [''filter''] else [])
     @ (if refresh_operating_hours plan then [''hours'', ''fan_hours''] else [])
     @ (if refresh_rf_diagnostics plan
        then [''rf_last_seen'', ''rf_signal'', ''device_fault'', ''value_error''] else [])
     @ (if refresh_control_settings plan then [''control_settings''] else [])"

lemma distinct_read_groups [simp]: "distinct (read_groups plan)"
  by (auto simp: read_groups_def)

text \<open>Every group a plan names has an entry in the table of groups.\<close>

lemma read_groups_known: "set (read_groups plan) \<subseteq> set (map fst READ_GROUP_ENTITY_KEYS)"
  by (auto simp: read_groups_def READ_GROUP_ENTITY_KEYS_def split: if_splits)

lemma read_groups_FULL: "set (read_groups FULL_REFRESH_PLAN) = set (map fst READ_GROUP_ENTITY_KEYS)"
  by (auto simp: read_groups_def READ_GROUP_ENTITY_KEYS_def FULL_REFRESH_PLAN_def)

end
