(* ===== verification/Modbus_Helpers.thy ===== *)
theory Modbus_Helpers
  imports Meltem_Models
begin

text \<open>
  The pure helpers of \<open>modbus_helpers.py\<close>: plausible sensor ranges, the entity keys of a profile,
  control-setting normalisation and the shared airflow of two matching directions.
\<close>

definition py_repr :: "string \<Rightarrow> string" where
  "py_repr s = CHR 0x27 # s @ [CHR 0x27]"

section \<open>Plausible sensor values\<close>

definition PLAUSIBLE_RANGES :: "(string, int \<times> int) dict" where [const_simps]:
  "PLAUSIBLE_RANGES =
     [(''humidity_extract_air'', (0, 100)),
      (''humidity_supply_air'', (0, 100)),
      (''co2_extract_air'', (250, 10000)),
      (''co2_supply_air'', (250, 10000)),
      (''voc_extract_air'', (0, 10000)),
      (''voc_supply_air'', (0, 10000))]"

text \<open>
  Every caller checks \<open>key in PLAUSIBLE_RANGES\<close> first or iterates the table, so the \<open>KeyError\<close> of
  an unknown key is not reachable; such a key is never plausible here.
\<close>

definition is_plausible :: "string \<Rightarrow> int option \<Rightarrow> bool" where
  "is_plausible key v =
     (case map_of PLAUSIBLE_RANGES key of
        None \<Rightarrow> False
      | Some (low, high) \<Rightarrow> (case v of None \<Rightarrow> False | Some n \<Rightarrow> low \<le> n \<and> n \<le> high))"

text \<open>The two placeholders the hardware reports for an absent sensor are never plausible.\<close>

lemma placeholders_implausible:
  "\<not> is_plausible key (Some 32767)"
  "take 9 key = ''humidity_'' \<Longrightarrow> \<not> is_plausible key (Some 239)"
  by (auto simp: is_plausible_def PLAUSIBLE_RANGES_def split: option.splits if_splits)

section \<open>Entity keys of a profile\<close>

definition SUFFIX_ENTITY_KEYS :: "string list" where [const_simps]:
  "SUFFIX_ENTITY_KEYS = [''outdoor_air_temperature'', ''extract_air_temperature'']"

definition CAPABILITY_ENTITY_KEYS :: "(string, string list) dict" where [const_simps]:
  "CAPABILITY_ENTITY_KEYS =
     [(''humidity'',
       [''supply_air_temperature'', ''humidity_extract_air'', ''humidity_supply_air'',
        ''absolute_humidity_extract_air'', ''absolute_humidity_supply_air'',
        ''humidity_starting_point'', ''humidity_min_level'', ''humidity_max_level'']),
      (''co2'', [''co2_extract_air'', ''co2_starting_point'', ''co2_min_level'', ''co2_max_level'']),
      (''voc'', [''co2_supply_air'', ''voc_extract_air'', ''voc_supply_air''])]"

definition profile_capabilities :: "string \<Rightarrow> string list" where
  "profile_capabilities profile =
     (case map_of PROFILE_METADATA profile of None \<Rightarrow> [] | Some metadata \<Rightarrow> capabilities metadata)"

definition supported_entity_keys_for_profile :: "string \<Rightarrow> string list" where
  "supported_entity_keys_for_profile profile =
     (let caps = profile_capabilities profile;
          entity_keys = BASE_SUPPORTED_ENTITY_KEYS
            @ (if caps \<noteq> [] then SUFFIX_ENTITY_KEYS else [])
            @ concat (map (\<lambda>c. dict_get CAPABILITY_ENTITY_KEYS c []) caps)
      in sort (remdups entity_keys))"

lemma set_supported_entity_keys:
  "set (supported_entity_keys_for_profile p) =
     set BASE_SUPPORTED_ENTITY_KEYS
     \<union> (if profile_capabilities p \<noteq> [] then set SUFFIX_ENTITY_KEYS else {})
     \<union> (\<Union>c \<in> set (profile_capabilities p). set (dict_get CAPABILITY_ENTITY_KEYS c []))"
  by (simp add: supported_entity_keys_for_profile_def Let_def Un_assoc)

lemma supported_entity_keys_sorted:
  "sorted (supported_entity_keys_for_profile p)" "distinct (supported_entity_keys_for_profile p)"
  by (simp_all add: supported_entity_keys_for_profile_def Let_def)

section \<open>Control settings\<close>

definition normalize_control_setting :: "string \<Rightarrow> int \<Rightarrow> meltem_error + int" where
  "normalize_control_setting setting_key v =
     (case map_of CONTROL_SETTING_LIMITS setting_key of
        None \<Rightarrow> Inl (MeltemModbusError (''Unsupported control setting '' @ py_repr setting_key))
      | Some (min_val, max_val, step) \<Rightarrow>
          if setting_key \<notin> set (map fst CONTROL_SETTING_REGISTERS)
          then Inl (MeltemModbusError (''Unsupported control setting '' @ py_repr setting_key))
          else let clamped = max min_val (min max_val v)
               in Inr (min_val + ((clamped - min_val + step div 2) div step) * step))"

lemma control_setting_limits_wf:
  assumes "map_of CONTROL_SETTING_LIMITS k = Some (lo, hi, step)"
  shows "0 < step \<and> lo \<le> hi \<and> step dvd (hi - lo) \<and> k \<in> set (map fst CONTROL_SETTING_REGISTERS)"
  using assms
  by (auto simp: CONTROL_SETTING_LIMITS_def CONTROL_SETTING_REGISTERS_def split: if_splits)

lemma step_round:
  fixes d step :: int
  assumes "0 < step"
  defines "q \<equiv> (d + step div 2) div step"
  shows "2 * \<bar>q * step - d\<bar> \<le> step"
proof -
  let ?n = "d + step div 2"
  have n: "?n = step * q + ?n mod step" unfolding q_def by simp
  have r: "0 \<le> ?n mod step" "?n mod step < step" using assms(1) by simp_all
  have h: "2 * (step div 2) \<le> step" "step \<le> 2 * (step div 2) + 1" by linarith+
  have "q * step - d = step div 2 - ?n mod step" using n by (simp add: mult.commute)
  then show ?thesis using r h by (auto simp: abs_if)
qed

lemma step_round_bounds:
  fixes d m step :: int
  assumes "0 < step" "0 \<le> d" "d \<le> m * step"
  shows "0 \<le> (d + step div 2) div step \<and> (d + step div 2) div step \<le> m"
proof -
  have "0 \<le> d + step div 2" using assms(1,2) by (simp add: pos_imp_zdiv_nonneg_iff)
  then have 1: "0 \<le> (d + step div 2) div step"
    using assms(1) by (simp add: pos_imp_zdiv_nonneg_iff)
  have "step div 2 < step" using assms(1) by linarith
  with assms(3) have "d + step div 2 < (m + 1) * step" by (simp add: algebra_simps)
  moreover have "step * ((d + step div 2) div step) \<le> d + step div 2"
    using assms(1) by (metis mult_div_mod_eq pos_mod_sign le_add_same_cancel1)
  ultimately have "step * ((d + step div 2) div step) < step * (m + 1)" by (simp add: mult.commute)
  then have "(d + step div 2) div step < m + 1"
    using assms(1) by (simp only: mult_less_cancel_left_pos)
  with 1 show ?thesis by simp
qed

section \<open>Shared airflow\<close>

definition derive_balanced_airflow :: "int option \<Rightarrow> int option \<Rightarrow> int option" where
  "derive_balanced_airflow extract supply =
     (case extract of
        None \<Rightarrow> supply
      | Some e \<Rightarrow> (case supply of
          None \<Rightarrow> Some e
        | Some s \<Rightarrow> if \<bar>e - s\<bar> \<le> 1 then Some (py_round_div (e + s) 2) else None))"

lemma derive_balanced_airflow_near:
  assumes "derive_balanced_airflow (Some e) (Some s) = Some n"
  shows "\<bar>n - e\<bar> \<le> 1 \<and> \<bar>n - s\<bar> \<le> 1"
proof -
  have "\<bar>e - s\<bar> \<le> 1" and n: "n = py_round_div (e + s) 2"
    using assms by (auto simp: derive_balanced_airflow_def split: if_splits)
  moreover have "2 * (e + s) - 2 \<le> 4 * n \<and> 4 * n \<le> 2 * (e + s) + 2"
    using py_round_div_bounds [of 2 "e + s"] by (simp add: n)
  ultimately show ?thesis by (auto simp: abs_if split: if_splits)
qed

section \<open>What a control setting is written as\<close>

text \<open>
  A control setting is legal whatever was asked for: the written value lies within the limits of the
  setting, on its step grid, and no further than half a step from the request moved into the limits;
  normalising it again changes nothing.
\<close>

lemma control_setting_is_legal:
  assumes "map_of CONTROL_SETTING_LIMITS setting_key = Some (lo, hi, step)"
  shows "\<exists>n. normalize_control_setting setting_key v = Inr n \<and> lo \<le> n \<and> n \<le> hi \<and> step dvd n - lo
    \<and> 2 * \<bar>n - max lo (min hi v)\<bar> \<le> step \<and> normalize_control_setting setting_key n = Inr n"
proof -
  note wf = control_setting_limits_wf [OF assms]
  obtain m where m: "hi - lo = m * step" using wf by (auto simp: dvd_def mult.commute)
  define d where "d = max lo (min hi v) - lo"
  define q where "q = (d + step div 2) div step"
  have "0 \<le> d" "d \<le> m * step" using wf m by (auto simp: d_def)
  then have q: "0 \<le> q" "q \<le> m" and near: "2 * \<bar>q * step - d\<bar> \<le> step"
    using step_round_bounds [of step d m] step_round [of step d] wf by (auto simp: q_def)
  have le: "0 \<le> q * step" "q * step \<le> m * step"
    using q wf by (auto simp: mult_right_mono)
  have n: "normalize_control_setting setting_key v = Inr (lo + q * step)"
    using assms wf by (simp add: normalize_control_setting_def d_def q_def Let_def)
  have "step div 2 < step" "0 \<le> step div 2" using wf by linarith+
  then have "(q * step + step div 2) div step = q" using wf by (simp add: div_pos_pos_trivial)
  moreover have "max lo (min hi (lo + q * step)) = lo + q * step" using le m by simp
  ultimately have "normalize_control_setting setting_key (lo + q * step) = Inr (lo + q * step)"
    using assms wf by (simp add: normalize_control_setting_def)
  moreover have "q * step - d = lo + q * step - max lo (min hi v)" by (simp add: d_def)
  then have "2 * \<bar>lo + q * step - max lo (min hi v)\<bar> \<le> step" using near by metis
  ultimately show ?thesis using n le m by auto
qed

lemma control_setting_is_legal_witness:
  "\<exists>n. normalize_control_setting ''humidity_min_level'' 47 = Inr n \<and> 0 \<le> n \<and> n \<le> 100 \<and> 10 dvd n - 0
    \<and> 2 * \<bar>n - max 0 (min 100 47)\<bar> \<le> 10 \<and> normalize_control_setting ''humidity_min_level'' n = Inr n"
  by (rule control_setting_is_legal) (simp add: CONTROL_SETTING_LIMITS_def)

end
