(* ===== verification/Mode_Codec.thy ===== *)
theory Mode_Codec
  imports Modbus_Helpers
begin

text \<open>
  \<open>mode_codec.py\<close>: the register writes of a mode or preset command, the scaling between airflow
  and the raw 0..200 registers, and the decoding of the read-only mode status map 41100..41102.
\<close>

section \<open>Airflow scaling\<close>

definition CLEAR_INTENSIVE :: "(string \<times> int) list" where [const_simps]:
  "CLEAR_INTENSIVE = [(''preset_mode'', 0), (''preset_value'', 0)]"

record mode_read =
  read_mode :: int
  read_current_level :: int
  read_extract_target_level :: int

text \<open>
  \<open>round(level * 200 / max_airflow)\<close>: Python divides floats, which is exact whenever the quotient is
  half-way between two integers and close enough otherwise for every register and airflow value.
\<close>

definition scale_airflow_to_raw :: "room_config \<Rightarrow> int \<Rightarrow> int" where
  "scale_airflow_to_raw room level =
     max 0 (min 200 (py_round_div (level * 200) (profile_max_airflow (room_profile room))))"

definition scale_raw_level_to_airflow :: "room_config \<Rightarrow> int \<Rightarrow> int" where
  "scale_raw_level_to_airflow room raw_level =
     py_round_div (raw_level * profile_max_airflow (room_profile room)) 200"

lemma scale_airflow_to_raw_range:
  "0 \<le> scale_airflow_to_raw room level \<and> scale_airflow_to_raw room level \<le> 200"
  by (simp add: scale_airflow_to_raw_def)

lemma scale_airflow_to_raw_0 [simp]: "scale_airflow_to_raw room 0 = 0"
  by (simp add: scale_airflow_to_raw_def py_round_div_def)

lemma scale_airflow_to_raw_saturates:
  assumes "profile_max_airflow (room_profile room) \<le> level"
  shows "scale_airflow_to_raw room level = 200"
proof -
  let ?m = "profile_max_airflow (room_profile room)" and ?r = "py_round_div (level * 200)"
  have "2 * (level * 200) - ?m \<le> 2 * ?m * ?r ?m"
    using py_round_div_bounds [of ?m "level * 200"] by simp
  then have "200 \<le> ?r ?m"
    using assms profile_max_airflow_cases [of "room_profile room"] by auto
  then show ?thesis by (simp add: scale_airflow_to_raw_def)
qed

text \<open>
  The raw registers are finer than one cubic metre per hour, so a rated airflow survives the way
  to the register and back unchanged.
\<close>

lemma scale_roundtrip_aux:
  assumes m: "m = 97 \<or> m = (100::int)" and l: "0 \<le> l" "l \<le> m"
  defines "r \<equiv> py_round_div (l * 200) m"
  shows "0 \<le> r \<and> r \<le> 200 \<and> py_round_div (r * m) 200 = l"
proof -
  have b: "2 * (l * 200) - m \<le> 2 * m * r \<and> 2 * m * r \<le> 2 * (l * 200) + m"
    unfolding r_def using m py_round_div_bounds [of m "l * 200"] by auto
  have "0 \<le> r" "r \<le> 200" using b l m by auto
  moreover have "py_round_div (r * m) 200 = l"
    by (rule py_round_div_unique) (use b m in \<open>auto simp: abs_if mult.commute\<close>)
  ultimately show ?thesis by simp
qed

lemma scale_roundtrip:
  assumes "0 \<le> level" "level \<le> profile_max_airflow (room_profile room)"
  shows "scale_raw_level_to_airflow room (scale_airflow_to_raw room level) = level"
  using scale_roundtrip_aux [OF profile_max_airflow_cases assms]
  by (simp add: scale_raw_level_to_airflow_def scale_airflow_to_raw_def)

lemma scale_raw_level_range:
  assumes "0 \<le> raw" "raw \<le> 200"
  shows "0 \<le> scale_raw_level_to_airflow room raw
    \<and> scale_raw_level_to_airflow room raw \<le> profile_max_airflow (room_profile room)"
  using assms profile_max_airflow_cases [of "room_profile room"]
    py_round_div_bounds [of 200 "raw * profile_max_airflow (room_profile room)"]
  by (auto simp: scale_raw_level_to_airflow_def)

section \<open>Mode commands\<close>

definition operating_mode_writes ::
  "room_config \<Rightarrow> string \<Rightarrow> int \<Rightarrow> int \<Rightarrow> meltem_error + (string \<times> int) list" where
  "operating_mode_writes room op balanced_level extract_level =
     (let balanced = (''current_level'', scale_airflow_to_raw room balanced_level)
      in if op = OPERATION_MODE_OFF
         then Inr (CLEAR_INTENSIVE @ [(''mode'', MODE_OFF), (''current_level'', 0)])
         else if op = OPERATION_MODE_MANUAL
         then Inr [(''mode'', MODE_MANUAL), balanced]
         else if op = OPERATION_MODE_UNBALANCED
         then Inr [(''mode'', MODE_UNBALANCED), balanced,
                   (''extract_target_level'', scale_airflow_to_raw room extract_level)]
         else case map_of SENSOR_MODE_TO_RAW_VALUE op of
                None \<Rightarrow> Inl (MeltemModbusError
                  (''Unsupported operating mode '' @ py_repr op @ '' for room '' @ room_key room))
              | Some sensor_control_value \<Rightarrow>
                  Inr [(''mode'', MODE_SENSOR_CONTROL), (''current_level'', sensor_control_value)])"

definition preset_mode_writes :: "room_config \<Rightarrow> string \<Rightarrow> meltem_error + (string \<times> int) list" where
  "preset_mode_writes room preset =
     (case map_of PRESET_MODE_TO_RAW_CODE preset of
        None \<Rightarrow> Inl (MeltemModbusError
          (''Unsupported preset mode '' @ py_repr preset @ '' for room '' @ room_key room))
      | Some raw_code \<Rightarrow>
          if preset = PRESET_MODE_INTENSIVE
          then Inr [(''preset_mode'', MODE_MANUAL), (''preset_value'', raw_code)]
          else Inr (CLEAR_INTENSIVE @ [(''mode'', MODE_MANUAL), (''current_level'', raw_code)]))"

text \<open>\<open>write_level\<close> and \<open>write_unbalanced_levels\<close> of the client build their writes in place.\<close>

definition level_writes :: "room_config \<Rightarrow> int \<Rightarrow> (string \<times> int) list" where
  "level_writes room level =
     (if level = 0 then CLEAR_INTENSIVE else [])
     @ [(''mode'', if level = 0 then MODE_OFF else MODE_MANUAL),
        (''current_level'', scale_airflow_to_raw room level)]"

definition unbalanced_writes :: "room_config \<Rightarrow> int \<Rightarrow> int \<Rightarrow> (string \<times> int) list" where
  "unbalanced_writes room supply_level extract_level =
     [(''mode'', MODE_UNBALANCED),
      (''current_level'', scale_airflow_to_raw room supply_level),
      (''extract_target_level'', scale_airflow_to_raw room extract_level)]"

section \<open>Decoding the status map\<close>

definition decode_target_level :: "room_config \<Rightarrow> int option \<Rightarrow> int option" where
  "decode_target_level room raw_level =
     (case raw_level of
        None \<Rightarrow> None
      | Some raw \<Rightarrow>
          if 0 \<le> raw \<and> raw \<le> 200 then Some (scale_raw_level_to_airflow room raw)
          else let airflow = (raw - APP_UNBALANCED_PRESET_BASE) * 10
               in if airflow \<le> profile_max_airflow (room_profile room) then Some airflow else None)"

definition DIRECT_MODE_CODES :: "(int, string) dict" where [const_simps]:
  "DIRECT_MODE_CODES =
     [(MODE_OFF, OPERATION_MODE_OFF),
      (MODE_MANUAL, OPERATION_MODE_MANUAL),
      (MODE_UNBALANCED, OPERATION_MODE_UNBALANCED)]"

definition decode_operation_mode :: "int \<Rightarrow> int \<Rightarrow> string option" where
  "decode_operation_mode mode_value current_value =
     (if mode_value = MODE_SENSOR_CONTROL then map_of RAW_VALUE_TO_SENSOR_MODE current_value
      else map_of DIRECT_MODE_CODES mode_value)"

definition decode_preset_mode :: "mode_read option \<Rightarrow> string option \<Rightarrow> string option" where
  "decode_preset_mode block previous_preset_mode =
     (case block of
        None \<Rightarrow> previous_preset_mode
      | Some b \<Rightarrow>
          if read_mode b = MODE_UNBALANCED \<and> read_current_level b = 0
             \<and> read_extract_target_level b > APP_UNBALANCED_PRESET_BASE
          then Some PRESET_MODE_EXTRACT_ONLY
          else if read_mode b = MODE_UNBALANCED \<and> read_extract_target_level b = 0
             \<and> read_current_level b > APP_UNBALANCED_PRESET_BASE
          then Some PRESET_MODE_SUPPLY_ONLY
          else if read_mode b \<noteq> MODE_MANUAL then None
          else map_of RAW_CODE_TO_PRESET_MODE (read_current_level b))"

definition mode_status_reports_intensive :: "mode_read \<Rightarrow> bool" where
  "mode_status_reports_intensive b \<longleftrightarrow>
     read_mode b = MODE_MANUAL \<and> read_current_level b = PRESET_MODE_CODE_INTENSIVE
     \<or> read_mode b = 0 \<and> read_current_level b = 0"

text \<open>The sensor subcodes of the status map, replaced by the value the command would write.\<close>

definition normalize_sensor_status :: "mode_read \<Rightarrow> mode_read" where
  "normalize_sensor_status b =
     (if read_mode b = MODE_SENSOR_CONTROL
      then b\<lparr>read_current_level :=
        dict_get MODE_STATUS_SENSOR_MODE_TO_RAW_VALUE (read_current_level b) (read_current_level b)\<rparr>
      else b)"

text \<open>The base mode and the targets, from a status read that does not report intensive.\<close>

definition apply_base_mode ::
  "room_config \<Rightarrow> room_state \<Rightarrow> mode_read option \<Rightarrow> (int \<times> int \<times> int) option \<Rightarrow> room_state" where
  "apply_base_mode room state block raw_status =
     (let op = (case block of
              Some b \<Rightarrow> decode_operation_mode (read_mode b) (read_current_level b)
            | None \<Rightarrow> operation_mode state);
          raw_current_level = map_option read_current_level block;
          measured = derive_balanced_airflow (extract_air_flow state) (supply_air_flow state);
          (target, extract_target) =
            (if op = Some OPERATION_MODE_UNBALANCED
             then (case raw_current_level of
                     Some raw \<Rightarrow> decode_target_level room (Some raw)
                   | None \<Rightarrow> target_level state,
                   case block of
                     Some b \<Rightarrow> decode_target_level room (Some (read_extract_target_level b))
                   | None \<Rightarrow> extract_target_level state)
             else if op = Some OPERATION_MODE_OFF \<or> op = Some OPERATION_MODE_MANUAL
             then (case decode_target_level room raw_current_level of
                     Some t \<Rightarrow> Some t
                   | None \<Rightarrow> measured,
                   None)
             else (measured, None))
      in state\<lparr>operation_mode := op,
               target_level := target,
               balanced_target_readback := None,
               extract_target_level := extract_target,
               preset_mode := decode_preset_mode block (preset_mode state),
               intensive_active := (case block of None \<Rightarrow> intensive_active state | Some _ \<Rightarrow> Some False),
               mode_status_raw := raw_status\<rparr>)"

definition apply_mode_read :: "room_config \<Rightarrow> room_state \<Rightarrow> mode_read option \<Rightarrow> room_state" where
  "apply_mode_read room state block =
     (case block of
        None \<Rightarrow> apply_base_mode room state None (mode_status_raw state)
      | Some b \<Rightarrow>
          (let raw_status = Some (read_mode b, read_current_level b, read_extract_target_level b);
               b' = normalize_sensor_status b
           in if mode_status_reports_intensive b'
              then state\<lparr>intensive_active := Some True, mode_status_raw := raw_status\<rparr>
              else apply_base_mode room state (Some b') raw_status))"

subsection \<open>What a status read touches\<close>

lemma apply_mode_read_frame [frame_simps]:
  "extract_air_flow (apply_mode_read room s block) = extract_air_flow s"
  "supply_air_flow (apply_mode_read room s block) = supply_air_flow s"
  "group_read_health (apply_mode_read room s block) = group_read_health s"
  "software_version (apply_mode_read room s block) = software_version s"
  "days_until_filter_change (apply_mode_read room s block) = days_until_filter_change s"
  by (simp_all add: apply_mode_read_def apply_base_mode_def Let_def split: option.split prod.split)

lemma apply_mode_read_intensive:
  assumes "mode_status_reports_intensive (normalize_sensor_status b)"
  shows "apply_mode_read room s (Some b) =
    s\<lparr>intensive_active := Some True,
      mode_status_raw := Some (read_mode b, read_current_level b, read_extract_target_level b)\<rparr>"
  using assms by (simp add: apply_mode_read_def)

lemma apply_mode_read_base:
  assumes "\<not> mode_status_reports_intensive (normalize_sensor_status b)"
  shows "intensive_active (apply_mode_read room s (Some b)) = Some False"
    and "operation_mode (apply_mode_read room s (Some b)) =
      decode_operation_mode (read_mode b) (read_current_level (normalize_sensor_status b))"
    and "balanced_target_readback (apply_mode_read room s (Some b)) = None"
  using assms
  by (simp_all add: apply_mode_read_def apply_base_mode_def Let_def normalize_sensor_status_def
      split: prod.split)

text \<open>An absent status read keeps the mode, the preset and the intensive flag.\<close>

lemma apply_mode_read_None:
  "operation_mode (apply_mode_read room s None) = operation_mode s"
  "preset_mode (apply_mode_read room s None) = preset_mode s"
  "intensive_active (apply_mode_read room s None) = intensive_active s"
  "mode_status_raw (apply_mode_read room s None) = mode_status_raw s"
  by (simp_all add: apply_mode_read_def apply_base_mode_def decode_preset_mode_def Let_def
      split: prod.split)

text \<open>An extract target is known only in unbalanced mode.\<close>

lemma extract_target_only_unbalanced:
  assumes "\<not> mode_status_reports_intensive (normalize_sensor_status b)"
    and "extract_target_level (apply_mode_read room s (Some b)) \<noteq> None"
  shows "operation_mode (apply_mode_read room s (Some b)) = Some OPERATION_MODE_UNBALANCED"
  using assms
  by (auto simp: apply_mode_read_def apply_base_mode_def Let_def split: if_splits prod.splits)

section \<open>Airflow on the wire\<close>

text \<open>
  A level sent to a unit and read back is the level asked for, moved into the range the unit is rated
  for; the raw register value always fits 0..200.
\<close>

lemma airflow_register_roundtrip:
  "scale_raw_level_to_airflow room (scale_airflow_to_raw room level)
     = max 0 (min (profile_max_airflow (room_profile room)) level)
   \<and> 0 \<le> scale_airflow_to_raw room level \<and> scale_airflow_to_raw room level \<le> 200"
proof -
  let ?m = "profile_max_airflow (room_profile room)"
  have m: "?m = 97 \<or> ?m = 100" by (rule profile_max_airflow_cases)
  have full: "scale_raw_level_to_airflow room 200 = ?m"
    using py_round_div_exact [of 200 ?m] by (simp add: scale_raw_level_to_airflow_def mult.commute)
  consider "level < 0" | "0 \<le> level" "level \<le> ?m" | "?m < level" by linarith
  then have "scale_raw_level_to_airflow room (scale_airflow_to_raw room level) = max 0 (min ?m level)"
  proof cases
    case 1
    then have "py_round_div (level * 200) ?m \<le> 0"
      using py_round_div_bounds [of ?m "level * 200"] m by auto
    then show ?thesis
      using 1 m by (auto simp: scale_airflow_to_raw_def scale_raw_level_to_airflow_def py_round_div_def)
  next
    case 2
    then show ?thesis by (simp add: scale_roundtrip)
  next
    case 3
    then show ?thesis using m full by (auto simp: scale_airflow_to_raw_saturates)
  qed
  then show ?thesis by (simp add: scale_airflow_to_raw_range)
qed

end
