(* ===== verification/Polling.thy ===== *)
theory Polling
  imports Modbus_Helpers
begin

text \<open>
  \<open>polling.py\<close>: the poll jobs, how they are staggered over the configured rooms, which job is due,
  when the scheduler wakes up next, and the backoff of a failing gateway.
\<close>

section \<open>Job groups\<close>

definition AIRFLOW_REFRESH_PLAN :: refresh_plan where [const_simps]:
  "AIRFLOW_REFRESH_PLAN = EMPTY_REFRESH_PLAN\<lparr>refresh_airflow := True\<rparr>"

definition CONTROL_SETTINGS_REFRESH_PLAN :: refresh_plan where [const_simps]:
  "CONTROL_SETTINGS_REFRESH_PLAN = EMPTY_REFRESH_PLAN\<lparr>refresh_control_settings := True\<rparr>"

definition TRANSPORT_BACKOFF_AFTER_FAILURES :: int where [simp]:
  "TRANSPORT_BACKOFF_AFTER_FAILURES = 3"

definition TRANSPORT_BACKOFF_START_SECONDS :: seconds where [simp]:
  "TRANSPORT_BACKOFF_START_SECONDS = 5"

definition TRANSPORT_BACKOFF_MAX_SECONDS :: seconds where [simp]:
  "TRANSPORT_BACKOFF_MAX_SECONDS = 60"

definition SILENT_ROOM_POLL_SECONDS :: seconds where [simp]:
  "SILENT_ROOM_POLL_SECONDS = 60"

definition UNREAD_GROUP_RETRY_SECONDS :: seconds where [simp]:
  "UNREAD_GROUP_RETRY_SECONDS = 60"

definition IDLE_TICK_SECONDS :: seconds where [simp]:
  "IDLE_TICK_SECONDS = 60"

record job_group =
  group_job_key :: string
  group_interval :: seconds
  group_plan :: refresh_plan

definition entity_keys :: "job_group \<Rightarrow> string list" where
  "entity_keys jg = concat (map group_entities (read_groups (group_plan jg)))"

definition JOB_GROUPS :: "job_group list" where
  "JOB_GROUPS =
     [\<lparr>group_job_key = ''flow'', group_interval = FLOW_REFRESH_SECONDS,
       group_plan = AIRFLOW_REFRESH_PLAN\<rparr>,
      \<lparr>group_job_key = ''status'', group_interval = STATUS_REFRESH_SECONDS,
       group_plan = EMPTY_REFRESH_PLAN\<lparr>refresh_status := True\<rparr>\<rparr>,
      \<lparr>group_job_key = ''rf'', group_interval = STATUS_REFRESH_SECONDS,
       group_plan = EMPTY_REFRESH_PLAN\<lparr>refresh_rf_diagnostics := True\<rparr>\<rparr>,
      \<lparr>group_job_key = ''temperature'', group_interval = TEMPERATURE_REFRESH_SECONDS,
       group_plan = EMPTY_REFRESH_PLAN
         \<lparr>refresh_temperatures := True, refresh_environment := True\<rparr>\<rparr>,
      \<lparr>group_job_key = ''filter'', group_interval = FILTER_REFRESH_SECONDS,
       group_plan = EMPTY_REFRESH_PLAN
         \<lparr>refresh_filter_change_due := True, refresh_filter_days := True\<rparr>\<rparr>,
      \<lparr>group_job_key = ''hours'', group_interval = OPERATING_HOURS_REFRESH_SECONDS,
       group_plan = EMPTY_REFRESH_PLAN\<lparr>refresh_operating_hours := True\<rparr>\<rparr>,
      \<lparr>group_job_key = ''control_settings'', group_interval = CONTROL_SETTINGS_REFRESH_SECONDS,
       group_plan = CONTROL_SETTINGS_REFRESH_PLAN\<rparr>]"

definition READ_GROUP_INTERVAL_SECONDS :: "(string, seconds) dict" where
  "READ_GROUP_INTERVAL_SECONDS =
     concat (map (\<lambda>job_group. map (\<lambda>group_key. (group_key, group_interval job_group))
                                 (read_groups (group_plan job_group))) JOB_GROUPS)"

lemma READ_GROUP_INTERVAL_SECONDS_eq [const_simps]:
  "READ_GROUP_INTERVAL_SECONDS =
     [(''flow'', 10), (''flow_control'', 10), (''intensive'', 10), (''status'', 60),
      (''rf_last_seen'', 60), (''rf_signal'', 60), (''device_fault'', 60), (''value_error'', 60),
      (''temperature'', 60), (''air_quality'', 60), (''filter'', 3600), (''hours'', 3600),
      (''fan_hours'', 3600), (''control_settings'', 3600)]"
  by (simp add: READ_GROUP_INTERVAL_SECONDS_def JOB_GROUPS_def AIRFLOW_REFRESH_PLAN_def
      CONTROL_SETTINGS_REFRESH_PLAN_def EMPTY_REFRESH_PLAN_def read_groups_def)

lemma JOB_GROUPS_intervals: "g \<in> set JOB_GROUPS \<Longrightarrow> 10 \<le> group_interval g"
  by (auto simp: JOB_GROUPS_def)

lemma distinct_JOB_GROUPS: "distinct (map group_job_key JOB_GROUPS)"
  by (simp add: JOB_GROUPS_def)

text \<open>The interval \<open>READ_GROUP_INTERVAL_SECONDS[group_key]\<close> of a known group.\<close>

definition group_interval_seconds :: "string \<Rightarrow> seconds" where
  "group_interval_seconds group_key = dict_get READ_GROUP_INTERVAL_SECONDS group_key 0"

section \<open>Poll jobs\<close>

record poll_job =
  job_key :: string
  job_room :: string
  job_plan :: refresh_plan
  job_interval_seconds :: seconds
  next_due :: seconds

definition supported_groups :: "room_config \<Rightarrow> refresh_plan \<Rightarrow> string list" where
  "supported_groups room plan =
     filter (\<lambda>group_key. supports_any room (group_entities group_key)) (read_groups plan)"

lemma supported_groups_subset: "set (supported_groups room plan) \<subseteq> set (read_groups plan)"
  by (auto simp: supported_groups_def)

lemma distinct_supported_groups [simp]: "distinct (supported_groups room plan)"
  by (simp add: supported_groups_def)

definition never_read :: "poll_job \<Rightarrow> room_config \<Rightarrow> (string, room_state) dict \<Rightarrow> bool" where
  "never_read job room states =
     (let state = dict_get states (job_room job) EMPTY_ROOM_STATE;
          groups = supported_groups room (job_plan job);
          primary_groups = filter (\<lambda>g. g \<notin> set OPTIONAL_DIAGNOSTIC_READ_GROUPS) groups
      in if primary_groups \<noteq> []
         then list_ex (\<lambda>g. last_successful_read (read_health_for state g) = None) primary_groups
         else list_ex (\<lambda>g. let health = read_health_for state g
                           in last_successful_read health = None
                              \<and> (last_attempt health = None \<or> last_error_timed_out health)) groups)"

definition interval :: "poll_job \<Rightarrow> seconds \<Rightarrow> bool \<Rightarrow> bool \<Rightarrow> seconds" where
  "interval job elapsed_since_start never room_silent =
     (let i = (if never
               then min (job_interval_seconds job)
                        (max UNREAD_GROUP_RETRY_SECONDS elapsed_since_start)
               else job_interval_seconds job)
      in if room_silent then max i SILENT_ROOM_POLL_SECONDS else i)"

lemma interval_pos: "0 < job_interval_seconds job \<Longrightarrow> 0 < interval job t never silent"
  by (auto simp: interval_def Let_def min_def max_def)

lemma interval_normal [simp]: "interval job t False False = job_interval_seconds job"
  by (simp add: interval_def)

lemma interval_silent: "60 \<le> interval job t never True"
  by (simp add: interval_def Let_def)

definition room_needs_job :: "room_config \<Rightarrow> job_group \<Rightarrow> bool" where
  "room_needs_job room jg = supports_any room (entity_keys jg)"

definition group_jobs :: "room_config list \<Rightarrow> seconds \<Rightarrow> job_group \<Rightarrow> poll_job list" where
  "group_jobs rooms now jg =
     (let group_rooms = filter (\<lambda>room. room_needs_job room jg) rooms;
          spacing = group_interval jg / real (length group_rooms)
      in map (\<lambda>(index, room).
           \<lparr>job_key = group_job_key jg, job_room = room_key room, job_plan = group_plan jg,
            job_interval_seconds = group_interval jg,
            next_due = now + real index * spacing\<rparr>) (List.enumerate 0 group_rooms))"

definition build_jobs :: "room_config list \<Rightarrow> seconds \<Rightarrow> poll_job list" where
  "build_jobs rooms now = concat (map (group_jobs rooms now) JOB_GROUPS)"

fun min_by :: "('a \<Rightarrow> real) \<Rightarrow> 'a list \<Rightarrow> 'a option" where
  "min_by f [] = None"
| "min_by f (x # xs) =
     (case min_by f xs of None \<Rightarrow> Some x | Some y \<Rightarrow> if f y < f x then Some y else Some x)"

definition select_due_job :: "poll_job list \<Rightarrow> seconds \<Rightarrow> poll_job option" where
  "select_due_job jobs now = min_by next_due (filter (\<lambda>job. next_due job \<le> now) jobs)"

definition next_tick_seconds :: "poll_job list \<Rightarrow> bool \<Rightarrow> seconds \<Rightarrow> seconds \<Rightarrow> seconds" where
  "next_tick_seconds jobs startup_pending tick_seconds now =
     (case min_by next_due jobs of
        None \<Rightarrow> IDLE_TICK_SECONDS
      | Some job \<Rightarrow>
          let earliest_due = (if startup_pending then now else next_due job)
          in max tick_seconds (earliest_due - now))"

text \<open>\<open>math.ceil(math.log2(TRANSPORT_BACKOFF_MAX_SECONDS / TRANSPORT_BACKOFF_START_SECONDS))\<close>.\<close>

definition BACKOFF_MAX_EXPONENT :: int where [simp]:
  "BACKOFF_MAX_EXPONENT = 4"

lemma BACKOFF_MAX_EXPONENT_eq:
  "BACKOFF_MAX_EXPONENT = \<lceil>log 2 (TRANSPORT_BACKOFF_MAX_SECONDS / TRANSPORT_BACKOFF_START_SECONDS)\<rceil>"
proof -
  have "(2::real) powr 3 < 12" "12 \<le> (2::real) powr 4" by simp_all
  then have "3 < log 2 (12::real)" "log 2 (12::real) \<le> 4"
    by (simp_all add: less_log_iff log_le_iff)
  then show ?thesis by (simp add: ceiling_eq_iff)
qed

definition backoff_seconds :: "int \<Rightarrow> seconds option" where
  "backoff_seconds failures =
     (if failures < TRANSPORT_BACKOFF_AFTER_FAILURES then None
      else let exponent = min (failures - TRANSPORT_BACKOFF_AFTER_FAILURES) BACKOFF_MAX_EXPONENT
           in Some (min TRANSPORT_BACKOFF_MAX_SECONDS
                        (TRANSPORT_BACKOFF_START_SECONDS * 2 ^ nat exponent)))"

section \<open>The earliest job\<close>

lemma min_by_None_iff [simp]: "min_by f xs = None \<longleftrightarrow> xs = []"
  by (cases xs) (auto split: option.splits)

lemma min_by_Some:
  "min_by f xs = Some x \<Longrightarrow> x \<in> set xs \<and> (\<forall>y \<in> set xs. f x \<le> f y)"
proof (induction xs arbitrary: x)
  case (Cons a xs)
  show ?case
  proof (cases "min_by f xs")
    case None
    with Cons.prems show ?thesis by simp
  next
    case (Some y)
    with Cons.IH [of y] Cons.prems show ?thesis by (fastforce split: if_splits)
  qed
qed simp

lemma select_due_job_Some:
  assumes "select_due_job jobs now = Some job"
  shows "job \<in> set jobs" "next_due job \<le> now"
    "j \<in> set jobs \<Longrightarrow> next_due j \<le> now \<Longrightarrow> next_due job \<le> next_due j"
  using min_by_Some [OF assms [unfolded select_due_job_def]] by auto

lemma select_due_job_None:
  "select_due_job jobs now = None \<longleftrightarrow> (\<forall>j \<in> set jobs. now < next_due j)"
  by (auto simp: select_due_job_def filter_empty_conv not_le)

section \<open>Staggering\<close>

lemma group_jobs_set:
  "set (group_jobs rooms now g) =
     (let rs = filter (\<lambda>room. room_needs_job room g) rooms in
      (\<lambda>i. \<lparr>job_key = group_job_key g, job_room = room_key (rs ! i), job_plan = group_plan g,
             job_interval_seconds = group_interval g,
             next_due = now + real i * (group_interval g / real (length rs))\<rparr>) ` {..<length rs})"
  by (force simp: group_jobs_def Let_def enumerate_eq_zip set_zip)

lemma group_jobs_window:
  assumes "job \<in> set (group_jobs rooms now g)" "0 < group_interval g"
  shows "now \<le> next_due job \<and> next_due job < now + group_interval g"
proof -
  from assms(1) obtain i n where i: "i < n"
    "next_due job = now + real i * (group_interval g / real n)"
    by (auto simp: group_jobs_set Let_def)
  then have "real i * (group_interval g / real n) < group_interval g"
    using assms(2) by (simp add: field_simps)
  with i assms(2) show ?thesis by simp
qed

lemma map_snd_enumerate_fun: "map (\<lambda>x. f (snd x)) (List.enumerate n xs) = map f xs"
  by (induction xs arbitrary: n) auto

lemma map_job_room_group_jobs:
  "map job_room (group_jobs rooms now g) = map room_key (filter (\<lambda>room. room_needs_job room g) rooms)"
  by (simp add: group_jobs_def Let_def case_prod_beta' comp_def map_snd_enumerate_fun)

lemma group_jobs_keys: "job \<in> set (group_jobs rooms now g) \<Longrightarrow>
   job_key job = group_job_key g \<and> job_plan job = group_plan g
   \<and> job_interval_seconds job = group_interval g"
  by (auto simp: group_jobs_set Let_def)

text \<open>A job is identified by its group and its room; no two jobs share that.\<close>

definition job_id :: "poll_job \<Rightarrow> string \<times> string" where
  "job_id job = (job_key job, job_room job)"

lemma distinct_build_jobs_aux:
  assumes "distinct (map room_key rooms)"
  shows "distinct (map group_job_key gs) \<Longrightarrow>
    distinct (map job_id (concat (map (group_jobs rooms now) gs)))"
proof (induction gs)
  case (Cons g gs)
  have "distinct (map job_room (group_jobs rooms now g))"
    using assms by (simp add: map_job_room_group_jobs distinct_map_filter)
  then have "distinct (map job_id (group_jobs rooms now g))"
    by (auto simp: distinct_map job_id_def inj_on_def)
  moreover have "job_id ` set (group_jobs rooms now g)
      \<inter> job_id ` (\<Union>h \<in> set gs. set (group_jobs rooms now h)) = {}"
    using Cons.prems by (force simp: job_id_def dest: group_jobs_keys)
  ultimately show ?case using Cons by simp
qed simp

lemma distinct_build_jobs:
  "distinct (map room_key rooms) \<Longrightarrow> distinct (map job_id (build_jobs rooms now))"
  using distinct_build_jobs_aux [OF _ distinct_JOB_GROUPS] by (simp add: build_jobs_def)

section \<open>Running the queue\<close>

text \<open>
  A poll tick takes the job that has been due the longest and moves it forward by its interval before
  reading (\<open>job.next_due = now + self._job_interval(job)\<close> in the coordinator). \<open>run_schedule\<close> lists the
  jobs that a sequence of ticks at the given times runs.
\<close>

definition reschedule :: "string \<times> string \<Rightarrow> seconds \<Rightarrow> poll_job list \<Rightarrow> poll_job list" where
  "reschedule jid due jobs = map (\<lambda>j. if job_id j = jid then j\<lparr>next_due := due\<rparr> else j) jobs"

fun run_schedule ::
  "(poll_job \<Rightarrow> seconds \<Rightarrow> seconds) \<Rightarrow> seconds list \<Rightarrow> poll_job list \<Rightarrow> (string \<times> string) list" where
  "run_schedule intv [] jobs = []"
| "run_schedule intv (now # nows) jobs =
     (case select_due_job jobs now of
        None \<Rightarrow> run_schedule intv nows jobs
      | Some job \<Rightarrow>
          job_id job # run_schedule intv nows (reschedule (job_id job) (now + intv job now) jobs))"

lemma reschedule_ids [simp]: "map job_id (reschedule jid t jobs) = map job_id jobs"
  by (simp add: reschedule_def job_id_def)

lemma length_reschedule [simp]: "length (reschedule jid t jobs) = length jobs"
  by (simp add: reschedule_def)

lemma reschedule_other: "j \<in> set jobs \<Longrightarrow> job_id j \<noteq> jid \<Longrightarrow> j \<in> set (reschedule jid t jobs)"
  by (force simp: reschedule_def)

lemma reschedule_fresh: "jid \<notin> job_id ` set jobs \<Longrightarrow> reschedule jid t jobs = jobs"
  by (induction jobs) (auto simp: reschedule_def)

text \<open>Moving an overdue job past a deadline leaves one job fewer at or before that deadline.\<close>

lemma reschedule_fewer_due:
  assumes "distinct (map job_id jobs)" "job \<in> set jobs" "next_due job \<le> d" "d < t"
  shows "length (filter (\<lambda>j. next_due j \<le> d) (reschedule (job_id job) t jobs))
    < length (filter (\<lambda>j. next_due j \<le> d) jobs)"
  using assms
proof (induction jobs)
  case (Cons j jobs)
  show ?case
  proof (cases "job = j")
    case True
    with Cons.prems have "reschedule (job_id job) t jobs = jobs"
      by (intro reschedule_fresh) auto
    with True Cons.prems show ?thesis by (simp add: reschedule_def)
  next
    case False
    with Cons.prems have "job \<in> set jobs" "job_id j \<noteq> job_id job" by auto
    with Cons show ?thesis by (simp add: reschedule_def)
  qed
qed simp

lemma run_schedule_reaches:
  assumes "\<And>j now. 0 < intv j now"
  shows "distinct (map job_id jobs) \<Longrightarrow> job \<in> set jobs \<Longrightarrow>
    \<forall>now \<in> set nows. next_due job \<le> now \<Longrightarrow>
    length (filter (\<lambda>j. next_due j \<le> next_due job) jobs) \<le> length nows \<Longrightarrow>
    job_id job \<in> set (run_schedule intv nows jobs)"
proof (induction nows arbitrary: jobs)
  case Nil
  then show ?case by (auto simp: filter_empty_conv)
next
  case (Cons now nows)
  then have due: "next_due job \<le> now" by simp
  with Cons.prems obtain s where s: "select_due_job jobs now = Some s"
    by (cases "select_due_job jobs now") (auto simp: select_due_job_None)
  note sel = select_due_job_Some [OF s]
  have le: "next_due s \<le> next_due job" using sel(3) Cons.prems(2) due by blast
  show ?case
  proof (cases "job_id s = job_id job")
    case False
    let ?jobs = "reschedule (job_id s) (now + intv s now) jobs"
    have "next_due job < now + intv s now" using due assms [of s now] by linarith
    then have "length (filter (\<lambda>j. next_due j \<le> next_due job) ?jobs)
        < length (filter (\<lambda>j. next_due j \<le> next_due job) jobs)"
      by (intro reschedule_fewer_due Cons.prems sel le)
    moreover have "job \<in> set ?jobs" using Cons.prems(2) False by (simp add: reschedule_other)
    ultimately have "job_id job \<in> set (run_schedule intv nows ?jobs)"
      using Cons.prems by (intro Cons.IH) auto
    then show ?thesis by (simp add: s)
  qed (simp add: s)
qed

section \<open>The queue as the program builds it\<close>


definition plain_room :: "string \<Rightarrow> int \<Rightarrow> room_config" where
  "plain_room key slave =
     \<lparr>room_key = key, room_name = key, room_profile = ''ii_plain'', room_slave = slave,
      room_preview = None, supported_entity_keys = None, room_product_id = None,
      room_app_setup_code = None, subentry_id = None, name_is_device_name = False\<rparr>"

lemma example_jobs:
  "build_jobs [plain_room ''a'' 2, plain_room ''b'' 3] 0 =
     concat (map (\<lambda>g. [\<lparr>job_key = group_job_key g, job_room = ''a'', job_plan = group_plan g,
        job_interval_seconds = group_interval g, next_due = 0\<rparr>,
       \<lparr>job_key = group_job_key g, job_room = ''b'', job_plan = group_plan g,
        job_interval_seconds = group_interval g, next_due = group_interval g / 2\<rparr>]) JOB_GROUPS)"
  by (simp add: build_jobs_def JOB_GROUPS_def group_jobs_def room_needs_job_def plain_room_def
      supports_any_def supports_def entity_keys_def group_entities_def READ_GROUP_ENTITY_KEYS_def CONTROL_SETTING_REGISTERS_def
      AIRFLOW_REFRESH_PLAN_def CONTROL_SETTINGS_REFRESH_PLAN_def EMPTY_REFRESH_PLAN_def read_groups_def dict_get_def)


lemma build_jobs_ids:
  "job_id ` set (build_jobs rooms start) = {(group_job_key g, room_key room) | g room.
     g \<in> set JOB_GROUPS \<and> room \<in> set rooms \<and> room_needs_job room g}"
proof -
  have "job_id ` set (group_jobs rooms start g)
      = Pair (group_job_key g) ` room_key ` {room \<in> set rooms. room_needs_job room g}" for g
  proof -
    have "job_id ` set (group_jobs rooms start g)
        = Pair (group_job_key g) ` set (map job_room (group_jobs rooms start g))"
      using group_jobs_keys by (force simp: job_id_def image_iff)
    then show ?thesis by (simp add: map_job_room_group_jobs)
  qed
  then show ?thesis by (auto simp: build_jobs_def image_UN)
qed

lemma build_jobs_window:
  assumes "job \<in> set (build_jobs rooms start)"
  shows "start \<le> next_due job \<and> next_due job < start + job_interval_seconds job"
proof -
  obtain g where g: "g \<in> set JOB_GROUPS" "job \<in> set (group_jobs rooms start g)"
    using assms by (auto simp: build_jobs_def)
  then show ?thesis
    using group_jobs_window [OF g(2)] group_jobs_keys [OF g(2)] JOB_GROUPS_intervals [OF g(1)] by simp
qed

text \<open>Two runs of a group are an interval divided by the number of units apart, or more.\<close>

lemma group_jobs_spacing:
  assumes "job \<in> set (group_jobs rooms start g)" "job' \<in> set (group_jobs rooms start g)"
    and "job \<noteq> job'" "0 < group_interval g"
  shows "group_interval g / real (length rooms) \<le> \<bar>next_due job - next_due job'\<bar>"
proof -
  define n where "n = length (filter (\<lambda>room. room_needs_job room g) rooms)"
  define w where "w = group_interval g / real n"
  let ?rs = "filter (\<lambda>room. room_needs_job room g) rooms"
  let ?j = "\<lambda>i. \<lparr>job_key = group_job_key g, job_room = room_key (?rs ! i), job_plan = group_plan g,
     job_interval_seconds = group_interval g, next_due = start + real i * w\<rparr>"
  have img: "set (group_jobs rooms start g) = ?j ` {..<n}"
    by (simp add: group_jobs_set Let_def n_def w_def)
  obtain i j where ij: "i < n" "j < n" and js: "job = ?j i" "job' = ?j j"
    using assms(1,2) unfolding img by blast
  then have ne: "i \<noteq> j" using assms(3) by blast
  have due: "next_due job = start + real i * w" "next_due job' = start + real j * w"
    by (simp_all add: js)
  have "n \<le> length rooms" by (simp add: n_def)
  then have "group_interval g / real (length rooms) \<le> w"
    unfolding w_def using assms(4) ij(1) by (intro divide_left_mono mult_pos_pos) auto
  also have "w \<le> \<bar>real i - real j\<bar> * w"
  proof -
    have "0 \<le> w" using assms(4) by (simp add: w_def)
    moreover have "1 \<le> \<bar>real i - real j\<bar>" using ne by linarith
    ultimately show ?thesis using mult_right_mono [of 1 "\<bar>real i - real j\<bar>" w] by simp
  qed
  also have "\<dots> = \<bar>next_due job - next_due job'\<bar>"
  proof -
    have "next_due job - next_due job' = (real i - real j) * w" by (simp add: due left_diff_distrib)
    moreover have "0 \<le> w" using assms(4) by (simp add: w_def)
    ultimately show ?thesis by (simp add: abs_mult)
  qed
  finally show ?thesis .
qed

lemma group_by_key: "g \<in> set JOB_GROUPS \<Longrightarrow> h \<in> set JOB_GROUPS \<Longrightarrow>
   group_job_key g = group_job_key h \<Longrightarrow> g = h"
  using distinct_JOB_GROUPS by (auto simp: distinct_map inj_on_def)

lemma build_jobs_spacing:
  assumes "job \<in> set (build_jobs rooms start)" "job' \<in> set (build_jobs rooms start)"
    and "job_key job = job_key job'" "job \<noteq> job'"
  shows "job_interval_seconds job / real (length rooms) \<le> \<bar>next_due job - next_due job'\<bar>"
proof -
  obtain g h where gh: "g \<in> set JOB_GROUPS" "job \<in> set (group_jobs rooms start g)"
    "h \<in> set JOB_GROUPS" "job' \<in> set (group_jobs rooms start h)"
    using assms by (auto simp: build_jobs_def)
  have "g = h"
    using assms(3) gh group_jobs_keys [OF gh(2)] group_jobs_keys [OF gh(4)] by (intro group_by_key) auto
  then show ?thesis
    using group_jobs_spacing [of job rooms start g job'] gh assms(4) group_jobs_keys [OF gh(2)]
      JOB_GROUPS_intervals [OF gh(1)] by auto
qed

text \<open>
  The jobs built for the units: one per unit and group the unit has an entity for, no two alike, the
  first run within one interval of the group, and the runs of the units of a group at least an n-th of
  its interval apart.
\<close>

lemma jobs_are_staggered:
  assumes "distinct (map room_key rooms)"
  shows "distinct (map job_id (build_jobs rooms start))
    \<and> job_id ` set (build_jobs rooms start) = {(group_job_key g, room_key room) | g room.
         g \<in> set JOB_GROUPS \<and> room \<in> set rooms \<and> room_needs_job room g}
    \<and> (\<forall>job \<in> set (build_jobs rooms start).
         start \<le> next_due job \<and> next_due job < start + job_interval_seconds job)
    \<and> (\<forall>job \<in> set (build_jobs rooms start). \<forall>job' \<in> set (build_jobs rooms start).
         job_key job = job_key job' \<and> job \<noteq> job' \<longrightarrow>
         job_interval_seconds job / real (length rooms) \<le> \<bar>next_due job - next_due job'\<bar>)"
  using distinct_build_jobs [OF assms] build_jobs_ids build_jobs_window build_jobs_spacing
  by (auto simp del: distinct_map)

lemma jobs_are_staggered_witness:
  "distinct (map job_id (build_jobs [plain_room ''a'' 2, plain_room ''b'' 3] 0))
    \<and> job_id ` set (build_jobs [plain_room ''a'' 2, plain_room ''b'' 3] 0) =
      {(group_job_key g, room_key room) | g room. g \<in> set JOB_GROUPS
         \<and> room \<in> set [plain_room ''a'' 2, plain_room ''b'' 3] \<and> room_needs_job room g}"
proof -
  have "distinct (map room_key [plain_room ''a'' 2, plain_room ''b'' 3])"
    by (simp add: plain_room_def)
  from jobs_are_staggered [OF this, of 0] show ?thesis by blast
qed

text \<open>
  The pause after failed polls: none before the third failure in a row, then 5 s doubling to at
  most 60 s; capping the exponent changes no pause.
\<close>

lemma backoff_doubles_to_cap:
  "backoff_seconds failures =
     (if failures < 3 then None else Some (min 60 (5 * 2 ^ nat (failures - 3))))"
proof (cases "failures \<le> 7")
  case True
  then show ?thesis by (simp add: backoff_seconds_def min_def)
next
  case False
  then have "(2::real) ^ 4 \<le> 2 ^ nat (failures - 3)" by (intro power_increasing) auto
  with False show ?thesis by (simp add: backoff_seconds_def min_def)
qed

end
