(* ===== verification/Read_Health.thy ===== *)
theory Read_Health
  imports Polling
begin

text \<open>
  \<open>read_health.py\<close>: how fresh the values of each read group of a unit are, what a read job's
  outcome means for its unit and for the link, and the data-health diagnostic.
\<close>

text \<open>The two clocks the code reads: \<open>time.monotonic()\<close> and \<open>dt_util.utcnow()\<close>.\<close>

record clocks =
  monotonic :: seconds
  utcnow :: datetime

section \<open>Freshness\<close>

definition read_group_for_entity :: "string \<Rightarrow> string option" where
  "read_group_for_entity entity_key =
     map_option fst (find (\<lambda>(_, keys). entity_key \<in> set keys) READ_GROUP_ENTITY_KEYS)"

definition stale_after :: "string \<Rightarrow> seconds" where
  "stale_after group_key =
     (if group_key = ''flow'' then AIRFLOW_STALE_AFTER_SECONDS
      else group_interval_seconds group_key * 3)"

definition read_too_old :: "clocks \<Rightarrow> string \<Rightarrow> read_health \<Rightarrow> bool" where
  "read_too_old ck group_key health =
     (case last_success_monotonic health of
        Some stamp \<Rightarrow> monotonic ck - stamp > stale_after group_key
      | None \<Rightarrow> (case last_successful_read health of
          None \<Rightarrow> True
        | Some read_at \<Rightarrow> utcnow ck - read_at > stale_after group_key))"

definition group_fresh :: "clocks \<Rightarrow> room_state \<Rightarrow> string \<Rightarrow> bool" where
  "group_fresh ck state group_key =
     (let health = read_health_for state group_key
      in if last_successful_read health = None
            \<or> last_successful_read health \<noteq> last_attempt health
            \<or> consecutive_failures health \<noteq> 0
            \<or> last_error health \<noteq> None
         then False
         else \<not> read_too_old ck group_key health)"

definition group_available :: "clocks \<Rightarrow> room_state \<Rightarrow> string \<Rightarrow> bool" where
  "group_available ck state group_key =
     (let health = read_health_for state group_key
      in if last_successful_read health = None
            \<or> consecutive_failures health \<ge> READ_FAILURE_THRESHOLD
         then False
         else \<not> read_too_old ck group_key health)"

definition unsupported_optional_group :: "string \<Rightarrow> read_health \<Rightarrow> bool" where
  "unsupported_optional_group group_key health \<longleftrightarrow>
     group_key \<in> set OPTIONAL_DIAGNOSTIC_READ_GROUPS
     \<and> last_successful_read health = None
     \<and> last_attempt health \<noteq> None
     \<and> \<not> last_error_timed_out health"

definition group_stale :: "clocks \<Rightarrow> room_state \<Rightarrow> string \<Rightarrow> bool option" where
  "group_stale ck state group_key =
     (let health = read_health_for state group_key
      in if last_attempt health = None \<or> unsupported_optional_group group_key health then None
         else if consecutive_failures health \<ge> READ_FAILURE_THRESHOLD then Some True
         else if last_successful_read health = None
         then (if last_error health \<noteq> None \<and> \<not> last_error_timed_out health
               then Some True else None)
         else Some (read_too_old ck group_key health))"

section \<open>Recording and comparing reads\<close>

definition record_read_failures ::
  "datetime \<Rightarrow> room_state \<Rightarrow> room_config \<Rightarrow> refresh_plan \<Rightarrow> string \<Rightarrow> room_state" where
  "record_read_failures attempted_at state room plan error =
     fold (\<lambda>group_key s.
         if supports_any room (group_entities group_key)
         then with_read_health s group_key
                (failed (read_health_for s group_key) attempted_at error False)
         else s)
       (read_groups plan) state"

definition mode_read_since :: "room_state \<Rightarrow> read_health \<Rightarrow> bool" where
  "mode_read_since state base =
     (let health = read_health_for state ''flow_control''
      in last_error health = None
         \<and> last_successful_read health \<noteq> None
         \<and> last_successful_read health \<noteq> last_successful_read base)"

definition read_since :: "clocks \<Rightarrow> room_state \<Rightarrow> string \<Rightarrow> read_health \<Rightarrow> bool" where
  "read_since ck state group_key base \<longleftrightarrow>
     group_fresh ck state group_key \<and> read_health_for state group_key \<noteq> base"

section \<open>Outcome of a job\<close>

record job_read_failure =
  failure_error :: string
  link_failure :: bool

definition job_read_groups :: "room_config \<Rightarrow> refresh_plan \<Rightarrow> string list" where
  "job_read_groups room plan =
     (if refresh_airflow plan \<and> supports_any room (group_entities ''flow'') then [''flow'']
      else supported_groups room plan)"

definition job_read_failure_of ::
  "room_config \<Rightarrow> read_job_outcome \<Rightarrow> refresh_plan \<Rightarrow> job_read_failure option" where
  "job_read_failure_of room outcome plan =
     (let recorded = filter (\<lambda>g. g \<in> recorded_groups outcome) (job_read_groups room plan)
      in case recorded of
           [] \<Rightarrow> None
         | first # _ \<Rightarrow>
             if list_ex (\<lambda>g. g \<notin> set (map fst (errors outcome))) recorded then None
             else Some \<lparr>failure_error = dict_get (errors outcome) first [],
                        link_failure = \<not> answered outcome\<rparr>)"

definition job_read_attempted :: "room_config \<Rightarrow> read_job_outcome \<Rightarrow> refresh_plan \<Rightarrow> bool" where
  "job_read_attempted room outcome plan =
     list_ex (\<lambda>g. g \<in> attempted_groups outcome \<and> supports_any room (group_entities g))
       (read_groups plan)"

definition job_read_unanswered :: "room_config \<Rightarrow> read_job_outcome \<Rightarrow> refresh_plan \<Rightarrow> bool" where
  "job_read_unanswered room outcome plan \<longleftrightarrow>
     job_read_attempted room outcome plan \<and> \<not> answered outcome"

definition job_read_received_values ::
  "room_config \<Rightarrow> read_job_outcome \<Rightarrow> refresh_plan \<Rightarrow> bool" where
  "job_read_received_values room outcome plan =
     list_ex (\<lambda>g. g \<in> value_groups outcome) (job_read_groups room plan)"

definition job_read_succeeded :: "room_config \<Rightarrow> read_job_outcome \<Rightarrow> refresh_plan \<Rightarrow> bool" where
  "job_read_succeeded room outcome plan \<longleftrightarrow>
     job_read_received_values room outcome plan
     \<or> list_ex (\<lambda>g. g \<in> unit_success_groups outcome \<and> g \<in> recorded_groups outcome
                   \<and> g \<notin> set (map fst (errors outcome))) (job_read_groups room plan)"

section \<open>Data health\<close>

definition data_health_stale :: "clocks \<Rightarrow> room_state option \<Rightarrow> bool \<Rightarrow> bool \<Rightarrow> bool option" where
  "data_health_stale ck state writes_unhealthy has_writes =
     (case state of
        None \<Rightarrow> None
      | Some s \<Rightarrow>
          let groups = map fst (group_read_health s)
          in if list_ex (\<lambda>g. group_stale ck s g = Some True) groups then Some True
             else if writes_unhealthy then Some True
             else if list_ex (\<lambda>g. group_stale ck s g = Some False) groups \<or> has_writes
             then Some False
             else None)"

record group_health_attributes =
  attr_last_attempt :: "datetime option"
  attr_last_successful_read :: "datetime option"
  attr_consecutive_failures :: int
  attr_last_error :: "string option"
  attr_stale :: "bool option"

definition data_health_groups ::
  "clocks \<Rightarrow> room_config \<Rightarrow> room_state \<Rightarrow> (string \<times> group_health_attributes) list" where
  "data_health_groups ck room state =
     map (\<lambda>(group_key, _).
         let health = read_health_for state group_key
         in (group_key,
             \<lparr>attr_last_attempt = last_attempt health,
              attr_last_successful_read = last_successful_read health,
              attr_consecutive_failures = consecutive_failures health,
              attr_last_error = last_error health,
              attr_stale = group_stale ck state group_key\<rparr>))
       (filter (\<lambda>(_, keys). supports_any room keys) READ_GROUP_ENTITY_KEYS)"

section \<open>Properties\<close>

subsection \<open>Freshness, availability and staleness agree\<close>

lemma group_fresh_available: "group_fresh ck s g \<Longrightarrow> group_available ck s g"
  by (auto simp: group_fresh_def group_available_def Let_def split: if_splits)

lemma group_available_iff_not_stale:
  assumes "health_ok (read_health_for s g)"
  shows "group_available ck s g \<longleftrightarrow> group_stale ck s g = Some False"
  using assms
  by (auto simp: group_available_def group_stale_def unsupported_optional_group_def health_ok_def
      read_too_old_def Let_def split: option.splits)

text \<open>With a monotonic stamp the wall clock plays no part in the age of a read.\<close>

lemma read_too_old_wall_clock:
  "last_success_monotonic h \<noteq> None \<Longrightarrow>
     read_too_old (ck\<lparr>utcnow := t\<rparr>) g h = read_too_old ck g h"
  by (auto simp: read_too_old_def)

text \<open>A value read successfully stays fresh for exactly its stale limit.\<close>

lemma stale_after_pos: "g \<in> set (map fst READ_GROUP_ENTITY_KEYS) \<Longrightarrow> 0 < stale_after g"
  by (auto simp: stale_after_def group_interval_seconds_def READ_GROUP_INTERVAL_SECONDS_eq
      dict_get_def READ_GROUP_ENTITY_KEYS_def)

lemma group_fresh_after_success:
  "group_fresh ck (with_read_health s g (succeeded t m)) g \<longleftrightarrow> monotonic ck - m \<le> stale_after g"
  by (simp add: group_fresh_def read_too_old_def Let_def not_less)

subsection \<open>Recording failures\<close>

lemma record_read_failures_supported:
  "record_read_failures t s room plan e =
     fold (\<lambda>g s. with_read_health s g ((\<lambda>_ h. failed h t e False) g (read_health_for s g)))
       (supported_groups room plan) s"
proof -
  have "fold (\<lambda>g s. if P g then F g s else s) gs s = fold F (filter P gs) s"
    for P :: "string \<Rightarrow> bool" and F and gs and s :: room_state
    by (induction gs arbitrary: s) auto
  then show ?thesis by (simp add: record_read_failures_def supported_groups_def)
qed

lemma record_read_failures_health [health_simps]:
  "read_health_for (record_read_failures t s room plan e) g =
     (if g \<in> set (supported_groups room plan)
      then failed (read_health_for s g) t e False else read_health_for s g)"
  unfolding record_read_failures_supported
  by (subst state_health.look_fold_modify) simp_all

text \<open>Only the health changes: the cached values of a failed read stay.\<close>

lemma record_read_failures_values:
  "(record_read_failures t s room plan e)\<lparr>group_read_health := h\<rparr> = s\<lparr>group_read_health := h\<rparr>"
proof -
  have "(fold (\<lambda>g s. with_read_health s g (F g s)) gs s)\<lparr>group_read_health := h\<rparr>
      = s\<lparr>group_read_health := h\<rparr>"
    for F gs and s :: room_state
    by (induction gs arbitrary: s) (simp_all add: with_read_health_def Let_def)
  then show ?thesis by (simp add: record_read_failures_supported)
qed

lemma record_read_failures_ok:
  "health_ok (read_health_for s g) \<Longrightarrow>
     health_ok (read_health_for (record_read_failures t s room plan e) g)"
  by (simp add: health_simps)

text \<open>Three failed reads in a row make a group unavailable, whatever it held before.\<close>

lemma failed_thrice:
  "0 \<le> consecutive_failures h \<Longrightarrow>
     consecutive_failures (failed (failed (failed h t1 e1 b1) t2 e2 b2) t3 e3 b3) = 3"
  by simp

lemma threshold_unavailable:
  "consecutive_failures (read_health_for s g) = 3 \<Longrightarrow> \<not> group_available ck s g"
  by (simp add: group_available_def Let_def)

subsection \<open>Outcomes\<close>

lemma job_read_groups_supported: "set (job_read_groups room plan) \<subseteq> set (supported_groups room plan)"
  by (auto simp: job_read_groups_def supported_groups_def read_groups_def)

text \<open>A job cannot have failed altogether and delivered an error-free group.\<close>

lemma failure_excludes_clean_group:
  assumes "job_read_failure_of room outcome plan = Some f"
    and "g \<in> set (job_read_groups room plan)" "g \<in> recorded_groups outcome"
  shows "g \<in> set (map fst (errors outcome))"
proof -
  have "\<not> list_ex (\<lambda>g. g \<notin> set (map fst (errors outcome)))
      (filter (\<lambda>g. g \<in> recorded_groups outcome) (job_read_groups room plan))"
    using assms(1) by (auto simp: job_read_failure_of_def Let_def split: list.splits if_splits)
  with assms(2,3) show ?thesis by (auto simp: list_ex_iff)
qed

section \<open>What three failures do\<close>

text \<open>Several failed reads of one plan, each with its time and error.\<close>

definition fail_reads ::
  "room_config \<Rightarrow> refresh_plan \<Rightarrow> (datetime \<times> string) list \<Rightarrow> room_state \<Rightarrow> room_state" where
  "fail_reads room plan failures state =
     fold (\<lambda>(attempted_at, error) s. record_read_failures attempted_at s room plan error) failures state"

lemma failed_reads_count:
  "g \<in> set (supported_groups room plan) \<Longrightarrow>
     0 \<le> consecutive_failures (read_health_for s g) \<and> consecutive_failures (read_health_for s g) \<le> 3 \<Longrightarrow>
     consecutive_failures (read_health_for (fail_reads room plan failures s) g)
     = min 3 (consecutive_failures (read_health_for s g) + int (length failures))"
proof (induction failures arbitrary: s)
  case (Cons f failures)
  obtain t e where f: "f = (t, e)" by fastforce
  have step: "fail_reads room plan (f # failures) s
      = fail_reads room plan failures (record_read_failures t s room plan e)"
    by (simp add: fail_reads_def f)
  show ?case
    unfolding step using Cons.prems by (subst Cons.IH) (auto simp: health_simps)
qed (simp add: fail_reads_def)

lemma failed_reads_other:
  "g \<notin> set (supported_groups room plan) \<Longrightarrow>
     read_health_for (fail_reads room plan failures s) g
     = read_health_for s g"
  by (induction failures arbitrary: s) (simp_all add: fail_reads_def case_prod_beta health_simps)

lemma failed_reads_values:
  "(fail_reads room plan failures s)\<lparr>group_read_health := h\<rparr>
     = s\<lparr>group_read_health := h\<rparr>"
  by (induction failures arbitrary: s) (simp_all add: fail_reads_def case_prod_beta record_read_failures_values)

text \<open>
  Failed reads of a plan: they leave every cached value and the health of every other group alone, keep
  the failure counter of a supported group at the number of failures but never above three, and from the
  third one on in a row the group is unavailable at every time.
\<close>

lemma failed_reads_make_unavailable:
  assumes "\<forall>g. health_ok (read_health_for s g)"
  shows "(fail_reads room plan failures s)\<lparr>group_read_health := []\<rparr> = s\<lparr>group_read_health := []\<rparr>
    \<and> (\<forall>g. g \<notin> set (supported_groups room plan) \<longrightarrow> read_health_for (fail_reads room plan failures s) g = read_health_for s g)
    \<and> (\<forall>g \<in> set (supported_groups room plan).
         consecutive_failures (read_health_for (fail_reads room plan failures s) g)
           = min 3 (consecutive_failures (read_health_for s g) + int (length failures))
         \<and> (3 \<le> length failures \<longrightarrow> \<not> group_available ck (fail_reads room plan failures s) g))"
proof -
  let ?S = "fail_reads room plan failures s"
  have nonneg: "0 \<le> consecutive_failures (read_health_for s g)
      \<and> consecutive_failures (read_health_for s g) \<le> 3" for g
    using assms(1) by (simp add: health_ok_def)
  then have count: "consecutive_failures (read_health_for ?S g)
      = min 3 (consecutive_failures (read_health_for s g) + int (length failures))"
    if "g \<in> set (supported_groups room plan)" for g
    using failed_reads_count [OF that, of s failures] by simp
  then have "3 \<le> length failures \<Longrightarrow> \<not> group_available ck ?S g"
    if "g \<in> set (supported_groups room plan)" for g
    using that nonneg [of g] by (intro threshold_unavailable) (simp add: count)
  with count show ?thesis by (simp add: failed_reads_values failed_reads_other)
qed

lemma failed_reads_make_unavailable_witness:
  "\<not> group_available \<lparr>monotonic = 40, utcnow = 40\<rparr>
     (fail_reads (plain_room ''a'' 2) AIRFLOW_REFRESH_PLAN
        [(10, ''timeout''), (20, ''timeout''), (30, ''timeout'')]
        (with_read_health EMPTY_ROOM_STATE ''flow'' (succeeded 5 5))) ''flow''"
proof -
  let ?s = "with_read_health EMPTY_ROOM_STATE ''flow'' (succeeded 5 5)"
  have ok: "\<forall>g. health_ok (read_health_for ?s g)" by (simp add: state_health.look_put)
  have "''flow'' \<in> set (supported_groups (plain_room ''a'' 2) AIRFLOW_REFRESH_PLAN)"
    by (simp add: supported_groups_def plain_room_def AIRFLOW_REFRESH_PLAN_def EMPTY_REFRESH_PLAN_def
        read_groups_def supports_any_def supports_def group_entities_def READ_GROUP_ENTITY_KEYS_def
        dict_get_def)
  with failed_reads_make_unavailable [OF ok, of "plain_room ''a'' 2" AIRFLOW_REFRESH_PLAN "[(10, ''timeout''), (20, ''timeout''), (30, ''timeout'')]"]
  show ?thesis by simp
qed

text \<open>
  Availability, staleness and freshness agree: a group is available exactly when it is known not to be
  stale, and what counts as fresh for a confirmation is available.
\<close>

lemma available_iff_not_stale:
  assumes "health_ok (read_health_for s g)"
  shows "(group_available ck s g \<longleftrightarrow> group_stale ck s g = Some False)
    \<and> (group_fresh ck s g \<longrightarrow> group_available ck s g)"
  using group_available_iff_not_stale [OF assms, of ck] group_fresh_available by blast

lemma available_iff_not_stale_witness:
  "group_stale \<lparr>monotonic = 10, utcnow = 10\<rparr>
     (with_read_health EMPTY_ROOM_STATE ''flow'' (succeeded 5 5)) ''flow'' = Some False"
proof -
  let ?s = "with_read_health EMPTY_ROOM_STATE ''flow'' (succeeded 5 5)"
  let ?ck = "\<lparr>monotonic = 10, utcnow = 10\<rparr>"
  have "health_ok (read_health_for ?s ''flow'')" by simp
  note agree = available_iff_not_stale [OF this, of ?ck]
  have "group_fresh ?ck ?s ''flow''" by (simp add: group_fresh_after_success stale_after_def)
  with agree show ?thesis by blast
qed

end
