(* ===== verification/Levels.thy ===== *)
theory Levels
  imports Read_Health
begin

text \<open>
  \<open>levels.py\<close>: the supply and extract airflow of a unit, as targets and as measurements, and how a
  fan command for one direction is planned around the other one.
\<close>

type_synonym level_pair = "int option \<times> int option"

definition LEVEL_CONFIRM_TOLERANCE :: int where [simp]:
  "LEVEL_CONFIRM_TOLERANCE = 2"

definition BALANCED_LEVEL_TOLERANCE :: int where [simp]:
  "BALANCED_LEVEL_TOLERANCE = 1"

definition level_reached :: "int option \<Rightarrow> int \<Rightarrow> bool" where
  "level_reached actual target =
     (case actual of None \<Rightarrow> False | Some a \<Rightarrow> \<bar>a - target\<bar> \<le> LEVEL_CONFIRM_TOLERANCE)"

definition levels_reached :: "level_pair \<Rightarrow> int \<times> int \<Rightarrow> bool" where
  "levels_reached confirmed expected \<longleftrightarrow>
     level_reached (fst confirmed) (fst expected) \<and> level_reached (snd confirmed) (snd expected)"

definition levels_balanced :: "int \<Rightarrow> int \<Rightarrow> bool" where
  "levels_balanced level other \<longleftrightarrow>
     (if level = other then True
      else level > 0 \<and> other > 0 \<and> \<bar>level - other\<bar> \<le> BALANCED_LEVEL_TOLERANCE)"

fun first_known :: "int option list \<Rightarrow> int option" where
  "first_known [] = None"
| "first_known (v # vs) = (if v \<noteq> None then v else first_known vs)"

definition preset_known :: "room_state \<Rightarrow> bool" where
  "preset_known state =
     (case preset_mode state of
        None \<Rightarrow> False
      | Some p \<Rightarrow> p \<in> set (map fst PRESET_MODE_TO_RAW_CODE))"

definition in_modes :: "string option \<Rightarrow> string list \<Rightarrow> bool" where
  "in_modes op modes = (case op of None \<Rightarrow> False | Some m \<Rightarrow> m \<in> set modes)"

definition target_levels :: "room_state \<Rightarrow> bool \<Rightarrow> level_pair" where
  "target_levels state airflow_is_fresh =
     (if operation_mode state = Some OPERATION_MODE_OFF then (Some 0, Some 0)
      else if operation_mode state = Some OPERATION_MODE_UNBALANCED
      then (if \<not> airflow_is_fresh then (target_level state, extract_target_level state)
            else (first_known [target_level state, supply_air_flow state],
                  first_known [extract_target_level state, extract_air_flow state]))
      else if in_modes (operation_mode state) SENSOR_OPERATION_MODES
      then (if airflow_is_fresh then (supply_air_flow state, extract_air_flow state)
            else (None, None))
      else let common = first_known
             [balanced_target_readback state,
              if preset_known state \<and> \<not> airflow_is_fresh then None else target_level state]
           in if common \<noteq> None then (common, common)
              else if airflow_is_fresh
              then (first_known [supply_air_flow state, extract_air_flow state],
                    first_known [extract_air_flow state, supply_air_flow state])
              else (None, None))"

definition reported_levels ::
  "clocks \<Rightarrow> room_state \<Rightarrow> level_pair option \<times> level_source option" where
  "reported_levels ck state =
     (let airflow_is_fresh = group_fresh ck state ''flow''
      in if \<not> group_fresh ck state ''flow_control'' \<or> operation_mode state = None
         then (if \<not> airflow_is_fresh then (None, None)
               else let levels = (supply_air_flow state, extract_air_flow state)
                    in if levels = (None, None) then (None, None)
                       else (Some levels, Some LEVEL_SOURCE_MEASURED))
         else let levels = target_levels state airflow_is_fresh;
                  targets = target_levels state False;
                  source = (if levels = targets then LEVEL_SOURCE_TARGET else LEVEL_SOURCE_MEASURED)
              in if levels = (None, None) then (None, None)
                 else (Some levels, Some source))"

definition mode_write_levels :: "room_state \<Rightarrow> level_pair \<Rightarrow> level_pair" where
  "mode_write_levels state effective =
     (let (supply, extract) = effective;
          balanced_level = first_known
            [supply, target_level state, supply_air_flow state, extract_air_flow state];
          extract_level = first_known
            [extract, extract_target_level state, extract_air_flow state, balanced_level]
      in (balanced_level, extract_level))"

text \<open>A planned fan write: one balanced level, or separate supply and extract levels.\<close>

datatype planned_write = Balanced int | Separate int int

definition plan_mode :: "room_state \<Rightarrow> level_pair \<Rightarrow> level_source option \<Rightarrow> string option" where
  "plan_mode state levels source =
     (case levels of
        (Some s, Some e) \<Rightarrow>
          if source = Some LEVEL_SOURCE_PENDING
          then Some (if s = e \<and> e = 0 then OPERATION_MODE_OFF
                     else if levels_balanced s e then OPERATION_MODE_MANUAL
                     else OPERATION_MODE_UNBALANCED)
          else operation_mode state
      | _ \<Rightarrow> operation_mode state)"

definition plan_other :: "level_pair \<Rightarrow> level_source option \<Rightarrow> int \<Rightarrow> int" where
  "plan_other levels source known_other =
     (case levels of
        (Some s, Some e) \<Rightarrow>
          if source = Some LEVEL_SOURCE_MEASURED \<and> \<bar>s - e\<bar> \<le> LEVEL_CONFIRM_TOLERANCE
          then py_round_div (s + e) 2 else known_other
      | _ \<Rightarrow> known_other)"

definition plan_direction_write ::
  "room_config \<Rightarrow> room_state \<Rightarrow> level_pair \<Rightarrow> level_source option \<Rightarrow> string \<Rightarrow> int \<Rightarrow>
     meltem_error + planned_write \<times> level_write_fallback option" where
  "plan_direction_write room state levels source direction level =
     (case (if direction = DIRECTION_SUPPLY then snd levels else fst levels) of
        None \<Rightarrow>
          if level = 0 then Inl (HomeAssistantError ''opposite_airflow_unknown'')
          else Inr (Balanced level, Some LEVEL_WRITE_FALLBACK_BALANCED)
      | Some known_other \<Rightarrow>
          let op = plan_mode state levels source;
              other = plan_other levels source known_other;
              fallback = (if op = None then Some LEVEL_WRITE_FALLBACK_UNKNOWN_MODE else None);
              starting_from_off = (op = Some OPERATION_MODE_OFF);
              leaving_sensor_control = (level > 0 \<and> in_modes op SENSOR_OPERATION_MODES)
          in if levels_balanced level other \<or> starting_from_off \<or> leaving_sensor_control
             then Inr (Balanced level, fallback)
             else Inr (if direction = DIRECTION_SUPPLY then Separate level other
                       else Separate other level, fallback))"

section \<open>Properties\<close>

lemma level_reached_iff [simp]:
  "level_reached None t = False" "level_reached (Some a) t \<longleftrightarrow> \<bar>a - t\<bar> \<le> 2"
  by (simp_all add: level_reached_def)

lemma levels_reached_refl: "levels_reached (Some s, Some e) (s, e)"
  by (simp add: levels_reached_def)

lemma levels_reached_known:
  "levels_reached p (s, e) \<Longrightarrow> \<exists>a b. p = (Some a, Some b) \<and> \<bar>a - s\<bar> \<le> 2 \<and> \<bar>b - e\<bar> \<le> 2"
  by (cases p; cases "fst p"; cases "snd p") (auto simp: levels_reached_def)

lemma levels_balanced_sym: "levels_balanced a b \<longleftrightarrow> levels_balanced b a"
  by (auto simp: levels_balanced_def)

text \<open>A stopped direction is balanced only with a stopped one.\<close>

lemma levels_balanced_0 [simp]: "levels_balanced 0 b \<longleftrightarrow> b = 0" "levels_balanced a 0 \<longleftrightarrow> a = 0"
  by (auto simp: levels_balanced_def)

lemma first_known_Some: "first_known vs = Some n \<Longrightarrow> Some n \<in> set vs"
  by (induction vs) (auto split: if_splits)

lemma first_known_None: "first_known vs = None \<longleftrightarrow> (\<forall>v \<in> set vs. v = None)"
  by (induction vs) auto

text \<open>With stale airflow no measurement leaks into the targets.\<close>

lemma target_levels_stale_ignores_flow:
  "target_levels (s\<lparr>supply_air_flow := a, extract_air_flow := b\<rparr>) False = target_levels s False"
  by (auto simp: target_levels_def preset_known_def Let_def)

text \<open>Fresh airflow only fills in what the targets leave open.\<close>

lemma target_levels_fresh_extends:
  assumes "\<not> preset_known s" "\<not> in_modes (operation_mode s) SENSOR_OPERATION_MODES"
  shows "fst (target_levels s False) \<noteq> None \<Longrightarrow> fst (target_levels s True) = fst (target_levels s False)"
    and "snd (target_levels s False) \<noteq> None \<Longrightarrow> snd (target_levels s True) = snd (target_levels s False)"
  using assms by (auto simp: target_levels_def Let_def split: if_splits)

lemma reported_levels_stale:
  "\<not> group_fresh ck s ''flow_control'' \<Longrightarrow> \<not> group_fresh ck s ''flow'' \<Longrightarrow>
     reported_levels ck s = (None, None)"
  by (simp add: reported_levels_def Let_def)

lemma reported_levels_measured_needs_fresh:
  "reported_levels ck s = (Some p, Some LEVEL_SOURCE_MEASURED) \<Longrightarrow> group_fresh ck s ''flow''"
  by (cases "group_fresh ck s ''flow''") (auto simp: reported_levels_def Let_def split: if_splits)

lemma reported_levels_target_needs_fresh:
  "reported_levels ck s = (Some p, Some LEVEL_SOURCE_TARGET) \<Longrightarrow>
     group_fresh ck s ''flow_control'' \<and> p = target_levels s False"
  by (auto simp: reported_levels_def Let_def split: if_splits)

lemma reported_levels_source: "snd (reported_levels ck s) \<noteq> Some LEVEL_SOURCE_PENDING"
  by (auto simp: reported_levels_def Let_def)

lemma plan_other_near:
  assumes "levels = (Some s, Some e)" "known_other = s \<or> known_other = e"
  shows "\<bar>plan_other levels source known_other - known_other\<bar> \<le> 1"
proof (cases "source = Some LEVEL_SOURCE_MEASURED \<and> \<bar>s - e\<bar> \<le> 2")
  case True
  let ?n = "py_round_div (s + e) 2"
  have "2 * (s + e) - 2 \<le> 4 * ?n \<and> 4 * ?n \<le> 2 * (s + e) + 2"
    using py_round_div_bounds [of 2 "s + e"] by simp
  with True assms show ?thesis
    by (auto simp: plan_other_def abs_if split: if_splits)
next
  case False
  then show ?thesis using assms by (auto simp: plan_other_def)
qed

section \<open>Commands for one direction\<close>

lemma plan_other_near':
  "fst levels = Some known \<or> snd levels = Some known \<Longrightarrow>
     \<bar>plan_other levels source known - known\<bar> \<le> 1"
proof (cases "\<exists>s e. levels = (Some s, Some e)")
  case True
  assume "fst levels = Some known \<or> snd levels = Some known"
  with True obtain s e where "levels = (Some s, Some e)" "known = s \<or> known = e" by auto
  then show ?thesis by (rule plan_other_near)
next
  case False
  then show ?thesis by (cases levels) (auto simp: plan_other_def split: option.splits)
qed

text \<open>
  A fan command for one direction keeps the other one: separate levels carry the commanded level
  exactly and the other within one of what was known; a balanced level is the commanded one, and is used
  only when the other direction is unknown (then never to stop it), already within two of it, when the
  unit is off, or when a level above zero leaves a sensor mode.
\<close>

lemma direction_write_keeps_other:
  assumes "plan_direction_write room s levels source direction level = Inr (w, fallback)"
  defines "other \<equiv> (if direction = DIRECTION_SUPPLY then snd levels else fst levels)"
  shows "case w of
      Balanced n \<Rightarrow> n = level \<and>
        (case other of
           None \<Rightarrow> level \<noteq> 0 \<and> fallback = Some LEVEL_WRITE_FALLBACK_BALANCED
         | Some known \<Rightarrow> \<bar>level - known\<bar> \<le> 2
             \<or> plan_mode s levels source = Some OPERATION_MODE_OFF
             \<or> level > 0 \<and> in_modes (plan_mode s levels source) SENSOR_OPERATION_MODES)
    | Separate supply extract \<Rightarrow>
        (case other of
           None \<Rightarrow> False
         | Some known \<Rightarrow> if direction = DIRECTION_SUPPLY
             then supply = level \<and> \<bar>extract - known\<bar> \<le> 1
             else extract = level \<and> \<bar>supply - known\<bar> \<le> 1)"
proof (cases other)
  case None
  then show ?thesis
    using assms(1) by (auto simp: plan_direction_write_def other_def split: if_splits)
next
  case (Some known)
  let ?other = "plan_other levels source known"
  have near: "\<bar>?other - known\<bar> \<le> 1"
    using Some by (intro plan_other_near') (auto simp: other_def split: if_splits)
  have w: "w = (if levels_balanced level ?other
        \<or> plan_mode s levels source = Some OPERATION_MODE_OFF
        \<or> level > 0 \<and> in_modes (plan_mode s levels source) SENSOR_OPERATION_MODES
      then Balanced level
      else if direction = DIRECTION_SUPPLY then Separate level ?other else Separate ?other level)"
    using assms(1) Some
    by (auto simp: plan_direction_write_def other_def Let_def split: if_splits)
  have "levels_balanced level ?other \<Longrightarrow> \<bar>level - known\<bar> \<le> 2"
    using near by (auto simp: levels_balanced_def split: if_splits)
  then show ?thesis using near Some by (auto simp: w)
qed

lemma direction_write_keeps_other_witness:
  "plan_direction_write (plain_room ''a'' 2) (EMPTY_ROOM_STATE\<lparr>operation_mode := Some ''manual''\<rparr>)
     (Some 40, Some 40) (Some LEVEL_SOURCE_TARGET) DIRECTION_SUPPLY 60 = Inr (Separate 60 40, None)
   \<and> \<bar>(40::int) - 40\<bar> \<le> 1"
proof -
  have w: "plan_direction_write (plain_room ''a'' 2) (EMPTY_ROOM_STATE\<lparr>operation_mode := Some ''manual''\<rparr>)
     (Some 40, Some 40) (Some LEVEL_SOURCE_TARGET) DIRECTION_SUPPLY 60 = Inr (Separate 60 40, None)"
    by (simp add: plan_direction_write_def plan_mode_def plan_other_def levels_balanced_def in_modes_def
        const_simps)
  from direction_write_keeps_other [OF w] w show ?thesis by simp
qed

end
