(* ===== verification/Overlay.thy ===== *)
theory Overlay
  imports Levels
begin

text \<open>
  \<open>overlay.py\<close>: the optimistic display of a pending write until a later read confirms it or its
  window expires. Each operation returns the new overlay and whether \<open>on_change\<close> was called.
\<close>

text \<open>The constructor arguments: window, match of a readback with the value, and read groups.\<close>

record ('v, 'c) overlay_config =
  ttl_seconds :: seconds
  matches :: "'c \<Rightarrow> 'v \<Rightarrow> bool"
  overlay_groups :: "string list"

text \<open>
  \<open>_pending\<close>, \<open>_baseline\<close> and \<open>_cancel_expiry\<close>; a running \<open>async_call_later\<close> timer is the time it
  fires at.
\<close>

record 'v overlay =
  pending :: "(string, 'v \<times> seconds) dict"
  overlay_baseline :: "(string, read_health list) dict"
  expiry_timers :: "(string, seconds) dict"

definition EMPTY_OVERLAY :: "'v overlay" where
  "EMPTY_OVERLAY = \<lparr>pending = [], overlay_baseline = [], expiry_timers = []\<rparr>"

section \<open>Operations\<close>

definition stop_expiry :: "string \<Rightarrow> 'v overlay \<Rightarrow> 'v overlay" where
  "stop_expiry room ov = ov\<lparr>expiry_timers := AList.delete room (expiry_timers ov)\<rparr>"

definition overlay_set ::
  "('v, 'c) overlay_config \<Rightarrow> clocks \<Rightarrow> room_state option \<Rightarrow> string \<Rightarrow> 'v \<Rightarrow> 'v overlay
     \<Rightarrow> 'v overlay \<times> bool" where
  "overlay_set cfg ck state room v ov =
     (let ov1 = stop_expiry room ov;
          ov2 = ov1\<lparr>pending := AList.update room (v, monotonic ck + ttl_seconds cfg) (pending ov1)\<rparr>;
          s = (case state of None \<Rightarrow> EMPTY_ROOM_STATE | Some st \<Rightarrow> st);
          ov3 = ov2\<lparr>overlay_baseline :=
            AList.update room (map (read_health_for s) (overlay_groups cfg)) (overlay_baseline ov2)\<rparr>;
          ov4 = ov3\<lparr>expiry_timers :=
            AList.update room (monotonic ck + ttl_seconds cfg) (expiry_timers ov3)\<rparr>
      in (ov4, True))"

definition overlay_clear :: "string \<Rightarrow> 'v overlay \<Rightarrow> 'v overlay \<times> bool" where
  "overlay_clear room ov =
     (let ov1 = stop_expiry room ov;
          ov2 = ov1\<lparr>overlay_baseline := AList.delete room (overlay_baseline ov1)\<rparr>
      in (ov2\<lparr>pending := AList.delete room (pending ov2)\<rparr>, map_of (pending ov2) room \<noteq> None))"

definition read_since_set ::
  "('v, 'c) overlay_config \<Rightarrow> clocks \<Rightarrow> string \<Rightarrow> room_state option \<Rightarrow> 'v overlay \<Rightarrow> bool" where
  "read_since_set cfg ck room state ov =
     (case (state, map_of (overlay_baseline ov) room) of
        (Some s, Some base) \<Rightarrow>
          list_ex (\<lambda>(g, h). read_since ck s g h) (zip (overlay_groups cfg) base)
      | _ \<Rightarrow> False)"

definition overlay_matches :: "('v, 'c) overlay_config \<Rightarrow> 'c option \<Rightarrow> 'v \<Rightarrow> bool" where
  "overlay_matches cfg confirmed v =
     (case confirmed of None \<Rightarrow> False | Some c \<Rightarrow> matches cfg c v)"

lemma overlay_matches_simps [simp]:
  "overlay_matches cfg None v = False" "overlay_matches cfg (Some c) v = matches cfg c v"
  by (simp_all add: overlay_matches_def)

definition overlay_get ::
  "('v, 'c) overlay_config \<Rightarrow> clocks \<Rightarrow> string \<Rightarrow> 'c option \<Rightarrow> 'v overlay \<Rightarrow> 'v option" where
  "overlay_get cfg ck room confirmed ov =
     (case map_of (pending ov) room of
        None \<Rightarrow> None
      | Some (v, expires_at) \<Rightarrow>
          if monotonic ck \<ge> expires_at \<or> overlay_matches cfg confirmed v then None else Some v)"

definition overlay_active ::
  "('v, 'c) overlay_config \<Rightarrow> clocks \<Rightarrow> string \<Rightarrow> room_state option \<Rightarrow> 'c option \<Rightarrow> 'v overlay
     \<Rightarrow> 'v option" where
  "overlay_active cfg ck room state confirmed ov =
     overlay_get cfg ck room (if read_since_set cfg ck room state ov then confirmed else None) ov"

definition settle ::
  "('v, 'c) overlay_config \<Rightarrow> string \<Rightarrow> 'c option \<Rightarrow> 'v overlay \<Rightarrow> 'v overlay \<times> bool" where
  "settle cfg room confirmed ov =
     (case map_of (pending ov) room of
        None \<Rightarrow> (ov, False)
      | Some (v, _) \<Rightarrow>
          if \<not> overlay_matches cfg confirmed v then (ov, False)
          else let ov1 = stop_expiry room ov;
                   ov2 = ov1\<lparr>pending := AList.delete room (pending ov1)\<rparr>
               in (ov2\<lparr>overlay_baseline := AList.delete room (overlay_baseline ov2)\<rparr>, True))"

definition settle_if_read ::
  "('v, 'c) overlay_config \<Rightarrow> clocks \<Rightarrow> string \<Rightarrow> room_state option \<Rightarrow> 'c option \<Rightarrow> 'v overlay
     \<Rightarrow> 'v overlay \<times> bool" where
  "settle_if_read cfg ck room state confirmed ov =
     (if read_since_set cfg ck room state ov then settle cfg room confirmed ov else (ov, False))"

definition overlay_shutdown :: "'v overlay \<Rightarrow> 'v overlay" where
  "overlay_shutdown ov = ov\<lparr>expiry_timers := [], pending := [], overlay_baseline := []\<rparr>"

text \<open>The timer of \<open>set\<close> fires.\<close>

definition overlay_expire :: "string \<Rightarrow> 'v overlay \<Rightarrow> 'v overlay \<times> bool" where
  "overlay_expire room ov =
     (let ov1 = ov\<lparr>expiry_timers := AList.delete room (expiry_timers ov),
                   overlay_baseline := AList.delete room (overlay_baseline ov)\<rparr>
      in (ov1\<lparr>pending := AList.delete room (pending ov1)\<rparr>, map_of (pending ov1) room \<noteq> None))"

section \<open>Invariant\<close>

text \<open>
  A pending value always has its baseline and its expiry timer, the timer fires when the window ends,
  and no baseline or timer outlives its value.
\<close>

definition overlay_ok :: "('v, 'c) overlay_config \<Rightarrow> 'v overlay \<Rightarrow> bool" where
  "overlay_ok cfg ov \<longleftrightarrow>
     (\<forall>room.
        map_option snd (map_of (pending ov) room) = map_of (expiry_timers ov) room
        \<and> (map_of (overlay_baseline ov) room = None \<longleftrightarrow> map_of (pending ov) room = None)
        \<and> (\<forall>base. map_of (overlay_baseline ov) room = Some base
             \<longrightarrow> length base = length (overlay_groups cfg)))"

lemmas overlay_defs =
  overlay_set_def overlay_clear_def settle_def settle_if_read_def overlay_shutdown_def
  overlay_expire_def stop_expiry_def

lemma overlay_ok_EMPTY [simp]: "overlay_ok cfg EMPTY_OVERLAY"
  by (simp add: overlay_ok_def EMPTY_OVERLAY_def)

lemma overlay_ok_set: "overlay_ok cfg ov \<Longrightarrow> overlay_ok cfg (fst (overlay_set cfg ck st room v ov))"
  by (auto simp: overlay_ok_def overlay_defs Let_def update_conv delete_conv)

lemma overlay_ok_clear: "overlay_ok cfg ov \<Longrightarrow> overlay_ok cfg (fst (overlay_clear room ov))"
  by (auto simp: overlay_ok_def overlay_defs Let_def delete_conv)

lemma overlay_ok_settle: "overlay_ok cfg ov \<Longrightarrow> overlay_ok cfg (fst (settle cfg room c ov))"
  by (auto simp: overlay_ok_def overlay_defs Let_def delete_conv split: option.split)

lemma overlay_ok_settle_if_read:
  "overlay_ok cfg ov \<Longrightarrow> overlay_ok cfg (fst (settle_if_read cfg ck room st c ov))"
  by (simp add: settle_if_read_def overlay_ok_settle)

lemma overlay_ok_expire: "overlay_ok cfg ov \<Longrightarrow> overlay_ok cfg (fst (overlay_expire room ov))"
  by (auto simp: overlay_ok_def overlay_defs Let_def delete_conv)

lemma overlay_ok_shutdown: "overlay_ok cfg (overlay_shutdown ov)"
  by (simp add: overlay_ok_def overlay_shutdown_def)

section \<open>Slots per room\<close>

text \<open>
  What the coordinator relies on: a slot per room that a write fills and a clear empties, without
  touching any other room.
\<close>

locale room_slots =
  fixes slot :: "'o \<Rightarrow> string \<Rightarrow> 'w option"
    and fill :: "string \<Rightarrow> 'w \<Rightarrow> 'o \<Rightarrow> 'o"
    and clear :: "string \<Rightarrow> 'o \<Rightarrow> 'o"
  assumes slot_fill: "slot (fill room v ov) room' = (if room' = room then Some v else slot ov room')"
    and slot_clear: "slot (clear room ov) room' = (if room' = room then None else slot ov room')"
begin

lemma slot_clear_fill: "slot (clear room (fill room v ov)) = slot (clear room ov)"
  by (simp add: fun_eq_iff slot_fill slot_clear)

lemma slot_fold_clear:
  "slot (fold clear rooms ov) room = (if room \<in> set rooms then None else slot ov room)"
  by (induction rooms arbitrary: ov) (auto simp: slot_clear)

lemma slot_fold_fill:
  "distinct (map fst ps) \<Longrightarrow>
     slot (fold (\<lambda>(r, v). fill r v) ps ov) room =
       (case map_of ps room of Some v \<Rightarrow> Some v | None \<Rightarrow> slot ov room)"
proof (induction ps arbitrary: ov)
  case (Cons p ps)
  obtain r v where p: "p = (r, v)" by fastforce
  from Cons.prems have "map_of ps r = None" by (auto simp: p map_of_eq_None_iff)
  with Cons show ?case by (auto simp: p slot_fill split: option.split)
qed simp

end

definition pending_value :: "'v overlay \<Rightarrow> string \<Rightarrow> 'v option" where
  "pending_value ov room = map_option fst (map_of (pending ov) room)"

interpretation overlay_slots: room_slots pending_value
  "\<lambda>room v ov. fst (overlay_set cfg ck st room v ov)" "\<lambda>room ov. fst (overlay_clear room ov)"
  for cfg ck st
  by unfold_locales (simp_all add: pending_value_def overlay_defs Let_def update_conv delete_conv)

section \<open>Display and confirmation\<close>

text \<open>Right after a write its value is shown, whatever an older read reported.\<close>

lemma read_since_set_fresh:
  "\<not> read_since_set cfg ck' room (Some s) (fst (overlay_set cfg ck (Some s) room v ov))"
  by (auto simp: read_since_set_def overlay_defs Let_def update_conv list_ex_iff read_since_def
      set_zip)

lemma overlay_active_after_set:
  assumes "monotonic ck' < monotonic ck + ttl_seconds cfg"
  shows "overlay_active cfg ck' room (Some s) c (fst (overlay_set cfg ck (Some s) room v ov)) = Some v"
  using assms
  by (simp add: overlay_active_def read_since_set_fresh overlay_get_def overlay_matches_def)
    (simp add: overlay_defs Let_def update_conv)

text \<open>After the window the value is hidden even before the timer has run.\<close>

lemma overlay_active_expired:
  assumes "monotonic ck + ttl_seconds cfg \<le> monotonic ck'"
  shows "overlay_active cfg ck' room st' c (fst (overlay_set cfg ck st room v ov)) = None"
  using assms
  by (simp add: overlay_active_def overlay_get_def overlay_defs Let_def update_conv)

lemma overlay_active_clear: "overlay_active cfg ck room st c (fst (overlay_clear room ov)) = None"
  by (simp add: overlay_active_def overlay_get_def overlay_defs Let_def delete_conv)

text \<open>Settling is what display already shows: a settled value was no longer active.\<close>

lemma settle_inactive:
  assumes "settle_if_read cfg ck room st c ov = (ov', True)"
  shows "overlay_active cfg ck room st c ov = None" "map_of (pending ov') room = None"
  using assms
  by (auto simp: settle_if_read_def settle_def overlay_active_def overlay_get_def stop_expiry_def
      delete_conv Let_def split: if_splits option.splits)

text \<open>No operation on one room changes what another room shows.\<close>

lemma overlay_active_cong:
  "map_of (pending ov) room = map_of (pending ov') room \<Longrightarrow>
   map_of (overlay_baseline ov) room = map_of (overlay_baseline ov') room \<Longrightarrow>
   overlay_active cfg ck room st c ov = overlay_active cfg ck room st c ov'"
  by (simp add: overlay_active_def overlay_get_def read_since_set_def)

lemma overlay_other_room:
  assumes "room' \<noteq> room"
  shows "overlay_active cfg ck' room' st' c (fst (overlay_set cfg ck st room v ov))
      = overlay_active cfg ck' room' st' c ov"
    and "overlay_active cfg ck' room' st' c (fst (overlay_clear room ov))
      = overlay_active cfg ck' room' st' c ov"
    and "overlay_active cfg ck' room' st' c (fst (settle cfg room d ov))
      = overlay_active cfg ck' room' st' c ov"
  by (rule overlay_active_cong;
      use assms in \<open>simp add: overlay_defs Let_def update_conv delete_conv split: option.split\<close>)+

section \<open>Any history of the overlay\<close>

text \<open>The calls of the overlay and its timers, in the order the event loop runs them.\<close>

datatype ('v, 'c) overlay_op =
    OverlaySet clocks "room_state option" string 'v
  | OverlayClear string
  | OverlaySettle string "'c option"
  | OverlaySettleIfRead clocks string "room_state option" "'c option"
  | OverlayExpire string
  | OverlayShutdown

fun overlay_step :: "('v, 'c) overlay_config \<Rightarrow> ('v, 'c) overlay_op \<Rightarrow> 'v overlay \<Rightarrow> 'v overlay" where
  "overlay_step cfg (OverlaySet ck st room v) ov = fst (overlay_set cfg ck st room v ov)"
| "overlay_step cfg (OverlayClear room) ov = fst (overlay_clear room ov)"
| "overlay_step cfg (OverlaySettle room c) ov = fst (settle cfg room c ov)"
| "overlay_step cfg (OverlaySettleIfRead ck room st c) ov = fst (settle_if_read cfg ck room st c ov)"
| "overlay_step cfg (OverlayExpire room) ov = fst (overlay_expire room ov)"
| "overlay_step cfg OverlayShutdown ov = overlay_shutdown ov"

definition overlay_run :: "('v, 'c) overlay_config \<Rightarrow> ('v, 'c) overlay_op list \<Rightarrow> 'v overlay" where
  "overlay_run cfg ops = fold (overlay_step cfg) ops EMPTY_OVERLAY"

text \<open>The last write of a room that nothing withdrew since, and the time its display ends.\<close>

fun last_write :: "('v, 'c) overlay_config \<Rightarrow> string \<Rightarrow> ('v, 'c) overlay_op \<Rightarrow> ('v \<times> seconds) option
    \<Rightarrow> ('v \<times> seconds) option" where
  "last_write cfg room (OverlaySet ck st r v) w =
     (if r = room then Some (v, monotonic ck + ttl_seconds cfg) else w)"
| "last_write cfg room (OverlayClear r) w = (if r = room then None else w)"
| "last_write cfg room (OverlayExpire r) w = (if r = room then None else w)"
| "last_write cfg room OverlayShutdown w = None"
| "last_write cfg room _ w = w"

lemma overlay_ok_step: "overlay_ok cfg ov \<Longrightarrow> overlay_ok cfg (overlay_step cfg op ov)"
  by (cases op)
    (simp_all add: overlay_ok_set overlay_ok_clear overlay_ok_settle overlay_ok_settle_if_read
      overlay_ok_expire overlay_ok_shutdown)

lemma pending_step:
  "map_of (pending ov) room = None \<or> map_of (pending ov) room = w \<Longrightarrow>
     map_of (pending (overlay_step cfg op ov)) room = None
     \<or> map_of (pending (overlay_step cfg op ov)) room = last_write cfg room op w"
  by (cases op) (auto simp: overlay_defs Let_def update_conv delete_conv split: option.splits)

lemma overlay_active_pending:
  "overlay_active cfg ck room st c ov = Some v \<Longrightarrow>
     \<exists>until. map_of (pending ov) room = Some (v, until) \<and> monotonic ck < until"
  by (auto simp: overlay_active_def overlay_get_def split: option.splits if_splits)

text \<open>
  C37. A pending value shown is the last one written: after any sequence of writes, withdrawals, settled
  reads, expired timers and a shutdown, a value shown for a room was set by the last write of that room,
  its window is still open, and its expiry timer is running; no timer or baseline outlives its value.
\<close>

theorem overlay_shows_last_write:
  "overlay_ok cfg (overlay_run cfg ops)
   \<and> (case overlay_active cfg ck room st c (overlay_run cfg ops) of
        None \<Rightarrow> True
      | Some v \<Rightarrow> \<exists>until. fold (last_write cfg room) ops None = Some (v, until) \<and> monotonic ck < until
          \<and> map_of (expiry_timers (overlay_run cfg ops)) room = Some until)"
proof -
  have ok: "overlay_ok cfg ov \<Longrightarrow> overlay_ok cfg (fold (overlay_step cfg) ops ov)" for ov
    by (induction ops arbitrary: ov) (simp_all add: overlay_ok_step)
  have pend: "map_of (pending ov) room = None \<or> map_of (pending ov) room = w \<Longrightarrow>
      map_of (pending (fold (overlay_step cfg) ops ov)) room = None
      \<or> map_of (pending (fold (overlay_step cfg) ops ov)) room = fold (last_write cfg room) ops w" for ov w
    by (induction ops arbitrary: ov w) (simp_all add: pending_step)
  have run: "overlay_ok cfg (overlay_run cfg ops)"
    "map_of (pending (overlay_run cfg ops)) room = None
      \<or> map_of (pending (overlay_run cfg ops)) room = fold (last_write cfg room) ops None"
    using ok [OF overlay_ok_EMPTY] pend [of EMPTY_OVERLAY None]
    by (simp_all add: overlay_run_def EMPTY_OVERLAY_def)
  have timer: "map_of (expiry_timers (overlay_run cfg ops)) room
      = map_option snd (map_of (pending (overlay_run cfg ops)) room)"
    using run(1) by (simp add: overlay_ok_def)
  show ?thesis
    using run timer by (auto dest!: overlay_active_pending split: option.split)
qed

lemma read_since_overlay_set:
  "read_since_set cfg ck' room (Some s') (fst (overlay_set cfg ck (Some s) room v ov)) \<longleftrightarrow>
     (\<exists>g \<in> set (overlay_groups cfg). read_since ck' s' g (read_health_for s g))"
  by (auto simp: read_since_set_def overlay_defs Let_def update_conv list_ex_iff zip_map2
      zip_same_conv_map)

lemma overlay_set_pending:
  "map_of (pending (fst (overlay_set cfg ck st room v ov))) room
     = Some (v, monotonic ck + ttl_seconds cfg)"
  by (simp add: overlay_defs Let_def update_conv)

text \<open>
  The display of a write: its value is shown at once and until its window ends, whatever older reads
  reported; a fresh read of one of its groups after it that reports a matching value settles it, a read
  that does not match leaves it on display.
\<close>

lemma overlay_display_of_write:
  assumes "monotonic ck' < monotonic ck + ttl_seconds cfg"
  shows "overlay_active cfg ck' room (Some s') c (fst (overlay_set cfg ck (Some s) room v ov))
      = (if (\<exists>g \<in> set (overlay_groups cfg). read_since ck' s' g (read_health_for s g))
            \<and> overlay_matches cfg c v then None else Some v)
    \<and> snd (settle_if_read cfg ck' room (Some s') c (fst (overlay_set cfg ck (Some s) room v ov)))
      = ((\<exists>g \<in> set (overlay_groups cfg). read_since ck' s' g (read_health_for s g))
            \<and> overlay_matches cfg c v)"
  using assms
  by (auto simp: overlay_active_def overlay_get_def settle_if_read_def settle_def
      read_since_overlay_set overlay_set_pending Let_def)

lemma overlay_display_of_write_witness:
  "overlay_active \<lparr>ttl_seconds = 15, matches = (=), overlay_groups = [''flow_control'']\<rparr>
     \<lparr>monotonic = 110, utcnow = 110\<rparr> ''a'' (Some EMPTY_ROOM_STATE) (Some ''high'')
     (fst (overlay_set \<lparr>ttl_seconds = 15, matches = (=), overlay_groups = [''flow_control'']\<rparr>
       \<lparr>monotonic = 100, utcnow = 100\<rparr> (Some EMPTY_ROOM_STATE) ''a'' ''low'' EMPTY_OVERLAY)) = Some ''low''"
  by (subst overlay_display_of_write [THEN conjunct1]) simp_all

end
