(* ===== verification/Write_Confirmation.thy ===== *)
theory Write_Confirmation
  imports Overlay
begin

text \<open>
  \<open>write_confirmation.py\<close>: the last outcome of every write of a unit, judged by the readbacks after
  it. \<open>_on_issue\<close> calls are collected in order in the state.
\<close>

section \<open>Write keys\<close>

text \<open>
  The string keys of the source: \<open>"airflow_levels"\<close>, \<open>"operation_mode"\<close>, \<open>"preset_mode"\<close>,
  \<open>"intensive"\<close> and \<open>"control_setting:" + key\<close>.
\<close>

datatype write_key =
    AirflowLevels
  | OperationMode
  | PresetMode
  | Intensive
  | ControlSetting string

definition CONTROL_SETTING_WRITE_PREFIX :: string where
  "CONTROL_SETTING_WRITE_PREFIX = ''control_setting:''"

fun write_key_name :: "write_key \<Rightarrow> string" where
  "write_key_name AirflowLevels = ''airflow_levels''"
| "write_key_name OperationMode = ''operation_mode''"
| "write_key_name PresetMode = ''preset_mode''"
| "write_key_name Intensive = ''intensive''"
| "write_key_name (ControlSetting key) = CONTROL_SETTING_WRITE_PREFIX @ key"

lemma inj_write_key_name: "write_key_name k = write_key_name k' \<Longrightarrow> k = k'"
  by (cases k; cases k') (auto simp: CONTROL_SETTING_WRITE_PREFIX_def)

definition BASE_MODE_WRITES :: "write_key list" where [const_simps]:
  "BASE_MODE_WRITES = [AirflowLevels, OperationMode, PresetMode]"

definition FLOW_CONTROL_WRITES :: "write_key list" where [const_simps]:
  "FLOW_CONTROL_WRITES = BASE_MODE_WRITES @ [Intensive]"

definition WRITES_HIDDEN_BY_INTENSIVE :: "write_key list" where [const_simps]:
  "WRITES_HIDDEN_BY_INTENSIVE = [AirflowLevels, OperationMode]"

definition FINAL_STATUSES :: "write_status list" where [const_simps]:
  "FINAL_STATUSES = [WriteFailed, Confirmed, Superseded]"

definition CONFIRMABLE_STATUSES :: "write_status list" where [const_simps]:
  "CONFIRMABLE_STATUSES = [Pending, Unconfirmed, Mismatch, Unverifiable]"

definition UNHEALTHY_STATUSES :: "write_status list" where [const_simps]:
  "UNHEALTHY_STATUSES = [Unconfirmed, Mismatch, WriteFailed]"

text \<open>\<open>write_group\<close> on the strings of the source, with its \<open>ValueError\<close>, and on the keys.\<close>

definition write_group_str :: "string \<Rightarrow> meltem_error + string" where
  "write_group_str write_key =
     (if take (length CONTROL_SETTING_WRITE_PREFIX) write_key = CONTROL_SETTING_WRITE_PREFIX
      then Inr ''control_settings''
      else if write_key \<in> set (map write_key_name FLOW_CONTROL_WRITES) then Inr ''flow_control''
      else Inl (ValueError (''Unknown write confirmation key: '' @ write_key)))"

fun write_group :: "write_key \<Rightarrow> string" where
  "write_group (ControlSetting _) = ''control_settings''"
| "write_group _ = ''flow_control''"

lemma write_group_str_name: "write_group_str (write_key_name k) = Inr (write_group k)"
  by (cases k) (simp_all add: write_group_str_def CONTROL_SETTING_WRITE_PREFIX_def const_simps)

section \<open>State\<close>

record confirmations =
  by_room :: "(string, (write_key, write_confirmation) dict) dict"
  balanced_flow_converged :: "string set"
  issues :: "(string \<times> write_key \<times> write_status) list"

definition EMPTY_CONFIRMATIONS :: confirmations where
  "EMPTY_CONFIRMATIONS = \<lparr>by_room = [], balanced_flow_converged = {}, issues = []\<rparr>"

definition confirmations_of :: "confirmations \<Rightarrow> string \<Rightarrow> (write_key, write_confirmation) dict" where
  "confirmations_of wc room = dict_get (by_room wc) room []"

definition confirmation_of :: "confirmations \<Rightarrow> string \<Rightarrow> write_key \<Rightarrow> write_confirmation option" where
  "confirmation_of wc room write_key = map_of (confirmations_of wc room) write_key"

text \<open>\<open>self.by_room.setdefault(room_key, {})[write_key] = confirmation\<close>.\<close>

definition put_confirmation ::
  "string \<Rightarrow> write_key \<Rightarrow> write_confirmation \<Rightarrow> confirmations \<Rightarrow> confirmations" where
  "put_confirmation room write_key c wc =
     wc\<lparr>by_room := AList.update room (AList.update write_key c (confirmations_of wc room)) (by_room wc)\<rparr>"

lemma confirmation_of_put [simp]:
  "confirmation_of (put_confirmation room k c wc) room' k' =
     (if room' = room \<and> k' = k then Some c else confirmation_of wc room' k')"
  by (auto simp: confirmation_of_def confirmations_of_def put_confirmation_def update_conv)

lemma confirmation_of_cong:
  "by_room wc = by_room wc' \<Longrightarrow> confirmation_of wc = confirmation_of (wc' :: confirmations)"
  by (simp add: confirmation_of_def confirmations_of_def fun_eq_iff)

definition confirmation_status :: "clocks \<Rightarrow> write_confirmation \<Rightarrow> write_status" where
  "confirmation_status ck c =
     (if status c = Pending \<and> utcnow ck - started_at c > WRITE_CONFIRMATION_TIMEOUT_SECONDS
      then Unconfirmed else status c)"

definition recent :: "clocks \<Rightarrow> write_confirmation \<Rightarrow> bool" where
  "recent ck c \<longleftrightarrow> utcnow ck - started_at c \<le> WRITE_HEALTH_RETENTION_SECONDS"

section \<open>Recording writes\<close>

definition record_pending ::
  "clocks \<Rightarrow> string \<Rightarrow> write_key \<Rightarrow> write_value \<Rightarrow> read_health \<Rightarrow> confirmations \<Rightarrow> confirmations" where
  "record_pending ck room write_key expected base wc =
     (let wc1 = (if write_key = AirflowLevels
                 then wc\<lparr>balanced_flow_converged := balanced_flow_converged wc - {room}\<rparr> else wc)
      in put_confirmation room write_key
           \<lparr>expected_value = expected, started_at = utcnow ck, status = Pending,
            actual_value = None, write_error = None, issue_counted = False, baseline = base\<rparr> wc1)"

definition supersedes :: "write_key \<Rightarrow> write_key \<Rightarrow> write_confirmation \<Rightarrow> bool" where
  "supersedes write_key previous_key c \<longleftrightarrow>
     previous_key \<noteq> write_key \<and> previous_key \<in> set BASE_MODE_WRITES
     \<and> status c \<notin> set FINAL_STATUSES"

definition supersede ::
  "string \<Rightarrow> write_key \<Rightarrow> confirmations \<Rightarrow> confirmations \<times> write_key list" where
  "supersede room write_key wc =
     (if write_key \<notin> set BASE_MODE_WRITES then (wc, [])
      else let items = confirmations_of wc room;
               superseded = map fst (filter (\<lambda>(k, c). supersedes write_key k c) items);
               items' = map (\<lambda>(k, c).
                 (k, if supersedes write_key k c then c\<lparr>status := Superseded\<rparr> else c)) items
           in (if items = [] then wc else wc\<lparr>by_room := AList.update room items' (by_room wc)\<rparr>,
               superseded))"

definition unconfirmed_control_setting :: "confirmations \<Rightarrow> string \<Rightarrow> string \<Rightarrow> int option" where
  "unconfirmed_control_setting wc room setting_key =
     (case confirmation_of wc room (ControlSetting setting_key) of
        None \<Rightarrow> None
      | Some c \<Rightarrow>
          if status c = Pending \<or> status c = Unconfirmed
          then (case expected_value c of
                  WInt n \<Rightarrow> Some n | WBool b \<Rightarrow> Some (of_bool b) | _ \<Rightarrow> None)
          else None)"

text \<open>\<open>getattr(state, setting_key)\<close> for a control setting.\<close>

definition control_setting_value :: "room_state \<Rightarrow> string \<Rightarrow> int option" where
  "control_setting_value state setting_key =
     (if setting_key = ''humidity_starting_point'' then humidity_starting_point state
      else if setting_key = ''humidity_min_level'' then humidity_min_level state
      else if setting_key = ''humidity_max_level'' then humidity_max_level state
      else if setting_key = ''co2_starting_point'' then co2_starting_point state
      else if setting_key = ''co2_min_level'' then co2_min_level state
      else if setting_key = ''co2_max_level'' then co2_max_level state
      else None)"

definition current_control_level :: "confirmations \<Rightarrow> room_config \<Rightarrow> room_state \<Rightarrow> string \<Rightarrow> int option" where
  "current_control_level wc room state key =
     (case unconfirmed_control_setting wc (room_key room) key of
        Some n \<Rightarrow> Some n
      | None \<Rightarrow> control_setting_value state key)"

definition check_one_range ::
  "confirmations \<Rightarrow> room_config \<Rightarrow> room_state \<Rightarrow> string \<Rightarrow> int \<Rightarrow> string \<times> string
     \<Rightarrow> meltem_error + unit" where
  "check_one_range wc room state setting_key v rng =
     (let (min_key, max_key) = rng
      in if setting_key \<noteq> min_key \<and> setting_key \<noteq> max_key then Inr ()
         else (case normalize_control_setting setting_key v of
             Inl e \<Rightarrow> Inl e
           | Inr n \<Rightarrow>
               let minimum = (if setting_key = min_key then Some n
                              else current_control_level wc room state min_key);
                   maximum = (if setting_key = min_key
                              then current_control_level wc room state max_key else Some n)
               in (case (minimum, maximum) of
                     (Some lo, Some hi) \<Rightarrow>
                       if lo > hi then Inl (ServiceValidationError ''control_level_range'') else Inr ()
                   | _ \<Rightarrow> Inr ())))"

fun first_error :: "(meltem_error + unit) list \<Rightarrow> meltem_error + unit" where
  "first_error [] = Inr ()"
| "first_error (Inl e # _) = Inl e"
| "first_error (Inr _ # rs) = first_error rs"

definition check_control_level_range ::
  "confirmations \<Rightarrow> room_config \<Rightarrow> room_state \<Rightarrow> string \<Rightarrow> int \<Rightarrow> meltem_error + unit" where
  "check_control_level_range wc room state setting_key v =
     first_error (map (check_one_range wc room state setting_key v) CONTROL_LEVEL_RANGES)"

section \<open>The balanced target readback\<close>

definition flow_reached_readback :: "clocks \<Rightarrow> room_state \<Rightarrow> room_state \<Rightarrow> int \<Rightarrow> bool" where
  "flow_reached_readback ck state previous_state readback \<longleftrightarrow>
     group_fresh ck state ''flow''
     \<and> (levels_reached (supply_air_flow state, extract_air_flow state) (readback, readback)
        \<or> levels_reached (supply_air_flow previous_state, extract_air_flow previous_state)
            (readback, readback))"

definition balanced_readback_superseded_by_flow ::
  "clocks \<Rightarrow> room_state \<Rightarrow> room_state \<Rightarrow> int \<Rightarrow> bool \<Rightarrow> bool" where
  "balanced_readback_superseded_by_flow ck state previous_state readback recent_write =
     (case (target_level state, supply_air_flow state, extract_air_flow state) of
        (Some target, Some s, Some e) \<Rightarrow>
          if \<not> group_fresh ck state ''flow'' then False
          else let current_flow = (Some s, Some e)
               in if levels_reached current_flow (readback, readback) then False
                  else if \<not> levels_reached current_flow (target, target) then False
                  else \<not> recent_write
                       \<or> levels_reached
                           (supply_air_flow previous_state, extract_air_flow previous_state)
                           (readback, readback)
      | _ \<Rightarrow> False)"

definition has_recent_write :: "clocks \<Rightarrow> confirmations \<Rightarrow> string \<Rightarrow> write_key \<Rightarrow> bool" where
  "has_recent_write ck wc room write_key =
     (case confirmation_of wc room write_key of None \<Rightarrow> False | Some c \<Rightarrow> recent ck c)"

definition needs_confirmation :: "clocks \<Rightarrow> confirmations \<Rightarrow> string \<Rightarrow> write_key \<Rightarrow> bool" where
  "needs_confirmation ck wc room write_key =
     (case confirmation_of wc room write_key of
        None \<Rightarrow> False
      | Some c \<Rightarrow> status c \<in> set CONFIRMABLE_STATUSES \<and> recent ck c)"

definition prepare_balanced_target_readback ::
  "clocks \<Rightarrow> string \<Rightarrow> room_state \<Rightarrow> room_state \<Rightarrow> confirmations
     \<Rightarrow> confirmations \<times> room_state \<times> bool" where
  "prepare_balanced_target_readback ck room state previous_state wc =
     (if \<not> group_fresh ck state ''flow_control''
         \<or> intensive_active state = Some True
         \<or> \<not> in_modes (operation_mode state) [OPERATION_MODE_MANUAL, OPERATION_MODE_OFF]
      then (wc, state, False)
      else if needs_confirmation ck wc room AirflowLevels then (wc, state, True)
      else
        (case balanced_target_readback previous_state of
           None \<Rightarrow>
             (wc\<lparr>balanced_flow_converged := balanced_flow_converged wc - {room}\<rparr>, state, False)
         | Some readback \<Rightarrow>
             let wc1 = (if flow_reached_readback ck state previous_state readback
                        then wc\<lparr>balanced_flow_converged := insert room (balanced_flow_converged wc)\<rparr>
                        else wc)
             in if operation_mode state = operation_mode previous_state
                   \<and> preset_mode state = None
                   \<and> target_level state = target_level previous_state
                   \<and> \<not> balanced_readback_superseded_by_flow ck state previous_state readback
                        (has_recent_write ck wc1 room AirflowLevels
                         \<and> room \<notin> balanced_flow_converged wc1)
                then (wc1, state\<lparr>balanced_target_readback := Some readback\<rparr>, False)
                else (wc1\<lparr>balanced_flow_converged := balanced_flow_converged wc1 - {room}\<rparr>,
                      state, False)))"

section \<open>Judging writes\<close>

definition set_status ::
  "string \<Rightarrow> write_key \<Rightarrow> write_status \<Rightarrow> string option \<Rightarrow> write_value option \<Rightarrow> confirmations
     \<Rightarrow> confirmations \<times> bool" where
  "set_status room write_key st err actual wc =
     (case confirmation_of wc room write_key of
        None \<Rightarrow> (wc, False)
      | Some previous \<Rightarrow>
          let counted = (issue_counted previous \<or> st \<in> set UNHEALTHY_STATUSES);
              wc1 = put_confirmation room write_key
                (previous\<lparr>status := st, actual_value := actual, write_error := err,
                          issue_counted := counted\<rparr>) wc;
              wc2 = (if st \<in> set UNHEALTHY_STATUSES \<and> \<not> issue_counted previous
                     then wc1\<lparr>issues := issues wc1 @ [(room, write_key, st)]\<rparr> else wc1)
          in (wc2, True))"

definition mark_unconfirmed ::
  "string \<Rightarrow> write_key \<Rightarrow> string \<Rightarrow> confirmations \<Rightarrow> confirmations \<times> bool" where
  "mark_unconfirmed room write_key err wc =
     (case confirmation_of wc room write_key of
        None \<Rightarrow> (wc, False)
      | Some c \<Rightarrow>
          if status c \<noteq> Pending then (wc, False)
          else set_status room write_key Unconfirmed (Some err) None wc)"

fun readback_value :: "room_state \<Rightarrow> write_key \<Rightarrow> write_value option" where
  "readback_value state AirflowLevels =
     (if in_modes (operation_mode state) [OPERATION_MODE_MANUAL, OPERATION_MODE_OFF]
      then map_option (\<lambda>r. WPair r r) (balanced_target_readback state)
      else if operation_mode state \<noteq> Some OPERATION_MODE_UNBALANCED then None
      else (case target_levels state False of
              (Some s, Some e) \<Rightarrow> Some (WPair s e)
            | _ \<Rightarrow> None))"
| "readback_value state OperationMode = map_option WStr (operation_mode state)"
| "readback_value state PresetMode = map_option WStr (preset_mode state)"
| "readback_value state Intensive = map_option WBool (intensive_active state)"
| "readback_value state (ControlSetting key) = map_option WInt (control_setting_value state key)"

fun values_match :: "write_key \<Rightarrow> write_value \<Rightarrow> write_value \<Rightarrow> bool" where
  "values_match AirflowLevels (WPair es ee) (WPair s e) = levels_reached (Some s, Some e) (es, ee)"
| "values_match _ expected actual = value_eq actual expected"

definition checked_confirmation ::
  "room_state \<Rightarrow> write_key \<Rightarrow> write_confirmation \<Rightarrow> write_confirmation option" where
  "checked_confirmation state write_key c =
     (if status c \<in> set FINAL_STATUSES then None
      else let health = read_health_for state (write_group write_key)
      in if last_attempt health = None \<or> health = baseline c then None
         else if last_error health \<noteq> None
         then (if status c \<noteq> Pending then None
               else Some (c\<lparr>status := Unconfirmed, write_error := last_error health\<rparr>))
         else if write_key \<in> set WRITES_HIDDEN_BY_INTENSIVE \<and> intensive_active state = Some True
         then (if status c = Unverifiable then None
               else Some (c\<lparr>status := Unverifiable, write_error := None\<rparr>))
         else (case readback_value state write_key of
             None \<Rightarrow> None
           | Some actual \<Rightarrow>
               let st = (if values_match write_key (expected_value c) actual
                         then Confirmed else Mismatch)
               in if status c = st \<and> (case actual_value c of
                       None \<Rightarrow> False | Some a \<Rightarrow> value_eq a actual)
                  then None
                  else Some (c\<lparr>status := st, actual_value := Some actual, write_error := None\<rparr>)))"

text \<open>One step of the inner loop of \<open>confirm\<close>: the new entry, the issue it raises, and the change.\<close>

definition confirm_entry ::
  "clocks \<Rightarrow> room_state \<Rightarrow> write_key \<Rightarrow> write_confirmation
     \<Rightarrow> write_confirmation \<times> write_status option \<times> bool" where
  "confirm_entry ck state write_key c =
     (case checked_confirmation state write_key c of
        Some checked \<Rightarrow>
          if status checked \<in> set UNHEALTHY_STATUSES \<and> \<not> issue_counted c
          then (checked\<lparr>issue_counted := True\<rparr>, Some (status checked), True)
          else (checked, None, True)
      | None \<Rightarrow>
          if status c = Pending \<and> \<not> issue_counted c
             \<and> utcnow ck - started_at c > WRITE_CONFIRMATION_TIMEOUT_SECONDS
          then (c\<lparr>issue_counted := True\<rparr>, Some Unconfirmed, True)
          else (c, None, False))"

definition confirm_room ::
  "clocks \<Rightarrow> room_state \<Rightarrow> (write_key, write_confirmation) dict \<Rightarrow> (write_key, write_confirmation) dict" where
  "confirm_room ck state items = map (\<lambda>(k, c). (k, fst (confirm_entry ck state k c))) items"

definition room_issues ::
  "clocks \<Rightarrow> room_state \<Rightarrow> string \<Rightarrow> (write_key, write_confirmation) dict
     \<Rightarrow> (string \<times> write_key \<times> write_status) list" where
  "room_issues ck state room items =
     List.map_filter (\<lambda>(k, c).
       map_option (\<lambda>st. (room, k, st)) (fst (snd (confirm_entry ck state k c)))) items"

definition confirm ::
  "clocks \<Rightarrow> (string, room_state) dict \<Rightarrow> confirmations \<Rightarrow> confirmations \<times> bool" where
  "confirm ck states wc =
     (wc\<lparr>by_room := map (\<lambda>(room, items).
          (room, case map_of states room of
             None \<Rightarrow> items
           | Some state \<Rightarrow> confirm_room ck state items)) (by_room wc),
         issues := issues wc @ concat (map (\<lambda>(room, items).
           case map_of states room of
             None \<Rightarrow> []
           | Some state \<Rightarrow> room_issues ck state room items) (by_room wc))\<rparr>,
      list_ex (\<lambda>(room, items).
        case map_of states room of
          None \<Rightarrow> False
        | Some state \<Rightarrow> list_ex (\<lambda>(k, c). snd (snd (confirm_entry ck state k c))) items)
        (by_room wc))"

section \<open>Data health of the writes\<close>

definition has_any :: "confirmations \<Rightarrow> string \<Rightarrow> bool" where
  "has_any wc room \<longleftrightarrow> confirmations_of wc room \<noteq> []"

definition unhealthy :: "clocks \<Rightarrow> confirmations \<Rightarrow> string \<Rightarrow> bool" where
  "unhealthy ck wc room =
     list_ex (\<lambda>(_, c). confirmation_status ck c \<in> set UNHEALTHY_STATUSES \<and> recent ck c)
       (confirmations_of wc room)"

record write_attributes =
  attr_status :: write_status
  attr_expected_value :: write_value
  attr_actual_value :: "write_value option"
  attr_started_at :: datetime
  attr_write_error :: "string option"

definition write_attributes_of ::
  "clocks \<Rightarrow> confirmations \<Rightarrow> string \<Rightarrow> (string \<times> write_attributes) list" where
  "write_attributes_of ck wc room =
     map (\<lambda>(k, c). (write_key_name k,
       \<lparr>attr_status = confirmation_status ck c, attr_expected_value = expected_value c,
        attr_actual_value = actual_value c, attr_started_at = started_at c,
        attr_write_error = write_error c\<rparr>)) (confirmations_of wc room)"

section \<open>Reading the table after each operation\<close>

lemma map_of_map_entries:
  "map_of (map (\<lambda>(k, v). (k, f k v)) d) k = map_option (f k) (map_of d k)"
  by (induction d) auto

lemma keys_map_entries [simp]: "map fst (map (\<lambda>(k, v). (k, f k v)) d) = map fst d"
  by (induction d) auto

lemma keys_map_entries_comp [simp]: "map (fst \<circ> (\<lambda>(k, v). (k, f k v))) d = map fst d"
  by (induction d) auto

lemma confirmation_of_record_pending:
  "confirmation_of (record_pending ck room k v h wc) room' k' =
     (if room' = room \<and> k' = k
      then Some \<lparr>expected_value = v, started_at = utcnow ck, status = Pending, actual_value = None,
                 write_error = None, issue_counted = False, baseline = h\<rparr>
      else confirmation_of wc room' k')"
  by (simp add: record_pending_def Let_def)
    (auto intro!: fun_cong [OF fun_cong [OF confirmation_of_cong]])

lemma confirmation_of_supersede:
  "confirmation_of (fst (supersede room k wc)) room' k' =
     map_option (\<lambda>c. if room' = room \<and> k \<in> set BASE_MODE_WRITES \<and> supersedes k k' c
                      then c\<lparr>status := Superseded\<rparr> else c)
       (confirmation_of wc room' k')"
proof (cases "k \<in> set BASE_MODE_WRITES \<and> confirmations_of wc room \<noteq> []")
  case True
  then show ?thesis
    by (auto simp: supersede_def Let_def confirmation_of_def confirmations_of_def map_of_map_entries
        option.map_ident cong: option.map_cong)
next
  case False
  then have "fst (supersede room k wc) = wc" by (auto simp: supersede_def Let_def)
  moreover have "map_option (\<lambda>c. if room' = room \<and> k \<in> set BASE_MODE_WRITES \<and> supersedes k k' c
      then c\<lparr>status := Superseded\<rparr> else c) (confirmation_of wc room' k') = confirmation_of wc room' k'"
    using False by (cases "room' = room") (auto simp: confirmation_of_def option.map_ident)
  ultimately show ?thesis by simp
qed

lemma confirmation_of_confirm:
  "confirmation_of (fst (confirm ck states wc)) room k =
     (case map_of states room of
        None \<Rightarrow> confirmation_of wc room k
      | Some state \<Rightarrow>
          map_option (\<lambda>c. fst (confirm_entry ck state k c)) (confirmation_of wc room k))"
proof -
  have "confirmations_of (fst (confirm ck states wc)) room =
      (case map_of states room of
         None \<Rightarrow> confirmations_of wc room
       | Some state \<Rightarrow> confirm_room ck state (confirmations_of wc room))"
    by (auto simp: confirmations_of_def confirm_def dict_get_def map_of_map_entries confirm_room_def
        split: option.split)
  then show ?thesis
    by (simp add: confirmation_of_def confirm_room_def map_of_map_entries split: option.split)
qed

lemma confirmation_of_set_status:
  "confirmation_of (fst (set_status room k st e a wc)) room' k' =
     map_option (\<lambda>c. if room' = room \<and> k' = k
       then c\<lparr>status := st, actual_value := a, write_error := e,
              issue_counted := issue_counted c \<or> st \<in> set UNHEALTHY_STATUSES\<rparr> else c)
       (confirmation_of wc room' k')"
proof (cases "confirmation_of wc room k")
  case None
  then show ?thesis
    by (cases "room' = room \<and> k' = k") (auto simp: set_status_def option.map_ident)
next
  case (Some c)
  have "confirmation_of (fst (set_status room k st e a wc)) =
      confirmation_of (put_confirmation room k
        (c\<lparr>status := st, actual_value := a, write_error := e,
           issue_counted := issue_counted c \<or> st \<in> set UNHEALTHY_STATUSES\<rparr>) wc)"
    by (rule confirmation_of_cong) (simp add: set_status_def Some Let_def)
  then show ?thesis by (auto simp: Some option.map_ident)
qed

section \<open>Judging is sound\<close>

text \<open>Nothing is judged before a read after the write: an unchanged health leaves the entry.\<close>

lemma checked_needs_later_read:
  "read_health_for state (write_group k) = baseline c \<Longrightarrow> checked_confirmation state k c = None"
  by (simp add: checked_confirmation_def Let_def)

lemma checked_final: "status c \<in> set FINAL_STATUSES \<Longrightarrow> checked_confirmation state k c = None"
  by (simp add: checked_confirmation_def)

lemma checked_keeps:
  assumes "checked_confirmation state k c = Some c'"
  shows "expected_value c' = expected_value c" "started_at c' = started_at c"
    "baseline c' = baseline c" "issue_counted c' = issue_counted c"
    "status c' \<in> {Confirmed, Mismatch, Unconfirmed, Unverifiable}"
  using assms
  by (auto simp: checked_confirmation_def Let_def split: if_splits option.splits)

text \<open>A confirmation rests on an error-free later readback whose value matches.\<close>

lemma checked_confirmed:
  assumes "checked_confirmation state k c = Some c'" "status c' = Confirmed"
  obtains actual where "readback_value state k = Some actual"
    "values_match k (expected_value c) actual" "actual_value c' = Some actual"
    "last_error (read_health_for state (write_group k)) = None"
    "read_health_for state (write_group k) \<noteq> baseline c"
  using assms
  by (auto simp: checked_confirmation_def Let_def split: if_splits option.splits)

lemma confirm_entry_final:
  "status c \<in> set FINAL_STATUSES \<Longrightarrow> confirm_entry ck state k c = (c, None, False)"
  by (auto simp: confirm_entry_def checked_final const_simps)

text \<open>An entry is counted as an issue exactly when the step reports one.\<close>

lemma confirm_entry_counts:
  "issue_counted (fst (confirm_entry ck state k c)) \<longleftrightarrow>
     issue_counted c \<or> fst (snd (confirm_entry ck state k c)) \<noteq> None"
  "fst (snd (confirm_entry ck state k c)) \<noteq> None \<Longrightarrow> \<not> issue_counted c"
  by (auto simp: confirm_entry_def dest: checked_keeps split: option.splits if_splits)

lemma confirm_entry_unhealthy_counted:
  assumes "status c \<in> set UNHEALTHY_STATUSES \<Longrightarrow> issue_counted c"
    and "status (fst (confirm_entry ck state k c)) \<in> set UNHEALTHY_STATUSES"
  shows "issue_counted (fst (confirm_entry ck state k c))"
  using assms
  by (auto simp: confirm_entry_def dest: checked_keeps split: option.splits if_splits)

section \<open>Control level ranges\<close>

text \<open>A setting that passes the check never leaves a minimum above the maximum of its control.\<close>

lemma check_control_level_range_sound:
  assumes "check_control_level_range wc room state setting_key v = Inr ()"
    and "(min_key, max_key) \<in> set CONTROL_LEVEL_RANGES"
    and "setting_key = min_key \<or> setting_key = max_key"
    and "normalize_control_setting setting_key v = Inr n"
    and "current_control_level wc room state
           (if setting_key = min_key then max_key else min_key) = Some other"
  shows "if setting_key = min_key then n \<le> other else other \<le> n"
  using assms
  by (auto simp: check_control_level_range_def check_one_range_def CONTROL_LEVEL_RANGES_def Let_def
      split: if_splits option.splits sum.splits)

lemma check_control_level_range_only_levels:
  assumes "\<forall>(min_key, max_key) \<in> set CONTROL_LEVEL_RANGES. setting_key \<noteq> min_key \<and> setting_key \<noteq> max_key"
  shows "check_control_level_range wc room state setting_key v = Inr ()"
  using assms
  by (simp add: check_control_level_range_def check_one_range_def CONTROL_LEVEL_RANGES_def)

section \<open>The balanced target readback\<close>

text \<open>The extra register is read only while a write of the airflow can still be confirmed.\<close>

lemma prepare_reads_only_if_needed:
  "prepare_balanced_target_readback ck room s p wc = (wc', s', True) \<Longrightarrow>
     needs_confirmation ck wc room AirflowLevels \<and> s' = s \<and> wc' = wc
     \<and> group_fresh ck s ''flow_control''
     \<and> in_modes (operation_mode s) [OPERATION_MODE_MANUAL, OPERATION_MODE_OFF]"
  by (auto simp: prepare_balanced_target_readback_def Let_def split: if_splits option.splits)

text \<open>Preparing a readback touches neither outcomes nor issues, and of the state only the readback.\<close>

lemma prepare_frame:
  assumes "prepare_balanced_target_readback ck room s p wc = (wc', s', b)"
  shows "by_room wc' = by_room wc" "issues wc' = issues wc"
    "s'\<lparr>balanced_target_readback := x\<rparr> = s\<lparr>balanced_target_readback := x\<rparr>"
    "s' = s \<or> balanced_target_readback s' = balanced_target_readback p"
  using assms
  by (auto simp: prepare_balanced_target_readback_def Let_def split: if_splits option.splits)

section \<open>Every write is counted at most once\<close>

text \<open>The operations of the class, as the coordinator interleaves them.\<close>

datatype wc_op =
    OpRecordPending clocks string write_key write_value read_health
  | OpSupersede string write_key
  | OpSetStatus string write_key write_status "string option" "write_value option"
  | OpMarkUnconfirmed string write_key string
  | OpPrepare clocks string room_state room_state
  | OpConfirm clocks "(string, room_state) dict"

fun wc_step :: "wc_op \<Rightarrow> confirmations \<Rightarrow> confirmations" where
  "wc_step (OpRecordPending ck room k v h) wc = record_pending ck room k v h wc"
| "wc_step (OpSupersede room k) wc = fst (supersede room k wc)"
| "wc_step (OpSetStatus room k st e a) wc = fst (set_status room k st e a wc)"
| "wc_step (OpMarkUnconfirmed room k e) wc = fst (mark_unconfirmed room k e wc)"
| "wc_step (OpPrepare ck room s p) wc = fst (prepare_balanced_target_readback ck room s p wc)"
| "wc_step (OpConfirm ck states) wc = fst (confirm ck states wc)"

definition confirmations_wf :: "confirmations \<Rightarrow> bool" where
  "confirmations_wf wc \<longleftrightarrow>
     distinct (map fst (by_room wc)) \<and> (\<forall>items \<in> snd ` set (by_room wc). distinct (map fst items))"

text \<open>Whatever is unhealthy has been reported.\<close>

definition issues_reported :: "confirmations \<Rightarrow> bool" where
  "issues_reported wc \<longleftrightarrow>
     (\<forall>room k c. confirmation_of wc room k = Some c \<longrightarrow>
        status c \<in> set UNHEALTHY_STATUSES \<longrightarrow> issue_counted c)"

definition issues_for :: "string \<Rightarrow> write_key \<Rightarrow> (string \<times> write_key \<times> write_status) list \<Rightarrow> nat" where
  "issues_for room k xs = length (filter (\<lambda>(r, k', _). r = room \<and> k' = k) xs)"

lemma issues_for_simps [simp]:
  "issues_for room k [] = 0"
  "issues_for room k (xs @ ys) = issues_for room k xs + issues_for room k ys"
  "issues_for room k [(r, j, st)] = of_bool (r = room \<and> j = k)"
  by (simp_all add: issues_for_def)

definition issue_count :: "confirmations \<Rightarrow> string \<Rightarrow> write_key \<Rightarrow> nat" where
  "issue_count wc room k = issues_for room k (issues wc)"

definition issue_budget :: "confirmations \<Rightarrow> string \<Rightarrow> write_key \<Rightarrow> nat" where
  "issue_budget wc room k =
     (case confirmation_of wc room k of None \<Rightarrow> 0 | Some c \<Rightarrow> if issue_counted c then 0 else 1)"

fun records :: "string \<Rightarrow> write_key \<Rightarrow> wc_op \<Rightarrow> bool" where
  "records room k (OpRecordPending _ room' k' _ _) \<longleftrightarrow> room' = room \<and> k' = k"
| "records room k _ = False"

lemma confirmations_of_wf:
  "confirmations_wf wc \<Longrightarrow> distinct (map fst (confirmations_of wc room))"
  by (auto simp: confirmations_wf_def confirmations_of_def dict_get_def split: option.split
      dest!: map_of_SomeD)

lemma confirmations_wf_EMPTY: "confirmations_wf EMPTY_CONFIRMATIONS"
  by (simp add: confirmations_wf_def EMPTY_CONFIRMATIONS_def)

lemma confirmations_wf_update:
  assumes "confirmations_wf wc" "distinct (map fst items)" "by_room wc' = AList.update room items (by_room wc)"
  shows "confirmations_wf wc'"
proof -
  have "snd ` set (AList.update room items d) \<subseteq> insert items (snd ` set d)"
    for d :: "(string, (write_key, write_confirmation) dict) dict"
    by (induction d) auto
  then show ?thesis
    using assms by (fastforce simp: confirmations_wf_def distinct_update)
qed

lemma confirmations_wf_put: "confirmations_wf wc \<Longrightarrow> confirmations_wf (put_confirmation room k c wc)"
  by (rule confirmations_wf_update) (simp_all add: put_confirmation_def distinct_update confirmations_of_wf)

lemma confirmations_wf_cong: "by_room wc' = by_room wc \<Longrightarrow> confirmations_wf wc' = confirmations_wf wc"
  by (simp add: confirmations_wf_def)

lemma confirmations_wf_set_status:
  "confirmations_wf wc \<Longrightarrow> confirmations_wf (fst (set_status room k st e a wc))"
  by (auto simp: set_status_def Let_def confirmations_wf_put split: option.split
      intro: confirmations_wf_cong [THEN iffD2] confirmations_wf_put)

lemma confirmations_wf_confirm:
  assumes "confirmations_wf wc" shows "confirmations_wf (fst (confirm ck states wc))"
  using assms
  by (auto simp: confirmations_wf_def confirm_def confirm_room_def split: option.split)

lemma confirmations_wf_step: "confirmations_wf wc \<Longrightarrow> confirmations_wf (wc_step op wc)"
proof (cases op)
  case (OpRecordPending ck room k v h)
  assume "confirmations_wf wc"
  then show ?thesis
    by (auto simp: OpRecordPending record_pending_def Let_def
        intro!: confirmations_wf_put intro: confirmations_wf_cong [THEN iffD2])
next
  case (OpSupersede room k)
  assume wf: "confirmations_wf wc"
  show ?thesis
  proof (cases "k \<in> set BASE_MODE_WRITES \<and> confirmations_of wc room \<noteq> []")
    case True
    with wf show ?thesis
      by (intro confirmations_wf_update [OF wf]) (auto simp: OpSupersede supersede_def Let_def confirmations_of_wf)
  next
    case False
    with wf show ?thesis by (auto simp: OpSupersede supersede_def Let_def)
  qed
next
  case (OpMarkUnconfirmed room k e)
  assume "confirmations_wf wc"
  then show ?thesis
    by (auto simp: OpMarkUnconfirmed mark_unconfirmed_def confirmations_wf_set_status split: option.split)
next
  case (OpPrepare ck room s p)
  assume "confirmations_wf wc"
  then show ?thesis
    by (cases "prepare_balanced_target_readback ck room s p wc")
      (auto simp: OpPrepare dest: prepare_frame(1) intro: confirmations_wf_cong [THEN iffD2])
qed (simp_all add: confirmations_wf_set_status confirmations_wf_confirm)

definition may_report :: "clocks \<Rightarrow> room_state \<Rightarrow> write_key \<Rightarrow> write_confirmation option \<Rightarrow> nat" where
  "may_report ck s k entry =
     (case entry of
        None \<Rightarrow> 0
      | Some c \<Rightarrow> if fst (snd (confirm_entry ck s k c)) = None then 0 else 1)"

lemma may_report_None [simp]: "may_report ck s k None = 0"
  by (simp add: may_report_def)

lemma room_issues_other: "r \<noteq> room \<Longrightarrow> issues_for room k (room_issues ck s r items) = 0"
  by (auto simp: issues_for_def room_issues_def filter_empty_conv List.map_filter_def)

lemma room_issues_count:
  "distinct (map fst items) \<Longrightarrow>
     issues_for room k (room_issues ck s room items) = may_report ck s k (map_of items k)"
proof (induction items)
  case (Cons p items)
  obtain j c where p: "p = (j, c)" by fastforce
  have step: "room_issues ck s room (p # items) =
      (case fst (snd (confirm_entry ck s j c)) of None \<Rightarrow> [] | Some st \<Rightarrow> [(room, j, st)])
        @ room_issues ck s room items"
    by (simp add: p room_issues_def List.map_filter_simps split: option.split)
  have ih: "issues_for room k (room_issues ck s room items) = may_report ck s k (map_of items k)"
    using Cons by simp
  show ?case
  proof (cases "j = k")
    case True
    have "map_of items k = None" using Cons.prems by (simp add: p True map_of_eq_None_iff)
    then show ?thesis
      unfolding step using ih by (auto simp: p True may_report_def split: option.split)
  next
    case False
    then show ?thesis unfolding step using ih by (auto simp: p split: option.split)
  qed
qed (simp add: room_issues_def List.map_filter_simps)

lemma confirm_issues_count:
  assumes "distinct (map fst d)" "\<forall>items \<in> snd ` set d. distinct (map fst items)"
  shows "issues_for room k
      (concat (map (\<lambda>(room, items). case map_of states room of
          None \<Rightarrow> [] | Some state \<Rightarrow> room_issues ck state room items) d))
    = (case map_of states room of
         None \<Rightarrow> 0 | Some s \<Rightarrow> may_report ck s k (map_of (dict_get d room []) k))"
  using assms
proof (induction d)
  case (Cons p d)
  obtain r items where p: "p = (r, items)" by fastforce
  have items: "distinct (map fst items)" using Cons.prems by (simp add: p)
  show ?case
  proof (cases "r = room")
    case True
    have "map_of d room = None" using Cons.prems by (simp add: p True map_of_eq_None_iff)
    then have "dict_get d room [] = []" by (simp add: dict_get_def)
    with Cons items show ?thesis
      by (simp add: p True room_issues_count split: option.splits) (simp add: dict_get_def)
  next
    case False
    with Cons show ?thesis
      by (simp add: p dict_get_def room_issues_other split: option.splits)
  qed
qed (simp add: dict_get_def split: option.split)

text \<open>
  The issues reported for one command plus what it may still report never grow, except by the one
  a newly accepted write adds.
\<close>

lemma issues_set_status:
  "issues (fst (set_status room k st e a wc)) = issues wc @
     (case confirmation_of wc room k of
        None \<Rightarrow> []
      | Some c \<Rightarrow> if st \<in> set UNHEALTHY_STATUSES \<and> \<not> issue_counted c then [(room, k, st)] else [])"
  by (simp add: set_status_def put_confirmation_def Let_def split: option.split)

lemma issue_potential_set_status:
  "issue_count (fst (set_status room' k' st e a wc)) room k
      + issue_budget (fst (set_status room' k' st e a wc)) room k
    \<le> issue_count wc room k + issue_budget wc room k"
proof (cases "room' = room \<and> k' = k")
  case True
  then show ?thesis
    unfolding issue_count_def issue_budget_def confirmation_of_set_status issues_set_status
    by (cases "confirmation_of wc room k") simp_all
next
  case False
  then show ?thesis
    unfolding issue_count_def issue_budget_def confirmation_of_set_status issues_set_status
    by (cases "confirmation_of wc room' k'"; cases "confirmation_of wc room k") auto
qed

lemma issue_potential_step:
  assumes "confirmations_wf wc"
  shows "issue_count (wc_step op wc) room k + issue_budget (wc_step op wc) room k
    \<le> issue_count wc room k + issue_budget wc room k + of_bool (records room k op)"
proof (cases op)
  case (OpRecordPending ck room' k' v h)
  have "issues (record_pending ck room' k' v h wc) = issues wc"
    by (simp add: record_pending_def put_confirmation_def Let_def)
  then show ?thesis
    unfolding OpRecordPending issue_count_def issue_budget_def wc_step.simps
      confirmation_of_record_pending by auto
next
  case (OpSupersede room' k')
  have "issues (fst (supersede room' k' wc)) = issues wc"
    by (simp add: supersede_def Let_def)
  then show ?thesis
    unfolding OpSupersede issue_count_def issue_budget_def wc_step.simps confirmation_of_supersede
    by (cases "confirmation_of wc room k") auto
next
  case (OpSetStatus room' k' st e a)
  then show ?thesis using issue_potential_set_status by (simp add: trans_le_add1)
next
  case (OpMarkUnconfirmed room' k' e)
  then show ?thesis
    by (auto simp: mark_unconfirmed_def intro: trans_le_add1 issue_potential_set_status
        split: option.split)
next
  case (OpPrepare ck room' s p)
  obtain wc' s' b where prep: "prepare_balanced_target_readback ck room' s p wc = (wc', s', b)"
    by (cases "prepare_balanced_target_readback ck room' s p wc")
  show ?thesis
    using prepare_frame(2) [OF prep] confirmation_of_cong [OF prepare_frame(1) [OF prep]]
    by (simp add: OpPrepare prep issue_count_def issue_budget_def)
next
  case (OpConfirm ck states)
  have "issue_count (wc_step op wc) room k = issue_count wc room k
      + (case map_of states room of
           None \<Rightarrow> 0 | Some s \<Rightarrow> may_report ck s k (confirmation_of wc room k))"
    using assms
    by (simp add: OpConfirm issue_count_def confirm_def confirm_issues_count confirmations_wf_def
        confirmation_of_def confirmations_of_def split: option.split)
  then show ?thesis
    using confirm_entry_counts
    by (auto simp: OpConfirm issue_budget_def may_report_def confirmation_of_confirm
        split: option.splits)
qed

lemma issue_potential_run:
  "confirmations_wf wc \<Longrightarrow>
     issue_count (fold wc_step ops wc) room k + issue_budget (fold wc_step ops wc) room k
       \<le> issue_count wc room k + issue_budget wc room k + length (filter (records room k) ops)"
proof (induction ops arbitrary: wc)
  case (Cons op ops)
  have "confirmations_wf (wc_step op wc)" using Cons.prems by (rule confirmations_wf_step)
  from Cons.IH [OF this] issue_potential_step [OF Cons.prems, of op room k]
  show ?case by auto
qed simp

lemma issues_reported_set_status:
  "issues_reported wc \<Longrightarrow> issues_reported (fst (set_status room k st e a wc))"
  by (auto simp: issues_reported_def confirmation_of_set_status)

lemma issues_reported_step:
  assumes "issues_reported wc" shows "issues_reported (wc_step op wc)"
proof (cases op)
  case (OpRecordPending ck room k v h)
  with assms show ?thesis
    by (auto simp: issues_reported_def confirmation_of_record_pending const_simps)
next
  case (OpSupersede room k)
  with assms show ?thesis
    by (auto simp: issues_reported_def confirmation_of_supersede const_simps split: if_splits)
next
  case (OpMarkUnconfirmed room k e)
  with assms show ?thesis
    by (auto simp: mark_unconfirmed_def issues_reported_set_status split: option.split)
next
  case (OpPrepare ck room s p)
  with assms show ?thesis
    by (cases "prepare_balanced_target_readback ck room s p wc")
      (auto simp: issues_reported_def dest: confirmation_of_cong [OF prepare_frame(1)])
next
  case (OpConfirm ck states)
  with assms show ?thesis
    unfolding issues_reported_def wc_step.simps OpConfirm confirmation_of_confirm
    by (fastforce split: option.splits intro: confirm_entry_unhealthy_counted)
qed (use assms in \<open>simp add: issues_reported_set_status\<close>)

section \<open>Properties of the outcomes\<close>

lemma checked_attempted:
  "checked_confirmation s k c = Some c' \<Longrightarrow> last_attempt (read_health_for s (write_group k)) \<noteq> None"
  by (auto simp: checked_confirmation_def Let_def split: if_splits)

text \<open>
  C8. A write is confirmed only by a later reading: whenever a readback round turns an outcome into
  confirmed, the state it looked at was read without an error after the write, its health differs from
  the one at the write, and the value read matches the value written.
\<close>

theorem confirmed_only_by_readback:
  assumes "confirmation_of wc room k = Some c" "status c \<noteq> Confirmed"
    and "confirmation_of (fst (confirm ck states wc)) room k = Some c'" "status c' = Confirmed"
  shows "\<exists>s actual. map_of states room = Some s \<and> readback_value s k = Some actual
    \<and> values_match k (expected_value c) actual
    \<and> last_attempt (read_health_for s (write_group k)) \<noteq> None
    \<and> last_error (read_health_for s (write_group k)) = None
    \<and> read_health_for s (write_group k) \<noteq> baseline c
    \<and> expected_value c' = expected_value c \<and> started_at c' = started_at c"
proof -
  obtain s where s: "map_of states room = Some s"
    using assms by (cases "map_of states room") (auto simp: confirmation_of_confirm)
  then have c': "c' = fst (confirm_entry ck s k c)"
    using assms(1,3) by (simp add: confirmation_of_confirm)
  then obtain d where d: "checked_confirmation s k c = Some d"
    using assms(2,4) by (auto simp: confirm_entry_def split: option.splits if_splits)
  have "status d = Confirmed" "expected_value c' = expected_value d" "started_at c' = started_at d"
    using assms(4) d by (auto simp: c' confirm_entry_def split: if_splits)
  with d s show ?thesis
    using checked_keeps(1,2) [OF d] checked_confirmed [OF d] checked_attempted [OF d] by metis
qed

definition example_mode_read :: room_state where
  "example_mode_read =
     with_read_health (EMPTY_ROOM_STATE\<lparr>operation_mode := Some ''manual''\<rparr>) ''flow_control'' (succeeded 9 9)"

definition example_pending_mode :: confirmations where
  "example_pending_mode =
     record_pending \<lparr>monotonic = 5, utcnow = 5\<rparr> ''a'' OperationMode (WStr ''manual'') EMPTY_READ_HEALTH
       EMPTY_CONFIRMATIONS"

lemma example_mode_read_simps [simp]:
  "read_health_for example_mode_read ''flow_control'' = succeeded 9 9"
  "operation_mode example_mode_read = Some ''manual''"
  "intensive_active example_mode_read = None"
  by (simp_all add: example_mode_read_def) (simp_all add: with_read_health_def Let_def EMPTY_ROOM_STATE_def)

lemma confirmed_only_by_readback_witness:
  "\<exists>s actual. map_of [(''a'', example_mode_read)] ''a'' = Some s
    \<and> readback_value s OperationMode = Some actual \<and> values_match OperationMode (WStr ''manual'') actual"
proof -
  define c where "c = \<lparr>expected_value = WStr ''manual'', started_at = 5, status = Pending, actual_value = None,
     write_error = None, issue_counted = False, baseline = EMPTY_READ_HEALTH\<rparr>"
  have c: "confirmation_of example_pending_mode ''a'' OperationMode = Some c"
    by (simp add: example_pending_mode_def confirmation_of_record_pending c_def)
  have differs: "succeeded 9 9 \<noteq> EMPTY_READ_HEALTH" by (simp add: succeeded_def EMPTY_READ_HEALTH_def)
  have "confirmation_of (fst (confirm \<lparr>monotonic = 10, utcnow = 10\<rparr> [(''a'', example_mode_read)]
      example_pending_mode)) ''a'' OperationMode
      = Some (c\<lparr>status := Confirmed, actual_value := Some (WStr ''manual''), write_error := None\<rparr>)"
    by (simp add: confirmation_of_confirm c confirm_entry_def checked_confirmation_def differs const_simps)
      (simp add: c_def differs const_simps)
  from confirmed_only_by_readback [OF c _ this] show ?thesis by (auto simp: c_def)
qed


text \<open>
  A control level that passes the range check keeps its minimum at or below its maximum, against the
  other bound as it was last written or read.
\<close>

lemma control_levels_stay_ordered:
  assumes "check_control_level_range wc room s setting_key v = Inr ()"
    and "(min_key, max_key) \<in> set CONTROL_LEVEL_RANGES"
    and "setting_key = min_key \<or> setting_key = max_key"
    and "normalize_control_setting setting_key v = Inr n"
    and "current_control_level wc room s
           (if setting_key = min_key then max_key else min_key) = Some other"
  shows "if setting_key = min_key then n \<le> other else other \<le> n"
  using assms by (rule check_control_level_range_sound)

lemma control_levels_stay_ordered_witness:
  "\<exists>n. normalize_control_setting ''co2_min_level'' 57 = Inr n \<and> n \<le> 80"
proof -
  let ?s = "EMPTY_ROOM_STATE\<lparr>co2_max_level := Some 80\<rparr>"
  have "normalize_control_setting ''co2_min_level'' 57 = Inr 60"
    by (simp add: normalize_control_setting_def const_simps)
  from control_levels_stay_ordered [OF _ _ _ this, of EMPTY_CONFIRMATIONS "plain_room ''a'' 2" ?s
      "''co2_min_level''" "''co2_max_level''" 80]
  show ?thesis
    by (simp add: check_control_level_range_def check_one_range_def const_simps
        normalize_control_setting_def current_control_level_def unconfirmed_control_setting_def
        confirmation_of_def confirmations_of_def EMPTY_CONFIRMATIONS_def control_setting_value_def)
qed

end
