(* ===== verification/Transport_Policy.thy ===== *)
theory Transport_Policy
  imports Meltem_Models
begin

text \<open>
  \<open>device/transport.py\<close>: the retry policy every unit behind one gateway link shares. The link
  itself (\<open>modbus_connection\<close>) is a parameter: a function from the world, the time and the request to
  the time it takes, the reply and the new world. Everything \<open>asyncio\<close> may interleave at an
  \<open>await\<close> reduces to the clock moving and to \<open>shutdown\<close> being called, so both are part of a reply.
  The operation lock serialises \<open>run\<close>, hence one request at a time.
\<close>

section \<open>The link\<close>

datatype request =
    ReadHolding int int
  | WriteRegister int int
  | WriteRegisters int "int list"

fun is_read :: "request \<Rightarrow> bool" where
  "is_read (ReadHolding _ _) = True"
| "is_read _ = False"

fun first_arg :: "request \<Rightarrow> int" where
  "first_arg (ReadHolding address _) = address"
| "first_arg (WriteRegister address _) = address"
| "first_arg (WriteRegisters address _) = address"

datatype reply = Answered "int list" | Raised exn | TaskCancelled

text \<open>
  \<open>env_request now unit request world\<close> gives the seconds until the reply, whether the client was shut
  down meanwhile, the reply and the world after it. \<open>superclasses\<close> is the class hierarchy of the
  package, which the exceptions raised here join.
\<close>

record 'w link_env =
  env_request :: "seconds \<Rightarrow> int \<Rightarrow> request \<Rightarrow> 'w \<Rightarrow> seconds \<times> bool \<times> reply \<times> 'w"
  env_sleep :: "seconds \<Rightarrow> 'w \<Rightarrow> seconds \<times> bool \<times> 'w"
  env_disconnect :: "seconds \<Rightarrow> int \<Rightarrow> 'w \<Rightarrow> seconds \<times> exn option \<times> 'w"
  superclasses :: "exn_class \<Rightarrow> exn_class list"

definition new_exn :: "'w link_env \<Rightarrow> exn_class \<Rightarrow> string \<Rightarrow> exn" where
  "new_exn env c text = \<lparr>isa = c # superclasses env c, message = text\<rparr>"

definition GATEWAY_TARGET_ERRORS :: "exn_class list" where [const_simps]:
  "GATEWAY_TARGET_ERRORS = [GatewayTargetError, GatewayPathUnavailableError]"

definition NO_ANSWER_ERRORS :: "exn_class list" where [const_simps]:
  "NO_ANSWER_ERRORS = [ModbusTimeoutError, ModbusProtocolError]"

definition RETRYABLE_ERRORS :: "exn_class list" where [const_simps]:
  "RETRYABLE_ERRORS = GATEWAY_TARGET_ERRORS @ NO_ANSWER_ERRORS"

definition COMMUNICATION_WINDOW_SECONDS :: seconds where [simp]:
  "COMMUNICATION_WINDOW_SECONDS = 300"

datatype request_outcome = Success | NoAnswer | ModbusException | OtherOutcome

section \<open>State\<close>

record transport =
  disconnect_after_timeouts :: int
  link_quiet_seconds :: seconds
  connection_retry_delay :: seconds
  consecutive_timeouts :: int
  quiet_since :: seconds
  last_answer_at :: "seconds option"
  last_answer_timestamp :: "datetime option"
  answered_requests :: int
  last_read_answer :: "(int, seconds) dict"
  link_recycles :: int
  unanswered_reads :: "(int, seconds) dict"
  read_interval :: seconds
  last_read_finished :: "seconds option"
  policy_closed :: bool
  request_samples :: "(seconds \<times> seconds option) list"
  outcome_calls :: "request_outcome list"
  recycle_calls :: nat
  mono_now :: seconds
  wall_offset :: seconds

text \<open>
  The last four fields are the calls of \<open>on_request\<close> and \<open>on_link_recycle\<close> so far, the monotonic
  clock and the distance of the wall clock from it.
\<close>

definition new_transport :: "int \<Rightarrow> seconds \<Rightarrow> seconds \<Rightarrow> seconds \<Rightarrow> seconds \<Rightarrow> transport" where
  "new_transport disconnect_after quiet delay t0 offset =
     \<lparr>disconnect_after_timeouts = disconnect_after, link_quiet_seconds = quiet,
      connection_retry_delay = delay, consecutive_timeouts = 0, quiet_since = t0,
      last_answer_at = None, last_answer_timestamp = None, answered_requests = 0,
      last_read_answer = [], link_recycles = 0, unanswered_reads = [], read_interval = 0,
      last_read_finished = None, policy_closed = False, request_samples = [],
      outcome_calls = [], recycle_calls = 0, mono_now = t0, wall_offset = offset\<rparr>"

text \<open>\<open>new_transport_policy\<close> of \<open>modbus_helpers.py\<close>.\<close>

definition new_transport_policy :: "seconds \<Rightarrow> seconds \<Rightarrow> seconds \<Rightarrow> transport" where
  "new_transport_policy timeout t0 offset =
     new_transport TRANSPORT_DISCONNECT_AFTER_TIMEOUTS
       (max TRANSPORT_LINK_QUIET_SECONDS
         (timeout * of_int TRANSPORT_DISCONNECT_AFTER_TIMEOUTS + TRANSPORT_READ_RECOVERY_SECONDS))
       TRANSPORT_RETRY_DELAY_SECONDS t0 offset"

text \<open>A rate is a float: \<^const>\<open>NonFinite\<close> covers NaN and the infinities.\<close>

definition update_request_rate :: "pyfloat \<Rightarrow> transport \<Rightarrow> meltem_error + transport" where
  "update_request_rate rate p =
     (case rate of
        NonFinite \<Rightarrow> Inl (ValueError ''The maximum read request rate must be positive and finite'')
      | Finite r \<Rightarrow>
          if r \<le> 0
          then Inl (ValueError ''The maximum read request rate must be positive and finite'')
          else Inr (p\<lparr>read_interval := 1 / r\<rparr>))"

definition shutdown_policy :: "transport \<Rightarrow> transport" where
  "shutdown_policy p = p\<lparr>policy_closed := True\<rparr>"

definition read_quarantined :: "transport \<Rightarrow> int \<Rightarrow> bool" where
  "read_quarantined p unit_id \<longleftrightarrow> map_of (unanswered_reads p) unit_id \<noteq> None"

definition read_delayed :: "transport \<Rightarrow> int \<Rightarrow> bool" where
  "read_delayed p unit_id \<longleftrightarrow> mono_now p < dict_get (unanswered_reads p) unit_id 0"

definition seconds_since_read_answer :: "transport \<Rightarrow> int \<Rightarrow> seconds option" where
  "seconds_since_read_answer p unit_id =
     map_option (\<lambda>t. mono_now p - t) (map_of (last_read_answer p) unit_id)"

text \<open>The clock moves on at an \<open>await\<close>, during which the client may be shut down.\<close>

definition time_passes :: "seconds \<Rightarrow> bool \<Rightarrow> transport \<Rightarrow> transport" where
  "time_passes d closing p =
     p\<lparr>mono_now := mono_now p + max 0 d, policy_closed := (policy_closed p \<or> closing)\<rparr>"

text \<open>\<open>asyncio.sleep\<close> returns no earlier than asked; the event loop may add a lag.\<close>

definition async_sleep :: "'w link_env \<Rightarrow> seconds \<Rightarrow> transport \<Rightarrow> 'w \<Rightarrow> transport \<times> 'w" where
  "async_sleep env d p w =
     (let (lag, closing, w') = env_sleep env d w
      in (time_passes (max 0 d + max 0 lag) closing p, w'))"

section \<open>The read slot\<close>

definition slot_remaining :: "transport \<Rightarrow> seconds" where
  "slot_remaining p =
     (case last_read_finished p of None \<Rightarrow> 0 | Some t \<Rightarrow> t + read_interval p - mono_now p)"

function wait_for_read_slot :: "'w link_env \<Rightarrow> transport \<Rightarrow> 'w \<Rightarrow> transport \<times> 'w" where
  "wait_for_read_slot env p w =
     (if last_read_finished p = None \<or> policy_closed p then (p, w)
      else if slot_remaining p \<le> 0 then (p, w)
      else let (p', w') = async_sleep env (slot_remaining p) p w
           in wait_for_read_slot env p' w')"
  by pat_completeness auto

lemma slot_remaining_after_sleep:
  "slot_remaining (fst (async_sleep env (slot_remaining p) p w)) \<le> 0"
  by (auto simp: async_sleep_def time_passes_def slot_remaining_def split: prod.split option.split)

termination wait_for_read_slot
proof (relation "measure (\<lambda>x. if 0 < slot_remaining (fst (snd x)) then 1 else 0 :: nat)")
  fix env :: "'w link_env" and p w x p' w'
  assume step: "\<not> slot_remaining p \<le> 0" "x = async_sleep env (slot_remaining p) p w" "(p', w') = x"
  have "slot_remaining p' \<le> 0"
    using slot_remaining_after_sleep [of env p w] step(2,3) by (metis fst_conv)
  then show "((env, p', w'), env, p, w)
      \<in> measure (\<lambda>x. if 0 < slot_remaining (fst (snd x)) then 1 else 0 :: nat)"
    using step(1) by simp
qed simp

declare wait_for_read_slot.simps [simp del]

section \<open>Request samples\<close>

fun prune_before :: "seconds \<Rightarrow> (seconds \<times> 'a) list \<Rightarrow> (seconds \<times> 'a) list" where
  "prune_before limit [] = []"
| "prune_before limit (s # ss) = (if fst s \<le> limit then prune_before limit ss else s # ss)"

definition prune_samples :: "transport \<Rightarrow> transport" where
  "prune_samples p =
     p\<lparr>request_samples :=
         prune_before (mono_now p - COMMUNICATION_WINDOW_SECONDS) (request_samples p)\<rparr>"

text \<open>Appending to a full \<open>deque(maxlen=n)\<close> drops its oldest entry.\<close>

definition deque_append :: "nat \<Rightarrow> 'a list \<Rightarrow> 'a \<Rightarrow> 'a list" where
  "deque_append n xs x = (let ys = xs @ [x] in drop (length ys - n) ys)"

definition record_request :: "seconds \<Rightarrow> bool \<Rightarrow> transport \<Rightarrow> transport" where
  "record_request started ok p =
     (let p1 = prune_samples p
      in p1\<lparr>request_samples := deque_append 10000 (request_samples p1)
             (mono_now p, if ok then Some ((mono_now p - started) * 1000) else None)\<rparr>)"

definition request_outcome_of :: "exn \<Rightarrow> request_outcome" where
  "request_outcome_of e =
     (if isinstance e [ModbusExceptionError] then ModbusException
      else if isinstance e (NO_ANSWER_ERRORS @ [ModbusConnectionError]) then NoAnswer
      else OtherOutcome)"

definition notify_request :: "request_outcome \<Rightarrow> transport \<Rightarrow> transport" where
  "notify_request outcome p = p\<lparr>outcome_calls := outcome_calls p @ [outcome]\<rparr>"

definition notify_link_recycle :: "transport \<Rightarrow> transport" where
  "notify_link_recycle p = p\<lparr>recycle_calls := recycle_calls p + 1\<rparr>"

record transport_diagnostics =
  diag_consecutive_timeouts :: int
  diag_link_recycles :: int
  diag_last_answer_timestamp :: "datetime option"
  diag_seconds_since_any_answer :: "seconds option"
  diag_request_sample_count :: nat
  diag_request_success_rate :: "real option"
  diag_mean_response_time_ms :: "real option"

text \<open>Without the rounding of \<open>seconds_since_any_answer\<close> to one decimal.\<close>

definition transport_diagnostics_of :: "transport \<Rightarrow> transport_diagnostics \<times> transport" where
  "transport_diagnostics_of p =
     (let p1 = prune_samples p;
          samples = request_samples p1;
          durations = List.map_filter snd samples
      in (\<lparr>diag_consecutive_timeouts = consecutive_timeouts p,
           diag_link_recycles = link_recycles p,
           diag_last_answer_timestamp = last_answer_timestamp p,
           diag_seconds_since_any_answer = map_option (\<lambda>t. mono_now p - t) (last_answer_at p),
           diag_request_sample_count = length samples,
           diag_request_success_rate =
             (if samples = [] then None
              else Some (100 * real (length durations) / real (length samples))),
           diag_mean_response_time_ms =
             (if durations = [] then None
              else Some (sum_list durations / real (length durations)))\<rparr>, p1))"

section \<open>One request\<close>

definition link_answered :: "transport \<Rightarrow> transport" where
  "link_answered p =
     p\<lparr>answered_requests := answered_requests p + 1, consecutive_timeouts := 0,
       quiet_since := mono_now p, last_answer_at := Some (mono_now p),
       last_answer_timestamp := Some (mono_now p + wall_offset p)\<rparr>"

text \<open>An error of \<open>disconnect\<close> other than a connection error replaces the one being handled.\<close>

definition count_timeout ::
  "'w link_env \<Rightarrow> int \<Rightarrow> exn \<Rightarrow> transport \<Rightarrow> 'w \<Rightarrow> exn \<times> transport \<times> 'w" where
  "count_timeout env unit_id e p w =
     (let p1 = p\<lparr>consecutive_timeouts := consecutive_timeouts p + 1\<rparr>
      in if consecutive_timeouts p1 < disconnect_after_timeouts p1 then (e, p1, w)
         else if mono_now p1 - quiet_since p1 < link_quiet_seconds p1 then (e, p1, w)
         else let p2 = notify_link_recycle
                    (p1\<lparr>consecutive_timeouts := 0, quiet_since := mono_now p1,
                        link_recycles := link_recycles p1 + 1\<rparr>);
                  (d, failure, w') = env_disconnect env (mono_now p2) unit_id w;
                  p3 = time_passes d False p2
              in (case failure of
                    None \<Rightarrow> (e, p3, w')
                  | Some err \<Rightarrow>
                      if isinstance err [ModbusConnectionError] then (e, p3, w')
                      else (err, p3, w')))"

definition quarantine_read :: "int \<Rightarrow> transport \<Rightarrow> transport" where
  "quarantine_read unit_id p =
     p\<lparr>unanswered_reads :=
         AList.update unit_id (mono_now p + TRANSPORT_READ_RECOVERY_SECONDS) (unanswered_reads p)\<rparr>"

definition read_finished :: "bool \<Rightarrow> transport \<Rightarrow> transport" where
  "read_finished rd p = (if rd then p\<lparr>last_read_finished := Some (mono_now p)\<rparr> else p)"

definition closed_error :: "'w link_env \<Rightarrow> exn" where
  "closed_error env = new_exn env ClientClosedError ''The Meltem gateway client was shut down''"

text \<open>The inner \<open>try\<close>: send the request and book its outcome, up to the \<open>finally\<close> block.\<close>

definition send_request ::
  "'w link_env \<Rightarrow> int \<Rightarrow> request \<Rightarrow> transport \<Rightarrow> 'w \<Rightarrow> reply \<times> transport \<times> 'w" where
  "send_request env unit_id req p w =
     (let started = mono_now p;
          (d, closing, rep, w') = env_request env started unit_id req w;
          p1 = time_passes d closing p;
          p2 = (case rep of
              TaskCancelled \<Rightarrow> if is_read req then quarantine_read unit_id p1 else p1
            | Raised e \<Rightarrow>
                if isinstance e [ClientClosedError] then p1
                else notify_request (request_outcome_of e) (record_request started False
                  (if is_read req \<and> isinstance e (NO_ANSWER_ERRORS @ [ModbusConnectionError])
                   then quarantine_read unit_id p1 else p1))
            | Answered _ \<Rightarrow> notify_request Success (record_request started True p1))
      in (rep, read_finished (is_read req) p2, w'))"

text \<open>The outer \<open>try\<close>: what the outcome says about the link.\<close>

definition judge_link ::
  "'w link_env \<Rightarrow> int \<Rightarrow> reply \<times> transport \<times> 'w \<Rightarrow> reply \<times> transport \<times> 'w" where
  "judge_link env unit_id result =
     (case result of
        (Answered values, p, w) \<Rightarrow> (Answered values, link_answered p, w)
      | (TaskCancelled, p, w) \<Rightarrow> (TaskCancelled, p, w)
      | (Raised e, p, w) \<Rightarrow>
          if isinstance e [ModbusExceptionError] then (Raised e, link_answered p, w)
          else if isinstance e NO_ANSWER_ERRORS
          then (let (e', p', w') = count_timeout env unit_id e p w in (Raised e', p', w'))
          else (Raised e, p, w))"

definition attempt ::
  "'w link_env \<Rightarrow> int \<Rightarrow> request \<Rightarrow> transport \<Rightarrow> 'w \<Rightarrow> reply \<times> transport \<times> 'w" where
  "attempt env unit_id req p w =
     (let (p1, w1) = (if is_read req then wait_for_read_slot env p w else (p, w))
      in judge_link env unit_id
           (if policy_closed p1 then (Raised (closed_error env), p1, w1)
            else send_request env unit_id req p1 w1))"

section \<open>One request under the policy\<close>

definition ensure_read_allowed :: "'w link_env \<Rightarrow> int \<Rightarrow> transport \<Rightarrow> exn option" where
  "ensure_read_allowed env unit_id p =
     (if policy_closed p then Some (closed_error env)
      else if read_delayed p unit_id
      then Some (new_exn env ReadQuarantinedError ''Unit is quarantined after an unanswered register read'')
      else None)"

text \<open>Whether an error is raised to the caller at once, retried after the delay, or retried.\<close>

datatype retry = GiveUp | RetryAfterDelay | RetryNow

definition retry_of :: "bool \<Rightarrow> int \<Rightarrow> exn \<Rightarrow> transport \<Rightarrow> retry" where
  "retry_of rd unit_id e p =
     (if isinstance e [ClientClosedError] then GiveUp
      else if isinstance e [ModbusConnectionError]
      then (if rd \<and> read_delayed p unit_id then GiveUp else RetryAfterDelay)
      else if isinstance e RETRYABLE_ERRORS
      then (if rd \<and> read_delayed p unit_id then GiveUp else RetryNow)
      else GiveUp)"

definition with_retry ::
  "'w link_env \<Rightarrow> int \<Rightarrow> request \<Rightarrow> reply \<times> transport \<times> 'w \<Rightarrow> reply \<times> transport \<times> 'w" where
  "with_retry env unit_id req result =
     (case result of
        (Raised e, p, w) \<Rightarrow>
          (case retry_of (is_read req) unit_id e p of
             GiveUp \<Rightarrow> (Raised e, p, w)
           | RetryAfterDelay \<Rightarrow>
               (let (p', w') = async_sleep env (connection_retry_delay p) p w
                in attempt env unit_id req p' w')
           | RetryNow \<Rightarrow> attempt env unit_id req p w)
      | _ \<Rightarrow> result)"

definition release_quarantine :: "int \<Rightarrow> request \<Rightarrow> transport \<Rightarrow> transport" where
  "release_quarantine unit_id req p =
     (if is_read req \<and> first_arg req \<notin> set BRIDGE_RF_REGISTERS
      then p\<lparr>unanswered_reads := AList.delete unit_id (unanswered_reads p),
             last_read_answer := AList.update unit_id (mono_now p) (last_read_answer p)\<rparr>
      else p)"

definition run ::
  "'w link_env \<Rightarrow> int \<Rightarrow> request \<Rightarrow> transport \<Rightarrow> 'w \<Rightarrow> reply \<times> transport \<times> 'w" where
  "run env unit_id req p w =
     (case (if is_read req then ensure_read_allowed env unit_id p else None) of
        Some e \<Rightarrow> (Raised e, p, w)
      | None \<Rightarrow>
          (case with_retry env unit_id req (attempt env unit_id req p w) of
             (Answered values, p', w') \<Rightarrow> (Answered values, release_quarantine unit_id req p', w')
           | failed_result \<Rightarrow> failed_result))"

section \<open>What reaches the link\<close>

text \<open>
  The link as seen from outside: every request with its reply, and every time it was dropped. A world
  with this log answers like the world it wraps.
\<close>

record sent =
  sent_at :: seconds
  done_at :: seconds
  sent_unit :: int
  sent_request :: request
  sent_reply :: reply

datatype event = Sent sent | Dropped seconds

definition logged :: "'w link_env \<Rightarrow> ('w \<times> event list) link_env" where
  "logged env =
     \<lparr>env_request = (\<lambda>t u req (w, es).
        let (d, closing, rep, w') = env_request env t u req w
        in (d, closing, rep, w', es @ [Sent \<lparr>sent_at = t, done_at = t + max 0 d, sent_unit = u,
              sent_request = req, sent_reply = rep\<rparr>])),
      env_sleep = (\<lambda>d (w, es). let (lag, closing, w') = env_sleep env d w in (lag, closing, w', es)),
      env_disconnect = (\<lambda>t u (w, es).
        let (d, failure, w') = env_disconnect env t u w in (d, failure, w', es @ [Dropped t])),
      superclasses = superclasses env\<rparr>"

fun read_event :: "event \<Rightarrow> bool" where
  "read_event (Sent s) = is_read (sent_request s)"
| "read_event (Dropped _) = False"

fun answer_event :: "event \<Rightarrow> bool" where
  "answer_event (Sent s) =
     (case sent_reply s of
        Answered _ \<Rightarrow> True | Raised e \<Rightarrow> isinstance e [ModbusExceptionError] | TaskCancelled \<Rightarrow> False)"
| "answer_event (Dropped _) = False"

fun silent_event :: "event \<Rightarrow> bool" where
  "silent_event (Sent s) =
     (case sent_reply s of
        Raised e \<Rightarrow> \<not> isinstance e [ModbusExceptionError] \<and> isinstance e NO_ANSWER_ERRORS
      | _ \<Rightarrow> False)"
| "silent_event (Dropped _) = False"

text \<open>A read whose late reply may still arrive.\<close>

fun uncertain_read :: "event \<Rightarrow> bool" where
  "uncertain_read (Sent s) \<longleftrightarrow> is_read (sent_request s) \<and>
     (case sent_reply s of
        Answered _ \<Rightarrow> False
      | TaskCancelled \<Rightarrow> True
      | Raised e \<Rightarrow> \<not> isinstance e [ClientClosedError]
          \<and> isinstance e (NO_ANSWER_ERRORS @ [ModbusConnectionError]))"
| "uncertain_read (Dropped _) = False"

fun event_start :: "event \<Rightarrow> seconds" where
  "event_start (Sent s) = sent_at s"
| "event_start (Dropped t) = t"

fun event_end :: "event \<Rightarrow> seconds" where
  "event_end (Sent s) = done_at s"
| "event_end (Dropped t) = t"

fun event_unit :: "event \<Rightarrow> int option" where
  "event_unit (Sent s) = Some (sent_unit s)"
| "event_unit (Dropped _) = None"

definition paced :: "seconds \<Rightarrow> event list \<Rightarrow> bool" where
  "paced spacing = sorted_wrt (\<lambda>a b. read_event a \<and> read_event b \<longrightarrow>
     event_end a + spacing \<le> event_start b)"

definition recovered :: "event list \<Rightarrow> bool" where
  "recovered = sorted_wrt (\<lambda>a b. uncertain_read a \<and> read_event b \<and> event_unit b = event_unit a \<longrightarrow>
     event_end a + TRANSPORT_READ_RECOVERY_SECONDS \<le> event_start b)"

fun is_drop :: "event \<Rightarrow> bool" where
  "is_drop (Dropped _) = True"
| "is_drop (Sent _) = False"

definition dropped_when_quiet :: "seconds \<Rightarrow> event list \<Rightarrow> bool" where
  "dropped_when_quiet quiet = sorted_wrt (\<lambda>a b. (answer_event a \<or> is_drop a) \<and> is_drop b \<longrightarrow>
     event_end a + quiet \<le> event_start b)"

definition silent_after :: "event \<Rightarrow> int \<Rightarrow> int" where
  "silent_after e n =
     (if answer_event e \<or> is_drop e then 0 else if silent_event e then n + 1 else n)"

fun dropped_after :: "int \<Rightarrow> int \<Rightarrow> event list \<Rightarrow> bool" where
  "dropped_after timeouts n [] = True"
| "dropped_after timeouts n (e # es) \<longleftrightarrow>
     (is_drop e \<longrightarrow> timeouts \<le> n) \<and> dropped_after timeouts (silent_after e n) es"

lemma dropped_after_append [simp]:
  "dropped_after k n (xs @ ys) \<longleftrightarrow>
     dropped_after k n xs \<and> dropped_after k (fold silent_after xs n) ys"
  by (induction xs arbitrary: n) auto

definition policy_log_ok :: "seconds \<Rightarrow> seconds \<Rightarrow> int \<Rightarrow> event list \<Rightarrow> bool" where
  "policy_log_ok spacing quiet timeouts es \<longleftrightarrow>
     paced spacing es \<and> recovered es \<and> dropped_when_quiet quiet es \<and> dropped_after timeouts 0 es"

text \<open>
  How the state of the policy remembers the log: the clock, the last read, the quarantines, the start
  of the quiet window and the run of timeouts.
\<close>

definition remembers_reads :: "transport \<Rightarrow> event list \<Rightarrow> bool" where
  "remembers_reads p es \<longleftrightarrow>
     policy_log_ok (read_interval p) (link_quiet_seconds p) (disconnect_after_timeouts p) es
     \<and> (\<forall>e \<in> set es. read_event e \<longrightarrow> (\<exists>t. last_read_finished p = Some t \<and> event_end e \<le> t))
     \<and> (\<forall>e \<in> set es. \<forall>u. uncertain_read e \<and> event_unit e = Some u \<longrightarrow>
          event_end e + TRANSPORT_READ_RECOVERY_SECONDS
            \<le> max (mono_now p) (dict_get (unanswered_reads p) u 0))
     \<and> (\<forall>e \<in> set es. event_end e \<le> mono_now p)
     \<and> quiet_since p \<le> mono_now p"

definition remembers_answers :: "transport \<Rightarrow> event list \<Rightarrow> bool" where
  "remembers_answers p es \<longleftrightarrow>
     (\<forall>e \<in> set es. answer_event e \<or> is_drop e \<longrightarrow> event_end e \<le> quiet_since p)
     \<and> consecutive_timeouts p = fold silent_after es 0"

definition transport_inv :: "transport \<Rightarrow> event list \<Rightarrow> bool" where
  "transport_inv p es \<longleftrightarrow> remembers_reads p es \<and> remembers_answers p es"

lemma remembers_reads_time:
  "remembers_reads p es \<Longrightarrow> remembers_reads (time_passes d c p) es"
  unfolding remembers_reads_def time_passes_def by fastforce

lemma remembers_answers_time [simp]:
  "remembers_answers (time_passes d c p) es = remembers_answers p es"
  by (simp add: remembers_answers_def time_passes_def)

lemma transport_inv_time: "transport_inv p es \<Longrightarrow> transport_inv (time_passes d c p) es"
  by (simp add: transport_inv_def remembers_reads_time)

lemma async_sleep_logged:
  obtains d c w' where "async_sleep (logged env) s p (w, es) = (time_passes d c p, (w', es))" "s \<le> d"
proof -
  obtain lag c w' where "env_sleep env s w = (lag, c, w')" using prod_cases3 by blast
  then show ?thesis
    by (intro that [of "max 0 s + max 0 lag" c w'])
      (simp_all add: async_sleep_def logged_def)
qed

lemma transport_inv_sleep:
  assumes "transport_inv p es" "async_sleep (logged env) s p (w, es) = (p', (w', es'))"
  shows "transport_inv p' es'" "es' = es"
  using assms transport_inv_time by (metis async_sleep_logged prod.inject)+

text \<open>Waiting for the read slot only lets time pass, and ends with a free slot or a closed policy.\<close>

lemma wait_for_read_slot_ends:
  "wait_for_read_slot (logged env) p (w, es) = (p', w2) \<Longrightarrow>
     (\<exists>d c w'. p' = time_passes d c p \<and> w2 = (w', es))
     \<and> (policy_closed p' \<or> slot_remaining p' \<le> 0)"
proof (cases "last_read_finished p = None \<or> policy_closed p \<or> slot_remaining p \<le> 0")
  case True
  moreover assume "wait_for_read_slot (logged env) p (w, es) = (p', w2)"
  moreover have "p = time_passes 0 False p" by (simp add: time_passes_def)
  ultimately show ?thesis
    by (subst (asm) wait_for_read_slot.simps) (auto simp: slot_remaining_def split: if_splits)
next
  case False
  obtain d c w' where sleep: "async_sleep (logged env) (slot_remaining p) p (w, es)
      = (time_passes d c p, (w', es))" "slot_remaining p \<le> d"
    by (rule async_sleep_logged)
  have free: "slot_remaining (time_passes d c p) \<le> 0"
    using sleep(2) by (auto simp: slot_remaining_def time_passes_def split: option.split)
  then have "wait_for_read_slot (logged env) (time_passes d c p) (w', es) = (time_passes d c p, (w', es))"
    by (subst wait_for_read_slot.simps) simp
  moreover have "wait_for_read_slot (logged env) p (w, es) =
      wait_for_read_slot (logged env) (time_passes d c p) (w', es)"
    using False sleep(1) by (subst wait_for_read_slot.simps) auto
  moreover assume "wait_for_read_slot (logged env) p (w, es) = (p', w2)"
  ultimately have "p' = time_passes d c p \<and> w2 = (w', es)" by simp
  with free show ?thesis by blast
qed

text \<open>A request may be sent: the slot is free, and the unit is not in quarantine.\<close>

definition may_send :: "int \<Rightarrow> request \<Rightarrow> transport \<Rightarrow> bool" where
  "may_send u req p \<longleftrightarrow> (is_read req \<longrightarrow> slot_remaining p \<le> 0 \<and> \<not> read_delayed p u)"

lemma policy_log_ok_Sent:
  assumes "remembers_reads p es" "may_send u req p" "sent_at s = mono_now p" "sent_unit s = u"
    "sent_request s = req"
  shows "policy_log_ok (read_interval p) (link_quiet_seconds p) (disconnect_after_timeouts p)
    (es @ [Sent s])"
proof -
  have "event_end e + read_interval p \<le> mono_now p" if e: "e \<in> set es" "read_event e" "is_read req" for e
  proof -
    obtain t where t: "last_read_finished p = Some t" "event_end e \<le> t"
      using assms(1) e by (auto simp: remembers_reads_def)
    then show ?thesis using assms(2) e(3) by (simp add: may_send_def slot_remaining_def)
  qed
  then have "paced (read_interval p) (es @ [Sent s])"
    using assms by (simp add: remembers_reads_def policy_log_ok_def paced_def sorted_wrt_append)
  moreover have "event_end e + TRANSPORT_READ_RECOVERY_SECONDS \<le> mono_now p"
    if "e \<in> set es" "uncertain_read e" "event_unit e = Some u" "is_read req" for e
    using assms(1,2) that unfolding remembers_reads_def may_send_def read_delayed_def
    by (metis linorder_not_less max.absorb1)
  then have "recovered (es @ [Sent s])"
    using assms unfolding remembers_reads_def policy_log_ok_def recovered_def
    by (auto simp: sorted_wrt_append simp del: TRANSPORT_READ_RECOVERY_SECONDS_def)
  ultimately show ?thesis
    using assms(1) unfolding remembers_reads_def policy_log_ok_def dropped_when_quiet_def
    by (simp add: sorted_wrt_append)
qed

text \<open>The fields after sending one request.\<close>

lemma send_request_fields:
  assumes "send_request (logged env) u req p (w, es) = (rep, p', (w', es'))"
  obtains s where
    "es' = es @ [Sent s]" "sent_at s = mono_now p" "done_at s = mono_now p'" "sent_unit s = u"
    "sent_request s = req" "sent_reply s = rep"
    "mono_now p \<le> mono_now p'" "read_interval p' = read_interval p"
    "link_quiet_seconds p' = link_quiet_seconds p"
    "disconnect_after_timeouts p' = disconnect_after_timeouts p"
    "quiet_since p' = quiet_since p" "consecutive_timeouts p' = consecutive_timeouts p"
    "last_read_finished p' = (if is_read req then Some (mono_now p') else last_read_finished p)"
    "unanswered_reads p' = (if uncertain_read (Sent s)
       then AList.update u (mono_now p' + TRANSPORT_READ_RECOVERY_SECONDS) (unanswered_reads p)
       else unanswered_reads p)"
proof -
  obtain d c w1 where req: "env_request env (mono_now p) u req w = (d, c, rep, w1)"
    using assms
    by (cases "env_request env (mono_now p) u req w") (auto simp: send_request_def logged_def Let_def)
  define s where "s = \<lparr>sent_at = mono_now p, done_at = mono_now p + max 0 d, sent_unit = u,
    sent_request = req, sent_reply = rep\<rparr>"
  note defs = send_request_def logged_def Let_def time_passes_def read_finished_def
    notify_request_def record_request_def prune_samples_def quarantine_read_def s_def
  show ?thesis
    by (rule that [of s]; insert assms req; cases rep) (auto simp: defs split: if_splits)
qed

lemma remembers_reads_send:
  assumes "remembers_reads p es" "may_send u req p"
    and send: "send_request (logged env) u req p (w, es) = (rep, p', (w', es'))"
  shows "remembers_reads p' es'"
    and "is_read req \<Longrightarrow> rep = Answered values \<Longrightarrow> e \<in> set es' \<Longrightarrow> uncertain_read e \<Longrightarrow>
      event_unit e = Some u \<Longrightarrow> event_end e + TRANSPORT_READ_RECOVERY_SECONDS \<le> mono_now p'"
proof -
  obtain s where s: "es' = es @ [Sent s]" "sent_at s = mono_now p" "done_at s = mono_now p'"
    "sent_unit s = u" "sent_request s = req" "sent_reply s = rep"
    and p': "mono_now p \<le> mono_now p'" "read_interval p' = read_interval p"
    "link_quiet_seconds p' = link_quiet_seconds p"
    "disconnect_after_timeouts p' = disconnect_after_timeouts p" "quiet_since p' = quiet_since p"
    "last_read_finished p' = (if is_read req then Some (mono_now p') else last_read_finished p)"
    "unanswered_reads p' = (if uncertain_read (Sent s)
       then AList.update u (mono_now p' + TRANSPORT_READ_RECOVERY_SECONDS) (unanswered_reads p)
       else unanswered_reads p)"
    using send_request_fields [OF send] by metis
  note old = assms(1) [unfolded remembers_reads_def]
  have log: "policy_log_ok (read_interval p') (link_quiet_seconds p') (disconnect_after_timeouts p') es'"
    unfolding s(1) p' by (rule policy_log_ok_Sent [OF assms(1,2) s(2,4,5)])
  have last: "\<exists>t. last_read_finished p' = Some t \<and> event_end e \<le> t" if in_es: "e \<in> set es'" and rd: "read_event e" for e
  proof (cases "e = Sent s")
    case True
    with rd s p'(6) show ?thesis by auto
  next
    case False
    with in_es have e: "e \<in> set es" by (auto simp: s)
    then obtain t where "last_read_finished p = Some t" "event_end e \<le> t" using rd old by auto
    moreover have "event_end e \<le> mono_now p'" using e old p'(1) by fastforce
    ultimately show ?thesis using p'(6) by simp
  qed
  have quarantine: "event_end e + TRANSPORT_READ_RECOVERY_SECONDS
      \<le> max (mono_now p') (dict_get (unanswered_reads p') v 0)"
    if "e \<in> set es'" "uncertain_read e" "event_unit e = Some v" for e v
  proof (cases "e = Sent s")
    case True
    with that s p'(7) show ?thesis by auto
  next
    case False
    with that have e: "e \<in> set es" by (auto simp: s)
    then have "event_end e + TRANSPORT_READ_RECOVERY_SECONDS
        \<le> max (mono_now p) (dict_get (unanswered_reads p) v 0)" "event_end e \<le> mono_now p"
      using old that by auto
    with p'(1,7) show ?thesis by auto
  qed
  show "remembers_reads p' es'"
    unfolding remembers_reads_def using log last quarantine old p'(1,5) s(1,3) by fastforce
  show "event_end e + TRANSPORT_READ_RECOVERY_SECONDS \<le> mono_now p'"
    if "is_read req" "rep = Answered values" "e \<in> set es'" "uncertain_read e" "event_unit e = Some u"
  proof -
    have "e \<in> set es" using that s by auto
    then have "event_end e + TRANSPORT_READ_RECOVERY_SECONDS
        \<le> max (mono_now p) (dict_get (unanswered_reads p) u 0)" using old that by blast
    moreover have "dict_get (unanswered_reads p) u 0 \<le> mono_now p"
      using assms(2) that(1) by (simp add: may_send_def read_delayed_def)
    ultimately show ?thesis using p'(1) by simp
  qed
qed

text \<open>Judging the link after a request restores what the policy knows of the answers.\<close>

lemma link_answered_inv:
  assumes "remembers_reads p (es @ [e])" "answer_event e"
  shows "transport_inv (link_answered p) (es @ [e])"
  using assms
  by (auto simp: transport_inv_def remembers_reads_def remembers_answers_def link_answered_def
      silent_after_def)

lemma silent_not_answer: "silent_event e \<Longrightarrow> \<not> answer_event e \<and> \<not> is_drop e"
  by (cases e) (auto split: reply.splits)

lemma count_timeout_inv:
  assumes reads: "remembers_reads p (es @ [e])" and answers: "remembers_answers p es"
    and e: "silent_event e"
    and "count_timeout (logged env) u x p (w, es @ [e]) = (x', p', (w', es'))"
  shows "transport_inv p' es'"
proof -
  define p1 where "p1 = p\<lparr>consecutive_timeouts := consecutive_timeouts p + 1\<rparr>"
  have reads1: "remembers_reads p1 (es @ [e])"
    using reads by (simp add: remembers_reads_def p1_def)
  have answers1: "remembers_answers p1 (es @ [e])"
    using answers e silent_not_answer [OF e]
    by (auto simp: remembers_answers_def p1_def silent_after_def)
  show ?thesis
  proof (cases "consecutive_timeouts p1 < disconnect_after_timeouts p1
      \<or> mono_now p1 - quiet_since p1 < link_quiet_seconds p1")
    case True
    with assms(4) have "p' = p1 \<and> es' = es @ [e]"
      by (auto simp: count_timeout_def p1_def Let_def split: if_splits)
    with reads1 answers1 show ?thesis by (simp add: transport_inv_def)
  next
    case False
    define p2 where "p2 = notify_link_recycle
      (p1\<lparr>consecutive_timeouts := 0, quiet_since := mono_now p1, link_recycles := link_recycles p1 + 1\<rparr>)"
    obtain d where d: "p' = time_passes d False p2" "es' = (es @ [e]) @ [Dropped (mono_now p2)]"
      using assms(4) False
      by (cases "env_disconnect env (mono_now p2) u w")
        (auto simp: count_timeout_def p1_def [symmetric] p2_def [symmetric] Let_def logged_def
          split: option.splits if_splits)
    have now: "mono_now p2 = mono_now p1" "quiet_since p2 = mono_now p1"
      by (simp_all add: p2_def notify_link_recycle_def)
    have quiet: "event_end a + link_quiet_seconds p1 \<le> mono_now p1"
      if "a \<in> set (es @ [e])" "answer_event a \<or> is_drop a" for a
      using answers1 that False by (fastforce simp: remembers_answers_def)
    have drop: "disconnect_after_timeouts p1 \<le> fold silent_after (es @ [e]) 0"
      using answers1 False by (simp add: remembers_answers_def)
    have "remembers_reads p2 es'"
      using reads1 quiet drop
      by (auto simp: remembers_reads_def policy_log_ok_def paced_def recovered_def
          dropped_when_quiet_def sorted_wrt_append d(2) p2_def notify_link_recycle_def)
    moreover have "remembers_answers p2 es'"
      using reads1 by (auto simp: remembers_answers_def remembers_reads_def d(2) p2_def
          notify_link_recycle_def silent_after_def)
    ultimately show ?thesis
      unfolding d(1) by (intro transport_inv_time) (simp add: transport_inv_def)
  qed
qed

lemma count_timeout_fields:
  assumes "count_timeout env u x p w = (x', p', w')"
  shows "mono_now p \<le> mono_now p'" "unanswered_reads p' = unanswered_reads p"
    "read_interval p' = read_interval p" "link_quiet_seconds p' = link_quiet_seconds p"
    "disconnect_after_timeouts p' = disconnect_after_timeouts p"
  using assms
  by (auto simp: count_timeout_def notify_link_recycle_def time_passes_def Let_def
      split: if_splits option.splits prod.splits)

lemma judge_link_inv:
  assumes reads: "remembers_reads p (es @ [Sent s])" and answers: "remembers_answers p es"
    and s: "sent_reply s = rep"
    and judged: "judge_link (logged env) u (rep, p, (w, es @ [Sent s])) = (rep', p', (w', es'))"
  shows "transport_inv p' es'"
proof (cases "answer_event (Sent s)")
  case True
  with s judged have "p' = link_answered p" "es' = es @ [Sent s]"
    by (auto simp: judge_link_def split: reply.splits if_splits)
  with link_answered_inv [OF reads True] show ?thesis by simp
next
  case False
  show ?thesis
  proof (cases "silent_event (Sent s)")
    case True
    then obtain x where "rep = Raised x" "\<not> isinstance x [ModbusExceptionError]"
      "isinstance x NO_ANSWER_ERRORS"
      using s by (auto split: reply.splits)
    with judged obtain x' where "count_timeout (logged env) u x p (w, es @ [Sent s]) = (x', p', (w', es'))"
      by (cases "count_timeout (logged env) u x p (w, es @ [Sent s])") (auto simp: judge_link_def)
    from count_timeout_inv [OF reads answers True this] show ?thesis .
  next
    case False
    with \<open>\<not> answer_event (Sent s)\<close> s judged have "p' = p" "es' = es @ [Sent s]"
      by (auto simp: judge_link_def split: reply.splits if_splits)
    with reads answers False \<open>\<not> answer_event (Sent s)\<close> show ?thesis
      by (auto simp: transport_inv_def remembers_answers_def silent_after_def)
  qed
qed

lemma judge_link_fields:
  assumes "judge_link env u (rep, p, w) = (rep', p', w')"
  shows "mono_now p \<le> mono_now p'" "unanswered_reads p' = unanswered_reads p"
    "read_interval p' = read_interval p" "link_quiet_seconds p' = link_quiet_seconds p"
    "disconnect_after_timeouts p' = disconnect_after_timeouts p"
    "rep' = Answered values \<longleftrightarrow> rep = Answered values"
  using assms
  by (auto simp: judge_link_def link_answered_def dest: count_timeout_fields
      split: reply.splits if_splits prod.splits)

lemma judge_link_answered:
  "judge_link env u (Answered values, p, w) = (Answered values, link_answered p, w)"
  by (simp add: judge_link_def)

text \<open>
  \<open>ClientClosedError\<close> is an error of the connection, neither a reply nor a missing reply.
\<close>

definition closed_is_no_reply :: "'w link_env \<Rightarrow> bool" where
  "closed_is_no_reply env \<longleftrightarrow>
     \<not> isinstance (closed_error env) (ModbusExceptionError # NO_ANSWER_ERRORS)"

lemma judge_link_closed:
  assumes "closed_is_no_reply env"
  shows "judge_link (logged env) u (Raised (closed_error (logged env)), p, w)
    = (Raised (closed_error env), p, w)"
  using assms
  by (auto simp: closed_is_no_reply_def judge_link_def closed_error_def new_exn_def logged_def
      isinstance_iff)

definition same_settings :: "transport \<Rightarrow> transport \<Rightarrow> bool" where
  "same_settings p p' \<longleftrightarrow> read_interval p' = read_interval p
     \<and> link_quiet_seconds p' = link_quiet_seconds p
     \<and> disconnect_after_timeouts p' = disconnect_after_timeouts p"

definition recovered_by_now :: "int \<Rightarrow> transport \<Rightarrow> event list \<Rightarrow> bool" where
  "recovered_by_now u p es \<longleftrightarrow>
     (\<forall>e \<in> set es. uncertain_read e \<and> event_unit e = Some u \<longrightarrow>
        event_end e + TRANSPORT_READ_RECOVERY_SECONDS \<le> mono_now p)"

lemma attempt_inv:
  assumes inv: "transport_inv p es" and closed: "closed_is_no_reply env"
    and allowed: "is_read req \<Longrightarrow> \<not> read_delayed p u"
    and att: "attempt (logged env) u req p (w, es) = (rep, p', (w', es'))"
  shows "transport_inv p' es'"
    and "same_settings p p'"
    and "is_read req \<Longrightarrow> rep = Answered values \<Longrightarrow> recovered_by_now u p' es'"
proof -
  obtain p1 w1 where slot: "(if is_read req then wait_for_read_slot (logged env) p (w, es)
      else (p, (w, es))) = (p1, (w1, es))" and ready: "\<exists>d c. p1 = time_passes d c p"
    and free: "is_read req \<Longrightarrow> policy_closed p1 \<or> slot_remaining p1 \<le> 0"
  proof (cases "is_read req")
    case True
    obtain p1 w2 where wait: "wait_for_read_slot (logged env) p (w, es) = (p1, w2)"
      by (rule prod.exhaust)
    from wait_for_read_slot_ends [OF wait] that True wait show ?thesis by auto
  next
    case False
    have "p = time_passes 0 False p" by (simp add: time_passes_def)
    with False show ?thesis by (intro that [of p w]) auto
  qed
  have inv1: "transport_inv p1 es" using ready inv transport_inv_time by blast
  have same1: "same_settings p p1" using ready by (auto simp: same_settings_def time_passes_def)
  show "transport_inv p' es'" and "same_settings p p'"
    and "is_read req \<Longrightarrow> rep = Answered values \<Longrightarrow> recovered_by_now u p' es'"
  proof (atomize (full), cases "policy_closed p1")
    case True
    then show "transport_inv p' es' \<and> same_settings p p' \<and>
        (is_read req \<longrightarrow> rep = Answered values \<longrightarrow> recovered_by_now u p' es')"
      using att slot inv1 same1 judge_link_closed [OF closed] by (auto simp: attempt_def)
  next
    case False
    obtain rep1 p2 w2 es2 where send: "send_request (logged env) u req p1 (w1, es) = (rep1, p2, (w2, es2))"
      using prod_cases4 by blast
    have judged: "judge_link (logged env) u (rep1, p2, (w2, es2)) = (rep, p', (w', es'))"
      using att slot False send by (simp add: attempt_def)
    have may: "may_send u req p1"
      using free False allowed ready by (auto simp: may_send_def read_delayed_def time_passes_def)
    have reads1: "remembers_reads p1 es" and answers1: "remembers_answers p1 es"
      using inv1 by (simp_all add: transport_inv_def)
    obtain s where s: "es2 = es @ [Sent s]" "sent_reply s = rep1"
      and p2: "quiet_since p2 = quiet_since p1" "consecutive_timeouts p2 = consecutive_timeouts p1"
      "same_settings p1 p2"
      using send_request_fields [OF send] by (metis same_settings_def)
    have answers2: "remembers_answers p2 es" using answers1 p2 by (simp add: remembers_answers_def)
    have reads2: "remembers_reads p2 (es @ [Sent s])"
      using remembers_reads_send(1) [OF reads1 may send] s by simp
    have done_inv: "transport_inv p' es'"
      using judge_link_inv [OF reads2 answers2 s(2)] judged s(1) by simp
    have same: "same_settings p p'"
      using judge_link_fields [OF judged] p2(3) same1 by (simp add: same_settings_def)
    have "recovered_by_now u p' es'" if rd: "is_read req" and rep: "rep = Answered values"
    proof -
      have rep1: "rep1 = Answered values" using judge_link_fields(6) [OF judged] rep by blast
      then have "es' = es2" using judged by (simp add: judge_link_answered)
      then show ?thesis
        using remembers_reads_send(2) [OF reads1 may send rd rep1] judge_link_fields(1) [OF judged]
        unfolding recovered_by_now_def by (meson order_trans)
    qed
    with done_inv same show "transport_inv p' es' \<and> same_settings p p' \<and>
        (is_read req \<longrightarrow> rep = Answered values \<longrightarrow> recovered_by_now u p' es')" by simp
  qed
qed

lemma with_retry_inv:
  assumes inv: "transport_inv p es" and closed: "closed_is_no_reply env"
    and answered: "\<And>values. is_read req \<Longrightarrow> rep = Answered values \<Longrightarrow> recovered_by_now u p es"
    and retry: "with_retry (logged env) u req (rep, p, (w, es)) = (rep', p', (w', es'))"
  shows "transport_inv p' es' \<and> same_settings p p'
    \<and> (\<forall>values. is_read req \<longrightarrow> rep' = Answered values \<longrightarrow> recovered_by_now u p' es')"
proof (cases "\<exists>e. rep = Raised e \<and> retry_of (is_read req) u e p \<noteq> GiveUp")
  case False
  then have "rep' = rep" "p' = p" "es' = es"
    using retry by (auto simp: with_retry_def split: reply.splits retry.splits)
  with inv answered show ?thesis by (simp add: same_settings_def)
next
  case True
  then obtain e where e: "rep = Raised e" "retry_of (is_read req) u e p \<noteq> GiveUp" by blast
  have fresh: "is_read req \<Longrightarrow> \<not> read_delayed p u"
    using e(2) by (auto simp: retry_of_def split: if_splits)
  obtain p1 w1 where p1: "\<exists>d c. p1 = time_passes d c p"
    and att: "attempt (logged env) u req p1 (w1, es) = (rep', p', (w', es'))"
  proof (cases "retry_of (is_read req) u e p")
    case RetryAfterDelay
    obtain d c w1 where sleep: "async_sleep (logged env) (connection_retry_delay p) p (w, es)
        = (time_passes d c p, (w1, es))"
      by (rule async_sleep_logged)
    with retry e(1) RetryAfterDelay show ?thesis
      by (intro that [of "time_passes d c p" w1]) (auto simp: with_retry_def)
  next
    case RetryNow
    have "p = time_passes 0 False p" by (simp add: time_passes_def)
    with retry e(1) RetryNow show ?thesis
      by (intro that [of p w]) (auto simp: with_retry_def)
  qed (use e(2) in simp)
  have inv1: "transport_inv p1 es" using p1 inv transport_inv_time by blast
  have same1: "same_settings p p1" using p1 by (auto simp: same_settings_def time_passes_def)
  have allowed: "is_read req \<Longrightarrow> \<not> read_delayed p1 u"
    using p1 fresh by (auto simp: read_delayed_def time_passes_def)
  show ?thesis
    using attempt_inv [OF inv1 closed allowed att] same1 by (auto simp: same_settings_def)
qed

lemma release_quarantine_inv:
  assumes "transport_inv p es" "is_read req \<Longrightarrow> recovered_by_now u p es"
  shows "transport_inv (release_quarantine u req p) es"
proof (cases "is_read req \<and> first_arg req \<notin> set BRIDGE_RF_REGISTERS")
  case True
  with assms have "recovered_by_now u p es" by simp
  then show ?thesis
    using assms(1) True
    unfolding transport_inv_def remembers_reads_def remembers_answers_def release_quarantine_def
      recovered_by_now_def
    by (auto simp: le_max_iff_disj)
next
  case False
  with assms(1) show ?thesis by (auto simp: release_quarantine_def)
qed

lemma run_inv:
  assumes inv: "transport_inv p es" and closed: "closed_is_no_reply env"
    and run: "run (logged env) u req p (w, es) = (rep, p', (w', es'))"
  shows "transport_inv p' es'" and "same_settings p p'"
proof -
  show "transport_inv p' es'" and "same_settings p p'"
  proof (atomize (full), cases "is_read req \<and> ensure_read_allowed (logged env) u p \<noteq> None")
    case True
    with run inv show "transport_inv p' es' \<and> same_settings p p'"
      by (auto simp: run_def same_settings_def)
  next
    case False
    then have allowed: "is_read req \<Longrightarrow> \<not> read_delayed p u"
      by (auto simp: ensure_read_allowed_def split: if_splits)
    obtain rep1 p1 w1 es1 where att: "attempt (logged env) u req p (w, es) = (rep1, p1, (w1, es1))"
      using prod_cases4 by blast
    note att_inv = attempt_inv [OF inv closed allowed att]
    obtain rep2 p2 w2 es2 where retry:
      "with_retry (logged env) u req (rep1, p1, (w1, es1)) = (rep2, p2, (w2, es2))"
      using prod_cases4 by blast
    have retry_inv: "transport_inv p2 es2 \<and> same_settings p1 p2
        \<and> (\<forall>values. is_read req \<longrightarrow> rep2 = Answered values \<longrightarrow> recovered_by_now u p2 es2)"
      using with_retry_inv [OF att_inv(1) closed _ retry] att_inv(3) by blast
    have result: "rep = rep2 \<and> es' = es2
        \<and> p' = (case rep2 of Answered _ \<Rightarrow> release_quarantine u req p2 | _ \<Rightarrow> p2)"
      using run False att retry by (auto simp: run_def split: reply.splits if_splits)
    have "same_settings p2 p'"
      by (auto simp: result same_settings_def release_quarantine_def split: reply.split)
    moreover have "transport_inv p' es'"
      using retry_inv result release_quarantine_inv by (auto split: reply.splits)
    ultimately show "transport_inv p' es' \<and> same_settings p p'"
      using att_inv(2) retry_inv by (auto simp: same_settings_def)
  qed
qed

section \<open>Any number of requests\<close>

datatype transport_op =
    Request int request
  | Pause seconds
  | Shutdown
  | Diagnose

fun transport_step ::
  "'w link_env \<Rightarrow> transport_op \<Rightarrow> transport \<times> 'w \<Rightarrow> transport \<times> 'w" where
  "transport_step env (Request u req) (p, w) = snd (run env u req p w)"
| "transport_step env (Pause d) (p, w) = (time_passes d False p, w)"
| "transport_step env Shutdown (p, w) = (shutdown_policy p, w)"
| "transport_step env Diagnose (p, w) = (snd (transport_diagnostics_of p), w)"

definition transport_run ::
  "'w link_env \<Rightarrow> transport_op list \<Rightarrow> transport \<times> 'w \<Rightarrow> transport \<times> 'w" where
  "transport_run env ops = fold (transport_step env) ops"

lemma transport_step_inv:
  assumes "transport_inv p es" "closed_is_no_reply env"
    and "transport_step (logged env) op (p, (w, es)) = (p', (w', es'))"
  shows "transport_inv p' es' \<and> same_settings p p'"
proof (cases op)
  case (Request u req)
  obtain rep where "run (logged env) u req p (w, es) = (rep, p', (w', es'))"
    using assms(3) Request by (cases "run (logged env) u req p (w, es)") auto
  from run_inv [OF assms(1,2) this] show ?thesis by simp
next
  case (Pause d)
  with assms show ?thesis by (auto simp: transport_inv_time) (auto simp: same_settings_def time_passes_def)
next
  case Shutdown
  with assms show ?thesis
    by (auto simp: shutdown_policy_def transport_inv_def remembers_reads_def remembers_answers_def
        same_settings_def)
next
  case Diagnose
  with assms show ?thesis
    by (auto simp: transport_diagnostics_of_def prune_samples_def Let_def transport_inv_def
        remembers_reads_def remembers_answers_def same_settings_def)
qed

lemma transport_run_inv:
  assumes "closed_is_no_reply env"
  shows "transport_inv p es \<Longrightarrow>
    transport_run (logged env) ops (p, (w, es)) = (p', (w', es')) \<Longrightarrow>
    transport_inv p' es' \<and> same_settings p p'"
proof (induction ops arbitrary: p w es)
  case (Cons op ops)
  obtain p1 w1 es1 where op: "transport_step (logged env) op (p, (w, es)) = (p1, (w1, es1))"
    using prod_cases3 by blast
  have "transport_inv p1 es1 \<and> same_settings p p1"
    by (rule transport_step_inv [OF Cons.prems(1) assms op])
  with Cons.IH [of p1 es1 w1] Cons.prems(2) op show ?case
    by (simp add: transport_run_def same_settings_def)
qed (simp add: transport_run_def same_settings_def)

lemma transport_inv_new:
  "transport_inv ((new_transport n quiet delay t0 offset)\<lparr>read_interval := spacing\<rparr>) []"
  by (simp add: transport_inv_def remembers_reads_def remembers_answers_def new_transport_def
      policy_log_ok_def paced_def recovered_def dropped_when_quiet_def)

section \<open>How often a request is sent\<close>

definition sends :: "int \<Rightarrow> request \<Rightarrow> event list \<Rightarrow> nat" where
  "sends u req es =
     length (filter (\<lambda>e. case e of
       Sent s \<Rightarrow> sent_unit s = u \<and> sent_request s = req | Dropped _ \<Rightarrow> False) es)"

definition foreign_sends :: "int \<Rightarrow> request \<Rightarrow> event list \<Rightarrow> nat" where
  "foreign_sends u req es =
     length (filter (\<lambda>e. case e of
       Sent s \<Rightarrow> sent_unit s \<noteq> u \<or> sent_request s \<noteq> req | Dropped _ \<Rightarrow> False) es)"

lemma sends_simps [simp]:
  "sends u req [] = 0"
  "sends u req (xs @ ys) = sends u req xs + sends u req ys"
  "foreign_sends u req [] = 0"
  "foreign_sends u req (xs @ ys) = foreign_sends u req xs + foreign_sends u req ys"
  by (simp_all add: sends_def foreign_sends_def)

lemma judge_link_log:
  assumes "judge_link (logged env) u (rep, p, (w, es)) = (rep', p', (w', es'))"
  shows "sends v req es' = sends v req es" "foreign_sends v req es' = foreign_sends v req es"
proof -
  have "es' = es \<or> (\<exists>t. es' = es @ [Dropped t])"
    using assms
    by (auto simp: judge_link_def count_timeout_def logged_def Let_def
        split: reply.splits if_splits prod.splits option.splits)
  then show "sends v req es' = sends v req es" "foreign_sends v req es' = foreign_sends v req es"
    by (auto simp: sends_def foreign_sends_def)
qed

lemma attempt_log:
  assumes att: "attempt (logged env) u req p (w, es) = (rep, p', (w', es'))"
  shows "sends u req es' \<le> sends u req es + 1 \<and> foreign_sends u req es' = foreign_sends u req es
    \<and> (policy_closed p \<longrightarrow> sends u req es' = sends u req es \<and> policy_closed p')"
proof -
  obtain p1 w1 where slot: "(if is_read req then wait_for_read_slot (logged env) p (w, es)
      else (p, (w, es))) = (p1, (w1, es))" and ready: "\<exists>d c. p1 = time_passes d c p"
  proof (cases "is_read req")
    case True
    obtain p1 w2 where wait: "wait_for_read_slot (logged env) p (w, es) = (p1, w2)"
      by (rule prod.exhaust)
    from wait_for_read_slot_ends [OF wait] that True wait show ?thesis by auto
  next
    case False
    have "p = time_passes 0 False p" by (simp add: time_passes_def)
    with False show ?thesis by (intro that [of p w]) auto
  qed
  have closed: "policy_closed p \<Longrightarrow> policy_closed p1" using ready by (auto simp: time_passes_def)
  show ?thesis
  proof (cases "policy_closed p1")
    case True
    from att slot True have judged: "judge_link (logged env) u
        (Raised (closed_error (logged env)), p1, (w1, es)) = (rep, p', (w', es'))"
      by (simp add: attempt_def)
    then have "policy_closed p'"
      using True by (auto simp: judge_link_def link_answered_def count_timeout_def time_passes_def
          notify_link_recycle_def Let_def split: if_splits prod.splits option.splits)
    with judge_link_log [OF judged]
    show ?thesis
      by simp
  next
    case False
    obtain rep1 p2 w2 es2 where send: "send_request (logged env) u req p1 (w1, es) = (rep1, p2, (w2, es2))"
      using prod_cases4 by blast
    have judged: "judge_link (logged env) u (rep1, p2, (w2, es2)) = (rep, p', (w', es'))"
      using att slot False send by (simp add: attempt_def)
    obtain s where "es2 = es @ [Sent s]" "sent_unit s = u" "sent_request s = req"
      using send_request_fields [OF send] by metis
    then have "sends u req es2 = sends u req es + 1" "foreign_sends u req es2 = foreign_sends u req es"
      by (simp_all add: sends_def foreign_sends_def)
    with judge_link_log [OF judged] False closed
    show ?thesis
      by auto
  qed
qed

lemma with_retry_log:
  assumes retry: "with_retry (logged env) u req (rep, p, (w, es)) = (rep', p', (w', es'))"
  shows "sends u req es' \<le> sends u req es + 1 \<and> foreign_sends u req es' = foreign_sends u req es
    \<and> (policy_closed p \<longrightarrow> sends u req es' = sends u req es \<and> policy_closed p')"
proof (cases "\<exists>e. rep = Raised e \<and> retry_of (is_read req) u e p \<noteq> GiveUp")
  case False
  then have "p' = p" "es' = es"
    using retry by (auto simp: with_retry_def split: reply.splits retry.splits)
  then show ?thesis by simp
next
  case True
  then obtain e where e: "rep = Raised e" "retry_of (is_read req) u e p \<noteq> GiveUp" by blast
  obtain p1 w1 where p1: "policy_closed p \<Longrightarrow> policy_closed p1"
    and att: "attempt (logged env) u req p1 (w1, es) = (rep', p', (w', es'))"
  proof (cases "retry_of (is_read req) u e p")
    case RetryAfterDelay
    obtain d c w1 where sleep: "async_sleep (logged env) (connection_retry_delay p) p (w, es)
        = (time_passes d c p, (w1, es))"
      by (rule async_sleep_logged)
    with retry e(1) RetryAfterDelay show ?thesis
      by (intro that [of "time_passes d c p" w1]) (auto simp: with_retry_def time_passes_def)
  next
    case RetryNow
    with retry e(1) show ?thesis
      by (intro that [of p w]) (auto simp: with_retry_def)
  qed (use e(2) in simp)
  show ?thesis using attempt_log [OF att] p1 by simp
qed

lemma run_log:
  assumes run: "run (logged env) u req p (w, es) = (rep, p', (w', es'))"
  shows "sends u req es' \<le> sends u req es + 2 \<and> foreign_sends u req es' = foreign_sends u req es
    \<and> (policy_closed p \<longrightarrow> sends u req es' = sends u req es \<and> policy_closed p')"
proof (cases "is_read req \<and> ensure_read_allowed (logged env) u p \<noteq> None")
  case True
  with run show ?thesis by (auto simp: run_def)
next
  case False
  obtain rep1 p1 w1 es1 where att: "attempt (logged env) u req p (w, es) = (rep1, p1, (w1, es1))"
    using prod_cases4 by blast
  obtain rep2 p2 w2 es2 where retry:
    "with_retry (logged env) u req (rep1, p1, (w1, es1)) = (rep2, p2, (w2, es2))"
    using prod_cases4 by blast
  have "es' = es2" and "policy_closed p' = policy_closed p2"
    using run False att retry
    by (auto simp: run_def release_quarantine_def split: reply.splits if_splits)
  with attempt_log [OF att] with_retry_log [OF retry] show ?thesis by auto
qed

text \<open>A read without a certain reply is not repeated, if dropping the link takes no recovery pause.\<close>

definition prompt_disconnect :: "'w link_env \<Rightarrow> bool" where
  "prompt_disconnect env \<longleftrightarrow>
     (\<forall>t u w. fst (env_disconnect env t u w) < TRANSPORT_READ_RECOVERY_SECONDS)"

lemma judge_link_prompt:
  assumes "prompt_disconnect env" "judge_link (logged env) u (rep, p, (w, es)) = (rep', p', (w', es'))"
  shows "mono_now p' < mono_now p + TRANSPORT_READ_RECOVERY_SECONDS"
proof -
  have "max 0 (fst (env_disconnect env t v w)) < TRANSPORT_READ_RECOVERY_SECONDS" for t v w
    using assms(1) by (simp add: prompt_disconnect_def)
  note prompt = this [of "mono_now p" u w]
  show ?thesis
    using assms(2) prompt
    by (auto simp: judge_link_def count_timeout_def link_answered_def logged_def time_passes_def
        notify_link_recycle_def Let_def split: reply.splits if_splits prod.splits option.splits)
qed

lemma attempt_uncertain:
  assumes prompt: "prompt_disconnect env"
    and att: "attempt (logged env) u req p (w, es) = (rep, p', (w', es'))"
    and uncertain: "list_ex uncertain_read (drop (length es) es')"
  shows "read_delayed p' u"
proof -
  obtain p1 w1 where slot: "(if is_read req then wait_for_read_slot (logged env) p (w, es)
      else (p, (w, es))) = (p1, (w1, es))"
  proof (cases "is_read req")
    case True
    obtain p1 w2 where wait: "wait_for_read_slot (logged env) p (w, es) = (p1, w2)"
      by (rule prod.exhaust)
    from wait_for_read_slot_ends [OF wait] that True wait show ?thesis by auto
  qed (use that in auto)
  show ?thesis
  proof (cases "policy_closed p1")
    case True
    from att slot True have "judge_link (logged env) u
        (Raised (closed_error (logged env)), p1, (w1, es)) = (rep, p', (w', es'))"
      by (simp add: attempt_def)
    then have "es' = es \<or> (\<exists>t. es' = es @ [Dropped t])"
      by (auto simp: judge_link_def count_timeout_def logged_def Let_def
          split: reply.splits if_splits prod.splits option.splits)
    with uncertain show ?thesis by auto
  next
    case False
    obtain rep1 p2 w2 es2 where send: "send_request (logged env) u req p1 (w1, es) = (rep1, p2, (w2, es2))"
      using prod_cases4 by blast
    have judged: "judge_link (logged env) u (rep1, p2, (w2, es2)) = (rep, p', (w', es'))"
      using att slot False send by (simp add: attempt_def)
    obtain s where s: "es2 = es @ [Sent s]"
      and p2: "unanswered_reads p2 = (if uncertain_read (Sent s)
         then AList.update u (mono_now p2 + TRANSPORT_READ_RECOVERY_SECONDS) (unanswered_reads p1)
         else unanswered_reads p1)"
      using send_request_fields [OF send] by metis
    have "es' = es2 \<or> (\<exists>t. es' = es2 @ [Dropped t])"
      using judged
      by (auto simp: judge_link_def count_timeout_def logged_def Let_def
          split: reply.splits if_splits prod.splits option.splits)
    with uncertain s have "uncertain_read (Sent s)" by auto
    with p2 judge_link_fields(2) [OF judged] judge_link_prompt [OF prompt judged]
    show ?thesis by (simp add: read_delayed_def)
  qed
qed

lemma no_retry_when_delayed:
  "is_read req \<Longrightarrow> read_delayed p u \<Longrightarrow> with_retry env u req (rep, p, w) = (rep, p, w)"
  by (auto simp: with_retry_def retry_of_def split: reply.split)

lemma judge_link_extends:
  "judge_link (logged env) u (rep, p, (w, es)) = (rep', p', (w', es')) \<Longrightarrow> \<exists>new. es' = es @ new"
  by (auto simp: judge_link_def count_timeout_def logged_def Let_def
      split: reply.splits if_splits prod.splits option.splits)

lemma attempt_extends:
  assumes att: "attempt (logged env) u req p (w, es) = (rep, p', (w', es'))"
  shows "\<exists>new. es' = es @ new"
proof -
  obtain p1 w1 where slot: "(if is_read req then wait_for_read_slot (logged env) p (w, es)
      else (p, (w, es))) = (p1, (w1, es))"
  proof (cases "is_read req")
    case True
    obtain p1 w2 where wait: "wait_for_read_slot (logged env) p (w, es) = (p1, w2)"
      by (rule prod.exhaust)
    from wait_for_read_slot_ends [OF wait] that True wait show ?thesis by auto
  qed (use that in auto)
  obtain rep1 p2 w2 es2 where send: "send_request (logged env) u req p1 (w1, es) = (rep1, p2, (w2, es2))"
    using prod_cases4 by blast
  have "\<exists>new. es2 = es @ new" using send_request_fields [OF send] by metis
  moreover have "(\<exists>new. es' = es @ new) \<or> (\<exists>new. es' = es2 @ new)"
  proof (cases "policy_closed p1")
    case True
    with att slot have "judge_link (logged env) u
        (Raised (closed_error (logged env)), p1, (w1, es)) = (rep, p', (w', es'))"
      by (simp add: attempt_def)
    from judge_link_extends [OF this] show ?thesis by simp
  next
    case False
    with att slot send have "judge_link (logged env) u (rep1, p2, (w2, es2)) = (rep, p', (w', es'))"
      by (simp add: attempt_def)
    from judge_link_extends [OF this] show ?thesis by simp
  qed
  ultimately show ?thesis by auto
qed

lemma with_retry_extends:
  assumes "with_retry (logged env) u req (rep, p, (w, es)) = (rep', p', (w', es'))"
  shows "\<exists>new. es' = es @ new"
  using assms
  by (auto simp: with_retry_def dest: attempt_extends split: reply.splits retry.splits prod.splits)
    (metis async_sleep_logged attempt_extends prod.inject)

lemma run_read_once:
  assumes rd: "is_read req" and prompt: "prompt_disconnect env"
    and run: "run (logged env) u req p (w, es) = (rep, p', (w', es'))"
    and first: "es' = es @ e # rest" "uncertain_read e"
  shows "sends u req es' \<le> sends u req es + 1"
proof (cases "ensure_read_allowed (logged env) u p")
  case (Some x)
  with run rd first show ?thesis by (simp add: run_def)
next
  case None
  obtain rep1 p1 w1 es1 where att: "attempt (logged env) u req p (w, es) = (rep1, p1, (w1, es1))"
    using prod_cases4 by blast
  obtain rep2 p2 w2 es2 where retry:
    "with_retry (logged env) u req (rep1, p1, (w1, es1)) = (rep2, p2, (w2, es2))"
    using prod_cases4 by blast
  have es': "es' = es2"
    using run None att retry by (cases rep2) (auto simp: run_def split: if_splits)
  obtain new where new: "es1 = es @ new" using attempt_extends [OF att] by blast
  show ?thesis
  proof (cases "new = []")
    case True
    with with_retry_log [OF retry] new es' show ?thesis by simp
  next
    case False
    obtain more where "es2 = es1 @ more" using with_retry_extends [OF retry] by blast
    with False new es' first(1) have "hd new = e" by (cases new) auto
    with False first(2) have "list_ex uncertain_read (drop (length es) es1)"
      by (cases new) (simp_all add: new)
    then have "read_delayed p1 u" by (rule attempt_uncertain [OF prompt att])
    from no_retry_when_delayed [OF rd this, of "logged env" rep1 "(w1, es1)"] retry have "es2 = es1" by simp
    with attempt_log [OF att] es' show ?thesis by simp
  qed
qed

section \<open>Samples\<close>

definition samples_ok :: "transport \<Rightarrow> bool" where
  "samples_ok p \<longleftrightarrow> length (request_samples p) \<le> 10000
     \<and> sorted (map fst (request_samples p))
     \<and> (\<forall>(t, d) \<in> set (request_samples p). t \<le> mono_now p \<and> (\<forall>x. d = Some x \<longrightarrow> 0 \<le> x))"

lemma length_map_filter: "length (List.map_filter f xs) \<le> length xs"
  by (simp add: List.map_filter_def)

lemma set_prune_before: "set (prune_before limit ss) \<subseteq> set ss"
  by (induction ss) auto

lemma prune_before_drop: "\<exists>n. prune_before limit ss = drop n ss"
proof (induction ss)
  case (Cons s ss)
  then obtain n where "prune_before limit ss = drop n ss" by blast
  then have "prune_before limit (s # ss) = drop (if fst s \<le> limit then Suc n else 0) (s # ss)"
    by simp
  then show ?case by blast
qed simp

lemma prune_before_recent:
  "sorted (map fst ss) \<Longrightarrow> (t, d) \<in> set (prune_before limit ss) \<Longrightarrow> limit < t"
  by (induction ss) (auto split: if_splits)

lemma samples_ok_prune: "samples_ok p \<Longrightarrow> samples_ok (prune_samples p)"
proof -
  obtain n where "prune_before (mono_now p - COMMUNICATION_WINDOW_SECONDS) (request_samples p)
      = drop n (request_samples p)"
    using prune_before_drop by blast
  then show "samples_ok p \<Longrightarrow> samples_ok (prune_samples p)"
    by (auto simp: samples_ok_def prune_samples_def sorted_wrt_drop drop_map [symmetric]
        dest: in_set_dropD)
qed

lemma samples_ok_record:
  assumes "samples_ok p" "started \<le> mono_now p"
  shows "samples_ok (record_request started ok p)"
proof -
  have p: "samples_ok (prune_samples p)" "mono_now (prune_samples p) = mono_now p"
    using assms(1) samples_ok_prune by (simp_all add: prune_samples_def)
  then have "sorted (map fst (request_samples (prune_samples p) @ [(mono_now p, x)]))" for x
    by (auto simp: samples_ok_def sorted_append)
  with p assms(2) show ?thesis
    by (fastforce simp: samples_ok_def record_request_def Let_def deque_append_def drop_map [symmetric]
        sorted_wrt_drop simp del: drop_append dest!: in_set_dropD)
qed

lemma samples_ok_step_fields:
  "request_samples p' = request_samples p \<Longrightarrow> mono_now p \<le> mono_now p' \<Longrightarrow> samples_ok p \<Longrightarrow> samples_ok p'"
  by (fastforce simp: samples_ok_def)

section \<open>Invariants of the policy\<close>

text \<open>
  What a property of the policy's state must survive to hold after any requests: the steps a request is
  made of.
\<close>

locale transport_invariant =
  fixes kept :: "transport \<Rightarrow> bool"
  assumes kept_time: "kept p \<Longrightarrow> kept (time_passes d c p)"
    and kept_record: "kept p \<Longrightarrow> started \<le> mono_now p \<Longrightarrow> kept (record_request started ok p)"
    and kept_notify: "kept p \<Longrightarrow> kept (notify_request x p)"
    and kept_quarantine: "kept p \<Longrightarrow> kept (quarantine_read u p)"
    and kept_finished: "kept p \<Longrightarrow> kept (read_finished rd p)"
    and kept_answered: "kept p \<Longrightarrow> kept (link_answered p)"
    and kept_count: "kept p \<Longrightarrow> kept (p\<lparr>consecutive_timeouts := n\<rparr>)"
    and kept_recycle: "kept p \<Longrightarrow> kept (notify_link_recycle
      (p\<lparr>consecutive_timeouts := 0, quiet_since := mono_now p, link_recycles := link_recycles p + 1\<rparr>))"
    and kept_release: "kept p \<Longrightarrow> kept (release_quarantine u req p)"
    and kept_shutdown: "kept p \<Longrightarrow> kept (shutdown_policy p)"
    and kept_prune: "kept p \<Longrightarrow> kept (prune_samples p)"
begin

lemma kept_sleep: "kept p \<Longrightarrow> kept (fst (async_sleep env d p w))"
  by (simp add: async_sleep_def kept_time split: prod.split)

lemma kept_slot: "kept p \<Longrightarrow> kept (fst (wait_for_read_slot env p w))"
proof (induction env p w rule: wait_for_read_slot.induct)
  case (1 env p w)
  obtain p' w' where sleep: "async_sleep env (slot_remaining p) p w = (p', w')" by fastforce
  have "kept p'" using kept_sleep [OF 1(2), of env "slot_remaining p" w] sleep by simp
  with 1(1) [OF _ _ refl, of p' w'] 1(2) sleep show ?case
    by (subst wait_for_read_slot.simps) auto
qed

lemma kept_count_timeout: "kept p \<Longrightarrow> kept (fst (snd (count_timeout env u e p w)))"
proof -
  assume "kept p"
  define p1 where "p1 = p\<lparr>consecutive_timeouts := consecutive_timeouts p + 1\<rparr>"
  have "kept p1" using kept_count [OF \<open>kept p\<close>] by (simp add: p1_def)
  moreover have "kept (time_passes d c (notify_link_recycle (p1\<lparr>consecutive_timeouts := 0,
      quiet_since := mono_now p1, link_recycles := link_recycles p1 + 1\<rparr>)))" for d c
    using kept_recycle [OF \<open>kept p1\<close>] by (rule kept_time)
  ultimately show ?thesis
    unfolding count_timeout_def Let_def p1_def [symmetric] by (auto split: prod.split option.split)
qed

lemma kept_send: "kept p \<Longrightarrow> kept (fst (snd (send_request env u req p w)))"
proof -
  assume "kept p"
  obtain d c rep w' where req: "env_request env (mono_now p) u req w = (d, c, rep, w')"
    using prod_cases4 by blast
  define p1 where "p1 = time_passes d c p"
  have p1: "kept p1" "mono_now p \<le> mono_now p1" "mono_now p \<le> mono_now (quarantine_read u p1)"
    using \<open>kept p\<close> by (simp_all add: p1_def kept_time) (simp_all add: time_passes_def quarantine_read_def)
  have booked: "kept (notify_request x (record_request (mono_now p) ok q))"
    if "q = p1 \<or> q = quarantine_read u p1" for x ok q
    using that p1 by (auto intro!: kept_notify kept_record kept_quarantine)
  show ?thesis
    unfolding send_request_def Let_def req p1_def [symmetric]
    by (cases rep)
      (auto intro!: kept_finished booked kept_quarantine simp: p1 simp flip: p1_def)
qed

lemma kept_judge: "kept p \<Longrightarrow> kept (fst (snd (judge_link env u (rep, p, w))))"
  using kept_count_timeout [of p env u _ w] kept_answered
  by (auto simp: judge_link_def split: reply.split prod.splits) (metis fst_conv snd_conv)

lemma kept_attempt:
  assumes "kept p" shows "kept (fst (snd (attempt env u req p w)))"
proof -
  obtain p1 w1 where slot: "(if is_read req then wait_for_read_slot env p w else (p, w)) = (p1, w1)"
    by fastforce
  have "kept p1" using slot kept_slot [OF assms, of env w] assms by (auto split: if_splits)
  moreover obtain rep p2 w2 where send: "send_request env u req p1 w1 = (rep, p2, w2)"
    using prod_cases3 by blast
  ultimately show ?thesis
    using kept_judge kept_send [of p1 env u req w1] slot by (auto simp: attempt_def split: if_splits)
qed

lemma kept_with_retry:
  assumes "kept p" shows "kept (fst (snd (with_retry env u req (rep, p, w))))"
proof (cases rep)
  case (Raised e)
  obtain p1 w1 where sleep: "async_sleep env (connection_retry_delay p) p w = (p1, w1)" by fastforce
  have "kept p1" using kept_sleep [OF assms] sleep by (metis fst_conv)
  with assms kept_attempt sleep show ?thesis
    by (cases "retry_of (is_read req) u e p") (simp_all add: with_retry_def Raised)
qed (simp_all add: with_retry_def assms)

lemma kept_run: "kept p \<Longrightarrow> kept (fst (snd (run env u req p w)))"
proof -
  assume "kept p"
  obtain rep1 p1 w1 where att: "attempt env u req p w = (rep1, p1, w1)"
    using prod_cases3 by blast
  obtain rep2 p2 w2 where retry: "with_retry env u req (rep1, p1, w1) = (rep2, p2, w2)"
    using prod_cases3 by blast
  have "kept p1" using kept_attempt [OF \<open>kept p\<close>, of env u req w] att by simp
  then have "kept p2" using kept_with_retry [of p1 env u req rep1 w1] retry by simp
  then show ?thesis
    using \<open>kept p\<close> att retry kept_release
    by (cases rep2) (auto simp: run_def split: option.split)
qed

lemma kept_transport_run: "kept p \<Longrightarrow> kept (fst (transport_run env ops (p, w)))"
proof (induction ops arbitrary: p w)
  case (Cons op ops)
  have "kept (fst (transport_step env op (p, w)))"
    using Cons.prems kept_run [of p env _ _ w] kept_time kept_shutdown kept_prune
    by (cases op) (auto simp: transport_diagnostics_of_def Let_def)
  with Cons.IH show ?case
    by (cases "transport_step env op (p, w)") (simp add: transport_run_def)
qed (simp add: transport_run_def)

end

interpretation samples: transport_invariant samples_ok
proof unfold_locales
  fix p started ok
  show "samples_ok p \<Longrightarrow> started \<le> mono_now p \<Longrightarrow> samples_ok (record_request started ok p)"
    by (rule samples_ok_record)
qed (auto elim!: samples_ok_step_fields [rotated 2] samples_ok_prune simp: time_passes_def notify_request_def
  quarantine_read_def read_finished_def link_answered_def notify_link_recycle_def release_quarantine_def
  shutdown_policy_def)

text \<open>No unit is quarantined for longer than the recovery time.\<close>

definition quarantine_bounded :: "transport \<Rightarrow> bool" where
  "quarantine_bounded p \<longleftrightarrow>
     (\<forall>u t. map_of (unanswered_reads p) u = Some t \<longrightarrow> t \<le> mono_now p + TRANSPORT_READ_RECOVERY_SECONDS)"

lemma quarantine_bounded_fields:
  "unanswered_reads p' = unanswered_reads p \<Longrightarrow> mono_now p \<le> mono_now p' \<Longrightarrow>
     quarantine_bounded p \<Longrightarrow> quarantine_bounded p'"
  by (fastforce simp: quarantine_bounded_def)

interpretation quarantine: transport_invariant quarantine_bounded
proof unfold_locales
  fix p u
  assume "quarantine_bounded p"
  then show "quarantine_bounded (quarantine_read u p)"
    by (auto simp: quarantine_bounded_def quarantine_read_def update_conv)
next
  fix p u req
  assume "quarantine_bounded p"
  then show "quarantine_bounded (release_quarantine u req p)"
    by (auto simp: quarantine_bounded_def release_quarantine_def delete_conv)
qed (auto elim!: quarantine_bounded_fields [rotated 2] simp: time_passes_def notify_request_def
  record_request_def prune_samples_def Let_def read_finished_def link_answered_def notify_link_recycle_def
  shutdown_policy_def)

lemma quarantine_bounded_new [simp]:
  "quarantine_bounded (new_transport n quiet delay t0 offset)"
  "quarantine_bounded (new_transport_policy timeout t0 offset)"
  by (simp_all add: quarantine_bounded_def new_transport_policy_def new_transport_def)

text \<open>A wait of the recovery time ends every quarantine.\<close>

lemma quarantine_outwaited:
  assumes "quarantine_bounded p" "TRANSPORT_READ_RECOVERY_SECONDS \<le> d"
    and "async_sleep env d p w = (p', w')" "0 \<le> mono_now p'"
  shows "\<not> read_delayed p' u"
proof -
  have "mono_now p' \<ge> mono_now p + d" "unanswered_reads p' = unanswered_reads p"
    using assms(3) by (auto simp: async_sleep_def time_passes_def split: prod.splits)
  with assms(1,2,4) show ?thesis
    by (cases "map_of (unanswered_reads p) u") (fastforce simp: read_delayed_def dict_get_def quarantine_bounded_def)+
qed

section \<open>A scripted link\<close>

text \<open>A link that answers from a script: the world is the list of replies still to come.\<close>

definition scripted_link :: "(seconds \<times> bool \<times> reply) list link_env" where
  "scripted_link =
     \<lparr>env_request = (\<lambda>t u req script. case script of
        [] \<Rightarrow> (1, False, Answered [0], [])
      | (d, closing, rep) # rest \<Rightarrow> (d, closing, rep, rest)),
      env_sleep = (\<lambda>d script. (0, False, script)),
      env_disconnect = (\<lambda>t u script. (0, None, script)),
      superclasses = (\<lambda>c. if c = ReadQuarantinedError then [ModbusProtocolError, ModbusError]
        else if c = ClientClosedError then [ModbusConnectionError, ModbusError] else [ModbusError])\<rparr>"

lemma scripted_link_closed: "closed_is_no_reply scripted_link"
  by (simp add: closed_is_no_reply_def closed_error_def new_exn_def scripted_link_def isinstance_def
      const_simps)

lemma scripted_link_prompt: "prompt_disconnect scripted_link"
  by (simp add: prompt_disconnect_def scripted_link_def)

definition timeout_exn :: exn where
  "timeout_exn = \<lparr>isa = [ModbusTimeoutError, ModbusError], message = ''timeout''\<rparr>"

section \<open>Properties\<close>

text \<open>
  C9. Pacing and quarantine: in any sequence of requests, pauses, diagnostics and a shutdown, over any
  link, every read is sent at least the read interval after the previous read ended, and at least five
  seconds after an unanswered read of its unit.
\<close>

theorem transport_spaces_reads:
  assumes "closed_is_no_reply env"
    and "transport_run (logged env) ops
      ((new_transport n quiet delay t0 offset)\<lparr>read_interval := spacing\<rparr>, (w, [])) = (p, (w', es))"
  shows "paced spacing es \<and> recovered es"
  using transport_run_inv [OF assms(1) transport_inv_new assms(2)]
  by (auto simp: transport_inv_def remembers_reads_def policy_log_ok_def same_settings_def)

theorem transport_spaces_reads_witness:
  "\<exists>p w es. transport_run (logged scripted_link)
      [Request 2 (ReadHolding 41020 2), Pause 1, Request 2 (ReadHolding 41020 2)]
      ((new_transport 3 10 5 0 0)\<lparr>read_interval := 2\<rparr>, ([(1, False, Raised timeout_exn)], []))
      = (p, (w, es)) \<and> paced 2 es \<and> recovered es"
  using transport_spaces_reads [OF scripted_link_closed] by (metis prod_cases3)

text \<open>
  C39. The link is dropped only when it is dead: the configured number of timeouts in a row since the
  last answer or drop, and no answer and no drop for the whole quiet window.
\<close>

theorem transport_drops_dead_link:
  assumes "closed_is_no_reply env"
    and "transport_run (logged env) ops (new_transport_policy timeout t0 offset, (w, [])) = (p, (w', es))"
  shows "dropped_after 3 0 es \<and> dropped_when_quiet (max 10 (timeout * 3 + 5)) es"
proof -
  have "transport_inv (new_transport_policy timeout t0 offset) []"
    using transport_inv_new [where n = 3 and quiet = "max 10 (timeout * 3 + 5)" and delay = 5
        and ?t0.0 = t0 and offset = offset and spacing = 0]
    by (simp add: new_transport_policy_def new_transport_def)
  from transport_run_inv [OF assms(1) this assms(2)] show ?thesis
    by (auto simp: transport_inv_def remembers_reads_def policy_log_ok_def same_settings_def
        new_transport_policy_def new_transport_def)
qed

theorem transport_drops_dead_link_witness:
  "\<exists>p w es. transport_run (logged scripted_link)
      [Request 2 (WriteRegister 41132 0), Request 2 (WriteRegister 41132 0)]
      (new_transport_policy 3 0 0, (replicate 4 (8, False, Raised timeout_exn), []))
      = (p, (w, es)) \<and> dropped_after 3 0 es \<and> dropped_when_quiet 14 es"
  using transport_drops_dead_link [OF scripted_link_closed, of _ 3] by (auto, metis prod_cases3)



text \<open>
  Link diagnostics stay in bounds after any history: at most 10000 samples, a success rate between
  0 and 100 percent, and a mean response time that is not negative.
\<close>

lemma transport_diagnostics_bounds:
  assumes "diag = fst (transport_diagnostics_of
      (fst (transport_run env ops (new_transport_policy timeout t0 offset, w))))"
  shows "diag_request_sample_count diag \<le> 10000
    \<and> (\<forall>r. diag_request_success_rate diag = Some r \<longrightarrow> 0 \<le> r \<and> r \<le> 100)
    \<and> (\<forall>m. diag_mean_response_time_ms diag = Some m \<longrightarrow> 0 \<le> m)"
proof -
  define p where "p = fst (transport_run env ops (new_transport_policy timeout t0 offset, w))"
  have "samples_ok (new_transport_policy timeout t0 offset)"
    by (simp add: samples_ok_def new_transport_policy_def new_transport_def)
  then have "samples_ok (prune_samples p)"
    unfolding p_def by (intro samples_ok_prune samples.kept_transport_run)
  then have samples: "length (request_samples (prune_samples p)) \<le> 10000"
    and "\<forall>x \<in> set (List.map_filter snd (request_samples (prune_samples p))). 0 \<le> x"
    by (fastforce simp: samples_ok_def List.map_filter_def)+
  then have "0 \<le> sum_list (List.map_filter snd (request_samples (prune_samples p)))"
    by (intro sum_list_nonneg) auto
  moreover have "0 \<le> 100 * real a / real b \<and> 100 * real a / real b \<le> 100"
    if "a \<le> b" for a b :: nat
    using that by (cases "b = 0") (auto simp: divide_le_eq)
  ultimately show ?thesis
    using length_map_filter [of snd "request_samples (prune_samples p)"] samples
    by (auto simp: assms transport_diagnostics_of_def Let_def p_def [symmetric])
qed

lemma transport_diagnostics_bounds_witness:
  "\<exists>diag. diag = fst (transport_diagnostics_of (fst (transport_run scripted_link
      [Request 2 (WriteRegister 41132 0)] (new_transport_policy 3 0 0, []))))
    \<and> diag_request_sample_count diag \<le> 10000"
  using transport_diagnostics_bounds [of _ scripted_link] by blast

end
