(* ===== verification/Gateway_Reads.thy ===== *)
theory Gateway_Reads
  imports Meltem_Models
begin

text \<open>
  Growing pauses after failed reads, and \<open>gateway_reads.py\<close>: an optional gateway value that is read
  only while an entity needs it.
\<close>

section \<open>Doubling pauses\<close>

text \<open>
  \<open>min(maximum, start * 2 ** (failures - 1))\<close>, with which \<open>OptionalGatewayRead\<close> and the client's
  \<open>_ReadBackoff\<close> both lengthen a pause.
\<close>

definition doubling_pause :: "seconds \<Rightarrow> seconds \<Rightarrow> nat \<Rightarrow> seconds" where
  "doubling_pause start maximum failures = min maximum (start * 2 ^ (failures - 1))"

text \<open>
  Both cap the failure counter. The contract of a cap: with that many failures the pause has reached
  its maximum, so nothing is lost by counting no further.
\<close>

locale pause_cap =
  fixes start maximum :: seconds and cap :: nat
  assumes start_nonneg: "0 \<le> start"
    and maximum_nonneg: "0 \<le> maximum"
    and cap_pos: "0 < cap"
    and cap_reaches: "maximum \<le> start * 2 ^ (cap - 1) \<or> start = 0"
begin

lemma pause_nonneg: "0 \<le> doubling_pause start maximum n"
  using start_nonneg maximum_nonneg by (simp add: doubling_pause_def)

lemma pause_le: "doubling_pause start maximum n \<le> maximum"
  by (simp add: doubling_pause_def)

lemma pause_mono: "m \<le> n \<Longrightarrow> doubling_pause start maximum m \<le> doubling_pause start maximum n"
proof -
  assume "m \<le> n"
  then have "start * 2 ^ (m - 1) \<le> start * 2 ^ (n - 1)"
    using start_nonneg by (intro mult_left_mono power_increasing) auto
  then show ?thesis by (auto simp: doubling_pause_def)
qed

lemma pause_capped: "doubling_pause start maximum (min n cap) = doubling_pause start maximum n"
proof (cases "n \<le> cap")
  case False
  then have "start * 2 ^ (cap - 1) \<le> start * 2 ^ (n - 1)"
    using start_nonneg by (intro mult_left_mono power_increasing) auto
  with False cap_reaches maximum_nonneg show ?thesis by (auto simp: doubling_pause_def)
qed simp

text \<open>Counting failures with the cap gives the pause of the uncapped count.\<close>

lemma pause_count:
  "doubling_pause start maximum (((\<lambda>k. min (k + 1) cap) ^^ n) 0) = doubling_pause start maximum n"
proof -
  have "((\<lambda>k. min (k + 1) cap) ^^ n) 0 = min n cap" by (induction n) auto
  then show ?thesis by (simp add: pause_capped)
qed

end

section \<open>State\<close>

record 'v optional_read =
  refresh_seconds :: seconds
  stale_seconds :: seconds
  retry_seconds :: seconds
  max_failures :: nat
  failures :: nat
  first_read_delay :: seconds
  clear_on_disable :: bool
  consumers :: "string set"
  next_due :: seconds
  read_value :: "'v option"
  read_at :: "seconds option"
  reading :: bool
  disable_generation :: int
  value_calls :: "'v list"

text \<open>
  \<open>math.ceil(math.log2(refresh / retry))\<close>, on exact quotients; the code takes it for
  \<open>0 < retry\<close> and \<open>retry \<le> refresh\<close> only. It is computed by halving.
\<close>

definition ceil_log2_quotient :: "seconds \<Rightarrow> seconds \<Rightarrow> nat" where
  "ceil_log2_quotient refresh retry =
     (if 0 < retry \<and> retry < refresh then nat \<lceil>log 2 (refresh / retry)\<rceil> else 0)"

lemma ceil_log2_quotient_code [code]:
  "ceil_log2_quotient refresh retry =
     (if 0 < retry \<and> retry < refresh then Suc (ceil_log2_quotient (refresh / 2) retry) else 0)"
proof (cases "0 < retry \<and> retry < refresh")
  case True
  then have "1 < refresh / retry" by simp
  then have pos: "0 < log 2 (refresh / retry)" by simp
  have half: "log 2 (refresh / 2 / retry) = log 2 (refresh / retry) - 1"
    using True log_divide [of 2 "refresh / retry" 2] by (simp add: field_simps)
  then have ceil: "\<lceil>log 2 (refresh / retry)\<rceil> = \<lceil>log 2 (refresh / 2 / retry)\<rceil> + 1" by simp
  show ?thesis
  proof (cases "retry < refresh / 2")
    case inner: True
    then have "1 < refresh / 2 / retry" using True by (simp add: field_simps)
    then have "0 < log 2 (refresh / 2 / retry)" by simp
    then have "0 < \<lceil>log 2 (refresh / 2 / retry)\<rceil>" by simp
    then have "nat \<lceil>log 2 (refresh / retry)\<rceil> = Suc (nat \<lceil>log 2 (refresh / 2 / retry)\<rceil>)"
      unfolding ceil by linarith
    then show ?thesis using True inner by (simp add: ceil_log2_quotient_def)
  next
    case False
    then have "refresh / 2 / retry \<le> 1" "0 < refresh / 2 / retry" using True by (simp_all add: field_simps)
    then have "log 2 (refresh / 2 / retry) \<le> 0" by simp
    then have "\<lceil>log 2 (refresh / retry)\<rceil> \<le> 1" using half by (simp add: ceiling_le_iff)
    moreover have "0 < \<lceil>log 2 (refresh / retry)\<rceil>" using pos by simp
    ultimately have "\<lceil>log 2 (refresh / retry)\<rceil> = 1" by linarith
    then show ?thesis using True False by (simp add: ceil_log2_quotient_def)
  qed
qed (auto simp: ceil_log2_quotient_def)

lemma ceil_log2_reaches:
  assumes "0 < retry" "retry \<le> refresh"
  shows "refresh \<le> retry * 2 ^ ceil_log2_quotient refresh retry"
proof (cases "retry < refresh")
  case True
  have pos: "0 < refresh / retry" "1 \<le> refresh / retry" using assms by simp_all
  then have "0 \<le> log 2 (refresh / retry)" by simp
  then have "log 2 (refresh / retry) \<le> real (ceil_log2_quotient refresh retry)"
    using True assms by (simp add: ceil_log2_quotient_def)
  then have "refresh / retry \<le> 2 powr real (ceil_log2_quotient refresh retry)"
    using pos(1) by (simp add: log_le_iff)
  then have "refresh / retry \<le> 2 ^ ceil_log2_quotient refresh retry"
    by (simp add: powr_realpow)
  then show ?thesis using assms(1) by (simp add: pos_divide_le_eq mult.commute)
qed (use assms in \<open>simp add: ceil_log2_quotient_def\<close>)

definition new_optional_read :: "seconds \<Rightarrow> seconds \<Rightarrow> seconds \<Rightarrow> seconds \<Rightarrow> bool \<Rightarrow> 'v optional_read" where
  "new_optional_read refresh stale retry first_delay clear =
     (let retry' = min retry refresh
      in \<lparr>refresh_seconds = refresh, stale_seconds = stale, retry_seconds = retry',
          max_failures = 1 + (if retry' > 0 then ceil_log2_quotient refresh retry' else 0),
          failures = 0, first_read_delay = first_delay, clear_on_disable = clear, consumers = {},
          next_due = 0, read_value = None, read_at = None, reading = False,
          disable_generation = 0, value_calls = []\<rparr>)"

section \<open>Operations\<close>

definition read_enabled :: "'v optional_read \<Rightarrow> bool" where
  "read_enabled r \<longleftrightarrow> consumers r \<noteq> {}"

definition current_value :: "seconds \<Rightarrow> 'v optional_read \<Rightarrow> 'v option" where
  "current_value clock r =
     (case read_at r of
        None \<Rightarrow> None
      | Some t \<Rightarrow> if clock - t > stale_seconds r then None else read_value r)"

definition set_enabled :: "seconds \<Rightarrow> string \<Rightarrow> bool \<Rightarrow> 'v optional_read \<Rightarrow> bool \<times> 'v optional_read" where
  "set_enabled clock consumer on r =
     (let r1 = (if on then r\<lparr>consumers := insert consumer (consumers r)\<rparr>
                else r\<lparr>consumers := consumers r - {consumer}\<rparr>)
      in if read_enabled r = read_enabled r1 then (False, r1)
         else if read_enabled r1 then (True, r1\<lparr>next_due := clock + first_read_delay r\<rparr>)
         else let r2 = r1\<lparr>disable_generation := disable_generation r + 1\<rparr>
              in (True, if clear_on_disable r then r2\<lparr>read_value := None, read_at := None\<rparr> else r2))"

definition seconds_until_due :: "seconds \<Rightarrow> 'v optional_read \<Rightarrow> seconds option" where
  "seconds_until_due clock r = (if read_enabled r then Some (next_due r - clock) else None)"

text \<open>
  \<open>async_read_if_due\<close> up to its \<open>await\<close>: whether a read starts, and the generation it keeps. Cancelling
  the task in \<open>set_enabled\<close> shows in the outcome the caller of \<open>finish_read\<close> passes.
\<close>

definition begin_read :: "seconds \<Rightarrow> 'v optional_read \<Rightarrow> (int \<times> 'v optional_read) option" where
  "begin_read clock r =
     (if \<not> read_enabled r \<or> clock < next_due r then None
      else Some (disable_generation r, r\<lparr>reading := True\<rparr>))"

datatype 'v task_result = TaskValue 'v | TaskFailed string | TaskCancelledResult | TaskRaised exn

text \<open>The rest of \<open>async_read_if_due\<close>; the flag says whether the exception goes on to the caller.\<close>

definition finish_read ::
  "seconds \<Rightarrow> int \<Rightarrow> 'v task_result \<Rightarrow> 'v optional_read \<Rightarrow> bool \<times> 'v optional_read" where
  "finish_read clock generation result r =
     (let (raises, delay, r1) = (case result of
          TaskValue v \<Rightarrow>
            (False, refresh_seconds r,
             r\<lparr>read_value := Some v, read_at := Some clock, failures := 0,
               value_calls := value_calls r @ [v]\<rparr>)
        | TaskCancelledResult \<Rightarrow> (disable_generation r = generation, refresh_seconds r, r)
        | TaskFailed err \<Rightarrow>
            (let n = min (failures r + 1) (max_failures r)
             in (False, doubling_pause (retry_seconds r) (refresh_seconds r) n, r\<lparr>failures := n\<rparr>))
        | TaskRaised e \<Rightarrow> (True, refresh_seconds r, r));
          delay' = (if read_enabled r \<and> disable_generation r \<noteq> generation
                    then first_read_delay r else delay)
      in (raises, r1\<lparr>reading := False, next_due := clock + delay'\<rparr>))"

section \<open>The retry pauses of an optional read\<close>

definition optional_read_ok :: "'v optional_read \<Rightarrow> bool" where
  "optional_read_ok r \<longleftrightarrow>
     0 \<le> retry_seconds r \<and> retry_seconds r \<le> refresh_seconds r
     \<and> failures r \<le> max_failures r \<and> 0 < max_failures r
     \<and> (refresh_seconds r \<le> retry_seconds r * 2 ^ (max_failures r - 1) \<or> retry_seconds r = 0)
     \<and> (read_at r = None \<longrightarrow> read_value r = None)"

lemma optional_read_ok_new:
  assumes "0 \<le> retry" "0 \<le> refresh"
  shows "optional_read_ok (new_optional_read refresh stale retry first_delay clear)"
  using assms ceil_log2_reaches [of "min retry refresh" refresh]
  by (auto simp: optional_read_ok_def new_optional_read_def Let_def)

lemma optional_read_ok_steps:
  assumes "optional_read_ok r"
  shows "optional_read_ok (snd (set_enabled clock consumer on r))"
    and "begin_read clock r = Some (g, r') \<Longrightarrow> optional_read_ok r'"
    and "optional_read_ok (snd (finish_read clock g result r))"
proof -
  show "optional_read_ok (snd (set_enabled clock consumer on r))"
    using assms by (simp add: optional_read_ok_def set_enabled_def Let_def)
  show "begin_read clock r = Some (g, r') \<Longrightarrow> optional_read_ok r'"
    using assms by (auto simp: optional_read_ok_def begin_read_def split: if_splits)
  show "optional_read_ok (snd (finish_read clock g result r))"
    using assms by (cases result) (simp_all add: optional_read_ok_def finish_read_def Let_def)
qed

lemma pause_cap_of: "optional_read_ok r \<Longrightarrow> pause_cap (retry_seconds r) (refresh_seconds r) (max_failures r)"
  by unfold_locales (auto simp: optional_read_ok_def)

section \<open>Any history of an optional read\<close>

text \<open>
  A toggle, or a poll: its time, the toggles while the task runs, the time it ends, and its result.
\<close>

datatype 'v read_op =
    Toggle seconds string bool
  | Poll seconds "(seconds \<times> string \<times> bool) list" seconds "'v task_result"

definition toggle :: "seconds \<times> string \<times> bool \<Rightarrow> 'v optional_read \<Rightarrow> 'v optional_read" where
  "toggle t r = (case t of (clock, consumer, on) \<Rightarrow> snd (set_enabled clock consumer on r))"

fun read_step :: "'v read_op \<Rightarrow> 'v optional_read \<Rightarrow> 'v optional_read" where
  "read_step (Toggle clock consumer on) r = toggle (clock, consumer, on) r"
| "read_step (Poll start toggles finish result) r =
     (case begin_read start r of
        None \<Rightarrow> r
      | Some (generation, r1) \<Rightarrow>
          snd (finish_read finish generation result (fold toggle toggles r1)))"

lemma optional_read_ok_toggles: "optional_read_ok r \<Longrightarrow> optional_read_ok (fold toggle ts r)"
proof (induction ts arbitrary: r)
  case (Cons t ts)
  have "optional_read_ok (toggle t r)"
    using Cons.prems by (cases t) (simp add: toggle_def optional_read_ok_steps(1))
  with Cons.IH show ?case by simp
qed simp

lemma optional_read_ok_step: "optional_read_ok r \<Longrightarrow> optional_read_ok (read_step op r)"
  by (cases op)
    (auto simp: toggle_def optional_read_ok_steps(1,3) optional_read_ok_toggles
      dest: optional_read_ok_steps(2) split: option.split)

lemma optional_read_ok_run: "optional_read_ok r \<Longrightarrow> optional_read_ok (fold read_step ops r)"
  by (induction ops arbitrary: r) (simp_all add: optional_read_ok_step)

text \<open>What the value of a run can be: the start value, or one a task returned.\<close>

fun returned_values :: "'v read_op list \<Rightarrow> 'v list" where
  "returned_values [] = []"
| "returned_values (Poll _ _ _ (TaskValue v) # ops) = v # returned_values ops"
| "returned_values (_ # ops) = returned_values ops"

lemma returned_values_Cons: "returned_values (op # ops) = returned_values [op] @ returned_values ops"
proof (cases op)
  case (Poll start toggles finish result)
  then show ?thesis by (cases result) simp_all
qed simp

lemma read_value_toggle: "read_value (toggle t r) = Some v \<Longrightarrow> read_value r = Some v"
  by (auto simp: toggle_def set_enabled_def Let_def split: prod.splits if_splits)

lemma read_value_toggles:
  "read_value (fold toggle ts r) = Some v \<Longrightarrow> read_value r = Some v"
proof (induction ts arbitrary: r)
  case (Cons t ts)
  then show ?case by (auto dest: read_value_toggle)
qed simp

lemma read_value_run:
  "read_value (fold read_step ops r) = Some v \<Longrightarrow> read_value r = Some v \<or> v \<in> set (returned_values ops)"
proof (induction ops arbitrary: r)
  case (Cons op ops)
  have "read_value (read_step op r) = Some v \<Longrightarrow>
      read_value r = Some v \<or> v \<in> set (returned_values [op])"
  proof (cases op)
    case (Poll start toggles finish result)
    assume "read_value (read_step op r) = Some v"
    then show ?thesis
      by (cases result)
        (auto simp: Poll finish_read_def Let_def begin_read_def split: option.splits if_splits
          dest!: read_value_toggles)
  next
    case (Toggle clock consumer on)
    assume "read_value (read_step op r) = Some v"
    with read_value_toggles [of "[(clock, consumer, on)]" r v] show ?thesis by (simp add: Toggle)
  qed
  then show ?case using Cons returned_values_Cons [of op ops] by auto
qed simp

text \<open>\<open>n\<close> failed polls in a row, each due and without a toggle while it runs.\<close>

definition failing_polls :: "(seconds \<times> seconds) list \<Rightarrow> 'v read_op list" where
  "failing_polls ts = map (\<lambda>(start, finish). Poll start [] finish (TaskFailed ''no answer'')) ts"

fun polls_due :: "(seconds \<times> seconds) list \<Rightarrow> 'v optional_read \<Rightarrow> bool" where
  "polls_due [] r = True"
| "polls_due ((start, finish) # ts) r \<longleftrightarrow>
     next_due r \<le> start \<and> start \<le> finish
     \<and> polls_due ts (read_step (Poll start [] finish (TaskFailed ''no answer'')) r)"

lemma failing_poll_step:
  assumes "read_enabled r" "next_due r \<le> start"
  shows "read_step (Poll start [] finish (TaskFailed ''no answer'')) r =
    r\<lparr>reading := False, failures := min (failures r + 1) (max_failures r),
      next_due := finish + doubling_pause (retry_seconds r) (refresh_seconds r)
        (min (failures r + 1) (max_failures r))\<rparr>"
  using assms by (simp add: begin_read_def finish_read_def read_enabled_def Let_def)

lemma failing_polls_failures:
  "read_enabled r \<Longrightarrow> polls_due ts r \<Longrightarrow>
     failures (fold read_step (failing_polls ts) r) = ((\<lambda>k. min (k + 1) (max_failures r)) ^^ length ts) (failures r)
     \<and> (ts \<noteq> [] \<longrightarrow> next_due (fold read_step (failing_polls ts) r) = snd (last ts)
          + doubling_pause (retry_seconds r) (refresh_seconds r)
              (failures (fold read_step (failing_polls ts) r)))"
proof (induction ts arbitrary: r)
  case (Cons t ts)
  obtain start finish where t: "t = (start, finish)" by fastforce
  define r1 where "r1 = read_step (Poll start [] finish (TaskFailed ''no answer'')) r"
  have r1: "r1 = r\<lparr>reading := False, failures := min (failures r + 1) (max_failures r),
      next_due := finish + doubling_pause (retry_seconds r) (refresh_seconds r)
        (min (failures r + 1) (max_failures r))\<rparr>"
    unfolding r1_def using Cons.prems by (intro failing_poll_step) (simp_all add: t)
  have "read_enabled r1" "polls_due ts r1"
    using Cons.prems by (simp add: r1 read_enabled_def) (use Cons.prems in \<open>simp add: r1_def t\<close>)
  from Cons.IH [OF this]
  have ih: "failures (fold read_step (failing_polls ts) r1)
        = ((\<lambda>k. min (k + 1) (max_failures r)) ^^ length ts) (min (failures r + 1) (max_failures r))"
      "ts \<noteq> [] \<Longrightarrow> next_due (fold read_step (failing_polls ts) r1) = snd (last ts)
        + doubling_pause (retry_seconds r) (refresh_seconds r)
            (failures (fold read_step (failing_polls ts) r1))"
    by (simp_all add: r1)
  have step: "fold read_step (failing_polls (t # ts)) r = fold read_step (failing_polls ts) r1"
    by (simp add: failing_polls_def t r1_def del: read_step.simps)
  show ?case
    unfolding step using ih
    by (cases "ts = []") (simp_all add: funpow_Suc_right t failing_polls_def r1 del: funpow.simps)
qed (simp add: failing_polls_def)

text \<open>
  Retries of an optional gateway value: after any number \<open>n\<close> of failed reads in a row the next one
  is due exactly \<open>min(refresh, retry * 2^(n-1))\<close> seconds later; capping the failure counter changes no
  pause.
\<close>

lemma optional_read_retry_pause:
  assumes "0 \<le> retry" "0 \<le> refresh" "ts \<noteq> []"
    and "r = (new_optional_read refresh stale retry first_delay clear)\<lparr>consumers := {consumer}\<rparr>"
    and "polls_due ts r"
  shows "next_due (fold read_step (failing_polls ts) r) =
    snd (last ts) + min refresh (min retry refresh * 2 ^ (length ts - 1))"
proof -
  have ok: "optional_read_ok r"
    using optional_read_ok_new [OF assms(1,2), of stale first_delay clear]
    by (simp add: assms(4) optional_read_ok_def)
  have "read_enabled r" by (simp add: assms(4) read_enabled_def)
  from failing_polls_failures [OF this assms(5)] assms(3)
    pause_cap.pause_count [OF pause_cap_of [OF ok], of "length ts"]
  show ?thesis
    by (simp add: assms(4) new_optional_read_def Let_def doubling_pause_def)
qed

text \<open>
  A value an entity sees was returned by a read and is no older than the stale limit, whatever reads,
  failures, cancellations and toggles came before; while no entity needs it, no read starts.
\<close>

lemma optional_read_value_fresh:
  assumes "r = fold read_step ops (new_optional_read refresh stale retry first_delay clear)"
  shows "(current_value clock r = Some v \<longrightarrow>
            v \<in> set (returned_values ops) \<and> (\<exists>t. read_at r = Some t \<and> clock - t \<le> stale_seconds r))
         \<and> (consumers r = {} \<longrightarrow> begin_read clock r = None)"
proof (intro conjI impI)
  assume "current_value clock r = Some v"
  then have "read_value r = Some v" "\<exists>t. read_at r = Some t \<and> clock - t \<le> stale_seconds r"
    by (auto simp: current_value_def split: option.splits if_splits)
  with read_value_run [of ops "new_optional_read refresh stale retry first_delay clear" v]
  show "v \<in> set (returned_values ops)" "\<exists>t. read_at r = Some t \<and> clock - t \<le> stale_seconds r"
    by (simp_all add: assms) (simp add: new_optional_read_def Let_def)
qed (simp add: begin_read_def read_enabled_def)

lemma optional_read_retry_pause_witness:
  "\<exists>r :: int optional_read. next_due (fold read_step (failing_polls [(0, 1), (40, 41), (110, 112)]) r)
     = 112 + min 3600 (30 * 2 ^ 2)"
proof -
  let ?r = "(new_optional_read 3600 7200 30 0 False)\<lparr>consumers := {''uptime''}\<rparr> :: int optional_read"
  have cap: "2 \<le> ceil_log2_quotient 3600 30"
    using ceil_log2_reaches [of 30 3600]
    by (cases "ceil_log2_quotient 3600 30"; cases "ceil_log2_quotient 3600 30 - 1") auto
  have "polls_due [(0, 1), (40, 41), (110, 112)] ?r"
    using cap by (simp add: failing_poll_step read_enabled_def new_optional_read_def Let_def
        doubling_pause_def del: read_step.simps)
  from optional_read_retry_pause [OF _ _ _ refl this] show ?thesis by (intro exI [of _ ?r]) simp
qed

theorem optional_read_value_fresh_witness:
  "current_value 50 (fold read_step [Toggle 0 ''uptime'' True, Poll 5 [] 6 (TaskValue (7 :: int))]
     (new_optional_read 3600 7200 30 0 False)) = Some 7
   \<and> (7 :: int) \<in> set (returned_values [Toggle 0 ''uptime'' True, Poll 5 [] 6 (TaskValue 7)])"
proof -
  let ?r = "fold read_step [Toggle 0 ''uptime'' True, Poll 5 [] 6 (TaskValue (7 :: int))]
     (new_optional_read 3600 7200 30 0 False)"
  have "current_value 50 ?r = Some 7"
    by (simp add: toggle_def set_enabled_def begin_read_def finish_read_def read_enabled_def
        new_optional_read_def current_value_def Let_def)
  with optional_read_value_fresh [OF refl, of 50 _ 3600 7200 30 0 False 7] show ?thesis by blast
qed

end
