(* ===== verification/Client_Reads.thy ===== *)
theory Client_Reads
  imports Mode_Codec Read_Health Transport_Policy Gateway_Reads "HOL-Library.Sublist"
begin

text \<open>
  The read half of \<open>modbus_client.py\<close>, with \<open>environment.py\<close>: which registers a refresh plan reads, the
  backoff of refused reads, and how one room read turns the answers of the device into the state, the
  read health and the outcome of the read. \<open>Device.async_poll\<close> and the register decoding of
  \<open>modbus_connection.model\<close> are parameters: a report per component, and a value per attribute.
\<close>

section \<open>Absolute humidity\<close>

definition absolute_humidity :: "real option \<Rightarrow> int option \<Rightarrow> real option" where
  "absolute_humidity temperature humidity =
     (case (temperature, humidity) of
        (Some t, Some h) \<Rightarrow>
          if t \<le> - 243.5 \<or> \<not> (0 \<le> h \<and> h \<le> 100) then None
          else Some (6.112 * exp (17.67 * t / (t + 243.5)) * of_int h * 2.1674 / (273.15 + t))
      | _ \<Rightarrow> None)"

lemma absolute_humidity_nonneg:
  "absolute_humidity temperature humidity = Some v \<Longrightarrow> 0 \<le> v"
  by (auto simp: absolute_humidity_def split: option.splits if_splits intro!: divide_nonneg_nonneg)

section \<open>What a plan reads\<close>

definition BRIDGE_RF_COMPONENTS :: "string list" where [const_simps]:
  "BRIDGE_RF_COMPONENTS =
     [''rf_comm_status'', ''device_fault'', ''value_error_status'', ''rf_last_seen_age'',
      ''rf_signal_strength'']"

definition OPTIONAL_DIAGNOSTIC_COMPONENTS :: "string list" where [const_simps]:
  "OPTIONAL_DIAGNOSTIC_COMPONENTS =
     filter (\<lambda>c. c \<noteq> ''rf_comm_status'') BRIDGE_RF_COMPONENTS @ [''fan_motor_hours'']"

definition FLAG_FIELDS :: "string list" where [const_simps]:
  "FLAG_FIELDS =
     [''error_status'', ''filter_change_due'', ''frost_protection_active'', ''rf_comm_status'']"

definition MODE_GROUPS :: "string list" where [const_simps]:
  "MODE_GROUPS = [''flow_control'', ''intensive'']"

definition MODE_ENTITY_KEYS :: "string list" where [const_simps]:
  "MODE_ENTITY_KEYS = [''operation_mode'', ''preset_mode'', ''intensive'']"

definition AIR_QUALITY_FIELDS :: "(string \<times> string \<times> string list) list" where
  "AIR_QUALITY_FIELDS =
     [(''humidity_extract_air'', ''extract_air_quality'', HUMIDITY_PROFILES),
      (''co2_extract_air'', ''extract_air_quality'', CO2_PROFILES),
      (''voc_extract_air'', ''air_quality'', VOC_PROFILES),
      (''co2_supply_air'', ''air_quality'', VOC_PROFILES),
      (''humidity_supply_air'', ''supply_air_quality'', HUMIDITY_PROFILES),
      (''voc_supply_air'', ''air_quality'', VOC_PROFILES)]"

definition PROFILE_SENSORS :: "string list" where [const_simps]:
  "PROFILE_SENSORS =
     [''humidity_extract_air'', ''humidity_supply_air'', ''co2_extract_air'', ''voc_supply_air'']"

definition placeholder_sensors :: "room_config \<Rightarrow> string list" where
  "placeholder_sensors room =
     map fst (filter (\<lambda>(name, _, profiles).
       name \<in> set PROFILE_SENSORS \<and> name \<in> set (map fst PLAUSIBLE_RANGES)
       \<and> room_profile room \<in> set profiles \<and> supports room name) AIR_QUALITY_FIELDS)"

record field_read =
  fr_component :: string
  fr_attribute :: string
  fr_group :: string

text \<open>The local function \<open>add\<close>: at most one entry; \<open>attribute\<close> defaults to the name.\<close>

definition due_field ::
  "room_config \<Rightarrow> string \<Rightarrow> string \<Rightarrow> string \<Rightarrow> bool \<Rightarrow> string option \<Rightarrow> bool
     \<Rightarrow> (string \<times> field_read) list" where
  "due_field room name place grp due attr gated =
     (if due \<and> (\<not> gated \<or> supports room name)
      then [(name, \<lparr>fr_component = place,
                    fr_attribute = (case attr of None \<Rightarrow> name | Some a \<Rightarrow> a), fr_group = grp\<rparr>)]
      else [])"

definition due_fields :: "room_config \<Rightarrow> refresh_plan \<Rightarrow> (string, field_read) dict" where
  "due_fields room plan =
     (let add = \<lambda>name place grp due. due_field room name place grp due None True;
          addv = \<lambda>name place grp due. due_field room name place grp due (Some ''value'') True;
          extended = (room_profile room \<notin> set PLAIN_PROFILES);
          merged_air_quality = (room_profile room \<in> set VOC_PROFILES);
          temperatures = refresh_temperatures plan
      in add ''extract_air_flow'' ''airflow'' ''flow'' (refresh_airflow plan)
       @ add ''supply_air_flow'' ''airflow'' ''flow'' (refresh_airflow plan)
       @ add ''exhaust_temperature'' ''temperatures'' ''temperature'' temperatures
       @ add ''outdoor_air_temperature'' ''temperatures'' ''temperature'' (extended \<and> temperatures)
       @ add ''extract_air_temperature'' ''temperatures'' ''temperature'' (extended \<and> temperatures)
       @ add ''supply_air_temperature'' ''supply_temperature'' ''temperature'' (extended \<and> temperatures)
       @ concat (map (\<lambda>(name, place, profiles).
           add name (if merged_air_quality then ''air_quality'' else place) ''air_quality''
             (refresh_environment plan \<and> room_profile room \<in> set profiles)) AIR_QUALITY_FIELDS)
       @ add ''error_status'' ''status'' ''status'' (refresh_status plan)
       @ add ''frost_protection_active'' ''status'' ''status'' (refresh_status plan)
       @ add ''filter_change_due'' ''status'' ''filter'' (refresh_filter_change_due plan)
       @ addv ''days_until_filter_change'' ''days_until_filter_change'' ''filter''
           (refresh_filter_days plan)
       @ add ''operating_hours'' ''operating_hours'' ''hours'' (refresh_operating_hours plan)
       @ addv ''fan_motor_hours'' ''fan_motor_hours'' ''fan_hours'' (refresh_operating_hours plan)
       @ due_field room ''software_version'' ''software_version'' ''hours''
           (refresh_operating_hours plan) (Some ''value'') False
       @ concat (map (\<lambda>(key, _).
           add key ''control_settings'' ''control_settings''
             (refresh_control_settings plan
              \<and> room_profile room \<in> set (if take 9 key = ''humidity_'' then HUMIDITY_PROFILES
                                          else CO2_PROFILES))) CONTROL_SETTING_REGISTERS)
       @ addv ''rf_comm_status'' ''rf_comm_status'' ''status'' (refresh_status plan)
       @ addv ''device_fault'' ''device_fault'' ''device_fault'' (refresh_rf_diagnostics plan)
       @ addv ''value_error_status'' ''value_error_status'' ''value_error''
           (refresh_rf_diagnostics plan)
       @ addv ''rf_last_seen_age_seconds'' ''rf_last_seen_age'' ''rf_last_seen''
           (refresh_rf_diagnostics plan)
       @ addv ''rf_signal_strength'' ''rf_signal_strength'' ''rf_signal''
           (refresh_rf_diagnostics plan))"

definition add_due_read :: "field_read \<Rightarrow> (string, string list) dict \<Rightarrow> (string, string list) dict" where
  "add_due_read source reads =
     (let groups = dict_get reads (fr_component source) []
      in if fr_group source \<notin> set groups
         then AList.update (fr_component source) (groups @ [fr_group source]) reads
         else reads)"

definition due_reads :: "(string, field_read) dict \<Rightarrow> (string, string list) dict" where
  "due_reads due = fold (\<lambda>(_, source) reads. add_due_read source reads) due []"

section \<open>Bookkeeping of one read\<close>

record read_job =
  j_errors :: "(string, string) dict"
  j_skipped :: "string set"
  j_timeouts :: "string set"
  j_silent_error :: "exn option"
  j_had_answer :: bool
  j_attempted :: "string set"
  j_value_groups :: "string set"
  j_unit_success :: "string set"
  j_missing_sensors :: "string set"
  j_sensors :: "string set"

definition NEW_READ_JOB :: read_job where
  "NEW_READ_JOB =
     \<lparr>j_errors = [], j_skipped = {}, j_timeouts = {}, j_silent_error = None, j_had_answer = False,
      j_attempted = {}, j_value_groups = {}, j_unit_success = {}, j_missing_sensors = {},
      j_sensors = {}\<rparr>"

definition job_skip :: "string list \<Rightarrow> read_job \<Rightarrow> read_job" where
  "job_skip groups job = job\<lparr>j_skipped := j_skipped job \<union> set groups\<rparr>"

text \<open>\<open>errors.setdefault(group, text)\<close> for each group.\<close>

definition record_text :: "string list \<Rightarrow> string \<Rightarrow> read_job \<Rightarrow> read_job" where
  "record_text groups text job =
     job\<lparr>j_errors := fold (\<lambda>g errs.
       if map_of errs g = None then AList.update g text errs else errs) groups (j_errors job)\<rparr>"

definition record_error :: "string list \<Rightarrow> exn \<Rightarrow> read_job \<Rightarrow> read_job" where
  "record_error groups e job =
     (let job1 = record_text groups (message e) job
      in if isinstance e NO_ANSWER_ERRORS
         then job1\<lparr>j_timeouts := j_timeouts job1 \<union> set groups\<rparr> else job1)"

section \<open>Backoff of refused reads\<close>

type_synonym backoff_key = "int \<times> string"

record read_backoff =
  bo_start :: seconds
  bo_max_seconds :: seconds
  bo_max_failures :: nat
  bo_failures :: "(backoff_key, nat) dict"
  bo_until :: "(backoff_key, seconds) dict"

definition COMPONENT_BACKOFF :: read_backoff where
  "COMPONENT_BACKOFF =
     \<lparr>bo_start = 10, bo_max_seconds = 60, bo_max_failures = 4, bo_failures = [], bo_until = []\<rparr>"

definition OPTIONAL_BACKOFF :: read_backoff where
  "OPTIONAL_BACKOFF =
     \<lparr>bo_start = 30, bo_max_seconds = 300, bo_max_failures = 5, bo_failures = [], bo_until = []\<rparr>"

definition backoff_is_active :: "seconds \<Rightarrow> backoff_key \<Rightarrow> read_backoff \<Rightarrow> bool \<times> read_backoff" where
  "backoff_is_active clock key b =
     (case map_of (bo_until b) key of
        None \<Rightarrow> (False, b)
      | Some t \<Rightarrow>
          if clock \<ge> t then (False, b\<lparr>bo_until := AList.delete key (bo_until b)\<rparr>) else (True, b))"

definition backoff_mark_failure :: "seconds \<Rightarrow> backoff_key \<Rightarrow> read_backoff \<Rightarrow> read_backoff" where
  "backoff_mark_failure base key b =
     (let n = min (dict_get (bo_failures b) key 0 + 1) (bo_max_failures b)
      in b\<lparr>bo_failures := AList.update key n (bo_failures b),
           bo_until := AList.update key (base + doubling_pause (bo_start b) (bo_max_seconds b) n)
             (bo_until b)\<rparr>)"

definition backoff_clear :: "backoff_key \<Rightarrow> read_backoff \<Rightarrow> read_backoff" where
  "backoff_clear key b =
     b\<lparr>bo_failures := AList.delete key (bo_failures b), bo_until := AList.delete key (bo_until b)\<rparr>"

definition backoff_clear_slave :: "int \<Rightarrow> read_backoff \<Rightarrow> read_backoff" where
  "backoff_clear_slave slave b =
     fold backoff_clear (filter (\<lambda>key. fst key = slave) (map fst (bo_failures b))) b"

interpretation component_pause: pause_cap 10 60 4
  by unfold_locales simp_all

interpretation optional_pause: pause_cap 30 300 5
  by unfold_locales simp_all

text \<open>A cleared read is due again; a failure never pauses a read for longer than the maximum.\<close>

lemma backoff_cleared [simp]:
  "fst (backoff_is_active clock key (backoff_clear key b)) = False"
  by (simp add: backoff_is_active_def backoff_clear_def delete_conv)

lemma backoff_other_key:
  assumes "key' \<noteq> key"
  shows "fst (backoff_is_active clock key' (backoff_clear key b)) = fst (backoff_is_active clock key' b)"
    and "fst (backoff_is_active clock key' (backoff_mark_failure base key b))
      = fst (backoff_is_active clock key' b)"
    and "fst (backoff_is_active clock key' (snd (backoff_is_active clock' key b)))
      = fst (backoff_is_active clock key' b)"
  using assms
  by (auto simp: backoff_is_active_def backoff_clear_def backoff_mark_failure_def delete_conv
      update_conv Let_def split: option.split)

text \<open>Any number of failures since the last clear: the pause is that of the uncapped count.\<close>

definition mark_failures :: "backoff_key \<Rightarrow> seconds list \<Rightarrow> read_backoff \<Rightarrow> read_backoff" where
  "mark_failures key ts b = fold (\<lambda>t. backoff_mark_failure t key) ts b"

lemma mark_failures_count:
  "bo_start (mark_failures key ts b) = bo_start b"
  "bo_max_seconds (mark_failures key ts b) = bo_max_seconds b"
  "bo_max_failures (mark_failures key ts b) = bo_max_failures b"
  "dict_get (bo_failures (mark_failures key ts b)) key 0 =
     ((\<lambda>k. min (k + 1) (bo_max_failures b)) ^^ length ts) (dict_get (bo_failures b) key 0)"
  by (induction ts arbitrary: b)
    (simp_all add: mark_failures_def backoff_mark_failure_def Let_def funpow_Suc_right
      del: funpow.simps(2))

lemma mark_failures_until:
  assumes "pause_cap (bo_start b) (bo_max_seconds b) (bo_max_failures b)"
    and "map_of (bo_failures b) key = None"
  shows "map_of (bo_until (mark_failures key (ts @ [t]) b)) key =
    Some (t + doubling_pause (bo_start b) (bo_max_seconds b) (Suc (length ts)))"
proof -
  have "dict_get (bo_failures (mark_failures key ts b)) key 0
      = ((\<lambda>k. min (k + 1) (bo_max_failures b)) ^^ length ts) 0"
    by (simp add: mark_failures_count) (simp add: assms(2) dict_get_def)
  then have "map_of (bo_until (mark_failures key (ts @ [t]) b)) key =
      Some (t + doubling_pause (bo_start b) (bo_max_seconds b)
        (((\<lambda>k. min (k + 1) (bo_max_failures b)) ^^ Suc (length ts)) 0))"
    using mark_failures_count [of key ts b]
    by (simp add: mark_failures_def backoff_mark_failure_def Let_def update_conv)
  then show ?thesis using pause_cap.pause_count [OF assms(1), of "Suc (length ts)"] by simp
qed

section \<open>The answers of the device\<close>

datatype raw_value = RInt int | RFloat pyfloat

text \<open>\<open>async_poll\<close>: the components it updated and the error of each that failed, or an exception.\<close>

datatype poll_reply = PollReport "string list" "(string \<times> exn) list" | PollRaised exn

datatype mode_reply = ModeAnswer mode_read | ModeRaised exn

text \<open>
  What one read finds: the pause of the unit in the transport, the poll and the register values after
  it, the reply to the status read, whether any request was answered, and the clocks when the poll and
  the status read start and when the read ends.
\<close>

record device_link =
  dl_shut_down :: bool
  dl_delayed :: bool
  dl_poll :: "string list \<Rightarrow> poll_reply"
  dl_value :: "string \<Rightarrow> string \<Rightarrow> raw_value option"
  dl_mode :: mode_reply
  dl_answered :: bool
  dl_clock :: seconds
  dl_mode_clock :: seconds
  dl_end :: clocks

record client_backoffs =
  component_backoff :: read_backoff
  mode_backoff :: read_backoff

text \<open>A call of the client raises a translated error, or an exception it does not know.\<close>

datatype client_error = Translated meltem_error | Untranslated exn

definition translate_error :: "string \<Rightarrow> string \<Rightarrow> exn \<Rightarrow> client_error" where
  "translate_error port description e =
     (if isinstance e [ModbusConnectionError]
      then Translated (MeltemConnectionError (''Lost the Meltem gateway on '' @ port @ '' while ''
        @ description @ '': '' @ message e))
      else if isinstance e [ModbusError]
      then Translated (MeltemModbusError (''Modbus error while '' @ description @ '': '' @ message e))
      else Untranslated e)"

section \<open>Polling the components\<close>

definition active_reads ::
  "seconds \<Rightarrow> int \<Rightarrow> (string, string list) dict \<Rightarrow> read_job \<Rightarrow> read_backoff
     \<Rightarrow> (string, string list) dict \<times> read_job \<times> read_backoff" where
  "active_reads clock slave reads job b =
     fold (\<lambda>(place, groups) (active, job, b).
       let (paused, b') = backoff_is_active clock (slave, place) b
       in if paused then (active, job_skip groups job, b')
          else (active @ [(place, groups)], job, b')) reads ([], job, b)"

definition judge_component ::
  "seconds \<Rightarrow> int \<Rightarrow> string list \<Rightarrow> (string \<times> exn) list \<Rightarrow> string \<times> string list
     \<Rightarrow> read_job \<times> read_backoff \<Rightarrow> read_job \<times> read_backoff" where
  "judge_component started slave updated failures_of entry acc =
     (let (place, groups) = entry; (job, b) = acc; key = (slave, place)
      in case map_of failures_of place of
           None \<Rightarrow>
             if place \<in> set updated
             then (if place \<notin> set BRIDGE_RF_COMPONENTS
                   then job\<lparr>j_unit_success := j_unit_success job \<union> set groups\<rparr> else job,
                   backoff_clear key b)
             else (job, b)
         | Some e \<Rightarrow>
             if isinstance e [ReadQuarantinedError] then (job_skip groups job, b)
             else let job1 = record_error groups e job;
                      job2 = (if isinstance e NO_ANSWER_ERRORS
                              then job1\<lparr>j_silent_error := Some e\<rparr> else job1)
                  in (job2,
                      if isinstance e [AcknowledgeError]
                         \<or> (place \<in> set OPTIONAL_DIAGNOSTIC_COMPONENTS
                             \<and> isinstance e [ModbusExceptionError])
                      then backoff_mark_failure started key b else backoff_clear key b))"

text \<open>\<open>_poll\<close>: an exception to raise, or the updated components; and the job and the backoff after it.\<close>

definition poll_components ::
  "device_link \<Rightarrow> int \<Rightarrow> (string, string list) dict \<Rightarrow> read_job \<Rightarrow> read_backoff
     \<Rightarrow> (exn + string list) \<times> read_job \<times> read_backoff" where
  "poll_components dl slave reads job b =
     (if reads = [] then (Inr [], job, b)
      else let (active, job1, b1) = active_reads (dl_clock dl) slave reads job b
           in if active = [] then (Inr [], job1, b1)
              else let job2 = job1\<lparr>j_attempted := j_attempted job1 \<union> \<Union> (set (map (set \<circ> snd) active))\<rparr>
                   in case dl_poll dl (map fst active) of
                        PollRaised e \<Rightarrow>
                          if isinstance e [ModbusConnectionError]
                          then (Inl e, job2, fold (\<lambda>(place, _). backoff_clear (slave, place)) active b1)
                          else if isinstance e NO_ANSWER_ERRORS
                          then (Inr [],
                                fold (\<lambda>(_, groups). record_error groups e) active
                                  (job2\<lparr>j_silent_error := Some e\<rparr>),
                                fold (\<lambda>(place, _). backoff_clear (slave, place)) active b1)
                          else (Inl e, job2, b1)
                      | PollReport updated failures_of \<Rightarrow>
                          (let (job3, b3) = fold (judge_component (dl_clock dl) slave updated failures_of)
                                 active (job2, b1)
                           in (Inr updated, job3, b3)))"

section \<open>From registers to fields\<close>

datatype field_value = FNone | FInt int | FBool bool | FReal real

fun raw_int :: "raw_value \<Rightarrow> int" where
  "raw_int (RInt n) = n"
| "raw_int (RFloat (Finite x)) = (if 0 \<le> x then \<lfloor>x\<rfloor> else \<lceil>x\<rceil>)"
| "raw_int (RFloat NonFinite) = 0"

fun raw_bool :: "raw_value \<Rightarrow> bool" where
  "raw_bool (RInt n) = (n \<noteq> 0)"
| "raw_bool (RFloat (Finite x)) = (x \<noteq> 0)"
| "raw_bool (RFloat NonFinite) = True"

fun raw_field :: "raw_value \<Rightarrow> field_value" where
  "raw_field (RInt n) = FInt n"
| "raw_field (RFloat (Finite x)) = FReal x"
| "raw_field (RFloat NonFinite) = FNone"

fun usable :: "raw_value option \<Rightarrow> bool" where
  "usable (Some (RFloat NonFinite)) = False"
| "usable None = False"
| "usable _ = True"

definition decode_field :: "string \<Rightarrow> raw_value \<Rightarrow> field_value" where
  "decode_field name v =
     (let v' = (case v of
          RInt n \<Rightarrow> if name = ''rf_signal_strength'' \<and> n \<ge> 32768 then RInt (n - 65536) else v
        | _ \<Rightarrow> v)
      in if name = ''device_fault''
         then (if v' = RInt 65535 then FNone else FBool (raw_bool v'))
         else if name = ''value_error_status''
         then (if v' = RInt 0 \<or> v' = RInt 1 then FBool (raw_bool v') else FNone)
         else if name \<in> set FLAG_FIELDS then FBool (raw_bool v')
         else raw_field v')"

definition fresh_value ::
  "device_link \<Rightarrow> string list \<Rightarrow> string \<times> field_read
     \<Rightarrow> (string, field_value) dict \<times> read_job \<Rightarrow> (string, field_value) dict \<times> read_job" where
  "fresh_value dl updated entry acc =
     (let (name, source) = entry; (vals, job) = acc;
          value_seen = (\<lambda>v job. if v \<noteq> FNone \<and> fr_component source \<notin> set BRIDGE_RF_COMPONENTS
            then job\<lparr>j_value_groups := insert (fr_group source) (j_value_groups job)\<rparr> else job)
      in if fr_component source \<notin> set updated then (vals, job)
         else case dl_value dl (fr_component source) (fr_attribute source) of
             None \<Rightarrow> (vals, record_text [fr_group source] (''Invalid '' @ name @ '' readback: None'') job)
           | Some raw \<Rightarrow>
               if \<not> usable (Some raw)
               then (vals, record_text [fr_group source] (''Invalid '' @ name @ '' readback: nan'') job)
               else if name \<in> set (map fst PLAUSIBLE_RANGES) \<and> \<not> is_plausible name (Some (raw_int raw))
               then (AList.update name FNone vals,
                     job\<lparr>j_missing_sensors := insert name (j_missing_sensors job)\<rparr>)
               else let job1 = (if name \<in> set (map fst PLAUSIBLE_RANGES)
                                then job\<lparr>j_sensors := insert name (j_sensors job)\<rparr> else job);
                        v = decode_field name raw
                    in (AList.update name v vals, value_seen v job1))"

fun field_real :: "field_value option \<Rightarrow> real option" where
  "field_real (Some (FReal x)) = Some x"
| "field_real (Some (FInt n)) = Some (of_int n)"
| "field_real _ = None"

fun field_int :: "field_value option \<Rightarrow> int option" where
  "field_int (Some (FInt n)) = Some n"
| "field_int _ = None"

fun field_bool :: "field_value option \<Rightarrow> bool option" where
  "field_bool (Some (FBool b)) = Some b"
| "field_bool _ = None"

definition ABSOLUTE_HUMIDITY_FIELDS :: "(string \<times> string \<times> string) list" where [const_simps]:
  "ABSOLUTE_HUMIDITY_FIELDS =
     [(''absolute_humidity_extract_air'', ''extract_air_temperature'', ''humidity_extract_air''),
      (''absolute_humidity_supply_air'', ''supply_air_temperature'', ''humidity_supply_air'')]"

definition derived_humidity ::
  "(string, field_read) dict \<Rightarrow> string \<times> string \<times> string \<Rightarrow> (string, field_value) dict
     \<Rightarrow> (string, field_value) dict" where
  "derived_humidity due keys vals =
     (let (result_key, temperature_key, humidity_key) = keys
      in if temperature_key \<in> set (map fst due) \<or> humidity_key \<in> set (map fst due)
         then AList.update result_key
           (case absolute_humidity (field_real (map_of vals temperature_key))
                   (field_int (map_of vals humidity_key)) of
              None \<Rightarrow> FNone | Some x \<Rightarrow> FReal x) vals
         else vals)"

definition fresh_values ::
  "device_link \<Rightarrow> (string, field_read) dict \<Rightarrow> string list \<Rightarrow> read_job
     \<Rightarrow> (string, field_value) dict \<times> read_job" where
  "fresh_values dl due updated job =
     (let (vals, job') = fold (fresh_value dl updated) due ([], job)
      in (fold (derived_humidity due) ABSOLUTE_HUMIDITY_FIELDS vals, job'))"

section \<open>The state after a read\<close>

text \<open>\<open>replace(state, **values)\<close>: each value goes to the field of its name, by the type of the field.\<close>

definition REAL_FIELDS :: "(string \<times> (real option \<Rightarrow> room_state \<Rightarrow> room_state)) list" where
  "REAL_FIELDS =
     [(''exhaust_temperature'', \<lambda>v s. s\<lparr>exhaust_temperature := v\<rparr>),
      (''outdoor_air_temperature'', \<lambda>v s. s\<lparr>outdoor_air_temperature := v\<rparr>),
      (''extract_air_temperature'', \<lambda>v s. s\<lparr>extract_air_temperature := v\<rparr>),
      (''supply_air_temperature'', \<lambda>v s. s\<lparr>supply_air_temperature := v\<rparr>),
      (''absolute_humidity_extract_air'', \<lambda>v s. s\<lparr>absolute_humidity_extract_air := v\<rparr>),
      (''absolute_humidity_supply_air'', \<lambda>v s. s\<lparr>absolute_humidity_supply_air := v\<rparr>)]"

definition INT_FIELDS :: "(string \<times> (int option \<Rightarrow> room_state \<Rightarrow> room_state)) list" where
  "INT_FIELDS =
     [(''humidity_extract_air'', \<lambda>v s. s\<lparr>humidity_extract_air := v\<rparr>),
      (''humidity_supply_air'', \<lambda>v s. s\<lparr>humidity_supply_air := v\<rparr>),
      (''co2_extract_air'', \<lambda>v s. s\<lparr>co2_extract_air := v\<rparr>),
      (''co2_supply_air'', \<lambda>v s. s\<lparr>co2_supply_air := v\<rparr>),
      (''voc_extract_air'', \<lambda>v s. s\<lparr>voc_extract_air := v\<rparr>),
      (''voc_supply_air'', \<lambda>v s. s\<lparr>voc_supply_air := v\<rparr>),
      (''extract_air_flow'', \<lambda>v s. s\<lparr>extract_air_flow := v\<rparr>),
      (''supply_air_flow'', \<lambda>v s. s\<lparr>supply_air_flow := v\<rparr>),
      (''days_until_filter_change'', \<lambda>v s. s\<lparr>days_until_filter_change := v\<rparr>),
      (''operating_hours'', \<lambda>v s. s\<lparr>operating_hours := v\<rparr>),
      (''fan_motor_hours'', \<lambda>v s. s\<lparr>fan_motor_hours := v\<rparr>),
      (''rf_last_seen_age_seconds'', \<lambda>v s. s\<lparr>rf_last_seen_age_seconds := v\<rparr>),
      (''rf_signal_strength'', \<lambda>v s. s\<lparr>rf_signal_strength := v\<rparr>),
      (''software_version'', \<lambda>v s. s\<lparr>software_version := v\<rparr>),
      (''humidity_starting_point'', \<lambda>v s. s\<lparr>humidity_starting_point := v\<rparr>),
      (''humidity_min_level'', \<lambda>v s. s\<lparr>humidity_min_level := v\<rparr>),
      (''humidity_max_level'', \<lambda>v s. s\<lparr>humidity_max_level := v\<rparr>),
      (''co2_starting_point'', \<lambda>v s. s\<lparr>co2_starting_point := v\<rparr>),
      (''co2_min_level'', \<lambda>v s. s\<lparr>co2_min_level := v\<rparr>),
      (''co2_max_level'', \<lambda>v s. s\<lparr>co2_max_level := v\<rparr>)]"

definition BOOL_FIELDS :: "(string \<times> (bool option \<Rightarrow> room_state \<Rightarrow> room_state)) list" where
  "BOOL_FIELDS =
     [(''error_status'', \<lambda>v s. s\<lparr>error_status := v\<rparr>),
      (''filter_change_due'', \<lambda>v s. s\<lparr>filter_change_due := v\<rparr>),
      (''frost_protection_active'', \<lambda>v s. s\<lparr>frost_protection_active := v\<rparr>),
      (''rf_comm_status'', \<lambda>v s. s\<lparr>rf_comm_status := v\<rparr>),
      (''device_fault'', \<lambda>v s. s\<lparr>device_fault := v\<rparr>),
      (''value_error_status'', \<lambda>v s. s\<lparr>value_error_status := v\<rparr>)]"

definition set_field :: "string \<times> field_value \<Rightarrow> room_state \<Rightarrow> room_state" where
  "set_field entry s =
     (let (name, v) = entry
      in case map_of REAL_FIELDS name of
           Some put \<Rightarrow> put (field_real (Some v)) s
         | None \<Rightarrow> (case map_of INT_FIELDS name of
             Some put \<Rightarrow> put (field_int (Some v)) s
           | None \<Rightarrow> (case map_of BOOL_FIELDS name of
               Some put \<Rightarrow> put (field_bool (Some v)) s
             | None \<Rightarrow> s)))"

definition replace_values :: "(string, field_value) dict \<Rightarrow> room_state \<Rightarrow> room_state" where
  "replace_values vals s = fold set_field vals s"

section \<open>The status read\<close>

text \<open>\<open>_read_mode_block\<close>: an exception to raise or the block, and the job and the backoff after it.\<close>

definition read_mode_block ::
  "device_link \<Rightarrow> room_config \<Rightarrow> read_job \<Rightarrow> read_backoff
     \<Rightarrow> (exn + mode_read option) \<times> read_job \<times> read_backoff" where
  "read_mode_block dl room job b =
     (if \<not> supports_any room MODE_ENTITY_KEYS then (Inr None, job, b)
      else let key = (room_slave room, ''mode_status'');
               (paused, b1) = backoff_is_active (dl_clock dl) key b
           in if paused then (Inr None, job_skip MODE_GROUPS job, b1)
              else case j_silent_error job of
                     Some e \<Rightarrow> (Inr None, record_error MODE_GROUPS e job, b1)
                   | None \<Rightarrow>
                       let job1 = job\<lparr>j_attempted := j_attempted job \<union> set MODE_GROUPS\<rparr>
                       in case dl_mode dl of
                            ModeRaised e \<Rightarrow>
                              if isinstance e [ModbusConnectionError] then (Inl e, job1, b1)
                              else if isinstance e [ModbusError]
                              then (Inr None,
                                    record_error MODE_GROUPS e
                                      (if isinstance e NO_ANSWER_ERRORS
                                       then job1\<lparr>j_silent_error := Some e\<rparr> else job1),
                                    if \<not> isinstance e NO_ANSWER_ERRORS
                                       \<and> isinstance e [ModbusExceptionError]
                                    then backoff_mark_failure (dl_mode_clock dl) key b1 else b1)
                              else (Inl e, job1, b1)
                          | ModeAnswer block \<Rightarrow>
                              (Inr (Some block),
                               job1\<lparr>j_unit_success := j_unit_success job1 \<union> set MODE_GROUPS\<rparr>,
                               backoff_clear key b1))"

section \<open>Read health after a read\<close>

definition new_group_health ::
  "clocks \<Rightarrow> room_config \<Rightarrow> room_state \<Rightarrow> read_job \<Rightarrow> string \<Rightarrow> read_health option" where
  "new_group_health ck room previous job g =
     (if \<not> supports_any room (group_entities g) then None
      else case map_of (j_errors job) g of
             Some err \<Rightarrow> Some (failed (read_health_for previous g) (utcnow ck) err (g \<in> j_timeouts job))
           | None \<Rightarrow>
               if g \<in> j_skipped job then None else Some (succeeded (utcnow ck) (monotonic ck)))"

definition updated_read_health ::
  "clocks \<Rightarrow> room_config \<Rightarrow> room_state \<Rightarrow> refresh_plan \<Rightarrow> read_job
     \<Rightarrow> (string \<times> read_health) list \<times> string set" where
  "updated_read_health ck room previous plan job =
     (let recorded = filter (\<lambda>g. new_group_health ck room previous job g \<noteq> None) (read_groups plan);
          group_health = fold (\<lambda>g d. case new_group_health ck room previous job g of
              None \<Rightarrow> d | Some h \<Rightarrow> AList.update g h d)
            (read_groups plan) (dict_of (group_read_health previous))
      in (sorted_items group_health, set recorded))"

section \<open>One room read\<close>

record room_read =
  rr_state :: room_state
  rr_outcome :: read_job_outcome

definition finish_room_read ::
  "device_link \<Rightarrow> room_config \<Rightarrow> room_state \<Rightarrow> refresh_plan \<Rightarrow> room_state \<Rightarrow> read_job \<Rightarrow> room_read" where
  "finish_room_read dl room previous plan s job0 =
     (let job = job0\<lparr>j_had_answer := dl_answered dl\<rparr>;
          (group_health, recorded) = updated_read_health (dl_end dl) room previous plan job;
          supported = set (filter (\<lambda>g. supports_any room (group_entities g)) (read_groups plan))
      in \<lparr>rr_state = s\<lparr>group_read_health := group_health\<rparr>,
          rr_outcome =
            \<lparr>attempted_groups = j_attempted job \<inter> supported,
             recorded_groups = recorded,
             errors = filter (\<lambda>(g, _). g \<in> recorded) (j_errors job),
             answered = j_had_answer job,
             value_groups = j_value_groups job \<inter> supported,
             unit_success_groups = j_unit_success job \<inter> supported,
             missing_sensor_values = j_missing_sensors job,
             sensor_values = j_sensors job\<rparr>\<rparr>)"

definition read_description :: "room_config \<Rightarrow> string" where
  "read_description room = ''reading room '' @ room_key room"

definition read_room ::
  "string \<Rightarrow> device_link \<Rightarrow> room_config \<Rightarrow> room_state option \<Rightarrow> refresh_plan option
     \<Rightarrow> client_backoffs \<Rightarrow> (client_error + room_read) \<times> client_backoffs" where
  "read_room port dl room previous_state refresh_plan bs =
     (let previous = (case previous_state of None \<Rightarrow> EMPTY_ROOM_STATE | Some s \<Rightarrow> s);
          plan = (case refresh_plan of None \<Rightarrow> FULL_REFRESH_PLAN | Some p \<Rightarrow> p);
          job = NEW_READ_JOB
      in if dl_shut_down dl
         then (Inl (Translated (MeltemConnectionError
                 (''Meltem gateway client on '' @ port @ '' was shut down''))), bs)
         else if dl_delayed dl
         then (Inr (finish_room_read dl room previous plan previous (job_skip (read_groups plan) job)), bs)
         else let due = due_fields room plan;
                  (polled, job1, cb) =
                    poll_components dl (room_slave room) (due_reads due) job (component_backoff bs);
                  bs1 = bs\<lparr>component_backoff := cb\<rparr>
              in case polled of
                   Inl e \<Rightarrow> (Inl (translate_error port (read_description room) e), bs1)
                 | Inr updated \<Rightarrow>
                     let (vals, job2) = fresh_values dl due updated job1;
                         s = replace_values vals previous
                     in if \<not> refresh_airflow plan
                        then (Inr (finish_room_read dl room previous plan s job2), bs1)
                        else let (block, job3, mb) = read_mode_block dl room job2 (mode_backoff bs1);
                                 bs2 = bs1\<lparr>mode_backoff := mb\<rparr>
                             in case block of
                                  Inl e \<Rightarrow> (Inl (translate_error port (read_description room) e), bs2)
                                | Inr b \<Rightarrow>
                                    (Inr (finish_room_read dl room previous plan
                                            (apply_mode_read room s b) job3), bs2))"

text \<open>\<open>read_balanced_target_readback\<close>, given the reply to its one register read.\<close>

definition read_balanced_target_readback ::
  "string \<Rightarrow> room_config \<Rightarrow> bool \<Rightarrow> exn + int option \<Rightarrow> client_error + int option" where
  "read_balanced_target_readback port room shut_down reply_of =
     (if shut_down
      then Inl (Translated (MeltemConnectionError
             (''Meltem gateway client on '' @ port @ '' was shut down'')))
      else case reply_of of
             Inl e \<Rightarrow> Inl (translate_error port
               (''reading balanced airflow target register 41121 for room '' @ room_key room) e)
           | Inr None \<Rightarrow> Inr None
           | Inr (Some raw) \<Rightarrow>
               if 0 \<le> raw \<and> raw \<le> 200 then Inr (Some (scale_raw_level_to_airflow room raw))
               else Inr None)"

section \<open>Reading back the health\<close>

lemma map_of_fold_case_update:
  "map_of (fold (\<lambda>g d. case f g of None \<Rightarrow> d | Some h \<Rightarrow> AList.update g h d) gs d) k =
     (if k \<in> set gs then (case f k of None \<Rightarrow> map_of d k | Some h \<Rightarrow> Some h) else map_of d k)"
  by (induction gs arbitrary: d) (auto simp: update_conv split: option.split)

lemma distinct_fold_case_update:
  "distinct (map fst d) \<Longrightarrow>
     distinct (map fst (fold (\<lambda>g d. case f g of None \<Rightarrow> d | Some h \<Rightarrow> AList.update g h d) gs d))"
  by (induction gs arbitrary: d) (auto simp: distinct_update split: option.split)

lemma updated_read_health_lookup:
  assumes "updated_read_health ck room previous plan job = (gh, recorded)"
  shows "read_health_for (s\<lparr>group_read_health := gh\<rparr>) g =
      (if g \<in> set (read_groups plan)
       then (case new_group_health ck room previous job g of
               None \<Rightarrow> read_health_for previous g | Some h \<Rightarrow> h)
       else read_health_for previous g)"
    and "recorded = {g \<in> set (read_groups plan). new_group_health ck room previous job g \<noteq> None}"
    and "health_sorted (s\<lparr>group_read_health := gh\<rparr>)"
proof -
  let ?d = "fold (\<lambda>g d. case new_group_health ck room previous job g of
      None \<Rightarrow> d | Some h \<Rightarrow> AList.update g h d) (read_groups plan) (dict_of (group_read_health previous))"
  have gh: "gh = sorted_items ?d" and rec: "recorded
      = {g \<in> set (read_groups plan). new_group_health ck room previous job g \<noteq> None}"
    using assms by (auto simp: updated_read_health_def Let_def)
  have d: "distinct (map fst ?d)" by (rule distinct_fold_case_update) simp
  show "recorded = {g \<in> set (read_groups plan). new_group_health ck room previous job g \<noteq> None}"
    by (rule rec)
  have "distinct (map fst gh)" "map_of gh = map_of ?d"
    using d by (simp_all add: gh distinct_sorted_items map_of_sorted_items)
  then show "read_health_for (s\<lparr>group_read_health := gh\<rparr>) g =
      (if g \<in> set (read_groups plan)
       then (case new_group_health ck room previous job g of
               None \<Rightarrow> read_health_for previous g | Some h \<Rightarrow> h)
       else read_health_for previous g)"
    by (simp add: read_health_for_def dict_get_def map_of_fold_case_update split: option.split)
  show "health_sorted (s\<lparr>group_read_health := gh\<rparr>)"
    using \<open>distinct (map fst gh)\<close> by (simp add: health_sorted_def) (simp add: gh sorted_items_def)
qed

section \<open>What a finished read consists of\<close>

lemma set_field_health [simp]: "group_read_health (set_field entry s) = group_read_health s"
proof -
  have "\<forall>(n, put) \<in> set REAL_FIELDS. \<forall>v s. group_read_health (put v s) = group_read_health s"
    "\<forall>(n, put) \<in> set INT_FIELDS. \<forall>v s. group_read_health (put v s) = group_read_health s"
    "\<forall>(n, put) \<in> set BOOL_FIELDS. \<forall>v s. group_read_health (put v s) = group_read_health s"
    by (simp_all add: REAL_FIELDS_def INT_FIELDS_def BOOL_FIELDS_def)
  then show ?thesis
    by (fastforce simp: set_field_def split: prod.split option.split dest: map_of_SomeD)
qed

lemma replace_values_health [simp]: "group_read_health (replace_values vals s) = group_read_health s"
  by (induction vals arbitrary: s) (simp_all add: replace_values_def)

lemma read_room_cases:
  assumes "read_room port dl room previous_state refresh_plan bs = (Inr r, bs')"
    and "previous = (case previous_state of None \<Rightarrow> EMPTY_ROOM_STATE | Some s \<Rightarrow> s)"
    and "plan = (case refresh_plan of None \<Rightarrow> FULL_REFRESH_PLAN | Some p \<Rightarrow> p)"
  obtains s job where "r = finish_room_read dl room previous plan s job"
    "group_read_health s = group_read_health previous"
proof -
  have "\<exists>s job. r = finish_room_read dl room previous plan s job
      \<and> group_read_health s = group_read_health previous"
    using assms
    by (auto simp: read_room_def Let_def apply_mode_read_frame split: if_splits sum.splits prod.splits)
  with that show ?thesis by blast
qed

lemma map_of_filter_keys:
  "map_of (filter (\<lambda>(k, _). k \<in> A) d) k = (if k \<in> A then map_of d k else None)"
  by (induction d) auto

lemma finish_room_read_health:
  fixes s :: room_state
  assumes r: "r = finish_room_read dl room previous plan s job"
  shows "recorded_groups (rr_outcome r) \<subseteq> {g \<in> set (read_groups plan). supports_any room (group_entities g)}"
    and "g \<notin> recorded_groups (rr_outcome r) \<Longrightarrow> read_health_for (rr_state r) g = read_health_for previous g"
    and "g \<in> recorded_groups (rr_outcome r) \<Longrightarrow>
      read_health_for (rr_state r) g =
        (case map_of (errors (rr_outcome r)) g of
           None \<Rightarrow> succeeded (utcnow (dl_end dl)) (monotonic (dl_end dl))
         | Some err \<Rightarrow> failed (read_health_for previous g) (utcnow (dl_end dl)) err (g \<in> j_timeouts job))"
    and "health_sorted (rr_state r)"
proof -
  let ?job = "job\<lparr>j_had_answer := dl_answered dl\<rparr>"
  obtain gh recorded where upd: "updated_read_health (dl_end dl) room previous plan ?job = (gh, recorded)"
    by fastforce
  note look = updated_read_health_lookup [OF upd]
  have rr: "rr_state r = s\<lparr>group_read_health := gh\<rparr>" "recorded_groups (rr_outcome r) = recorded"
    "errors (rr_outcome r) = filter (\<lambda>(g, _). g \<in> recorded) (j_errors job)"
    using upd by (simp_all add: r finish_room_read_def Let_def)
  have job: "new_group_health ck room previous ?job = new_group_health ck room previous job" for ck
    by (simp add: new_group_health_def fun_eq_iff split: option.split)
  show "recorded_groups (rr_outcome r) \<subseteq> {g \<in> set (read_groups plan). supports_any room (group_entities g)}"
    by (auto simp: rr look(2) new_group_health_def split: if_splits)
  show "g \<notin> recorded_groups (rr_outcome r) \<Longrightarrow> read_health_for (rr_state r) g = read_health_for previous g"
    by (auto simp: rr look(1) look(2))
  show "g \<in> recorded_groups (rr_outcome r) \<Longrightarrow>
      read_health_for (rr_state r) g =
        (case map_of (errors (rr_outcome r)) g of
           None \<Rightarrow> succeeded (utcnow (dl_end dl)) (monotonic (dl_end dl))
         | Some err \<Rightarrow> failed (read_health_for previous g) (utcnow (dl_end dl)) err (g \<in> j_timeouts job))"
    unfolding rr
    by (simp add: look(1) map_of_filter_keys)
      (auto simp: look(2) job new_group_health_def split: option.splits if_splits)
  show "health_sorted (rr_state r)" unfolding rr by (rule look(3))
qed


text \<open>
  A unit in its recovery pause is left alone: the read sends nothing, changes no value and no health,
  records no group and touches no backoff, whatever the device would have answered.
\<close>

lemma read_room_quarantined:
  assumes "dl_delayed dl" "\<not> dl_shut_down dl" "health_sorted previous"
  shows "\<exists>r. read_room port dl room (Some previous) (Some plan) bs = (Inr r, bs)
    \<and> rr_state r = previous \<and> attempted_groups (rr_outcome r) = {}
    \<and> recorded_groups (rr_outcome r) = {} \<and> errors (rr_outcome r) = []"
proof -
  let ?job = "(job_skip (read_groups plan) NEW_READ_JOB)\<lparr>j_had_answer := dl_answered dl\<rparr>"
  have none: "new_group_health ck room previous ?job g = None" if "g \<in> set (read_groups plan)" for ck g
    using that by (simp add: new_group_health_def job_skip_def NEW_READ_JOB_def)
  have "fold (\<lambda>g d. case new_group_health ck room previous ?job g of
      None \<Rightarrow> d | Some h \<Rightarrow> AList.update g h d) gs d = d"
    if "set gs \<subseteq> set (read_groups plan)" for gs d ck
    using that by (induction gs arbitrary: d) (simp_all add: none)
  moreover have "sorted_items (group_read_health previous) = group_read_health previous"
    using assms(3) by (simp add: health_sorted_def sorted_items_def sort_key_id_if_sorted)
  moreover have "filter (\<lambda>g. new_group_health ck room previous ?job g \<noteq> None) (read_groups plan) = []" for ck
    using none by (auto simp: filter_empty_conv)
  ultimately have "updated_read_health (dl_end dl) room previous plan ?job
      = (group_read_health previous, {})"
    using assms(3) by (simp add: updated_read_health_def health_sorted_def Let_def)
  then show ?thesis
    using assms(1,2)
    by (simp add: read_room_def finish_room_read_def Let_def)
      (simp add: job_skip_def NEW_READ_JOB_def)
qed

section \<open>What the bookkeeping keeps\<close>

lemma record_text_keeps [simp]:
  "j_attempted (record_text gs t job) = j_attempted job"
  "j_silent_error (record_text gs t job) = j_silent_error job"
  "j_skipped (record_text gs t job) = j_skipped job"
  "j_timeouts (record_text gs t job) = j_timeouts job"
  "j_unit_success (record_text gs t job) = j_unit_success job"
  "j_value_groups (record_text gs t job) = j_value_groups job"
  by (simp_all add: record_text_def)

lemma record_error_keeps [simp]:
  "j_attempted (record_error gs e job) = j_attempted job"
  "j_silent_error (record_error gs e job) = j_silent_error job"
  by (simp_all add: record_error_def Let_def)

lemma active_reads_keeps:
  assumes "active_reads clock slave reads job b = (active, job', b')"
  shows "j_attempted job' = j_attempted job" "j_silent_error job' = j_silent_error job"
    "j_errors job' = j_errors job"
proof -
  have "\<forall>acc. j_attempted (fst (snd (fold (\<lambda>(place, groups) (active, job, b).
       let (paused, b') = backoff_is_active clock (slave, place) b
       in if paused then (active, job_skip groups job, b')
          else (active @ [(place, groups)], job, b')) reads acc))) = j_attempted (fst (snd acc))
     \<and> j_silent_error (fst (snd (fold (\<lambda>(place, groups) (active, job, b).
       let (paused, b') = backoff_is_active clock (slave, place) b
       in if paused then (active, job_skip groups job, b')
          else (active @ [(place, groups)], job, b')) reads acc))) = j_silent_error (fst (snd acc))
     \<and> j_errors (fst (snd (fold (\<lambda>(place, groups) (active, job, b).
       let (paused, b') = backoff_is_active clock (slave, place) b
       in if paused then (active, job_skip groups job, b')
          else (active @ [(place, groups)], job, b')) reads acc))) = j_errors (fst (snd acc))"
    by (induction reads) (auto simp: Let_def job_skip_def split: prod.splits)
  from this [rule_format, of "([], job, b)"] assms
  show "j_attempted job' = j_attempted job" "j_silent_error job' = j_silent_error job"
    "j_errors job' = j_errors job"
    by (simp_all add: active_reads_def)
qed

lemma fresh_value_keeps:
  "j_attempted (snd (fresh_value dl updated entry (vals, job))) = j_attempted job"
  "j_silent_error (snd (fresh_value dl updated entry (vals, job))) = j_silent_error job"
  by (auto simp: fresh_value_def Let_def split: prod.split option.split)

lemma fresh_values_keeps:
  assumes "fresh_values dl due updated job = (vals, job')"
  shows "j_attempted job' = j_attempted job" "j_silent_error job' = j_silent_error job"
proof -
  have "j_attempted (snd (fold (fresh_value dl updated) due acc)) = j_attempted (snd acc)
      \<and> j_silent_error (snd (fold (fresh_value dl updated) due acc)) = j_silent_error (snd acc)" for acc
  proof (induction due arbitrary: acc)
    case (Cons entry due)
    show ?case
      using Cons [of "fresh_value dl updated entry acc"] fresh_value_keeps [of dl updated entry "fst acc" "snd acc"]
      by simp
  qed simp
  with assms show "j_attempted job' = j_attempted job" "j_silent_error job' = j_silent_error job"
    by (auto simp: fresh_values_def split: prod.splits) (metis snd_conv)+
qed

lemma poll_components_dead:
  assumes "\<And>cs. \<exists>e. dl_poll dl cs = PollRaised e \<and> isinstance e [ModbusConnectionError]"
    and "poll_components dl slave reads job b = (polled, job', b')"
  shows "(\<exists>e. polled = Inl e \<and> isinstance e [ModbusConnectionError])
    \<or> polled = Inr [] \<and> j_attempted job' = j_attempted job"
proof -
  obtain active job1 b1 where act: "active_reads (dl_clock dl) slave reads job b = (active, job1, b1)"
    using prod_cases3 by blast
  obtain e where "dl_poll dl (map fst active) = PollRaised e" "isinstance e [ModbusConnectionError]"
    using assms(1) by blast
  with assms(2) act active_reads_keeps(1) [OF act] show ?thesis
    by (auto simp: poll_components_def split: if_splits)
qed

lemma read_mode_block_dead:
  assumes "\<exists>e. dl_mode dl = ModeRaised e \<and> isinstance e [ModbusConnectionError]"
    and "read_mode_block dl room job b = (block, job', b')"
  shows "(\<exists>e. block = Inl e \<and> isinstance e [ModbusConnectionError])
    \<or> (\<exists>x. block = Inr x \<and> j_attempted job' = j_attempted job)"
  using assms
  by (auto simp: read_mode_block_def job_skip_def Let_def split: if_splits prod.splits option.splits)

lemma finish_attempted:
  "attempted_groups (rr_outcome (finish_room_read dl room previous plan s job)) \<subseteq> j_attempted job"
  by (auto simp: finish_room_read_def Let_def split: prod.split)

text \<open>
  C38. A dead link is never mistaken for "no change": when every request fails with a connection error, a
  read either raises a connection error or sent no request at all.
\<close>

theorem read_room_dead_link:
  assumes poll: "\<And>cs. \<exists>e. dl_poll dl cs = PollRaised e \<and> isinstance e [ModbusConnectionError]"
    and mode: "\<exists>e. dl_mode dl = ModeRaised e \<and> isinstance e [ModbusConnectionError]"
    and read: "read_room port dl room previous_state refresh_plan bs = (result, bs')"
  shows "(\<exists>text. result = Inl (Translated (MeltemConnectionError text)))
    \<or> (\<exists>r. result = Inr r \<and> attempted_groups (rr_outcome r) = {})"
proof -
  define previous where "previous = (case previous_state of None \<Rightarrow> EMPTY_ROOM_STATE | Some s \<Rightarrow> s)"
  define plan where "plan = (case refresh_plan of None \<Rightarrow> FULL_REFRESH_PLAN | Some p \<Rightarrow> p)"
  have fresh: "attempted_groups (rr_outcome (finish_room_read dl room previous plan s job)) = {}"
    if "j_attempted job = {}" for s job
    using finish_attempted [of dl room previous plan s job] that by simp
  have skip: "j_attempted (job_skip gs NEW_READ_JOB) = {}" "j_attempted NEW_READ_JOB = {}" for gs
    by (simp_all add: job_skip_def NEW_READ_JOB_def)
  have conn: "\<exists>text. translate_error port d e = Translated (MeltemConnectionError text)"
    if "isinstance e [ModbusConnectionError]" for d e
    using that by (simp add: translate_error_def)
  obtain polled job1 cb where polled: "poll_components dl (room_slave room)
      (due_reads (due_fields room plan)) NEW_READ_JOB (component_backoff bs) = (polled, job1, cb)"
    using prod_cases3 by blast
  obtain vals job2 where vals: "fresh_values dl (due_fields room plan) [] job1 = (vals, job2)"
    by fastforce
  obtain block job3 mb where block: "read_mode_block dl room job2 (mode_backoff bs) = (block, job3, mb)"
    using prod_cases3 by blast
  show ?thesis
    using read poll_components_dead [OF poll polled] read_mode_block_dead [OF mode block] polled vals
      block conn fresh skip fresh_values_keeps(1) [OF vals]
    unfolding read_room_def previous_def [symmetric] plan_def [symmetric] Let_def
    by (auto split: if_splits)
qed

text \<open>
  A silent unit is not asked again: once a poll got no valid answer, the rest of the read does not
  depend on what a status read would return, since none is sent.
\<close>

lemma read_room_silent_unit:
  assumes "\<And>cs. dl_poll dl cs = PollRaised e"
    and "isinstance e NO_ANSWER_ERRORS"
    and "fst (active_reads (dl_clock dl) (room_slave room) (due_reads (due_fields room plan))
      NEW_READ_JOB (component_backoff bs)) \<noteq> []"
  shows "read_room port (dl\<lparr>dl_mode := reply1\<rparr>) room previous (Some plan) bs
    = read_room port (dl\<lparr>dl_mode := reply2\<rparr>) room previous (Some plan) bs"
proof -
  obtain active job1 b1 where act: "active_reads (dl_clock dl) (room_slave room)
      (due_reads (due_fields room plan)) NEW_READ_JOB (component_backoff bs) = (active, job1, b1)"
    using prod_cases3 by blast
  have silent: "j_silent_error (fold (\<lambda>(_, groups). record_error groups e) xs job) = j_silent_error job" for xs job
    by (induction xs arbitrary: job) auto
  have poll: "poll_components (dl\<lparr>dl_mode := m\<rparr>) = poll_components dl" for m
    by (simp add: poll_components_def fun_eq_iff Let_def cong: prod.case_cong if_cong poll_reply.case_cong option.case_cong)
  have vals: "fresh_values (dl\<lparr>dl_mode := m\<rparr>) = fresh_values dl" for m
  proof -
    have "fresh_value (dl\<lparr>dl_mode := m\<rparr>) = fresh_value dl"
      by (simp add: fresh_value_def fun_eq_iff Let_def cong: prod.case_cong if_cong poll_reply.case_cong option.case_cong)
    then show ?thesis by (intro ext) (simp only: fresh_values_def)
  qed
  have fin: "finish_room_read (dl\<lparr>dl_mode := m\<rparr>) = finish_room_read dl" for m
    by (simp add: finish_room_read_def fun_eq_iff Let_def cong: prod.case_cong if_cong poll_reply.case_cong option.case_cong)
  have block: "read_mode_block (dl\<lparr>dl_mode := reply1\<rparr>) room job b
      = read_mode_block (dl\<lparr>dl_mode := reply2\<rparr>) room job b" if "j_silent_error job = Some e" for job b
    using that by (simp add: read_mode_block_def Let_def split: prod.split)
  obtain polled job2 b2 where polled: "poll_components dl (room_slave room)
      (due_reads (due_fields room plan)) NEW_READ_JOB (component_backoff bs) = (polled, job2, b2)"
    using prod_cases3 by blast
  have "due_reads (due_fields room plan) \<noteq> []"
    using assms(3) by (auto simp: active_reads_def)
  with polled act assms have job2: "j_silent_error job2 = Some e \<or> (\<exists>x. polled = Inl x)"
    by (auto simp: poll_components_def silent Let_def split: if_splits)
  obtain v job3 where v: "fresh_values dl (due_fields room plan) (case polled of Inr u \<Rightarrow> u | Inl _ \<Rightarrow> []) job2 = (v, job3)"
    by fastforce
  show ?thesis
    using job2 fresh_values_keeps(2) [OF v] v
    by (auto simp: read_room_def poll vals fin polled block Let_def split: sum.splits prod.splits)
qed

lemma due_field_names:
  "map fst (due_field room name place grp due attr gated) =
     (if due \<and> (\<not> gated \<or> supports room name) then [name] else [])"
  by (simp add: due_field_def)

text \<open>The names come in one fixed order, which gives their distinctness.\<close>

lemma subseq_due_field: "subseq (map fst (due_field room name place grp due attr gated)) [name]"
  by (simp add: due_field_names)

lemma subseq_due_field_append:
  "subseq (map fst xs) ys \<Longrightarrow>
     subseq (map fst (due_field room name place grp due attr gated @ xs)) (name # ys)"
  using list_emb_append_mono [OF subseq_due_field [of room name place grp due attr gated], of "map fst xs" ys]
  by simp

definition FIELD_ORDER :: "string list" where
  "FIELD_ORDER =
     [''extract_air_flow'', ''supply_air_flow'', ''exhaust_temperature'', ''outdoor_air_temperature'',
      ''extract_air_temperature'', ''supply_air_temperature'', ''humidity_extract_air'',
      ''co2_extract_air'', ''voc_extract_air'', ''co2_supply_air'', ''humidity_supply_air'',
      ''voc_supply_air'', ''error_status'', ''frost_protection_active'', ''filter_change_due'',
      ''days_until_filter_change'', ''operating_hours'', ''fan_motor_hours'', ''software_version'',
      ''humidity_starting_point'', ''humidity_min_level'', ''humidity_max_level'',
      ''co2_starting_point'', ''co2_min_level'', ''co2_max_level'', ''rf_comm_status'',
      ''device_fault'', ''value_error_status'', ''rf_last_seen_age_seconds'', ''rf_signal_strength'']"

lemma subseq_due_fields: "subseq (map fst (due_fields room plan)) FIELD_ORDER"
  unfolding due_fields_def Let_def FIELD_ORDER_def AIR_QUALITY_FIELDS_def
    CONTROL_SETTING_REGISTERS_def list.map concat.simps prod.case append_assoc append_Nil
  by (rule subseq_due_field_append subseq_due_field)+

lemma distinct_due_fields: "distinct (map fst (due_fields room plan))"
proof -
  have "distinct FIELD_ORDER" by (simp add: FIELD_ORDER_def)
  with subseq_due_fields [of room plan] show ?thesis
    by (auto simp: subseq_conv_nths distinct_nthsI)
qed

section \<open>Sensor values\<close>

lemma fresh_value_other:
  "name \<noteq> fst entry \<Longrightarrow>
     map_of (fst (fresh_value dl updated entry (vals, job))) name = map_of vals name"
  by (auto simp: fresh_value_def Let_def update_conv split: prod.split option.split)

lemma fresh_values_fold:
  assumes "distinct (map fst due)" "(name, source) \<in> set due" "name \<notin> fst ` set vals"
  shows "\<exists>job'. map_of (fst (fold (fresh_value dl updated) due (vals, job))) name
    = map_of (fst (fresh_value dl updated (name, source) ([], job'))) name"
  using assms
proof (induction due arbitrary: vals job)
  case (Cons entry due)
  have other: "map_of (fst (fold (fresh_value dl updated) ds acc)) name = map_of (fst acc) name"
    if "name \<notin> fst ` set ds" for ds acc
    using that
  proof (induction ds arbitrary: acc)
    case (Cons d ds)
    have "name \<noteq> fst d" using Cons.prems by auto
    with Cons show ?case
      using fresh_value_other [of name d dl updated "fst acc" "snd acc"] by simp
  qed simp
  obtain vals1 job1 where step: "fresh_value dl updated entry (vals, job) = (vals1, job1)" by fastforce
  show ?case
  proof (cases "fst entry = name")
    case True
    then have entry: "entry = (name, source)" using Cons.prems by (auto simp: rev_image_eqI)
    have "map_of vals name = None" using Cons.prems by (simp add: map_of_eq_None_iff)
    then have "map_of vals1 name = map_of (fst (fresh_value dl updated (name, source) ([], job))) name"
      using step unfolding entry
      by (auto simp: fresh_value_def Let_def update_conv split: prod.splits option.splits if_splits)
    moreover have "name \<notin> fst ` set due" using Cons.prems True by auto
    ultimately show ?thesis using other [of due "(vals1, job1)"] step by auto
  next
    case False
    then have "(name, source) \<in> set due" using Cons.prems by auto
    moreover have "name \<notin> fst ` set vals1"
      using fresh_value_other [of name entry dl updated vals job] False Cons.prems(3) step
      by (metis fst_conv map_of_eq_None_iff)
    ultimately show ?thesis
      using Cons.IH [of vals1 job1] Cons.prems(1) step by simp
  qed
qed simp

lemma derived_humidity_other:
  "name \<notin> set (map fst ABSOLUTE_HUMIDITY_FIELDS) \<Longrightarrow>
     map_of (fold (derived_humidity due) ABSOLUTE_HUMIDITY_FIELDS vals) name = map_of vals name"
  by (simp add: ABSOLUTE_HUMIDITY_FIELDS_def derived_humidity_def update_conv)

definition sensor_value :: "room_state \<Rightarrow> string \<Rightarrow> int option" where
  "sensor_value s name =
     (if name = ''humidity_extract_air'' then humidity_extract_air s
      else if name = ''humidity_supply_air'' then humidity_supply_air s
      else if name = ''co2_extract_air'' then co2_extract_air s
      else if name = ''co2_supply_air'' then co2_supply_air s
      else if name = ''voc_extract_air'' then voc_extract_air s
      else if name = ''voc_supply_air'' then voc_supply_air s
      else None)"

definition SENSOR_FIELDS :: "string list" where
  "SENSOR_FIELDS = map fst PLAUSIBLE_RANGES"

lemma sensor_value_put:
  "\<forall>name \<in> set SENSOR_FIELDS. \<forall>(n, put) \<in> set REAL_FIELDS. \<forall>v s.
     n \<noteq> name \<and> sensor_value (put v s) name = sensor_value s name"
  "\<forall>name \<in> set SENSOR_FIELDS. \<forall>(n, put) \<in> set BOOL_FIELDS. \<forall>v s.
     n \<noteq> name \<and> sensor_value (put v s) name = sensor_value s name"
  "\<forall>name \<in> set SENSOR_FIELDS. \<forall>(n, put) \<in> set INT_FIELDS. \<forall>v s.
     sensor_value (put v s) name = (if n = name then v else sensor_value s name)"
  by (simp_all add: SENSOR_FIELDS_def PLAUSIBLE_RANGES_def REAL_FIELDS_def BOOL_FIELDS_def
      INT_FIELDS_def sensor_value_def)

lemma sensor_fields_int: "name \<in> set SENSOR_FIELDS \<Longrightarrow> map_of REAL_FIELDS name = None
    \<and> (\<exists>put. map_of INT_FIELDS name = Some put)"
  by (auto simp: SENSOR_FIELDS_def PLAUSIBLE_RANGES_def REAL_FIELDS_def INT_FIELDS_def)

lemma sensor_value_set_field:
  assumes "name \<in> set SENSOR_FIELDS"
  shows "sensor_value (set_field (n, v) s) name =
    (if n = name then field_int (Some v) else sensor_value s name)"
proof (cases "map_of REAL_FIELDS n")
  case (Some put)
  then have "(n, put) \<in> set REAL_FIELDS" by (rule map_of_SomeD)
  with sensor_value_put(1) assms have "n \<noteq> name" "sensor_value (put w s) name = sensor_value s name" for w
    by fastforce+
  with Some show ?thesis by (simp add: set_field_def)
next
  case no_real: None
  show ?thesis
  proof (cases "map_of INT_FIELDS n")
    case (Some put)
    then have "(n, put) \<in> set INT_FIELDS" by (rule map_of_SomeD)
    with sensor_value_put(3) assms
    have "sensor_value (put w s) name = (if n = name then w else sensor_value s name)" for w
      by fastforce
    with no_real Some show ?thesis by (simp add: set_field_def)
  next
    case None
    have "n \<noteq> name" using None sensor_fields_int [OF assms] by auto
    moreover have "sensor_value (put w s) name = sensor_value s name"
      if "map_of BOOL_FIELDS n = Some put" for put w
      using sensor_value_put(2) assms map_of_SomeD [OF that] by fastforce
    ultimately show ?thesis using no_real None by (simp add: set_field_def split: option.split)
  qed
qed

lemma sensor_value_replace:
  assumes "name \<in> set SENSOR_FIELDS" "distinct (map fst vals)"
  shows "sensor_value (replace_values vals s) name =
    (case map_of vals name of None \<Rightarrow> sensor_value s name | Some v \<Rightarrow> field_int (Some v))"
  using assms(2)
proof (induction vals arbitrary: s)
  case (Cons p vals)
  obtain n v where p: "p = (n, v)" by fastforce
  have "n = name \<Longrightarrow> map_of vals name = None"
    using Cons.prems by (auto simp: p map_of_eq_None_iff)
  with Cons sensor_value_set_field [OF assms(1), of n v s] show ?case
    by (cases "n = name") (simp_all add: p replace_values_def split: option.split)
qed (simp add: replace_values_def)

lemma sensor_value_mode_read [simp]:
  "sensor_value (apply_mode_read room s block) name = sensor_value s name"
  by (simp add: sensor_value_def apply_mode_read_def apply_base_mode_def Let_def
      split: option.split prod.split)

lemma distinct_fresh_values: "distinct (map fst (fst (fresh_values dl due updated job)))"
proof -
  have "distinct (map fst (fst acc)) \<Longrightarrow> distinct (map fst (fst (fold (fresh_value dl updated) ds acc)))"
    for ds acc
  proof (induction ds arbitrary: acc)
    case (Cons d ds)
    have "distinct (map fst (fst (fresh_value dl updated d acc)))"
      using Cons.prems
      by (auto simp: fresh_value_def Let_def distinct_update split: prod.split option.split)
    with Cons.IH show ?case by simp
  qed simp
  from this [of "([], job)" due] show ?thesis
    by (auto simp: fresh_values_def ABSOLUTE_HUMIDITY_FIELDS_def derived_humidity_def distinct_update
        split: prod.split)
qed

lemma fresh_values_sensor:
  assumes "(name, source) \<in> set (due_fields room plan)" "name \<in> set SENSOR_FIELDS"
    and "fr_component source \<in> set updated"
    and "dl_value dl (fr_component source) (fr_attribute source) = Some (RInt n)"
  shows "map_of (fst (fresh_values dl (due_fields room plan) updated job)) name =
    Some (if is_plausible name (Some n) then FInt n else FNone)"
proof -
  obtain job' where "map_of (fst (fold (fresh_value dl updated) (due_fields room plan) ([], job))) name
      = map_of (fst (fresh_value dl updated (name, source) ([], job'))) name"
    using fresh_values_fold [OF distinct_due_fields assms(1), of "[]" dl updated job] by auto
  moreover have "name \<in> set (map fst PLAUSIBLE_RANGES)" using assms(2) by (simp only: SENSOR_FIELDS_def)
  moreover have "decode_field name (RInt n) = FInt n"
    using assms(2) by (auto simp: SENSOR_FIELDS_def PLAUSIBLE_RANGES_def decode_field_def FLAG_FIELDS_def)
  moreover have "name \<notin> set (map fst ABSOLUTE_HUMIDITY_FIELDS)"
    using assms(2) by (auto simp: SENSOR_FIELDS_def PLAUSIBLE_RANGES_def ABSOLUTE_HUMIDITY_FIELDS_def)
  ultimately show ?thesis
    using assms(3,4) derived_humidity_other [of name "due_fields room plan"]
    by (auto simp: fresh_values_def fresh_value_def Let_def update_conv simp del: set_map
        split: prod.split)
qed

text \<open>
  A polled sensor register becomes exactly its value when that is plausible, and "unknown" when it is
  a placeholder or out of range: a value that no longer tracks the room is never kept.
\<close>

lemma read_room_sensor_value:
  assumes "read_room port dl room (Some previous) (Some plan) bs = (Inr r, bs')" "\<not> dl_delayed dl"
    and "\<And>cs. dl_poll dl cs = PollReport updated failures_of"
    and "fst (active_reads (dl_clock dl) (room_slave room) (due_reads (due_fields room plan))
      NEW_READ_JOB (component_backoff bs)) \<noteq> []"
    and "(name, source) \<in> set (due_fields room plan)" "name \<in> set SENSOR_FIELDS"
    and "fr_component source \<in> set updated"
    and "dl_value dl (fr_component source) (fr_attribute source) = Some (RInt n)"
  shows "sensor_value (rr_state r) name = (if is_plausible name (Some n) then Some n else None)"
proof -
  obtain job2 b2 where polled: "poll_components dl (room_slave room) (due_reads (due_fields room plan))
      NEW_READ_JOB (component_backoff bs) = (Inr updated, job2, b2)"
  proof -
    have "due_reads (due_fields room plan) \<noteq> []" using assms(4) by (auto simp: active_reads_def)
    with assms(3,4) that show ?thesis
      by (fastforce simp: poll_components_def Let_def split: prod.splits if_splits)
  qed
  obtain vals job3 where vals: "fresh_values dl (due_fields room plan) updated job2 = (vals, job3)"
    by fastforce
  have found: "map_of vals name = Some (if is_plausible name (Some n) then FInt n else FNone)"
    using fresh_values_sensor [OF assms(5-8), of job2] vals by simp
  have "distinct (map fst vals)"
    using distinct_fresh_values [of dl "due_fields room plan" updated job2] vals by simp
  from sensor_value_replace [OF assms(6) this, of previous] found
  have "sensor_value (replace_values vals previous) name
      = (if is_plausible name (Some n) then Some n else None)" by simp
  moreover have "sensor_value (s\<lparr>group_read_health := gh\<rparr>) name = sensor_value s name" for s gh
    by (simp add: sensor_value_def)
  ultimately show ?thesis
    using assms(1,2) polled vals
    by (auto simp: read_room_def finish_room_read_def Let_def split: if_splits prod.splits sum.splits)
qed

section \<open>Worked examples\<close>

text \<open>A sensor unit, and a device that answers its air-quality registers only.\<close>

definition example_room :: room_config where
  "example_room =
     \<lparr>room_key = ''bath'', room_name = ''Bath'', room_profile = ''ii_fc'', room_slave = 2,
      room_preview = None, supported_entity_keys = None, room_product_id = None,
      room_app_setup_code = None, subentry_id = None, name_is_device_name = False\<rparr>"

definition environment_plan :: refresh_plan where
  "environment_plan = EMPTY_REFRESH_PLAN\<lparr>refresh_environment := True\<rparr>"

definition example_link :: device_link where
  "example_link =
     \<lparr>dl_shut_down = False, dl_delayed = False,
      dl_poll = (\<lambda>_. PollReport [''extract_air_quality'', ''supply_air_quality''] []),
      dl_value = (\<lambda>place attr. if attr = ''co2_extract_air'' then Some (RInt 612)
        else if attr = ''humidity_extract_air'' then Some (RInt 239) else Some (RInt 45)),
      dl_mode = ModeRaised \<lparr>isa = [ModbusExceptionError, ModbusError], message = ''refused''\<rparr>,
      dl_answered = True, dl_clock = 100, dl_mode_clock = 101,
      dl_end = \<lparr>monotonic = 102, utcnow = 5000\<rparr>\<rparr>"

definition new_backoffs :: client_backoffs where
  "new_backoffs = \<lparr>component_backoff = COMPONENT_BACKOFF, mode_backoff = OPTIONAL_BACKOFF\<rparr>"

lemma example_due:
  "due_fields example_room environment_plan =
     [(''humidity_extract_air'', \<lparr>fr_component = ''extract_air_quality'',
        fr_attribute = ''humidity_extract_air'', fr_group = ''air_quality''\<rparr>),
      (''co2_extract_air'', \<lparr>fr_component = ''extract_air_quality'',
        fr_attribute = ''co2_extract_air'', fr_group = ''air_quality''\<rparr>),
      (''humidity_supply_air'', \<lparr>fr_component = ''supply_air_quality'',
        fr_attribute = ''humidity_supply_air'', fr_group = ''air_quality''\<rparr>)]"
  by (simp add: due_fields_def due_field_def environment_plan_def EMPTY_REFRESH_PLAN_def
      example_room_def supports_def AIR_QUALITY_FIELDS_def CONTROL_SETTING_REGISTERS_def
      profile_tables Let_def)

lemma example_active:
  "fst (active_reads clock slave (due_reads (due_fields example_room environment_plan)) NEW_READ_JOB
     (component_backoff new_backoffs)) =
   [(''extract_air_quality'', [''air_quality'']), (''supply_air_quality'', [''air_quality''])]"
  by (simp add: example_due due_reads_def add_due_read_def active_reads_def new_backoffs_def
      COMPONENT_BACKOFF_def backoff_is_active_def dict_get_def Let_def)

lemma example_reads:
  "\<exists>r bs'. read_room ''port'' example_link example_room (Some EMPTY_ROOM_STATE) (Some environment_plan)
     new_backoffs = (Inr r, bs')"
proof -
  obtain polled job b where polled: "poll_components example_link (room_slave example_room)
      (due_reads (due_fields example_room environment_plan)) NEW_READ_JOB
      (component_backoff new_backoffs) = (polled, job, b)"
    using prod_cases3 by blast
  have "\<exists>u. polled = Inr u"
    using polled by (auto simp: poll_components_def example_link_def Let_def split: if_splits prod.splits)
  then show ?thesis
    using polled
    by (auto simp: read_room_def example_link_def environment_plan_def EMPTY_REFRESH_PLAN_def Let_def
        split: prod.split)
qed


lemma read_room_quarantined_witness:
  "\<exists>r. read_room ''port'' (example_link\<lparr>dl_delayed := True\<rparr>) example_room (Some EMPTY_ROOM_STATE)
     (Some environment_plan) new_backoffs = (Inr r, new_backoffs) \<and> rr_state r = EMPTY_ROOM_STATE"
  using read_room_quarantined [of "example_link\<lparr>dl_delayed := True\<rparr>" EMPTY_ROOM_STATE "''port''"
      example_room environment_plan new_backoffs]
  by (auto simp: example_link_def)

definition dead_exn :: exn where
  "dead_exn = \<lparr>isa = [ModbusConnectionError, ModbusError], message = ''connection lost''\<rparr>"

theorem read_room_dead_link_witness:
  "\<exists>result bs'. read_room ''port''
      (example_link\<lparr>dl_poll := \<lambda>_. PollRaised dead_exn, dl_mode := ModeRaised dead_exn\<rparr>) example_room
      (Some EMPTY_ROOM_STATE) (Some environment_plan) new_backoffs = (result, bs')
    \<and> ((\<exists>text. result = Inl (Translated (MeltemConnectionError text)))
      \<or> (\<exists>r. result = Inr r \<and> attempted_groups (rr_outcome r) = {}))"
proof -
  let ?dl = "example_link\<lparr>dl_poll := \<lambda>_. PollRaised dead_exn, dl_mode := ModeRaised dead_exn\<rparr>"
  obtain result bs' where "read_room ''port'' ?dl example_room (Some EMPTY_ROOM_STATE)
      (Some environment_plan) new_backoffs = (result, bs')" by fastforce
  moreover have "isinstance dead_exn [ModbusConnectionError]" by (simp add: dead_exn_def isinstance_def)
  ultimately show ?thesis
    using read_room_dead_link [of ?dl "''port''" example_room "Some EMPTY_ROOM_STATE"
        "Some environment_plan" new_backoffs result bs'] by auto
qed

theorem read_room_silent_unit_witness:
  "read_room ''port'' (example_link\<lparr>dl_poll := \<lambda>_. PollRaised timeout_exn, dl_mode := ModeRaised dead_exn\<rparr>)
      example_room None (Some environment_plan) new_backoffs
   = read_room ''port'' (example_link\<lparr>dl_poll := \<lambda>_. PollRaised timeout_exn,
       dl_mode := ModeAnswer \<lparr>read_mode = 1, read_current_level = 0, read_extract_target_level = 0\<rparr>\<rparr>)
      example_room None (Some environment_plan) new_backoffs"
  using read_room_silent_unit [of "example_link\<lparr>dl_poll := \<lambda>_. PollRaised timeout_exn\<rparr>" timeout_exn
      example_room environment_plan new_backoffs]
  by (simp add: example_active timeout_exn_def isinstance_def const_simps)

theorem read_room_sensor_value_witness:
  "\<exists>r bs'. read_room ''port'' example_link example_room (Some EMPTY_ROOM_STATE) (Some environment_plan)
     new_backoffs = (Inr r, bs') \<and> sensor_value (rr_state r) ''co2_extract_air'' = Some 612"
proof -
  obtain r bs' where read: "read_room ''port'' example_link example_room (Some EMPTY_ROOM_STATE)
      (Some environment_plan) new_backoffs = (Inr r, bs')" using example_reads by blast
  have "sensor_value (rr_state r) ''co2_extract_air'' =
      (if is_plausible ''co2_extract_air'' (Some 612) then Some 612 else None)"
    by (rule read_room_sensor_value [OF read, where source = "\<lparr>fr_component = ''extract_air_quality'',
          fr_attribute = ''co2_extract_air'', fr_group = ''air_quality''\<rparr>"
          and updated = "[''extract_air_quality'', ''supply_air_quality'']"])
      (simp_all add: example_active, simp_all add: example_link_def example_due SENSOR_FIELDS_def
        PLAUSIBLE_RANGES_def)
  with read show ?thesis by (auto simp: is_plausible_def PLAUSIBLE_RANGES_def)
qed

text \<open>
  Backoff of a refused component: after any number of refusals in a row, the last at time \<open>t\<close>, the
  component is paused for exactly \<open>min(60, 10 * 2^(n-1))\<close> seconds.
\<close>

lemma refused_component_pause:
  "fst (backoff_is_active clock key (mark_failures key (ts @ [t]) COMPONENT_BACKOFF)) \<longleftrightarrow>
     clock < t + min 60 (10 * 2 ^ length ts)"
proof -
  have "map_of (bo_until (mark_failures key (ts @ [t]) COMPONENT_BACKOFF)) key
      = Some (t + doubling_pause 10 60 (Suc (length ts)))"
    using mark_failures_until [of COMPONENT_BACKOFF key ts t] component_pause.pause_cap_axioms
    by (simp add: COMPONENT_BACKOFF_def)
  then show ?thesis by (simp add: backoff_is_active_def doubling_pause_def not_le)
qed

end
