(* ===== verification/Mock_Gateway.thy ===== *)
theory Mock_Gateway
  imports Mode_Codec "HOL-Library.Word"
begin

unbundle bit_operations_syntax

text \<open>
  \<open>tools/_mock_model.py\<close>: the repository's own model of a gateway and its units, which states how the
  hardware reacts to the register writes of the integration. The clocks are arguments.
\<close>

section \<open>Registers\<close>

definition GATEWAY_ADDRESS :: int where [simp]: "GATEWAY_ADDRESS = 1"
definition MIN_UNIT_ADDRESS :: int where [simp]: "MIN_UNIT_ADDRESS = 2"
definition MAX_UNIT_ADDRESS :: int where [simp]: "MAX_UNIT_ADDRESS = 16"
definition MAX_REGISTER_COUNT :: int where [simp]: "MAX_REGISTER_COUNT = 125"
definition NO_HUMIDITY_VALUE :: int where [simp]: "NO_HUMIDITY_VALUE = 239"
definition NO_SENSOR_VALUE :: int where [simp]: "NO_SENSOR_VALUE = 32767"
definition ILLEGAL_DATA_ADDRESS :: int where [simp]: "ILLEGAL_DATA_ADDRESS = 2"
definition ILLEGAL_DATA_VALUE :: int where [simp]: "ILLEGAL_DATA_VALUE = 3"
definition ACKNOWLEDGE :: int where [simp]: "ACKNOWLEDGE = 5"
definition INITIAL_UPTIME_SECONDS :: int where [simp]: "INITIAL_UPTIME_SECONDS = 12345"

type_synonym register_range = "int \<times> int"
type_synonym register_map = "int \<rightharpoonup> int"

definition UNIT_READABLE_RANGES :: "register_range list" where [const_simps]:
  "UNIT_READABLE_RANGES =
     [(40000, 40022), (40024, 40033), (40041, 40041), (40050, 40051), (40071, 40071),
      (40100, 40104), (40109, 40110), (40120, 40120), (40200, 40209), (41000, 41034),
      (41100, 41113), (42000, 42009)]"

definition GATEWAY_READABLE_RANGES :: "register_range list" where [const_simps]:
  "GATEWAY_READABLE_RANGES =
     [(REGISTER_GATEWAY_MAC_START, REGISTER_GATEWAY_UTC_CLOCK + 1),
      (REGISTER_GATEWAY_UPTIME, REGISTER_GATEWAY_UPTIME + 1),
      (REGISTER_GATEWAY_RF_MESSAGES_CURRENT_HOUR, REGISTER_GATEWAY_RF_LOAD_PREVIOUS_HOUR + 1),
      (REGISTER_GATEWAY_NUMBER_OF_NODES, REGISTER_GATEWAY_NODE_ADDRESS_1 + 15)]"

definition SET_REGISTERS :: "int list" where [const_simps]:
  "SET_REGISTERS = [REGISTER_MODE..REGISTER_PRESET_VALUE]"

definition WARMUP_ACKNOWLEDGE_RANGES :: "register_range list" where [const_simps]:
  "WARMUP_ACKNOWLEDGE_RANGES = [(41000, 41006), (41009, 41011), (41016, 41021)]"

definition QUICK_MODE_AIRFLOW :: "(int, int) dict" where [const_simps]:
  "QUICK_MODE_AIRFLOW =
     [(PRESET_MODE_CODE_LOW, 20), (PRESET_MODE_CODE_MEDIUM, 30), (PRESET_MODE_CODE_HIGH, 60),
      (PRESET_MODE_CODE_INTENSIVE, 80)]"

definition QUICK_MODE_CODES :: "(string, int) dict" where [const_simps]:
  "QUICK_MODE_CODES =
     [(''low'', PRESET_MODE_CODE_LOW), (''medium'', PRESET_MODE_CODE_MEDIUM),
      (''high'', PRESET_MODE_CODE_HIGH)]"

definition SENSOR_STATUS_BIT :: int where [simp]: "SENSOR_STATUS_BIT = 32"

definition STATUS_FLAGS :: "(string, int) dict" where [const_simps]:
  "STATUS_FLAGS =
     [(''error'', REGISTER_ERROR_STATUS), (''filter'', REGISTER_FILTER_CHANGE_DUE),
      (''frost'', REGISTER_FROST_PROTECTION_ACTIVE)]"

definition word_swapped_u32 :: "int \<Rightarrow> int \<Rightarrow> (int \<times> int) list" where
  "word_swapped_u32 address v = [(address, v AND 65535), (address + 1, drop_bit 16 v AND 65535)]"

text \<open>\<open>struct.pack(">f", x)\<close> as two words, for the floats the mock starts with.\<close>

definition FLOAT_WORDS :: "(real, int \<times> int) dict" where
  "FLOAT_WORDS =
     [(21.5, (16812, 0)), (8.0, (16640, 0)), (19.0, (16792, 0)), (17.5, (16780, 0)),
      (18.5, (16788, 0)), (12.25, (16708, 0))]"

definition word_swapped_float :: "int \<Rightarrow> real \<Rightarrow> (int \<times> int) list" where
  "word_swapped_float address v =
     (let (high_word, low_word) = dict_get FLOAT_WORDS v (0, 0)
      in [(address, low_word), (address + 1, high_word)])"

definition in_ranges :: "int \<Rightarrow> register_range list \<Rightarrow> bool" where
  "in_ranges register ranges = list_ex (\<lambda>(low, high). low \<le> register \<and> register \<le> high) ranges"

definition update_registers :: "(int \<times> int) list \<Rightarrow> register_map \<Rightarrow> register_map" where
  "update_registers updates m = fold (\<lambda>(r, v) m. m(r \<mapsto> v)) updates m"

lemma update_registers_simps [simp]:
  "update_registers [] m = m"
  "update_registers ((r, v) # us) m = update_registers us (m(r \<mapsto> v))"
  by (simp_all add: update_registers_def)

definition zero_registers :: "register_range list \<Rightarrow> register_map" where
  "zero_registers ranges = (\<lambda>r. if in_ranges r ranges then Some 0 else None)"

definition validate_profile :: "string \<Rightarrow> meltem_error + string" where
  "validate_profile profile =
     (if map_of PROFILE_METADATA profile = None then Inl (ValueError ''unknown profile'')
      else Inr profile)"

definition validate_unit_address :: "int \<Rightarrow> meltem_error + int" where
  "validate_unit_address address =
     (if MIN_UNIT_ADDRESS \<le> address \<and> address \<le> MAX_UNIT_ADDRESS then Inr address
      else Inl (ValueError ''unit addresses must be between 2 and 16''))"

definition unit_registers :: "string \<Rightarrow> int \<Rightarrow> register_map" where
  "unit_registers profile app_setup_code =
     (let caps = profile_capabilities profile;
          product_id = (if take 2 profile = ''s_'' then PRODUCT_ID_M_WRG else PRODUCT_ID_M_WRG_II);
          has_humidity = (''humidity'' \<in> set caps);
          has_voc = (''voc'' \<in> set caps)
      in update_registers
          (word_swapped_u32 REGISTER_PRODUCT_ID product_id
           @ [(REGISTER_APP_SETUP_CODE, app_setup_code), (REGISTER_APP_SETUP_CODE + 1, 0),
              (REGISTER_HUMIDITY_EXTRACT_AIR, if has_humidity then 48 else NO_HUMIDITY_VALUE),
              (REGISTER_HUMIDITY_SUPPLY_AIR, if has_humidity then 44 else NO_HUMIDITY_VALUE),
              (REGISTER_CO2_EXTRACT_AIR, if ''co2'' \<in> set caps then 720 else NO_SENSOR_VALUE),
              (REGISTER_VOC_SUPPLY_AIR, if has_voc then 360 else NO_SENSOR_VALUE),
              (REGISTER_VOC_EXTRACT_AIR, if has_voc then 340 else NO_SENSOR_VALUE),
              (REGISTER_CO2_SUPPLY_AIR, if has_voc then 650 else NO_SENSOR_VALUE)]
           @ word_swapped_float REGISTER_EXTRACT_AIR_TEMPERATURE 21.5
           @ word_swapped_float REGISTER_OUTDOOR_AIR_TEMPERATURE 8.0
           @ word_swapped_float REGISTER_EXHAUST_AIR_TEMPERATURE 19.0
           @ word_swapped_float REGISTER_SUPPLY_AIR_TEMPERATURE 17.5
           @ word_swapped_u32 REGISTER_OPERATING_HOURS 12345
           @ word_swapped_u32 REGISTER_FAN_MOTOR_HOURS 6789
           @ [(REGISTER_DAYS_UNTIL_FILTER_CHANGE, 120),
              (REGISTER_EXTRACT_AIR_FLOW, 40), (REGISTER_SUPPLY_AIR_FLOW, 40),
              (REGISTER_HUMIDITY_STARTING_POINT, 55), (REGISTER_HUMIDITY_MIN_LEVEL, 20),
              (REGISTER_HUMIDITY_MAX_LEVEL, 60), (REGISTER_CO2_STARTING_POINT, 800),
              (REGISTER_CO2_MIN_LEVEL, 30), (REGISTER_CO2_MAX_LEVEL, 50),
              (REGISTER_EXTERNAL_INPUT_LEVEL, 60), (REGISTER_EXTERNAL_INPUT_ON_DELAY, 1),
              (REGISTER_EXTERNAL_INPUT_RUN_ON, 15),
              (41015, 49144), (41019, 31), (41113, 425), (42006, 12),
              (REGISTER_MODE_STATUS, MODE_MANUAL), (REGISTER_SUPPLY_MODE_STATUS, 80),
              (REGISTER_EXTRACT_MODE_STATUS, 80),
              (REGISTER_MODE, MODE_MANUAL), (REGISTER_CURRENT_LEVEL, 80),
              (REGISTER_EXTRACT_AIR_TARGET_LEVEL, 80), (REGISTER_PRESET_MODE, 0),
              (REGISTER_PRESET_VALUE, 0), (REGISTER_APPLY, 0)])
          (zero_registers UNIT_READABLE_RANGES))"

definition gateway_registers :: register_map where
  "gateway_registers =
     update_registers
       ([(REGISTER_GATEWAY_MAC_START, 512), (REGISTER_GATEWAY_MAC_START + 1, 0),
         (REGISTER_GATEWAY_MAC_START + 2, 1), (REGISTER_GATEWAY_RF_MESSAGES_CURRENT_HOUR, 75),
         (REGISTER_GATEWAY_RF_MESSAGES_PREVIOUS_HOUR, 147)]
        @ word_swapped_float REGISTER_GATEWAY_RF_LOAD_CURRENT_HOUR 18.5
        @ word_swapped_float REGISTER_GATEWAY_RF_LOAD_PREVIOUS_HOUR 12.25)
       (zero_registers GATEWAY_READABLE_RANGES)"

section \<open>Airflow and status\<close>

definition mock_airflow :: "int \<Rightarrow> int \<Rightarrow> bool \<Rightarrow> int" where
  "mock_airflow raw_level max_airflow_of quick_modes =
     (if quick_modes \<and> map_of QUICK_MODE_AIRFLOW raw_level \<noteq> None
      then min (dict_get QUICK_MODE_AIRFLOW raw_level 0) max_airflow_of
      else if 0 \<le> raw_level \<and> raw_level \<le> 200 then py_round_div (raw_level * max_airflow_of) 200
      else min ((raw_level - APP_UNBALANCED_PRESET_BASE) * 10) max_airflow_of)"

definition status_updates :: "int \<Rightarrow> int \<Rightarrow> int \<Rightarrow> int option \<Rightarrow> int option \<Rightarrow> (int \<times> int) list" where
  "status_updates mode supply extract extract_airflow supply_airflow =
     [(REGISTER_MODE_STATUS, mode), (REGISTER_SUPPLY_MODE_STATUS, supply),
      (REGISTER_EXTRACT_MODE_STATUS, extract)]
     @ (case (extract_airflow, supply_airflow) of
          (Some e, Some s) \<Rightarrow> [(REGISTER_EXTRACT_AIR_FLOW, e), (REGISTER_SUPPLY_AIR_FLOW, s)]
        | _ \<Rightarrow> [])"

section \<open>Devices and the gateway\<close>

record unit_device =
  dv_profile :: "string option"
  dv_registers :: register_map
  dv_readable_ranges :: "register_range list"
  dv_readable_extra :: "int set"
  dv_refused :: "int set"
  dv_written :: "int set"
  dv_pending :: "(seconds \<times> (int \<times> int) list) option"

definition dv_readable :: "unit_device \<Rightarrow> int \<Rightarrow> bool" where
  "dv_readable d register \<longleftrightarrow>
     in_ranges register (dv_readable_ranges d) \<or> register \<in> dv_readable_extra d
     \<or> (dv_profile d \<noteq> None \<and> register \<in> set SET_REGISTERS)"

record mock_gateway =
  gw_warmup_seconds :: seconds
  gw_settle_seconds :: seconds
  gw_clock_offset :: int
  gw_writes :: nat
  gw_devices :: "int \<rightharpoonup> unit_device"
  gw_silent :: "int set"
  gw_paired :: "int list"
  gw_boot :: seconds
  gw_uptime_at_boot :: int
  gw_warmup_until :: seconds

definition new_device :: "string option \<Rightarrow> register_map \<Rightarrow> register_range list \<Rightarrow> unit_device" where
  "new_device profile registers ranges =
     \<lparr>dv_profile = profile, dv_registers = registers, dv_readable_ranges = ranges,
      dv_readable_extra = {}, dv_refused = {}, dv_written = {}, dv_pending = None\<rparr>"

text \<open>\<open>_new_unit\<close>: the profile must be known.\<close>

definition new_unit :: "int \<Rightarrow> string \<Rightarrow> unit_device" where
  "new_unit address profile =
     new_device (Some profile) (unit_registers profile (40960 + address)) UNIT_READABLE_RANGES"

definition put_device :: "int \<Rightarrow> unit_device \<Rightarrow> mock_gateway \<Rightarrow> mock_gateway" where
  "put_device address d g = g\<lparr>gw_devices := (gw_devices g)(address \<mapsto> d)\<rparr>"

definition device_of :: "mock_gateway \<Rightarrow> int \<Rightarrow> meltem_error + unit_device" where
  "device_of g address =
     (case gw_devices g address of
        None \<Rightarrow> Inl (ValueError ''no unit is configured'') | Some d \<Rightarrow> Inr d)"

definition unit_of :: "mock_gateway \<Rightarrow> int \<Rightarrow> meltem_error + unit_device" where
  "unit_of g address =
     (case device_of g address of
        Inl e \<Rightarrow> Inl e
      | Inr d \<Rightarrow> if dv_profile d = None then Inl (ValueError ''this needs a unit address, not the gateway'')
                 else Inr d)"

definition sync_node_list :: "mock_gateway \<Rightarrow> mock_gateway" where
  "sync_node_list g =
     (case gw_devices g GATEWAY_ADDRESS of
        None \<Rightarrow> g
      | Some d \<Rightarrow>
          put_device GATEWAY_ADDRESS
            (d\<lparr>dv_registers := update_registers
                 ((REGISTER_GATEWAY_NUMBER_OF_NODES, int (length (gw_paired g)))
                  # map (\<lambda>i. (REGISTER_GATEWAY_NODE_ADDRESS_1 + int i,
                      if i < length (gw_paired g) then gw_paired g ! i else 0)) [0..<16])
                 (dv_registers d)\<rparr>) g)"

definition new_gateway ::
  "(int, string) dict \<Rightarrow> bool \<Rightarrow> int set \<Rightarrow> seconds \<Rightarrow> seconds \<Rightarrow> seconds \<Rightarrow> meltem_error + mock_gateway" where
  "new_gateway units no_units silent warmup settle clock =
     (if warmup < 0 \<or> settle < 0
      then Inl (ValueError ''warm-up and settle times must be non-negative'')
      else if list_ex (\<lambda>(a, p). validate_unit_address a \<noteq> Inr a \<or> validate_profile p \<noteq> Inr p) units
      then Inl (ValueError ''invalid unit'')
      else if \<not> silent \<subseteq> fst ` set units then Inl (ValueError ''no unit is configured'')
      else Inr (sync_node_list
        \<lparr>gw_warmup_seconds = warmup, gw_settle_seconds = settle, gw_clock_offset = 0, gw_writes = 0,
         gw_devices = (map_of (map (\<lambda>(a, p). (a, new_unit a p)) units))
           (GATEWAY_ADDRESS \<mapsto> new_device None gateway_registers GATEWAY_READABLE_RANGES),
         gw_silent = silent,
         gw_paired = (if no_units then [] else sort (map fst units)),
         gw_boot = clock, gw_uptime_at_boot = INITIAL_UPTIME_SECONDS,
         gw_warmup_until = clock + warmup\<rparr>))"

definition gw_answers :: "mock_gateway \<Rightarrow> int \<Rightarrow> bool" where
  "gw_answers g address \<longleftrightarrow>
     address = GATEWAY_ADDRESS \<or> (address \<in> set (gw_paired g) \<and> address \<notin> gw_silent g)"

definition warmup_remaining :: "seconds \<Rightarrow> mock_gateway \<Rightarrow> seconds" where
  "warmup_remaining clock g = max 0 (gw_warmup_until g - clock)"

definition settle_device :: "seconds \<Rightarrow> bool \<Rightarrow> unit_device \<Rightarrow> unit_device" where
  "settle_device clock force d =
     (case dv_pending d of
        None \<Rightarrow> d
      | Some (due, updates) \<Rightarrow>
          if force \<or> clock \<ge> due
          then d\<lparr>dv_registers := update_registers updates (dv_registers d), dv_pending := None\<rparr>
          else d)"

definition register_or :: "register_map \<Rightarrow> int \<Rightarrow> int \<Rightarrow> int" where
  "register_or m register v = (case m register of None \<Rightarrow> v | Some w \<Rightarrow> w)"

definition mode_updates :: "unit_device \<Rightarrow> (int \<times> int) list" where
  "mode_updates d =
     (let m = dv_registers d;
          mode = register_or m REGISTER_MODE MODE_MANUAL;
          level = register_or m REGISTER_CURRENT_LEVEL 0;
          extract = register_or m REGISTER_EXTRACT_AIR_TARGET_LEVEL level;
          limit = profile_max_airflow (case dv_profile d of None \<Rightarrow> [] | Some p \<Rightarrow> p)
      in if m REGISTER_PRESET_MODE = Some MODE_MANUAL
            \<and> m REGISTER_PRESET_VALUE = Some PRESET_MODE_CODE_INTENSIVE
         then let airflow = mock_airflow PRESET_MODE_CODE_INTENSIVE limit True
              in status_updates MODE_MANUAL PRESET_MODE_CODE_INTENSIVE PRESET_MODE_CODE_INTENSIVE
                   (Some airflow) (Some airflow)
         else if mode = MODE_SENSOR_CONTROL
         then let st = level OR SENSOR_STATUS_BIT in status_updates mode st st None None
         else if mode = MODE_OFF then status_updates mode level level (Some 0) (Some 0)
         else if mode = MODE_UNBALANCED
         then status_updates mode level extract (Some (mock_airflow extract limit False))
                (Some (mock_airflow level limit False))
         else let airflow = mock_airflow level limit True
              in status_updates mode level level (Some airflow) (Some airflow))"

definition commit_device :: "seconds \<Rightarrow> seconds \<Rightarrow> unit_device \<Rightarrow> unit_device" where
  "commit_device clock settle d =
     (if settle \<noteq> 0 then d\<lparr>dv_pending := Some (clock + settle, mode_updates d)\<rparr>
      else d\<lparr>dv_pending := None, dv_registers := update_registers (mode_updates d) (dv_registers d)\<rparr>)"

section \<open>Modbus requests\<close>

definition refresh_gateway_clock :: "seconds \<Rightarrow> seconds \<Rightarrow> mock_gateway \<Rightarrow> unit_device \<Rightarrow> unit_device" where
  "refresh_gateway_clock clock wall g d =
     d\<lparr>dv_registers := update_registers
         (word_swapped_u32 REGISTER_GATEWAY_UPTIME (gw_uptime_at_boot g + \<lfloor>clock - gw_boot g\<rfloor>)
          @ word_swapped_u32 REGISTER_GATEWAY_UTC_CLOCK
              ((\<lfloor>wall\<rfloor> + gw_clock_offset g) AND 4294967295))
         (dv_registers d)\<rparr>"

definition read_code :: "seconds \<Rightarrow> mock_gateway \<Rightarrow> unit_device \<Rightarrow> int list \<Rightarrow> int + int list" where
  "read_code clock g d rs =
     (if list_ex (\<lambda>r. r \<in> dv_refused d \<or> \<not> dv_readable d r) rs then Inl ILLEGAL_DATA_ADDRESS
      else if dv_profile d \<noteq> None
              \<and> list_ex (\<lambda>r. r \<in> set SET_REGISTERS \<and> r \<notin> dv_written d) rs then Inl ACKNOWLEDGE
      else if dv_profile d \<noteq> None \<and> warmup_remaining clock g > 0
              \<and> list_ex (\<lambda>r. in_ranges r WARMUP_ACKNOWLEDGE_RANGES) rs then Inl ACKNOWLEDGE
      else Inr (map (\<lambda>r. register_or (dv_registers d) r 0) rs))"

definition mock_read ::
  "seconds \<Rightarrow> seconds \<Rightarrow> int \<Rightarrow> int \<Rightarrow> int \<Rightarrow> mock_gateway
     \<Rightarrow> (meltem_error + int + int list) \<times> mock_gateway" where
  "mock_read clock wall address register count g =
     (if \<not> (1 \<le> count \<and> count \<le> MAX_REGISTER_COUNT) \<or> register + count > 65536
      then (Inr (Inl ILLEGAL_DATA_VALUE), g)
      else case device_of g address of
        Inl e \<Rightarrow> (Inl e, g)
      | Inr d \<Rightarrow>
          let d1 = (if dv_profile d = None then refresh_gateway_clock clock wall g d else d);
              d2 = settle_device clock False d1
          in (Inr (read_code clock g d2 [register..register + count - 1]), put_device address d2 g))"

definition write_device ::
  "seconds \<Rightarrow> seconds \<Rightarrow> int \<Rightarrow> int \<Rightarrow> unit_device \<Rightarrow> unit_device" where
  "write_device clock settle register v d =
     (let d1 = settle_device clock False d;
          d2 = d1\<lparr>dv_registers := (dv_registers d1)(register \<mapsto> v)\<rparr>;
          d3 = (if register \<in> set SET_REGISTERS
                then d2\<lparr>dv_written := insert register (dv_written d2)\<rparr> else d2)
      in if register = REGISTER_APPLY \<and> v = 0 then commit_device clock settle d3 else d3)"

definition mock_write ::
  "seconds \<Rightarrow> int \<Rightarrow> int \<Rightarrow> int \<Rightarrow> mock_gateway \<Rightarrow> (meltem_error + int option) \<times> mock_gateway" where
  "mock_write clock address register v g =
     (case device_of g address of
        Inl e \<Rightarrow> (Inl e, g)
      | Inr d \<Rightarrow>
          if dv_profile d = None \<or> register \<in> dv_refused d then (Inr (Some ILLEGAL_DATA_ADDRESS), g)
          else (Inr None,
                put_device address (write_device clock (gw_settle_seconds g) register v d)
                  (g\<lparr>gw_writes := gw_writes g + 1\<rparr>)))"

section \<open>Changes at run time\<close>

definition pair_unit :: "int \<Rightarrow> string \<Rightarrow> mock_gateway \<Rightarrow> meltem_error + mock_gateway" where
  "pair_unit address profile g =
     (case validate_unit_address address of
        Inl e \<Rightarrow> Inl e
      | Inr _ \<Rightarrow> (case validate_profile profile of
          Inl e \<Rightarrow> Inl e
        | Inr _ \<Rightarrow>
            let known = (case gw_devices g address of
                    None \<Rightarrow> False | Some d \<Rightarrow> dv_profile d = Some profile);
                g1 = (if known then g else put_device address (new_unit address profile) g);
                g2 = (if address \<in> set (gw_paired g1) then g1
                      else g1\<lparr>gw_paired := gw_paired g1 @ [address]\<rparr>)
            in Inr (sync_node_list g2)))"

definition unpair_unit :: "int \<Rightarrow> mock_gateway \<Rightarrow> meltem_error + mock_gateway" where
  "unpair_unit address g =
     (case unit_of g address of
        Inl e \<Rightarrow> Inl e
      | Inr _ \<Rightarrow> Inr (sync_node_list (g\<lparr>gw_paired := remove1 address (gw_paired g)\<rparr>)))"

definition set_silent :: "int \<Rightarrow> bool \<Rightarrow> mock_gateway \<Rightarrow> meltem_error + mock_gateway" where
  "set_silent address quiet g =
     (case unit_of g address of
        Inl e \<Rightarrow> Inl e
      | Inr _ \<Rightarrow> Inr (g\<lparr>gw_silent := (if quiet then insert address (gw_silent g)
                                     else gw_silent g - {address})\<rparr>))"

definition set_register :: "seconds \<Rightarrow> int \<Rightarrow> int \<Rightarrow> int \<Rightarrow> mock_gateway \<Rightarrow> meltem_error + mock_gateway" where
  "set_register clock address register v g =
     (if \<not> (0 \<le> register \<and> register \<le> 65535) \<or> \<not> (0 \<le> v \<and> v \<le> 65535)
      then Inl (ValueError ''registers and values must be between 0 and 65535'')
      else case device_of g address of
        Inl e \<Rightarrow> Inl e
      | Inr d \<Rightarrow>
          let d1 = settle_device clock False d;
              d2 = d1\<lparr>dv_registers := (dv_registers d1)(register \<mapsto> v)\<rparr>
          in Inr (put_device address
               (if dv_readable d2 register then d2
                else d2\<lparr>dv_readable_extra := insert register (dv_readable_extra d2)\<rparr>) g))"

definition refuse_registers ::
  "int \<Rightarrow> register_range \<Rightarrow> bool \<Rightarrow> mock_gateway \<Rightarrow> meltem_error + mock_gateway" where
  "refuse_registers address range_of refuse g =
     (case device_of g address of
        Inl e \<Rightarrow> Inl e
      | Inr d \<Rightarrow>
          let rs = set [fst range_of..snd range_of]
          in Inr (put_device address
               (d\<lparr>dv_refused := (if refuse then dv_refused d \<union> rs else dv_refused d - rs)\<rparr>) g))"

definition set_flag :: "int \<Rightarrow> string \<Rightarrow> bool \<Rightarrow> mock_gateway \<Rightarrow> meltem_error + mock_gateway" where
  "set_flag address flag active g =
     (case map_of STATUS_FLAGS flag of
        None \<Rightarrow> Inl (ValueError ''unknown flag'')
      | Some register \<Rightarrow> (case unit_of g address of
          Inl e \<Rightarrow> Inl e
        | Inr d \<Rightarrow> Inr (put_device address
            (d\<lparr>dv_registers := (dv_registers d)(register \<mapsto> of_bool active)\<rparr>) g)))"

text \<open>
  What the app asks for: the text of the command line is parsed by \<open>int\<close>, so it is given parsed.
\<close>

datatype app_request = AppOff | AppIntensive | AppQuick string | AppAirflow int "int option"

definition parse_airflow :: "int \<Rightarrow> int \<Rightarrow> meltem_error + int" where
  "parse_airflow airflow limit =
     (if 0 \<le> airflow \<and> airflow \<le> limit then Inr airflow
      else Inl (ValueError ''the airflow must be between 0 and the maximum''))"

definition app_updates :: "int \<Rightarrow> app_request \<Rightarrow> meltem_error + (int \<times> int) list" where
  "app_updates limit req =
     (case req of
        AppOff \<Rightarrow> Inr (status_updates MODE_OFF 0 0 (Some 0) (Some 0))
      | AppIntensive \<Rightarrow>
          let airflow = mock_airflow PRESET_MODE_CODE_INTENSIVE limit True
          in Inr (status_updates 0 0 0 (Some airflow) (Some airflow))
      | AppQuick name \<Rightarrow> (case map_of QUICK_MODE_CODES name of
          None \<Rightarrow> Inl (ValueError ''expected off, low, medium, high, intensive, or an airflow in m3/h'')
        | Some code \<Rightarrow>
            let airflow = mock_airflow code limit True
            in Inr (status_updates MODE_MANUAL code code (Some airflow) (Some airflow)))
      | AppAirflow supply extract \<Rightarrow> (case parse_airflow supply limit of
          Inl e \<Rightarrow> Inl e
        | Inr s \<Rightarrow> (case (case extract of None \<Rightarrow> Inr s | Some x \<Rightarrow> parse_airflow x limit) of
            Inl e \<Rightarrow> Inl e
          | Inr x \<Rightarrow>
              let supply_raw = py_round_div (s * 200) limit; extract_raw = py_round_div (x * 200) limit;
                  mode = (if supply_raw = extract_raw then MODE_MANUAL else MODE_UNBALANCED)
              in Inr (status_updates mode supply_raw extract_raw (Some x) (Some s)))))"

definition app_change :: "int \<Rightarrow> app_request \<Rightarrow> mock_gateway \<Rightarrow> meltem_error + mock_gateway" where
  "app_change address req g =
     (case unit_of g address of
        Inl e \<Rightarrow> Inl e
      | Inr d \<Rightarrow>
          (case app_updates (profile_max_airflow (case dv_profile d of None \<Rightarrow> [] | Some p \<Rightarrow> p)) req of
             Inl e \<Rightarrow> Inl e
           | Inr updates \<Rightarrow> Inr (put_device address
               (d\<lparr>dv_pending := None, dv_registers := update_registers updates (dv_registers d)\<rparr>) g)))"

definition reboot :: "seconds \<Rightarrow> seconds option \<Rightarrow> mock_gateway \<Rightarrow> meltem_error + mock_gateway" where
  "reboot clock warmup g =
     (case (case warmup of None \<Rightarrow> Inr (gw_warmup_seconds g)
            | Some w \<Rightarrow> if w < 0 then Inl (ValueError ''the warm-up must be non-negative'') else Inr w) of
        Inl e \<Rightarrow> Inl e
      | Inr w \<Rightarrow> Inr (g\<lparr>gw_warmup_seconds := w, gw_boot := clock, gw_uptime_at_boot := 0,
          gw_warmup_until := clock + w,
          gw_devices := (\<lambda>a. map_option (\<lambda>d. (settle_device clock True d)\<lparr>dv_written := {}\<rparr>)
            (gw_devices g a))\<rparr>))"

definition start_warmup :: "seconds \<Rightarrow> seconds \<Rightarrow> mock_gateway \<Rightarrow> meltem_error + mock_gateway" where
  "start_warmup clock s g =
     (if s < 0 then Inl (ValueError ''the warm-up must be non-negative'')
      else Inr (g\<lparr>gw_warmup_until := clock + s\<rparr>))"

section \<open>A mode command on a unit\<close>

text \<open>\<open>ModeBlock\<close>: the registers behind the names a command writes.\<close>

definition MODE_BLOCK :: "(string, int) dict" where [const_simps]:
  "MODE_BLOCK =
     [(''mode'', REGISTER_MODE), (''current_level'', REGISTER_CURRENT_LEVEL),
      (''extract_target_level'', REGISTER_EXTRACT_AIR_TARGET_LEVEL),
      (''preset_mode'', REGISTER_PRESET_MODE), (''preset_value'', REGISTER_PRESET_VALUE)]"

definition mode_register :: "string \<Rightarrow> int" where
  "mode_register name = dict_get MODE_BLOCK name 0"

definition write_names :: "seconds \<Rightarrow> seconds \<Rightarrow> (string \<times> int) list \<Rightarrow> unit_device \<Rightarrow> unit_device" where
  "write_names clock settle writes d =
     fold (\<lambda>(name, v). write_device clock settle (mode_register name) v) writes d"

text \<open>The writes of a command, then \<open>command.write("apply", 0)\<close>.\<close>

definition unit_command :: "seconds \<Rightarrow> seconds \<Rightarrow> (string \<times> int) list \<Rightarrow> unit_device \<Rightarrow> unit_device" where
  "unit_command clock settle writes d =
     write_device clock settle REGISTER_APPLY 0 (write_names clock settle writes d)"

text \<open>\<open>ModeStatus\<close>: the status map as a later read finds it.\<close>

definition mode_status_at :: "seconds \<Rightarrow> unit_device \<Rightarrow> mode_read" where
  "mode_status_at clock d =
     (let m = dv_registers (settle_device clock False d)
      in \<lparr>read_mode = register_or m REGISTER_MODE_STATUS 0,
          read_current_level = register_or m REGISTER_SUPPLY_MODE_STATUS 0,
          read_extract_target_level = register_or m REGISTER_EXTRACT_MODE_STATUS 0\<rparr>)"

text \<open>A unit's pending change only ever reports: it touches status and airflow registers.\<close>

definition STATUS_REGISTERS :: "int set" where [const_simps]:
  "STATUS_REGISTERS =
     {REGISTER_MODE_STATUS, REGISTER_SUPPLY_MODE_STATUS, REGISTER_EXTRACT_MODE_STATUS,
      REGISTER_EXTRACT_AIR_FLOW, REGISTER_SUPPLY_AIR_FLOW}"

definition pending_ok :: "unit_device \<Rightarrow> bool" where
  "pending_ok d \<longleftrightarrow> (\<forall>due us. dv_pending d = Some (due, us) \<longrightarrow> fst ` set us \<subseteq> STATUS_REGISTERS)"

lemma status_updates_registers: "fst ` set (status_updates m s e ea sa) \<subseteq> STATUS_REGISTERS"
  by (auto simp: status_updates_def STATUS_REGISTERS_def split: option.splits)

lemma mode_updates_registers: "fst ` set (mode_updates d) \<subseteq> STATUS_REGISTERS"
  using status_updates_registers by (simp add: mode_updates_def Let_def)

lemma update_registers_other: "r \<notin> fst ` set us \<Longrightarrow> update_registers us m r = m r"
  by (induction us arbitrary: m) (auto simp: update_registers_def)

lemma settle_device_other:
  "pending_ok d \<Longrightarrow> r \<notin> STATUS_REGISTERS \<Longrightarrow> dv_registers (settle_device clock f d) r = dv_registers d r"
  by (auto simp: settle_device_def pending_ok_def intro!: update_registers_other split: option.split)

lemma settle_device_keeps [simp]:
  "dv_profile (settle_device clock f d) = dv_profile d"
  "pending_ok d \<Longrightarrow> pending_ok (settle_device clock f d)"
  by (auto simp: settle_device_def pending_ok_def split: option.split)

lemma write_device_keeps [simp]:
  "dv_profile (write_device clock settle r v d) = dv_profile d"
  "pending_ok d \<Longrightarrow> pending_ok (write_device clock settle r v d)"
  using mode_updates_registers
  by (auto simp: write_device_def commit_device_def Let_def)
    (auto simp: pending_ok_def settle_device_def split: option.splits if_splits)

lemma update_mode_updates_other:
  "r \<notin> STATUS_REGISTERS \<Longrightarrow> update_registers (mode_updates d) m r = m r"
  using mode_updates_registers [of d] by (intro update_registers_other) auto

lemma write_device_other:
  assumes "pending_ok d" "r' \<notin> STATUS_REGISTERS"
  shows "dv_registers (write_device clock settle r v d) r' = (if r' = r then Some v else dv_registers d r')"
  using settle_device_other [OF assms(1,2)] assms(2)
  by (auto simp: write_device_def commit_device_def Let_def update_mode_updates_other)

lemma write_names_keeps:
  "dv_profile (write_names clock settle ws d) = dv_profile d"
  "pending_ok d \<Longrightarrow> pending_ok (write_names clock settle ws d)"
  by (induction ws arbitrary: d) (auto simp: write_names_def split: prod.split)

lemma update_registers_cong: "m r = m' r \<Longrightarrow> update_registers us m r = update_registers us m' r"
proof (induction us arbitrary: m m')
  case (Cons u us)
  have "(m(fst u \<mapsto> snd u)) r = (m'(fst u \<mapsto> snd u)) r" using Cons.prems by simp
  from Cons.IH [of "m(fst u \<mapsto> snd u)" "m'(fst u \<mapsto> snd u)", OF this]
  show ?case by (cases u) (simp add: fun_upd_def)
qed simp

text \<open>The set registers after the writes of a command hold the last value written to each.\<close>

lemma write_names_registers:
  assumes "pending_ok d" "r \<notin> STATUS_REGISTERS"
  shows "dv_registers (write_names clock settle ws d) r =
    update_registers (map (\<lambda>(n, v). (mode_register n, v)) ws) (dv_registers d) r"
  using assms(1)
proof (induction ws arbitrary: d)
  case (Cons w ws)
  obtain n v where w: "w = (n, v)" by fastforce
  note same = update_registers_cong [of "dv_registers (write_device clock settle (mode_register n) v d)"
      r "(dv_registers d)(mode_register n \<mapsto> v)"]
  have "dv_registers (write_device clock settle (mode_register n) v d) r
      = ((dv_registers d)(mode_register n \<mapsto> v)) r"
    using write_device_other [OF Cons.prems assms(2)] by simp
  from same [OF this, of "map (\<lambda>(n, v). (mode_register n, v)) ws"]
    Cons.IH [of "write_device clock settle (mode_register n) v d"] Cons.prems w
  show ?case by (simp add: write_names_def)
qed (simp add: write_names_def)

lemma mode_updates_shape: "\<exists>m s e ea sa. mode_updates d = status_updates m s e ea sa"
  unfolding mode_updates_def Let_def by (auto split: if_split; (intro exI, rule refl))

lemma map_of_mode_updates:
  "update_registers (mode_updates d) m REGISTER_MODE_STATUS = Some (snd (mode_updates d ! 0))"
  "update_registers (mode_updates d) m REGISTER_SUPPLY_MODE_STATUS = Some (snd (mode_updates d ! 1))"
  "update_registers (mode_updates d) m REGISTER_EXTRACT_MODE_STATUS = Some (snd (mode_updates d ! 2))"
proof -
  obtain m s e ea sa where "mode_updates d = status_updates m s e ea sa"
    using mode_updates_shape by blast
  then show "update_registers (mode_updates d) r REGISTER_MODE_STATUS = Some (snd (mode_updates d ! 0))"
    "update_registers (mode_updates d) r REGISTER_SUPPLY_MODE_STATUS = Some (snd (mode_updates d ! 1))"
    "update_registers (mode_updates d) r REGISTER_EXTRACT_MODE_STATUS = Some (snd (mode_updates d ! 2))" for r
    by (simp_all add: status_updates_def split: option.split)
qed

definition reported_status :: "unit_device \<Rightarrow> mode_read" where
  "reported_status d =
     \<lparr>read_mode = snd (mode_updates d ! 0), read_current_level = snd (mode_updates d ! 1),
      read_extract_target_level = snd (mode_updates d ! 2)\<rparr>"

lemma mode_updates_cong:
  assumes "dv_profile d = dv_profile d'"
    and "\<And>r. r \<in> {41120, 41121, 41122, 41123, 41124} \<Longrightarrow> dv_registers d r = dv_registers d' r"
  shows "mode_updates d = mode_updates d'"
proof -
  have regs: "dv_registers d 41120 = dv_registers d' 41120" "dv_registers d 41121 = dv_registers d' 41121"
    "dv_registers d 41122 = dv_registers d' 41122" "dv_registers d 41123 = dv_registers d' 41123"
    "dv_registers d 41124 = dv_registers d' 41124"
    using assms(2) by simp_all
  show ?thesis
    unfolding mode_updates_def register_or_def Let_def assms(1) REGISTER_MODE_def
      REGISTER_CURRENT_LEVEL_def REGISTER_EXTRACT_AIR_TARGET_LEVEL_def REGISTER_PRESET_MODE_def
      REGISTER_PRESET_VALUE_def regs by (rule refl)
qed

text \<open>Once APPLY has settled, the status map reports what the set registers say.\<close>

lemma status_after_apply:
  assumes "pending_ok d" "0 \<le> settle" "clock + settle \<le> later"
  shows "mode_status_at later (write_device clock settle REGISTER_APPLY 0 d) = reported_status d"
proof -
  let ?d1 = "settle_device clock False d"
  let ?d2 = "?d1\<lparr>dv_registers := (dv_registers ?d1)(REGISTER_APPLY \<mapsto> 0)\<rparr>"
  have apply_not_set: "REGISTER_APPLY \<notin> set SET_REGISTERS" by (simp add: SET_REGISTERS_def)
  then have "write_device clock settle REGISTER_APPLY 0 d = commit_device clock settle ?d2"
    by (simp add: write_device_def Let_def)
  moreover have "mode_updates ?d2 = mode_updates d"
    by (rule mode_updates_cong)
      (auto simp: settle_device_other [OF assms(1)] STATUS_REGISTERS_def)
  moreover have "mode_status_at later (commit_device clock settle d') =
      \<lparr>read_mode = snd (mode_updates d' ! 0), read_current_level = snd (mode_updates d' ! 1),
       read_extract_target_level = snd (mode_updates d' ! 2)\<rparr>" for d'
    using assms(2,3)
    by (auto simp: mode_status_at_def commit_device_def settle_device_def register_or_def
        map_of_mode_updates simp del: REGISTER_MODE_STATUS_def REGISTER_SUPPLY_MODE_STATUS_def
        REGISTER_EXTRACT_MODE_STATUS_def)
  ultimately show ?thesis by (simp add: reported_status_def)
qed

lemma status_after_command:
  assumes "pending_ok d" "0 \<le> settle" "clock + settle \<le> later"
  shows "mode_status_at later (unit_command clock settle ws d) =
    reported_status (d\<lparr>dv_registers :=
      update_registers (map (\<lambda>(n, v). (mode_register n, v)) ws) (dv_registers d)\<rparr>)"
proof -
  have "mode_updates (write_names clock settle ws d) = mode_updates (d\<lparr>dv_registers :=
      update_registers (map (\<lambda>(n, v). (mode_register n, v)) ws) (dv_registers d)\<rparr>)"
    by (rule mode_updates_cong)
      (auto simp: write_names_keeps write_names_registers [OF assms(1)] STATUS_REGISTERS_def)
  then show ?thesis
    using status_after_apply [OF write_names_keeps(2) [OF assms(1)] assms(2,3)]
    by (simp add: unit_command_def reported_status_def)
qed

section \<open>Commands and what the integration reads back\<close>

text \<open>
  What the integration shows after a command was applied and its status read: \<open>apply_mode_read\<close> on the
  status map of the unit.
\<close>

definition shown_after ::
  "room_config \<Rightarrow> seconds \<Rightarrow> seconds \<Rightarrow> seconds \<Rightarrow> (string \<times> int) list \<Rightarrow> unit_device \<Rightarrow> room_state
     \<Rightarrow> room_state" where
  "shown_after room clock settle later ws d s =
     apply_mode_read room s (Some (mode_status_at later (unit_command clock settle ws d)))"

text \<open>The unit a room is about: its profile, and pending changes that only report.\<close>

definition unit_matches :: "room_config \<Rightarrow> unit_device \<Rightarrow> bool" where
  "unit_matches room d \<longleftrightarrow> dv_profile d = Some (room_profile room) \<and> pending_ok d"

definition intensive_running :: "unit_device \<Rightarrow> bool" where
  "intensive_running d \<longleftrightarrow>
     dv_registers d REGISTER_PRESET_MODE = Some MODE_MANUAL
     \<and> dv_registers d REGISTER_PRESET_VALUE = Some PRESET_MODE_CODE_INTENSIVE"

lemma shown_after_reported:
  assumes "unit_matches room d" "0 \<le> settle" "clock + settle \<le> later"
  shows "shown_after room clock settle later ws d s = apply_mode_read room s
    (Some (reported_status (d\<lparr>dv_registers :=
      update_registers (map (\<lambda>(n, v). (mode_register n, v)) ws) (dv_registers d)\<rparr>)))"
  using assms by (simp add: shown_after_def unit_matches_def status_after_command)

lemma mode_register_simps [simp]:
  "mode_register ''mode'' = 41120" "mode_register ''current_level'' = 41121"
  "mode_register ''extract_target_level'' = 41122" "mode_register ''preset_mode'' = 41123"
  "mode_register ''preset_value'' = 41124"
  by (simp_all add: mode_register_def MODE_BLOCK_def dict_get_def)

lemma reported_status_eq:
  "reported_status d =
     (let m = dv_registers d; mode = register_or m 41120 3; level = register_or m 41121 0;
          extract = register_or m 41122 level
      in if intensive_running d
         then \<lparr>read_mode = 3, read_current_level = 227, read_extract_target_level = 227\<rparr>
         else if mode = 2 then \<lparr>read_mode = 2, read_current_level = level OR 32,
                                read_extract_target_level = level OR 32\<rparr>
         else if mode = 4 then \<lparr>read_mode = 4, read_current_level = level,
                                read_extract_target_level = extract\<rparr>
         else \<lparr>read_mode = mode, read_current_level = level, read_extract_target_level = level\<rparr>)"
  by (simp add: reported_status_def mode_updates_def status_updates_def intensive_running_def Let_def)

lemma raw_level_no_code:
  "map_of RAW_CODE_TO_PRESET_MODE (scale_airflow_to_raw room level) = None"
  using scale_airflow_to_raw_range [of room level]
  by (auto simp: RAW_CODE_TO_PRESET_MODE_def PRESET_MODE_TO_RAW_CODE_def)

text \<open>
  A level command ends where it was aimed: after \<open>write_level\<close> on a unit without a running intensive
  override, the next settled status read shows the mode, exactly the written airflow, no preset and no
  intensive mode.
\<close>

lemma level_command_readback:
  assumes "unit_matches room d" "0 \<le> settle" "clock + settle \<le> later"
    and "0 \<le> level" "level \<le> profile_max_airflow (room_profile room)"
    and "\<not> intensive_running d"
    and "s' = shown_after room clock settle later (level_writes room level) d s"
  shows "operation_mode s' = Some (if level = 0 then OPERATION_MODE_OFF else OPERATION_MODE_MANUAL)
    \<and> target_level s' = Some level \<and> preset_mode s' = None \<and> intensive_active s' = Some False"
proof (cases "level = 0")
  case True
  then show ?thesis
    using assms(6)
    by (simp add: assms(7) shown_after_reported [OF assms(1-3)] reported_status_eq level_writes_def
        CLEAR_INTENSIVE_def intensive_running_def register_or_def apply_mode_read_def
        normalize_sensor_status_def mode_status_reports_intensive_def apply_base_mode_def
        decode_operation_mode_def DIRECT_MODE_CODES_def decode_target_level_def decode_preset_mode_def
        scale_raw_level_to_airflow_def py_round_div_def Let_def)
next
  case False
  let ?raw = "scale_airflow_to_raw room level"
  have "scale_raw_level_to_airflow room ?raw = level" by (rule scale_roundtrip [OF assms(4,5)])
  moreover have "?raw \<noteq> 227" "?raw \<le> 200" "0 \<le> ?raw"
    using scale_airflow_to_raw_range [of room level] by auto
  ultimately show ?thesis
    using assms(6) False raw_level_no_code [of room level]
    by (simp add: assms(7) shown_after_reported [OF assms(1-3)] reported_status_eq level_writes_def
        intensive_running_def register_or_def apply_mode_read_def
        normalize_sensor_status_def mode_status_reports_intensive_def apply_base_mode_def
        decode_operation_mode_def DIRECT_MODE_CODES_def decode_target_level_def decode_preset_mode_def
        Let_def)
qed

text \<open>
  While an intensive override runs, a level above zero stays hidden: the status map keeps reporting
  intensive, and the shown base mode and targets do not change; switching off ends the override.
\<close>

lemma level_hidden_by_intensive:
  assumes "unit_matches room d" "0 \<le> settle" "clock + settle \<le> later" "intensive_running d"
  shows "(level \<noteq> 0 \<longrightarrow>
      (let s' = shown_after room clock settle later (level_writes room level) d s
       in intensive_active s' = Some True \<and> operation_mode s' = operation_mode s
          \<and> target_level s' = target_level s \<and> preset_mode s' = preset_mode s))
    \<and> intensive_active (shown_after room clock settle later (level_writes room 0) d s) = Some False"
  using assms(4)
  by (simp add: shown_after_reported [OF assms(1-3)] reported_status_eq level_writes_def
      CLEAR_INTENSIVE_def intensive_running_def register_or_def apply_mode_read_def
      normalize_sensor_status_def mode_status_reports_intensive_def apply_base_mode_def Let_def)

lemma preset_writes_cases:
  assumes "preset_mode_writes room preset = Inr ws"
  obtains "preset = ''intensive''" "ws = [(''preset_mode'', 3), (''preset_value'', 227)]"
    | code where "preset \<noteq> ''intensive''" "map_of RAW_CODE_TO_PRESET_MODE code = Some preset"
      "code \<noteq> 227"
      "ws = [(''preset_mode'', 0), (''preset_value'', 0), (''mode'', 3), (''current_level'', code)]"
  using assms
  by (auto simp: preset_mode_writes_def PRESET_MODE_TO_RAW_CODE_def RAW_CODE_TO_PRESET_MODE_def
      CLEAR_INTENSIVE_def split: if_splits option.splits)

lemma operating_writes_cases:
  assumes "operating_mode_writes room op balanced extract = Inr ws"
  obtains "op = ''off''"
      "ws = [(''preset_mode'', 0), (''preset_value'', 0), (''mode'', 1), (''current_level'', 0)]"
    | raw where "op = ''manual''" "ws = [(''mode'', 3), (''current_level'', raw)]" "raw \<le> 200"
    | raw raw' where "op = ''unbalanced''"
      "ws = [(''mode'', 4), (''current_level'', raw), (''extract_target_level'', raw')]"
    | code where "ws = [(''mode'', 2), (''current_level'', code)]"
      "map_of RAW_VALUE_TO_SENSOR_MODE
        (dict_get MODE_STATUS_SENSOR_MODE_TO_RAW_VALUE (code OR 32) (code OR 32)) = Some op"
  using assms scale_airflow_to_raw_range
  by (auto simp: operating_mode_writes_def SENSOR_MODE_TO_RAW_VALUE_def RAW_VALUE_TO_SENSOR_MODE_def
      MODE_STATUS_SENSOR_MODE_TO_RAW_VALUE_def CLEAR_INTENSIVE_def dict_get_def Let_def
      split: if_splits option.splits)

lemmas readback_simps = reported_status_eq intensive_running_def register_or_def apply_mode_read_def
  normalize_sensor_status_def mode_status_reports_intensive_def apply_base_mode_def
  decode_operation_mode_def decode_preset_mode_def DIRECT_MODE_CODES_def

text \<open>
  A preset command ends where it was aimed: after writing any of the four app presets, whatever ran
  before, the next settled status read shows that preset; intensive is shown as the override, any other
  preset as a manual mode without override.
\<close>

lemma preset_command_readback:
  assumes "unit_matches room d" "0 \<le> settle" "clock + settle \<le> later"
    and "preset_mode_writes room preset = Inr ws"
    and "s' = shown_after room clock settle later ws d s"
  shows "(preset = PRESET_MODE_INTENSIVE \<longrightarrow> intensive_active s' = Some True)
    \<and> (preset \<noteq> PRESET_MODE_INTENSIVE \<longrightarrow>
        preset_mode s' = Some preset \<and> intensive_active s' = Some False
        \<and> operation_mode s' = Some OPERATION_MODE_MANUAL)"
  using assms(4)
proof (cases rule: preset_writes_cases)
  case 1
  then show ?thesis
    by (simp add: assms(5) shown_after_reported [OF assms(1-3)] readback_simps Let_def)
next
  case (2 code)
  then show ?thesis
    by (simp add: assms(5) shown_after_reported [OF assms(1-3)] readback_simps Let_def)
qed

text \<open>
  Separate supply and extract levels come back exactly, as an unbalanced mode, on a unit without a
  running override.
\<close>

lemma unbalanced_command_readback:
  assumes "unit_matches room d" "0 \<le> settle" "clock + settle \<le> later" "\<not> intensive_running d"
    and "0 \<le> supply_level" "supply_level \<le> profile_max_airflow (room_profile room)"
    and "0 \<le> extract_level" "extract_level \<le> profile_max_airflow (room_profile room)"
    and "s' = shown_after room clock settle later (unbalanced_writes room supply_level extract_level) d s"
  shows "operation_mode s' = Some OPERATION_MODE_UNBALANCED
    \<and> target_level s' = Some supply_level \<and> extract_target_level s' = Some extract_level
    \<and> preset_mode s' = None \<and> intensive_active s' = Some False"
proof -
  let ?s = "scale_airflow_to_raw room supply_level" and ?e = "scale_airflow_to_raw room extract_level"
  have "scale_raw_level_to_airflow room ?s = supply_level" "scale_raw_level_to_airflow room ?e = extract_level"
    using scale_roundtrip assms(5-8) by auto
  moreover have "?s \<le> 200" "0 \<le> ?s" "?e \<le> 200" "0 \<le> ?e"
    using scale_airflow_to_raw_range by auto
  ultimately show ?thesis
    using assms(4)
    by (simp add: assms(9) shown_after_reported [OF assms(1-3)] reported_status_eq unbalanced_writes_def
        intensive_running_def register_or_def apply_mode_read_def normalize_sensor_status_def
        mode_status_reports_intensive_def apply_base_mode_def decode_operation_mode_def
        DIRECT_MODE_CODES_def decode_target_level_def decode_preset_mode_def Let_def)
qed

text \<open>
  Every operating mode that can be commanded is shown after the command, on a unit without a running
  override: the sensor modes come back through the status subcodes of the unit.
\<close>

lemma operating_mode_readback:
  assumes "unit_matches room d" "0 \<le> settle" "clock + settle \<le> later" "\<not> intensive_running d"
    and "operating_mode_writes room op balanced extract = Inr ws"
    and "s' = shown_after room clock settle later ws d s"
  shows "operation_mode s' = Some op \<and> intensive_active s' = Some False"
  using assms(5)
proof (cases rule: operating_writes_cases)
  case 1
  then show ?thesis
    by (simp add: assms(6) shown_after_reported [OF assms(1-3)] readback_simps Let_def)
next
  case (2 raw)
  then show ?thesis using assms(4)
    by (simp add: assms(6) shown_after_reported [OF assms(1-3)] readback_simps Let_def)
next
  case (3 raw raw')
  then show ?thesis using assms(4)
    by (simp add: assms(6) shown_after_reported [OF assms(1-3)] readback_simps Let_def)
next
  case (4 code)
  then show ?thesis using assms(4)
    by (simp add: assms(6) shown_after_reported [OF assms(1-3)] readback_simps Let_def)
qed

section \<open>Worked examples\<close>

definition mock_room :: room_config where
  "mock_room =
     \<lparr>room_key = ''attic'', room_name = ''Attic'', room_profile = ''ii_fc'', room_slave = 3,
      room_preview = None, supported_entity_keys = None, room_product_id = None,
      room_app_setup_code = None, subentry_id = None, name_is_device_name = False\<rparr>"

lemma mock_room_matches: "unit_matches mock_room (new_unit 3 ''ii_fc'')"
  by (simp add: unit_matches_def mock_room_def new_unit_def new_device_def pending_ok_def)

lemma new_unit_calm: "\<not> intensive_running (new_unit 3 ''ii_fc'')"
  by (simp add: intensive_running_def new_unit_def new_device_def unit_registers_def Let_def
      word_swapped_u32_def word_swapped_float_def split: prod.split)

lemma mock_room_max: "profile_max_airflow (room_profile mock_room) = 100"
  by (simp add: mock_room_def profile_max_airflow_def PROFILE_METADATA_def)

definition intensive_unit :: unit_device where
  "intensive_unit = (new_unit 3 ''ii_fc'')\<lparr>dv_registers :=
     (dv_registers (new_unit 3 ''ii_fc''))(REGISTER_PRESET_MODE \<mapsto> MODE_MANUAL,
       REGISTER_PRESET_VALUE \<mapsto> PRESET_MODE_CODE_INTENSIVE)\<rparr>"

lemma intensive_unit_matches: "unit_matches mock_room intensive_unit" "intensive_running intensive_unit"
  using mock_room_matches
  by (simp_all add: intensive_unit_def unit_matches_def pending_ok_def intensive_running_def)

theorem level_hidden_by_intensive_witness:
  "intensive_active (shown_after mock_room 0 2 5 (level_writes mock_room 40) intensive_unit EMPTY_ROOM_STATE)
     = Some True
   \<and> intensive_active (shown_after mock_room 0 2 5 (level_writes mock_room 0) intensive_unit EMPTY_ROOM_STATE)
     = Some False"
  using level_hidden_by_intensive [OF intensive_unit_matches(1) _ _ intensive_unit_matches(2),
      of 2 0 5 40 EMPTY_ROOM_STATE]
  by (simp add: Let_def)

end
