(* ===== verification/Client_Writes.thy ===== *)
theory Client_Writes
  imports Client_Reads Mock_Gateway
begin

text \<open>
  The write half of \<open>modbus_client.py\<close>: mode commands, which write registers one by one and then
  activate them with APPLY, the bookkeeping of registers an interrupted command left staged, and the
  control settings. A register write is a function of the world (the unit behind the gateway), which is
  later instantiated by the mock gateway.
\<close>

section \<open>The unit as the client writes it\<close>

datatype write_reply = Written | WriteRaised exn | WriteCancelled

text \<open>
  The interface the staging relies on. \<open>unapplied\<close> is what the client cannot see: the registers that
  hold a value no APPLY has activated. A refused write stages nothing, any other write at most its own
  register, and a confirmed APPLY activates everything.
\<close>

locale mode_unit =
  fixes put_register :: "string \<Rightarrow> int \<Rightarrow> 'w \<Rightarrow> write_reply \<times> 'w"
    and apply_registers :: "'w \<Rightarrow> write_reply \<times> 'w"
    and unapplied :: "'w \<Rightarrow> string set"
    and sound :: "'w \<Rightarrow> bool"
  assumes put_sound: "sound w \<Longrightarrow> put_register n v w = (rep, w') \<Longrightarrow> sound w'"
    and apply_sound: "sound w \<Longrightarrow> apply_registers w = (rep, w') \<Longrightarrow> sound w'"
    and put_refused:
      "sound w \<Longrightarrow> put_register n v w = (WriteRaised e, w') \<Longrightarrow> isinstance e [ModbusExceptionError] \<Longrightarrow>
         unapplied w' \<subseteq> unapplied w"
    and put_any:
      "sound w \<Longrightarrow> put_register n v w = (rep, w') \<Longrightarrow> unapplied w' \<subseteq> insert n (unapplied w)"
    and apply_done: "sound w \<Longrightarrow> apply_registers w = (Written, w') \<Longrightarrow> unapplied w' = {}"
    and apply_any: "sound w \<Longrightarrow> apply_registers w = (rep, w') \<Longrightarrow> unapplied w' \<subseteq> unapplied w"

section \<open>Client state\<close>

record client =
  client_port :: string
  client_shut_down :: bool
  staged_registers :: "(int, string set) dict"
  client_backoff :: client_backoffs
  staging_warnings :: "(int \<times> string set) list"

definition new_client :: "string \<Rightarrow> client" where
  "new_client port =
     \<lparr>client_port = port, client_shut_down = False, staged_registers = [],
      client_backoff = new_backoffs, staging_warnings = []\<rparr>"

definition shut_down_client :: "client \<Rightarrow> client" where
  "shut_down_client c = c\<lparr>client_shut_down := True\<rparr>"

datatype client_result = ClientOk | ClientFailed client_error | ClientCancelled

text \<open>\<open>_gateway_operation\<close> refuses to start after a shutdown and translates what its body raises.\<close>

definition shut_down_error :: "client \<Rightarrow> client_error" where
  "shut_down_error c = Translated (MeltemConnectionError
     (''Meltem gateway client on '' @ client_port c @ '' was shut down''))"

fun result_of :: "client \<Rightarrow> string \<Rightarrow> write_reply \<Rightarrow> client_result" where
  "result_of c description Written = ClientOk"
| "result_of c description (WriteRaised e) = ClientFailed (translate_error (client_port c) description e)"
| "result_of c description WriteCancelled = ClientCancelled"

section \<open>Mode commands\<close>

text \<open>
  The loop over the writes: it stops at the first one that raises, with the registers that may be
  staged. Only an exception response proves that the unit did not take the value.
\<close>

fun put_all ::
  "(string \<Rightarrow> int \<Rightarrow> 'w \<Rightarrow> write_reply \<times> 'w) \<Rightarrow> (string \<times> int) list \<Rightarrow> 'w \<Rightarrow> string list
     \<Rightarrow> write_reply \<times> string list \<times> 'w" where
  "put_all put [] w written = (Written, written, w)"
| "put_all put ((name, v) # writes) w written =
     (case put name v w of
        (Written, w') \<Rightarrow> put_all put writes w' (written @ [name])
      | (WriteRaised e, w') \<Rightarrow>
          (WriteRaised e, if isinstance e [ModbusExceptionError] then written else written @ [name], w')
      | (WriteCancelled, w') \<Rightarrow> (WriteCancelled, written @ [name], w'))"

definition keep_staged :: "int \<Rightarrow> string set \<Rightarrow> string list \<Rightarrow> client \<Rightarrow> client" where
  "keep_staged slave staged written c =
     (if written = [] then c
      else c\<lparr>staged_registers := AList.update slave (staged \<union> set written) (staged_registers c)\<rparr>)"

definition write_mode_registers ::
  "(string \<Rightarrow> int \<Rightarrow> 'w \<Rightarrow> write_reply \<times> 'w) \<Rightarrow> ('w \<Rightarrow> write_reply \<times> 'w) \<Rightarrow> room_config \<Rightarrow> string
     \<Rightarrow> (string \<times> int) list \<Rightarrow> client \<Rightarrow> 'w \<Rightarrow> client_result \<times> client \<times> 'w" where
  "write_mode_registers put commit room action writes c w =
     (let staged = dict_get (staged_registers c) (room_slave room) {};
          description = action @ '' for room '' @ room_key room
      in if client_shut_down c then (ClientFailed (shut_down_error c), c, w)
         else case put_all put writes w [] of
           (Written, written, w1) \<Rightarrow>
             let left_over = staged - set (map fst writes);
                 c1 = (if left_over = {} then c
                       else c\<lparr>staging_warnings := staging_warnings c @ [(room_slave room, left_over)]\<rparr>)
             in (case commit w1 of
                   (Written, w2) \<Rightarrow>
                     (ClientOk,
                      c1\<lparr>staged_registers := AList.delete (room_slave room) (staged_registers c1),
                         client_backoff := (client_backoff c1)\<lparr>mode_backoff :=
                           backoff_clear_slave (room_slave room) (mode_backoff (client_backoff c1))\<rparr>\<rparr>,
                      w2)
                 | (rep, w2) \<Rightarrow>
                     (result_of c description rep, keep_staged (room_slave room) staged written c1, w2))
         | (rep, written, w1) \<Rightarrow>
             (result_of c description rep, keep_staged (room_slave room) staged written c, w1))"

definition client_write_level where
  "client_write_level put commit room level c w =
     write_mode_registers put commit room ''writing level'' (level_writes room level) c w"

definition client_write_unbalanced where
  "client_write_unbalanced put commit room supply_level extract_level c w =
     write_mode_registers put commit room ''writing unbalanced levels''
       (unbalanced_writes room supply_level extract_level) c w"

definition client_write_operating_mode where
  "client_write_operating_mode put commit room op balanced_level extract_level c w =
     (case operating_mode_writes room op balanced_level extract_level of
        Inl e \<Rightarrow> (ClientFailed (Translated e), c, w)
      | Inr writes \<Rightarrow> write_mode_registers put commit room ''writing operating mode'' writes c w)"

definition client_write_preset where
  "client_write_preset put commit room preset c w =
     (case preset_mode_writes room preset of
        Inl e \<Rightarrow> (ClientFailed (Translated e), c, w)
      | Inr writes \<Rightarrow> write_mode_registers put commit room ''writing preset mode'' writes c w)"

definition client_clear_intensive where
  "client_clear_intensive put commit room c w =
     write_mode_registers put commit room ''clearing intensive mode'' CLEAR_INTENSIVE c w"

section \<open>Settings\<close>

definition client_write_control_setting ::
  "(string \<Rightarrow> int \<Rightarrow> 'w \<Rightarrow> write_reply \<times> 'w) \<Rightarrow> room_config \<Rightarrow> string \<Rightarrow> int \<Rightarrow> client \<Rightarrow> 'w
     \<Rightarrow> client_result \<times> int option \<times> client \<times> 'w" where
  "client_write_control_setting put room setting_key v c w =
     (case normalize_control_setting setting_key v of
        Inl e \<Rightarrow> (ClientFailed (Translated e), None, c, w)
      | Inr stepped \<Rightarrow>
          if client_shut_down c then (ClientFailed (shut_down_error c), None, c, w)
          else (case put setting_key stepped w of
             (Written, w') \<Rightarrow>
               (ClientOk, Some stepped,
                c\<lparr>client_backoff := (client_backoff c)\<lparr>component_backoff :=
                  backoff_clear (room_slave room, ''control_settings'')
                    (component_backoff (client_backoff c))\<rparr>\<rparr>, w')
           | (rep, w') \<Rightarrow>
               (result_of c (''writing control setting for room '' @ room_key room) rep, None, c, w')))"

text \<open>\<open>async_read_external_input_setting\<close>, given the reply to its one register read.\<close>

definition read_external_input_setting ::
  "client \<Rightarrow> room_config \<Rightarrow> string \<Rightarrow> exn + int \<Rightarrow> client_error + int" where
  "read_external_input_setting c room key reply_of =
     (if map_of EXTERNAL_INPUT_REGISTERS key = None
      then Inl (Translated (MeltemModbusError (''Unknown external input setting '' @ py_repr key)))
      else if client_shut_down c then Inl (shut_down_error c)
      else case reply_of of
        Inl e \<Rightarrow> Inl (translate_error (client_port c)
          (''reading '' @ key @ '' for room '' @ room_key room) e)
      | Inr v \<Rightarrow>
          let (minimum, maximum) = dict_get EXTERNAL_INPUT_LIMITS key (0, 0)
          in if minimum \<le> v \<and> v \<le> maximum then Inr v
             else Inl (Translated (MeltemModbusError (''Invalid '' @ key @ '' readback''))))"

section \<open>Staging\<close>

definition staged_for :: "client \<Rightarrow> int \<Rightarrow> string set" where
  "staged_for c slave = dict_get (staged_registers c) slave {}"

context mode_unit
begin

lemma put_all_unapplied:
  "sound w \<Longrightarrow> put_all put_register writes w written = (rep, written', w') \<Longrightarrow>
     sound w' \<and> unapplied w' \<subseteq> unapplied w \<union> set written' \<and> set written \<subseteq> set written'"
proof (induction writes arbitrary: w written)
  case (Cons p writes)
  obtain n v where p: "p = (n, v)" by fastforce
  obtain rep1 w1 where put: "put_register n v w = (rep1, w1)" by fastforce
  note any = put_any [OF Cons.prems(1) put] and wf = put_sound [OF Cons.prems(1) put]
  show ?case
  proof (cases rep1)
    case Written
    with Cons.prems put p have "put_all put_register writes w1 (written @ [n]) = (rep, written', w')"
      by simp
    from Cons.IH [OF wf this] any show ?thesis by auto
  next
    case (WriteRaised e)
    with Cons.prems put p put_refused [of w n v e w1] any wf show ?thesis by (auto split: if_splits)
  next
    case WriteCancelled
    with Cons.prems put p any wf show ?thesis by auto
  qed
qed simp

text \<open>One command keeps the client's record of staged registers complete.\<close>

lemma write_mode_registers_staged:
  assumes "sound w" "unapplied w \<subseteq> staged_for c (room_slave room)"
    and "write_mode_registers put_register apply_registers room action writes c w = (res, c', w')"
  shows "sound w' \<and> unapplied w' \<subseteq> staged_for c' (room_slave room)"
proof (cases "client_shut_down c")
  case True
  with assms show ?thesis by (simp add: write_mode_registers_def)
next
  case False
  obtain rep written w1 where put: "put_all put_register writes w [] = (rep, written, w1)"
    using prod_cases3 by blast
  have w1: "unapplied w1 \<subseteq> staged_for c (room_slave room) \<union> set written"
    using put_all_unapplied [OF assms(1) put] assms(2) by blast
  have wf1: "sound w1" using put_all_unapplied [OF assms(1) put] by blast
  have kept: "unapplied w2 \<subseteq> staged_for (keep_staged (room_slave room) (staged_for c (room_slave room)) written cc)
      (room_slave room)"
    if "unapplied w2 \<subseteq> unapplied w1" "staged_registers cc = staged_registers c" for w2 cc
    using that w1 by (auto simp: keep_staged_def staged_for_def)
  obtain rep2 w2 where commit: "apply_registers w1 = (rep2, w2)" by fastforce
  note after = apply_any [OF wf1 commit] and wf2 = apply_sound [OF wf1 commit]
  have warned: "unapplied w2 \<subseteq> staged_for (keep_staged (room_slave room)
      (staged_for c (room_slave room)) written (c\<lparr>staging_warnings := ws\<rparr>)) (room_slave room)" for ws
    by (rule kept [OF after]) simp
  have cleared: "rep2 = Written \<Longrightarrow> unapplied w2 = {}" using apply_done wf1 commit by simp
  have delete: "staged_for (c2\<lparr>staged_registers := AList.delete s d, client_backoff := b\<rparr>) s = {}" for c2 s d b
    by (simp add: staged_for_def)
  show ?thesis
  proof (cases rep)
    case Written
    with assms(3) False put commit cleared warned wf2 kept [OF after, of c] show ?thesis
      by (cases rep2)
        (auto simp: write_mode_registers_def staged_for_def [symmetric] Let_def delete
          simp del: subset_iff split: if_splits dest: subsetD)
  next
    case (WriteRaised e)
    with assms(3) False put wf1 kept [of w1 c] show ?thesis
      by (simp add: write_mode_registers_def staged_for_def [symmetric])
  next
    case WriteCancelled
    with assms(3) False put wf1 kept [of w1 c] show ?thesis
      by (simp add: write_mode_registers_def staged_for_def [symmetric])
  qed
qed

text \<open>Any sequence of commands, for any units, on one unit behind the gateway.\<close>

lemma command_run_staged:
  "sound w \<Longrightarrow> unapplied w \<subseteq> staged_for c slave \<Longrightarrow> \<forall>(room, _) \<in> set cmds. room_slave room = slave \<Longrightarrow>
     fold (\<lambda>(room, writes) (c, w). snd (write_mode_registers put_register apply_registers room action writes c w))
       cmds (c, w) = (c', w') \<Longrightarrow>
     unapplied w' \<subseteq> staged_for c' slave"
proof (induction cmds arbitrary: c w)
  case (Cons p cmds)
  obtain room writes where p: "p = (room, writes)" by fastforce
  obtain res c1 w1 where step:
    "write_mode_registers put_register apply_registers room action writes c w = (res, c1, w1)"
    using prod_cases3 by blast
  have "room_slave room = slave" using Cons.prems(3) by (simp add: p)
  then have "sound w1 \<and> unapplied w1 \<subseteq> staged_for c1 slave"
    using write_mode_registers_staged [OF _ _ step] Cons.prems(1,2) by simp
  with Cons.IH Cons.prems(3,4) step show ?case by (auto simp: p)
qed simp

end

section \<open>The mock unit as a mode unit\<close>

text \<open>
  One unit of the mock gateway behind a lossy link: \<open>ml_fates\<close> says what happens to each request, and
  \<open>ml_applied\<close> keeps the registers as the last APPLY found them.
\<close>

datatype fate = Answers | LosesReply | LosesRequest | IsCancelled

record mock_link =
  ml_unit :: unit_device
  ml_applied :: register_map
  ml_clock :: seconds
  ml_settle :: seconds
  ml_fates :: "fate list"

definition illegal_address_exn :: exn where
  "illegal_address_exn = \<lparr>isa = [ModbusExceptionError, ModbusError], message = ''illegal data address''\<rparr>"

definition next_fate :: "mock_link \<Rightarrow> fate" where
  "next_fate w = (case ml_fates w of [] \<Rightarrow> Answers | f # _ \<Rightarrow> f)"

definition next_request :: "mock_link \<Rightarrow> mock_link" where
  "next_request w = w\<lparr>ml_fates := tl (ml_fates w)\<rparr>"

text \<open>A request to write a register: what the client sees, and whether the unit took it.\<close>

definition write_request :: "int \<Rightarrow> mock_link \<Rightarrow> write_reply \<times> bool" where
  "write_request register w =
     (case next_fate w of
        Answers \<Rightarrow> if register \<in> dv_refused (ml_unit w) then (WriteRaised illegal_address_exn, False)
                   else (Written, True)
      | LosesReply \<Rightarrow> (WriteRaised timeout_exn, register \<notin> dv_refused (ml_unit w))
      | LosesRequest \<Rightarrow> (WriteRaised timeout_exn, False)
      | IsCancelled \<Rightarrow> (WriteCancelled, register \<notin> dv_refused (ml_unit w)))"

definition mock_put :: "string \<Rightarrow> int \<Rightarrow> mock_link \<Rightarrow> write_reply \<times> mock_link" where
  "mock_put name v w =
     (let (rep, taken) = write_request (mode_register name) w; w1 = next_request w
      in (rep, if taken
               then w1\<lparr>ml_unit := write_device (ml_clock w) (ml_settle w) (mode_register name) v (ml_unit w)\<rparr>
               else w1))"

definition mock_apply :: "mock_link \<Rightarrow> write_reply \<times> mock_link" where
  "mock_apply w =
     (let (rep, taken) = write_request REGISTER_APPLY w; w1 = next_request w;
          d = write_device (ml_clock w) (ml_settle w) REGISTER_APPLY 0 (ml_unit w)
      in (rep, if taken then w1\<lparr>ml_unit := d, ml_applied := dv_registers d\<rparr> else w1))"

definition mock_unapplied :: "mock_link \<Rightarrow> string set" where
  "mock_unapplied w =
     {n \<in> set (map fst MODE_BLOCK).
        dv_registers (ml_unit w) (mode_register n) \<noteq> ml_applied w (mode_register n)}"

definition mock_sound :: "mock_link \<Rightarrow> bool" where
  "mock_sound w \<longleftrightarrow> pending_ok (ml_unit w)"

lemma mode_register_known:
  "n \<in> set (map fst MODE_BLOCK) \<Longrightarrow>
     mode_register n \<notin> STATUS_REGISTERS \<and> mode_register n \<noteq> 0 \<and> mode_register n \<noteq> REGISTER_APPLY"
  "n \<in> set (map fst MODE_BLOCK) \<Longrightarrow> mode_register m = mode_register n \<Longrightarrow> m = n"
  by (auto simp: mode_register_def MODE_BLOCK_def dict_get_def STATUS_REGISTERS_def split: if_splits)

lemma write_request_refused:
  "write_request r w = (WriteRaised e, taken) \<Longrightarrow> isinstance e [ModbusExceptionError] \<Longrightarrow> \<not> taken"
  "write_request r w = (Written, taken) \<Longrightarrow> taken"
  by (auto simp: write_request_def timeout_exn_def isinstance_def split: fate.splits if_splits)

lemma mock_unapplied_put:
  assumes "pending_ok (ml_unit w)"
  shows "mock_unapplied (w\<lparr>ml_fates := fs,
      ml_unit := write_device clock settle (mode_register n) v (ml_unit w)\<rparr>) \<subseteq> insert n (mock_unapplied w)"
  using write_device_other [OF assms, where r = "mode_register n"] mode_register_known
  by (fastforce simp: mock_unapplied_def split: if_splits)

interpretation mock: mode_unit mock_put mock_apply mock_unapplied mock_sound
proof unfold_locales
  fix w w' :: mock_link and n v rep e
  show "mock_sound w \<Longrightarrow> mock_put n v w = (rep, w') \<Longrightarrow> mock_sound w'"
    by (auto simp: mock_put_def mock_sound_def next_request_def Let_def split: prod.splits if_splits)
  show "mock_sound w \<Longrightarrow> mock_apply w = (rep, w') \<Longrightarrow> mock_sound w'"
    by (auto simp: mock_apply_def mock_sound_def next_request_def Let_def split: prod.splits if_splits)
  show "mock_put n v w = (WriteRaised e, w') \<Longrightarrow> isinstance e [ModbusExceptionError] \<Longrightarrow>
      mock_unapplied w' \<subseteq> mock_unapplied w"
    using write_request_refused(1)
    by (fastforce simp: mock_put_def mock_unapplied_def next_request_def Let_def split: prod.splits if_splits)
  show "mock_sound w \<Longrightarrow> mock_put n v w = (rep, w') \<Longrightarrow> mock_unapplied w' \<subseteq> insert n (mock_unapplied w)"
    using mock_unapplied_put [where w = w and fs = "tl (ml_fates w)" and clock = "ml_clock w"
        and settle = "ml_settle w" and n = n and v = v]
    by (auto simp: mock_put_def mock_sound_def next_request_def Let_def split: prod.splits if_splits)
      (auto simp: mock_unapplied_def)
  show "mock_apply w = (Written, w') \<Longrightarrow> mock_unapplied w' = {}"
    using write_request_refused(2)
    by (fastforce simp: mock_apply_def mock_unapplied_def next_request_def Let_def split: prod.splits if_splits)
  show "mock_apply w = (rep, w') \<Longrightarrow> mock_unapplied w' \<subseteq> mock_unapplied w"
    by (auto simp: mock_apply_def mock_unapplied_def next_request_def Let_def split: prod.splits if_splits)
qed

section \<open>Commands end to end\<close>

lemma put_all_mock:
  "put_all mock_put writes w written = (Written, written', w') \<Longrightarrow>
     ml_unit w' = write_names (ml_clock w) (ml_settle w) writes (ml_unit w)
     \<and> ml_clock w' = ml_clock w \<and> ml_settle w' = ml_settle w"
proof (induction writes arbitrary: w written)
  case (Cons p writes)
  obtain n v where p: "p = (n, v)" by fastforce
  obtain w1 where put: "mock_put n v w = (Written, w1)"
    "put_all mock_put writes w1 (written @ [n]) = (Written, written', w')"
    using Cons.prems by (auto simp: p split: prod.splits write_reply.splits)
  have "ml_unit w1 = write_device (ml_clock w) (ml_settle w) (mode_register n) v (ml_unit w)
      \<and> ml_clock w1 = ml_clock w \<and> ml_settle w1 = ml_settle w"
    using put(1) write_request_refused(2)
    by (auto simp: mock_put_def next_request_def Let_def split: prod.splits if_splits)
  with Cons.IH [OF put(2)] show ?case by (simp add: p write_names_def)
qed (simp add: write_names_def)

lemma clear_slave_keys:
  "fst key = slave \<Longrightarrow> key \<in> set (map fst (bo_failures b)) \<or> map_of (bo_until b) key = None \<Longrightarrow>
     fst (backoff_is_active clock key (backoff_clear_slave slave b)) = False"
proof -
  have cleared: "map_of (bo_until (fold backoff_clear ks b)) key =
      (if key \<in> set ks then None else map_of (bo_until b) key)" for ks b
    by (induction ks arbitrary: b) (auto simp: backoff_clear_def delete_conv)
  assume "fst key = slave" "key \<in> set (map fst (bo_failures b)) \<or> map_of (bo_until b) key = None"
  then have "map_of (bo_until (backoff_clear_slave slave b)) key = None"
    unfolding backoff_clear_slave_def cleared by auto
  then show ?thesis by (simp add: backoff_is_active_def)
qed

text \<open>A paused read has a failure on record, so clearing by the recorded failures clears every pause.\<close>

definition backoff_ok :: "read_backoff \<Rightarrow> bool" where
  "backoff_ok b \<longleftrightarrow> set (map fst (bo_until b)) \<subseteq> set (map fst (bo_failures b))"

lemma keys_delete: "fst ` set (AList.delete k d) = fst ` set d - {k}"
  by (induction d) auto

lemma backoff_ok_steps:
  assumes "backoff_ok b"
  shows "backoff_ok (snd (backoff_is_active clock key b))" "backoff_ok (backoff_clear key b)"
    "backoff_ok (backoff_mark_failure t key b)"
  using assms
  by (auto simp: backoff_ok_def backoff_is_active_def backoff_clear_def backoff_mark_failure_def
      keys_delete dom_update Let_def split: option.split)

lemma clear_slave_unpauses:
  assumes "backoff_ok b" "fst key = slave"
  shows "fst (backoff_is_active clock key (backoff_clear_slave slave b)) = False"
proof (rule clear_slave_keys [OF assms(2)])
  show "key \<in> set (map fst (bo_failures b)) \<or> map_of (bo_until b) key = None"
    using assms(1) by (auto simp: backoff_ok_def map_of_eq_None_iff)
qed

text \<open>After a command that succeeded, the unit holds exactly its registers, applied.\<close>

lemma client_ok_unit:
  assumes "write_mode_registers mock_put mock_apply room action writes c w = (ClientOk, c', w')"
  shows "ml_unit w' = unit_command (ml_clock w) (ml_settle w) writes (ml_unit w)"
    and "staged_for c' (room_slave room) = {}"
    and "backoff_ok (mode_backoff (client_backoff c)) \<Longrightarrow>
      fst (backoff_is_active clock (room_slave room, ''mode_status'') (mode_backoff (client_backoff c'))) = False"
proof -
  obtain written w1 where put: "put_all mock_put writes w [] = (Written, written, w1)"
    and commit: "mock_apply w1 = (Written, w')"
    and c': "staged_registers c' = AList.delete (room_slave room) (staged_registers c)"
      "mode_backoff (client_backoff c') = backoff_clear_slave (room_slave room) (mode_backoff (client_backoff c))"
    using assms
    by (auto simp: write_mode_registers_def Let_def split: if_splits prod.splits write_reply.splits)
  show "ml_unit w' = unit_command (ml_clock w) (ml_settle w) writes (ml_unit w)"
    using put_all_mock [OF put] commit write_request_refused(2)
    by (auto simp: mock_apply_def next_request_def unit_command_def Let_def split: prod.splits if_splits)
  show "staged_for c' (room_slave room) = {}" by (simp add: staged_for_def c')
  show "backoff_ok (mode_backoff (client_backoff c)) \<Longrightarrow>
      fst (backoff_is_active clock (room_slave room, ''mode_status'') (mode_backoff (client_backoff c'))) = False"
    by (simp add: c' clear_slave_unpauses)
qed

text \<open>
  C7. An accepted level is the level shown: when \<open>write_level\<close> returns without an error on a unit without
  a running override, the next settled status read shows the mode and exactly that airflow, no preset and
  no override; the status read is not held back by a backoff, and nothing is left staged.
\<close>

theorem written_level_is_shown:
  assumes "client_write_level mock_put mock_apply room level c w = (ClientOk, c', w')"
    and "unit_matches room (ml_unit w)" "\<not> intensive_running (ml_unit w)"
    and "0 \<le> ml_settle w" "ml_clock w + ml_settle w \<le> later"
    and "0 \<le> level" "level \<le> profile_max_airflow (room_profile room)"
    and "backoff_ok (mode_backoff (client_backoff c))"
    and "s' = apply_mode_read room s (Some (mode_status_at later (ml_unit w')))"
  shows "operation_mode s' = Some (if level = 0 then OPERATION_MODE_OFF else OPERATION_MODE_MANUAL)
    \<and> target_level s' = Some level \<and> preset_mode s' = None \<and> intensive_active s' = Some False
    \<and> staged_for c' (room_slave room) = {}
    \<and> \<not> fst (backoff_is_active clock (room_slave room, ''mode_status'') (mode_backoff (client_backoff c')))"
proof -
  note ok = client_ok_unit [OF assms(1) [unfolded client_write_level_def]]
  have "s' = shown_after room (ml_clock w) (ml_settle w) later (level_writes room level) (ml_unit w) s"
    by (simp add: assms(9) shown_after_def ok(1))
  from level_command_readback [OF assms(2,4,5,6,7,3) this] ok(2) ok(3) [OF assms(8)]
  show ?thesis by simp
qed

text \<open>
  An accepted preset is the preset shown, whatever ran on the unit before: the next settled status
  read shows it, intensive as the override and every other preset without one.
\<close>

lemma written_preset_is_shown:
  assumes "client_write_preset mock_put mock_apply room preset c w = (ClientOk, c', w')"
    and "unit_matches room (ml_unit w)"
    and "0 \<le> ml_settle w" "ml_clock w + ml_settle w \<le> later"
    and "s' = apply_mode_read room s (Some (mode_status_at later (ml_unit w')))"
  shows "if preset = PRESET_MODE_INTENSIVE then intensive_active s' = Some True
    else preset_mode s' = Some preset \<and> intensive_active s' = Some False
         \<and> operation_mode s' = Some OPERATION_MODE_MANUAL"
proof -
  obtain ws where ws: "preset_mode_writes room preset = Inr ws"
    "write_mode_registers mock_put mock_apply room ''writing preset mode'' ws c w = (ClientOk, c', w')"
    using assms(1) by (auto simp: client_write_preset_def split: sum.splits)
  have "s' = shown_after room (ml_clock w) (ml_settle w) later ws (ml_unit w) s"
    by (simp add: assms(5) shown_after_def client_ok_unit(1) [OF ws(2)])
  from preset_command_readback [OF assms(2,3,4) ws(1) this] show ?thesis by simp
qed

text \<open>
  Accepted separate levels come back exactly, supply as the target and extract as the extract target,
  in unbalanced mode.
\<close>

lemma written_unbalanced_is_shown:
  assumes "client_write_unbalanced mock_put mock_apply room supply_level extract_level c w = (ClientOk, c', w')"
    and "unit_matches room (ml_unit w)" "\<not> intensive_running (ml_unit w)"
    and "0 \<le> ml_settle w" "ml_clock w + ml_settle w \<le> later"
    and "0 \<le> supply_level" "supply_level \<le> profile_max_airflow (room_profile room)"
    and "0 \<le> extract_level" "extract_level \<le> profile_max_airflow (room_profile room)"
    and "s' = apply_mode_read room s (Some (mode_status_at later (ml_unit w')))"
  shows "operation_mode s' = Some OPERATION_MODE_UNBALANCED \<and> target_level s' = Some supply_level
    \<and> extract_target_level s' = Some extract_level \<and> preset_mode s' = None
    \<and> intensive_active s' = Some False"
proof -
  note ok = client_ok_unit [OF assms(1) [unfolded client_write_unbalanced_def]]
  have "s' = shown_after room (ml_clock w) (ml_settle w) later
      (unbalanced_writes room supply_level extract_level) (ml_unit w) s"
    by (simp add: assms(10) shown_after_def ok(1))
  from unbalanced_command_readback [OF assms(2,4,5,3,6-9) this] show ?thesis .
qed

text \<open>
  Every operating mode the client accepts is the mode shown after it, the sensor modes included.
\<close>

lemma written_operating_mode_is_shown:
  assumes "client_write_operating_mode mock_put mock_apply room op balanced extract c w = (ClientOk, c', w')"
    and "unit_matches room (ml_unit w)" "\<not> intensive_running (ml_unit w)"
    and "0 \<le> ml_settle w" "ml_clock w + ml_settle w \<le> later"
    and "s' = apply_mode_read room s (Some (mode_status_at later (ml_unit w')))"
  shows "operation_mode s' = Some op \<and> intensive_active s' = Some False"
proof -
  obtain ws where ws: "operating_mode_writes room op balanced extract = Inr ws"
    "write_mode_registers mock_put mock_apply room ''writing operating mode'' ws c w = (ClientOk, c', w')"
    using assms(1) by (auto simp: client_write_operating_mode_def split: sum.splits)
  have "s' = shown_after room (ml_clock w) (ml_settle w) later ws (ml_unit w) s"
    by (simp add: assms(6) shown_after_def client_ok_unit(1) [OF ws(2)])
  from operating_mode_readback [OF assms(2,4,5,3) ws(1) this] show ?thesis .
qed


section \<open>Worked examples\<close>

definition mock_link_of :: "unit_device \<Rightarrow> fate list \<Rightarrow> mock_link" where
  "mock_link_of d fates =
     \<lparr>ml_unit = d, ml_applied = dv_registers d, ml_clock = 0, ml_settle = 2, ml_fates = fates\<rparr>"

lemma backoff_ok_new: "backoff_ok (mode_backoff (client_backoff (new_client port)))"
  by (simp add: backoff_ok_def new_client_def new_backoffs_def OPTIONAL_BACKOFF_def)

lemma mock_put_answers:
  "mock_put n v (mock_link_of d []\<lparr>ml_unit := d'\<rparr>) =
     (if mode_register n \<in> dv_refused d' then (WriteRaised illegal_address_exn, mock_link_of d []\<lparr>ml_unit := d'\<rparr>)
      else (Written, mock_link_of d []\<lparr>ml_unit := write_device 0 2 (mode_register n) v d'\<rparr>))"
  by (simp add: mock_put_def write_request_def next_fate_def next_request_def mock_link_of_def)

lemma write_device_refused [simp]: "dv_refused (write_device clock settle r v d) = dv_refused d"
  by (simp add: write_device_def commit_device_def settle_device_def Let_def split: option.split)

lemma put_all_answers:
  "dv_refused d' = {} \<Longrightarrow>
     \<exists>d'' written'. put_all mock_put writes (mock_link_of d []\<lparr>ml_unit := d'\<rparr>) written
       = (Written, written', mock_link_of d []\<lparr>ml_unit := d''\<rparr>) \<and> dv_refused d'' = {}"
  by (induction writes arbitrary: d' written) (auto simp: mock_put_answers)

lemma command_succeeds:
  assumes "dv_refused d = {}"
  shows "\<exists>c' w'. write_mode_registers mock_put mock_apply room action writes (new_client ''port'')
    (mock_link_of d []) = (ClientOk, c', w')"
proof -
  have "mock_link_of d [] = mock_link_of d []\<lparr>ml_unit := d\<rparr>" by (simp add: mock_link_of_def)
  then obtain d'' written' where put: "put_all mock_put writes (mock_link_of d []) []
      = (Written, written', mock_link_of d []\<lparr>ml_unit := d''\<rparr>)" "dv_refused d'' = {}"
    using put_all_answers [OF assms, of writes d "[]"] by auto
  then show ?thesis
    by (auto simp: write_mode_registers_def new_client_def mock_apply_def write_request_def
        next_fate_def mock_link_of_def Let_def)
qed

lemma mock_link_of_simps [simp]:
  "ml_unit (mock_link_of d fs) = d" "ml_clock (mock_link_of d fs) = 0" "ml_settle (mock_link_of d fs) = 2"
  by (simp_all add: mock_link_of_def)

lemma new_unit_refused: "dv_refused (new_unit a p) = {}" "dv_refused intensive_unit = {}"
  by (simp_all add: new_unit_def new_device_def intensive_unit_def)

theorem written_level_is_shown_witness:
  "\<exists>c' w'. client_write_level mock_put mock_apply mock_room 55 (new_client ''port'')
      (mock_link_of (new_unit 3 ''ii_fc'') []) = (ClientOk, c', w')
    \<and> target_level (apply_mode_read mock_room EMPTY_ROOM_STATE (Some (mode_status_at 5 (ml_unit w')))) = Some 55"
proof -
  obtain c' w' where ok: "client_write_level mock_put mock_apply mock_room 55 (new_client ''port'')
      (mock_link_of (new_unit 3 ''ii_fc'') []) = (ClientOk, c', w')"
    using command_succeeds [OF new_unit_refused(1)] unfolding client_write_level_def by blast
  from written_level_is_shown [OF this _ _ _ _ _ _ backoff_ok_new refl, of 5 EMPTY_ROOM_STATE]
  have "target_level (apply_mode_read mock_room EMPTY_ROOM_STATE (Some (mode_status_at 5 (ml_unit w')))) = Some 55"
    using mock_room_matches new_unit_calm by (simp add: mock_room_max)
  with ok show ?thesis by blast
qed

theorem written_preset_is_shown_witness:
  "\<exists>c' w'. client_write_preset mock_put mock_apply mock_room ''high'' (new_client ''port'')
      (mock_link_of intensive_unit []) = (ClientOk, c', w')
    \<and> preset_mode (apply_mode_read mock_room EMPTY_ROOM_STATE (Some (mode_status_at 5 (ml_unit w')))) = Some ''high''"
proof -
  obtain c' w' where ok: "client_write_preset mock_put mock_apply mock_room ''high'' (new_client ''port'')
      (mock_link_of intensive_unit []) = (ClientOk, c', w')"
    using command_succeeds [OF new_unit_refused(2), of mock_room "''writing preset mode''"
      "CLEAR_INTENSIVE @ [(''mode'', 3), (''current_level'', 230)]"]
    by (auto simp: client_write_preset_def preset_mode_writes_def PRESET_MODE_TO_RAW_CODE_def)
  from written_preset_is_shown [OF this _ _ _ refl, of 5 EMPTY_ROOM_STATE] intensive_unit_matches(1)
  have "preset_mode (apply_mode_read mock_room EMPTY_ROOM_STATE (Some (mode_status_at 5 (ml_unit w')))) = Some ''high''"
    by simp
  with ok show ?thesis by blast
qed

lemma written_unbalanced_is_shown_witness:
  "\<exists>c' w'. client_write_unbalanced mock_put mock_apply mock_room 30 70 (new_client ''port'')
      (mock_link_of (new_unit 3 ''ii_fc'') []) = (ClientOk, c', w')
    \<and> extract_target_level (apply_mode_read mock_room EMPTY_ROOM_STATE (Some (mode_status_at 5 (ml_unit w')))) = Some 70"
proof -
  obtain c' w' where ok: "client_write_unbalanced mock_put mock_apply mock_room 30 70 (new_client ''port'')
      (mock_link_of (new_unit 3 ''ii_fc'') []) = (ClientOk, c', w')"
    using command_succeeds [OF new_unit_refused(1)] unfolding client_write_unbalanced_def by blast
  from written_unbalanced_is_shown [OF this _ _ _ _ _ _ _ _ refl, of 5 EMPTY_ROOM_STATE]
  have "extract_target_level (apply_mode_read mock_room EMPTY_ROOM_STATE (Some (mode_status_at 5 (ml_unit w')))) = Some 70"
    using mock_room_matches new_unit_calm by (simp add: mock_room_max)
  with ok show ?thesis by blast
qed

theorem written_operating_mode_is_shown_witness:
  "\<exists>c' w'. client_write_operating_mode mock_put mock_apply mock_room ''co2_control'' 0 0 (new_client ''port'')
      (mock_link_of (new_unit 3 ''ii_fc'') []) = (ClientOk, c', w')
    \<and> operation_mode (apply_mode_read mock_room EMPTY_ROOM_STATE (Some (mode_status_at 5 (ml_unit w'))))
        = Some ''co2_control''"
proof -
  obtain c' w' where ok: "client_write_operating_mode mock_put mock_apply mock_room ''co2_control'' 0 0
      (new_client ''port'') (mock_link_of (new_unit 3 ''ii_fc'') []) = (ClientOk, c', w')"
    using command_succeeds [OF new_unit_refused(1), of mock_room "''writing operating mode''"
      "[(''mode'', 2), (''current_level'', 144)]" 3 "''ii_fc''"]
    by (auto simp: client_write_operating_mode_def operating_mode_writes_def SENSOR_MODE_TO_RAW_VALUE_def Let_def)
  from written_operating_mode_is_shown [OF this _ _ _ _ refl, of 5 EMPTY_ROOM_STATE]
  have "operation_mode (apply_mode_read mock_room EMPTY_ROOM_STATE (Some (mode_status_at 5 (ml_unit w'))))
      = Some ''co2_control''"
    using mock_room_matches new_unit_calm by simp
  with ok show ?thesis by blast
qed


end
