(* ===== verification/Cumulative_Diagnostics.thy ===== *)
theory Cumulative_Diagnostics
  imports Meltem_Models Transport_Policy Write_Confirmation
begin

text \<open>
  \<open>cumulative_diagnostics.py\<close>: counters of requests, failed read groups and problematic writes that
  survive a restart, the reading of whatever an earlier run stored, and the throttling of the saves.
  What Home Assistant's \<open>Store\<close> hands back is a JSON value.
\<close>

section \<open>Stored data\<close>

datatype json =
    JNull | JBool bool | JInt int | JFloat real | JStr string | JList "json list"
  | JMap "(string \<times> json) list"

definition SAVE_DELAY_SECONDS :: seconds where [simp]: "SAVE_DELAY_SECONDS = 10"
definition SAVE_INTERVAL_SECONDS :: seconds where [simp]: "SAVE_INTERVAL_SECONDS = 60"

definition REQUEST_FAILURE_CATEGORIES :: "string list" where [const_simps]:
  "REQUEST_FAILURE_CATEGORIES = [''no_answer'', ''modbus_exception'', ''other'']"

definition WRITE_ISSUE_CATEGORIES :: "(write_status \<times> string) list" where [const_simps]:
  "WRITE_ISSUE_CATEGORIES =
     [(WriteFailed, ''send_failure''), (Mismatch, ''readback_mismatch''), (Unconfirmed, ''unconfirmed'')]"

fun category_of :: "request_outcome \<Rightarrow> string" where
  "category_of Success = ''success''"
| "category_of NoAnswer = ''no_answer''"
| "category_of ModbusException = ''modbus_exception''"
| "category_of OtherOutcome = ''other''"

text \<open>\<open>value.get(key)\<close> on a mapping, nothing on any other value.\<close>

definition json_get :: "json option \<Rightarrow> string \<Rightarrow> json option" where
  "json_get v key = (case v of Some (JMap d) \<Rightarrow> map_of d key | _ \<Rightarrow> None)"

definition count :: "json option \<Rightarrow> int" where
  "count v = (case v of Some (JInt n) \<Rightarrow> if 0 \<le> n then n else 0 | _ \<Rightarrow> 0)"

text \<open>\<open>_nested_counters\<close> of depth 1, 2 and 3; empty branches and zero counters are dropped.\<close>

definition counters1 :: "json option \<Rightarrow> (string, int) dict" where
  "counters1 v =
     (case v of
        Some (JMap d) \<Rightarrow> filter (\<lambda>(_, n). n \<noteq> 0) (map (\<lambda>(k, j). (k, count (Some j))) d)
      | _ \<Rightarrow> [])"

definition counters2 :: "json option \<Rightarrow> (string, (string, int) dict) dict" where
  "counters2 v =
     (case v of
        Some (JMap d) \<Rightarrow> filter (\<lambda>(_, c). c \<noteq> []) (map (\<lambda>(k, j). (k, counters1 (Some j))) d)
      | _ \<Rightarrow> [])"

definition counters3 :: "json option \<Rightarrow> (string, (string, (string, int) dict) dict) dict" where
  "counters3 v =
     (case v of
        Some (JMap d) \<Rightarrow> filter (\<lambda>(_, c). c \<noteq> []) (map (\<lambda>(k, j). (k, counters2 (Some j))) d)
      | _ \<Rightarrow> [])"

text \<open>
  \<open>_valid_timestamp\<close>; the reading of ISO timestamps by \<open>datetime\<close> and its normal form in UTC is the
  parameter \<open>iso_utc\<close>, the current time as such a text the parameter \<open>now\<close>.
\<close>

definition valid_timestamp :: "(string \<Rightarrow> string option) \<Rightarrow> string \<Rightarrow> json option \<Rightarrow> string" where
  "valid_timestamp iso_utc now v =
     (case v of
        Some (JStr s) \<Rightarrow> (case iso_utc s of Some t \<Rightarrow> t | None \<Rightarrow> now)
      | _ \<Rightarrow> now)"

section \<open>State\<close>

record cumulative =
  period_started_at :: string
  request_attempts :: int
  request_failures :: "(string, int) dict"
  recycles :: int
  read_failure_counts :: "(string, (string, int) dict) dict"
  write_issue_counts :: "(string, (string, (string, int) dict) dict) dict"
  last_save_scheduled_at :: "seconds option"
  save_pending :: bool
  save_requests :: "seconds list"

definition new_cumulative :: "(string \<Rightarrow> string option) \<Rightarrow> string \<Rightarrow> json option \<Rightarrow> cumulative" where
  "new_cumulative iso_utc now stored =
     (let data = (case stored of Some (JMap d) \<Rightarrow> Some (JMap d) | _ \<Rightarrow> Some (JMap []));
          transport = json_get data ''transport''
      in \<lparr>period_started_at = valid_timestamp iso_utc now (json_get data ''period_started_at''),
          request_attempts = count (json_get transport ''request_attempts''),
          request_failures = map (\<lambda>category.
            (category, count (json_get (json_get transport ''request_failures'') category)))
            REQUEST_FAILURE_CATEGORIES,
          recycles = count (json_get transport ''link_recycles''),
          read_failure_counts = counters2 (json_get data ''read_failures''),
          write_issue_counts = counters3 (json_get data ''write_issues''),
          last_save_scheduled_at = None, save_pending = False, save_requests = []\<rparr>)"

section \<open>Operations\<close>

text \<open>\<open>_schedule_save\<close>; a call of \<open>async_delay_save\<close> is recorded with the time the save is due.\<close>

definition schedule_save :: "seconds \<Rightarrow> cumulative \<Rightarrow> cumulative" where
  "schedule_save now c =
     (case last_save_scheduled_at c of
        Some t \<Rightarrow>
          if save_pending c \<and> now - t < SAVE_INTERVAL_SECONDS then c
          else let delay = max SAVE_DELAY_SECONDS (SAVE_INTERVAL_SECONDS - (now - t))
               in c\<lparr>last_save_scheduled_at := Some (now + delay - SAVE_DELAY_SECONDS),
                    save_pending := True, save_requests := save_requests c @ [now + delay]\<rparr>
      | None \<Rightarrow>
          c\<lparr>last_save_scheduled_at := Some (now + SAVE_DELAY_SECONDS - SAVE_DELAY_SECONDS),
            save_pending := True, save_requests := save_requests c @ [now + SAVE_DELAY_SECONDS]\<rparr>)"

definition increment :: "string \<Rightarrow> (string, int) dict \<Rightarrow> (string, int) dict" where
  "increment key counters = AList.update key (dict_get counters key 0 + 1) counters"

definition cumulative_request :: "seconds \<Rightarrow> request_outcome \<Rightarrow> cumulative \<Rightarrow> cumulative" where
  "cumulative_request now outcome c =
     (let c1 = c\<lparr>request_attempts := request_attempts c + 1\<rparr>;
          name = category_of outcome;
          category = (if name \<in> set (map fst (request_failures c)) then name else ''other'')
      in schedule_save now
           (if outcome = Success then c1
            else c1\<lparr>request_failures := increment category (request_failures c1)\<rparr>))"

definition cumulative_link_recycle :: "seconds \<Rightarrow> cumulative \<Rightarrow> cumulative" where
  "cumulative_link_recycle now c = schedule_save now (c\<lparr>recycles := recycles c + 1\<rparr>)"

definition cumulative_read_failure :: "seconds \<Rightarrow> string \<Rightarrow> string \<Rightarrow> cumulative \<Rightarrow> cumulative" where
  "cumulative_read_failure now room group_key c =
     schedule_save now (c\<lparr>read_failure_counts :=
       AList.update room (increment group_key (dict_get (read_failure_counts c) room []))
         (read_failure_counts c)\<rparr>)"

definition cumulative_write_issue ::
  "seconds \<Rightarrow> string \<Rightarrow> string \<Rightarrow> write_status \<Rightarrow> cumulative \<Rightarrow> cumulative" where
  "cumulative_write_issue now room write_key st c =
     (case map_of WRITE_ISSUE_CATEGORIES st of
        None \<Rightarrow> c
      | Some category \<Rightarrow>
          let room_issues = dict_get (write_issue_counts c) room [];
              category_issues = increment write_key (dict_get room_issues category [])
          in schedule_save now (c\<lparr>write_issue_counts :=
               AList.update room (AList.update category category_issues room_issues)
                 (write_issue_counts c)\<rparr>))"

section \<open>Totals and the stored snapshot\<close>

definition total1 :: "(string, int) dict \<Rightarrow> int" where
  "total1 c = sum_list (map snd c)"

definition total2 :: "(string, (string, int) dict) dict \<Rightarrow> int" where
  "total2 c = sum_list (map (\<lambda>(_, d). total1 d) c)"

definition total3 :: "(string, (string, (string, int) dict) dict) dict \<Rightarrow> int" where
  "total3 c = sum_list (map (\<lambda>(_, d). total2 d) c)"

definition request_failures_total :: "cumulative \<Rightarrow> int" where
  "request_failures_total c = total1 (request_failures c)"

definition failed_read_groups :: "cumulative \<Rightarrow> int" where
  "failed_read_groups c = total2 (read_failure_counts c)"

definition write_issues_total :: "cumulative \<Rightarrow> int" where
  "write_issues_total c = total3 (write_issue_counts c)"

definition json1 :: "(string, int) dict \<Rightarrow> json" where
  "json1 c = JMap (map (\<lambda>(k, n). (k, JInt n)) c)"

definition json2 :: "(string, (string, int) dict) dict \<Rightarrow> json" where
  "json2 c = JMap (map (\<lambda>(k, d). (k, json1 d)) c)"

definition json3 :: "(string, (string, (string, int) dict) dict) dict \<Rightarrow> json" where
  "json3 c = JMap (map (\<lambda>(k, d). (k, json2 d)) c)"

text \<open>\<open>_stored_data\<close>: the snapshot the store writes; a later change schedules a new save.\<close>

definition stored_data :: "cumulative \<Rightarrow> json \<times> cumulative" where
  "stored_data c =
     (JMap
        [(''period_started_at'', JStr (period_started_at c)),
         (''transport'', JMap
            [(''request_attempts'', JInt (request_attempts c)),
             (''request_failures'', json1 (request_failures c)),
             (''link_recycles'', JInt (recycles c))]),
         (''read_failures'', json2 (read_failure_counts c)),
         (''write_issues'', json3 (write_issue_counts c))],
      c\<lparr>save_pending := False\<rparr>)"

text \<open>\<open>async_flush\<close> of an entry that unloads.\<close>

definition flush :: "seconds \<Rightarrow> cumulative \<Rightarrow> json \<times> cumulative" where
  "flush now c = (let (snapshot, c1) = stored_data c in (snapshot, c1\<lparr>last_save_scheduled_at := Some now\<rparr>))"

section \<open>Counters survive a restart\<close>

text \<open>What every counter state satisfies, whatever was stored before.\<close>

definition counters_ok1 :: "(string, int) dict \<Rightarrow> bool" where
  "counters_ok1 c \<longleftrightarrow> list_all (\<lambda>(_, n). 0 < n) c"

definition counters_ok2 :: "(string, (string, int) dict) dict \<Rightarrow> bool" where
  "counters_ok2 c \<longleftrightarrow> list_all (\<lambda>(_, d). d \<noteq> [] \<and> counters_ok1 d) c"

definition counters_ok3 :: "(string, (string, (string, int) dict) dict) dict \<Rightarrow> bool" where
  "counters_ok3 c \<longleftrightarrow> list_all (\<lambda>(_, d). d \<noteq> [] \<and> counters_ok2 d) c"

definition cumulative_ok :: "cumulative \<Rightarrow> bool" where
  "cumulative_ok c \<longleftrightarrow>
     0 \<le> request_attempts c \<and> 0 \<le> recycles c
     \<and> map fst (request_failures c) = REQUEST_FAILURE_CATEGORIES
     \<and> list_all (\<lambda>(_, n). 0 \<le> n) (request_failures c)
     \<and> counters_ok2 (read_failure_counts c) \<and> counters_ok3 (write_issue_counts c)"

lemma count_nonneg [simp]: "0 \<le> count v"
  by (auto simp: count_def split: option.split json.split)

lemma count_JInt [simp]: "0 \<le> n \<Longrightarrow> count (Some (JInt n)) = n"
  by (simp add: count_def)

lemma counters1_ok: "counters_ok1 (counters1 v)"
  by (auto simp: counters_ok1_def counters1_def list_all_iff order.strict_iff_order
      split: option.split json.split)

lemma counters2_ok: "counters_ok2 (counters2 v)"
  by (auto simp: counters_ok2_def counters2_def list_all_iff counters1_ok split: option.split json.split)

lemma counters3_ok: "counters_ok3 (counters3 v)"
  by (auto simp: counters_ok3_def counters3_def list_all_iff counters2_ok split: option.split json.split)

lemma cumulative_ok_new: "cumulative_ok (new_cumulative iso_utc now stored)"
  by (simp add: cumulative_ok_def new_cumulative_def Let_def counters2_ok counters3_ok const_simps)

lemma counters1_json: "counters_ok1 c \<Longrightarrow> counters1 (Some (json1 c)) = c"
  by (induction c) (auto simp: counters_ok1_def counters1_def json1_def)

lemma counters2_json: "counters_ok2 c \<Longrightarrow> counters2 (Some (json2 c)) = c"
  by (induction c) (auto simp: counters_ok2_def counters2_def json2_def counters1_json)

lemma counters3_json: "counters_ok3 c \<Longrightarrow> counters3 (Some (json3 c)) = c"
  by (induction c) (auto simp: counters_ok3_def counters3_def json3_def counters2_json)

lemma schedule_save_fields [simp]:
  "period_started_at (schedule_save now c) = period_started_at c"
  "request_attempts (schedule_save now c) = request_attempts c"
  "request_failures (schedule_save now c) = request_failures c"
  "recycles (schedule_save now c) = recycles c"
  "read_failure_counts (schedule_save now c) = read_failure_counts c"
  "write_issue_counts (schedule_save now c) = write_issue_counts c"
  by (simp_all add: schedule_save_def Let_def split: option.split)

lemma cumulative_ok_cong [simp]: "cumulative_ok (schedule_save now c) = cumulative_ok c"
  by (simp add: cumulative_ok_def)

text \<open>Adding one to a counter that may not exist yet.\<close>

lemma update_ok:
  assumes "list_all (\<lambda>(_, v). P v) d" "P v"
  shows "list_all (\<lambda>(_, v). P v) (AList.update k v d)"
  using assms by (induction d) auto

lemma dict_get_ok:
  assumes "list_all (\<lambda>(_, v). P v) d" "P w"
  shows "P (dict_get d k w)"
  using assms by (auto simp: dict_get_def list_all_iff split: option.split dest: map_of_SomeD)

lemma increment_nonempty [simp]: "increment k c \<noteq> []" "AList.update k v d \<noteq> []"
  by (cases d; cases c; simp add: increment_def)+

lemma increment_ok1: "counters_ok1 c \<Longrightarrow> counters_ok1 (increment k c)"
proof -
  assume c: "counters_ok1 c"
  then have "0 \<le> dict_get c k 0"
    by (intro dict_get_ok [where P = "\<lambda>n. 0 \<le> n"]) (auto simp: counters_ok1_def list_all_iff)
  with c show ?thesis unfolding counters_ok1_def increment_def by (intro update_ok) auto
qed

lemma nested_ok2: "counters_ok2 c \<Longrightarrow> counters_ok1 (dict_get c k [])"
  by (rule dict_get_ok) (auto simp: counters_ok2_def counters_ok1_def list_all_iff)

lemma nested_ok3: "counters_ok3 c \<Longrightarrow> counters_ok2 (dict_get c k [])"
  by (rule dict_get_ok) (auto simp: counters_ok3_def counters_ok2_def list_all_iff)

lemma update_ok2: "counters_ok2 c \<Longrightarrow> counters_ok1 d \<Longrightarrow> d \<noteq> [] \<Longrightarrow> counters_ok2 (AList.update k d c)"
  unfolding counters_ok2_def by (rule update_ok) auto

lemma update_ok3: "counters_ok3 c \<Longrightarrow> counters_ok2 d \<Longrightarrow> d \<noteq> [] \<Longrightarrow> counters_ok3 (AList.update k d c)"
  unfolding counters_ok3_def by (rule update_ok) auto

text \<open>The events a configuration entry records, each at its time.\<close>

datatype cumulative_op =
    CountRequest request_outcome
  | CountRecycle
  | CountReadFailure string string
  | CountWriteIssue string string write_status

fun cumulative_step :: "seconds \<times> cumulative_op \<Rightarrow> cumulative \<Rightarrow> cumulative" where
  "cumulative_step (now, CountRequest outcome) c = cumulative_request now outcome c"
| "cumulative_step (now, CountRecycle) c = cumulative_link_recycle now c"
| "cumulative_step (now, CountReadFailure room g) c = cumulative_read_failure now room g c"
| "cumulative_step (now, CountWriteIssue room k st) c = cumulative_write_issue now room k st c"

lemma keys_update_known:
  "k \<in> set (map fst d) \<Longrightarrow> map fst (AList.update k v d) = map fst d"
  by (induction d) auto

lemma increment_known:
  "k \<in> fst ` set d \<Longrightarrow> map fst (increment k d) = map fst d"
  by (simp add: increment_def keys_update_known)

lemma cumulative_ok_request: "cumulative_ok c \<Longrightarrow> cumulative_ok (cumulative_request now outcome c)"
proof -
  assume ok: "cumulative_ok c"
  define k where "k = (if category_of outcome \<in> set (map fst (request_failures c))
    then category_of outcome else ''other'')"
  have "k \<in> set (map fst (request_failures c))"
    using ok by (auto simp: k_def cumulative_ok_def const_simps)
  moreover have "list_all (\<lambda>(_, n). 0 \<le> n) (increment k (request_failures c))"
    using ok dict_get_ok [of "\<lambda>n. 0 \<le> n" "request_failures c" 0 k]
    unfolding increment_def by (intro update_ok) (auto simp: cumulative_ok_def)
  moreover have "cumulative_request now outcome c = schedule_save now
      (if outcome = Success then c\<lparr>request_attempts := request_attempts c + 1\<rparr>
       else c\<lparr>request_attempts := request_attempts c + 1,
              request_failures := increment k (request_failures c)\<rparr>)"
    by (simp add: cumulative_request_def Let_def k_def)
  ultimately show ?thesis
    using ok by (simp add: cumulative_ok_def increment_known)
qed

lemma cumulative_ok_step: "cumulative_ok c \<Longrightarrow> cumulative_ok (cumulative_step op c)"
proof -
  assume ok: "cumulative_ok c"
  obtain now x where op: "op = (now, x)" by fastforce
  show ?thesis
  proof (cases x)
    case (CountRequest outcome)
    with ok show ?thesis by (simp add: op cumulative_ok_request)
  next
    case CountRecycle
    with ok show ?thesis by (simp add: op cumulative_link_recycle_def cumulative_ok_def)
  next
    case (CountReadFailure room g)
    have "counters_ok2 (AList.update room (increment g (dict_get (read_failure_counts c) room []))
        (read_failure_counts c))"
      using ok by (intro update_ok2 increment_ok1 nested_ok2) (auto simp: cumulative_ok_def)
    with ok show ?thesis by (simp add: op CountReadFailure cumulative_read_failure_def cumulative_ok_def)
  next
    case (CountWriteIssue room k st)
    let ?r = "dict_get (write_issue_counts c) room []"
    have r: "counters_ok2 ?r" using ok by (intro nested_ok3) (simp add: cumulative_ok_def)
    have "counters_ok3 (AList.update room
        (AList.update category (increment k (dict_get ?r category [])) ?r) (write_issue_counts c))" for category
      using ok r by (intro update_ok3 update_ok2 increment_ok1 nested_ok2) (auto simp: cumulative_ok_def)
    with ok show ?thesis
      by (simp add: op CountWriteIssue cumulative_write_issue_def cumulative_ok_def Let_def
          split: option.split)
  qed
qed

section \<open>Totals count events\<close>

lemma sum_update:
  fixes h :: "'v \<Rightarrow> int"
  shows "sum_list (map (\<lambda>(_, v). h v) (AList.update k v d)) =
    sum_list (map (\<lambda>(_, v). h v) d) + h v - (case map_of d k of None \<Rightarrow> 0 | Some w \<Rightarrow> h w)"
  by (induction d) (auto split: option.split)

lemma total1_increment: "total1 (increment k c) = total1 c + 1"
  using sum_update [of "\<lambda>n. n" k "dict_get c k 0 + 1" c]
  by (simp add: total1_def increment_def dict_get_def case_prod_unfold split: option.splits)

lemma total_nested2: "total2 (AList.update k d c) = total2 c + total1 d - total1 (dict_get c k [])"
  using sum_update [of total1 k d c] by (auto simp: total2_def dict_get_def total1_def split: option.splits)

lemma total_nested3: "total3 (AList.update k d c) = total3 c + total2 d - total2 (dict_get c k [])"
  using sum_update [of total2 k d c] by (auto simp: total3_def dict_get_def total2_def split: option.splits)

definition counted :: "(cumulative_op \<Rightarrow> bool) \<Rightarrow> (seconds \<times> cumulative_op) list \<Rightarrow> int" where
  "counted P ops = int (length (filter (\<lambda>(_, x). P x) ops))"

lemma counted_simps [simp]:
  "counted P [] = 0" "counted P ((t, x) # ops) = of_bool (P x) + counted P ops"
  by (simp_all add: counted_def)

fun failed_request :: "cumulative_op \<Rightarrow> bool" where
  "failed_request (CountRequest outcome) \<longleftrightarrow> outcome \<noteq> Success"
| "failed_request _ = False"

fun categorised_issue :: "cumulative_op \<Rightarrow> bool" where
  "categorised_issue (CountWriteIssue _ _ st) \<longleftrightarrow> st \<in> {WriteFailed, Mismatch, Unconfirmed}"
| "categorised_issue _ = False"

definition is_request :: "cumulative_op \<Rightarrow> bool" where
  "is_request x = (case x of CountRequest _ \<Rightarrow> True | _ \<Rightarrow> False)"

definition is_read_failure :: "cumulative_op \<Rightarrow> bool" where
  "is_read_failure x = (case x of CountReadFailure _ _ \<Rightarrow> True | _ \<Rightarrow> False)"

text \<open>The five totals the diagnostic sensors show.\<close>

definition totals :: "cumulative \<Rightarrow> int \<times> int \<times> int \<times> int \<times> int" where
  "totals c = (request_attempts c, request_failures_total c, recycles c, failed_read_groups c,
     write_issues_total c)"

definition event_totals :: "(seconds \<times> cumulative_op) list \<Rightarrow> int \<times> int \<times> int \<times> int \<times> int" where
  "event_totals ops =
     (counted is_request ops, counted failed_request ops, counted (\<lambda>x. x = CountRecycle) ops,
      counted is_read_failure ops, counted categorised_issue ops)"

fun add_totals ::
  "int \<times> int \<times> int \<times> int \<times> int \<Rightarrow> int \<times> int \<times> int \<times> int \<times> int \<Rightarrow> int \<times> int \<times> int \<times> int \<times> int" where
  "add_totals (a, b, c, d, e) (a', b', c', d', e') = (a + a', b + b', c + c', d + d', e + e')"

lemma totals_step: "totals (cumulative_step op c) = add_totals (totals c) (event_totals [op])"
proof -
  obtain now x where op: "op = (now, x)" by fastforce
  show ?thesis
  proof (cases x)
    case (CountRequest outcome)
    then show ?thesis
      by (simp add: op totals_def event_totals_def is_request_def is_read_failure_def
          request_failures_total_def failed_read_groups_def write_issues_total_def
          cumulative_request_def Let_def total1_increment)
  next
    case CountRecycle
    then show ?thesis
      by (simp add: op totals_def event_totals_def is_request_def is_read_failure_def
          request_failures_total_def failed_read_groups_def write_issues_total_def
          cumulative_link_recycle_def)
  next
    case (CountReadFailure room g)
    then show ?thesis
      by (simp add: op totals_def event_totals_def is_request_def is_read_failure_def
          request_failures_total_def failed_read_groups_def write_issues_total_def
          cumulative_read_failure_def total_nested2 total1_increment)
  next
    case (CountWriteIssue room k st)
    then show ?thesis
      by (cases st)
        (simp_all add: op totals_def event_totals_def is_request_def is_read_failure_def
          request_failures_total_def failed_read_groups_def write_issues_total_def Let_def
          cumulative_write_issue_def const_simps total_nested3 total_nested2 total1_increment)
  qed
qed

lemma add_totals_assoc: "add_totals (add_totals x y) z = add_totals x (add_totals y z)"
  by (cases x; cases y; cases z) simp

lemma event_totals_Cons: "event_totals (op # ops) = add_totals (event_totals [op]) (event_totals ops)"
  by (cases op) (simp add: event_totals_def)

lemma totals_run: "totals (fold cumulative_step ops c) = add_totals (totals c) (event_totals ops)"
proof (induction ops arbitrary: c)
  case Nil
  then show ?case by (simp add: event_totals_def totals_def)
next
  case (Cons op ops)
  then show ?case
    using event_totals_Cons [of op ops] by (simp add: totals_step add_totals_assoc)
qed

lemma period_step: "period_started_at (cumulative_step op c) = period_started_at c"
  by (cases op; cases "snd op")
    (auto simp: cumulative_request_def cumulative_link_recycle_def cumulative_read_failure_def
      cumulative_write_issue_def Let_def split: option.split)

lemma period_run: "period_started_at (fold cumulative_step ops c) = period_started_at c"
  by (induction ops arbitrary: c) (simp_all add: period_step)

lemma ok_run: "cumulative_ok c \<Longrightarrow> cumulative_ok (fold cumulative_step ops c)"
  by (induction ops arbitrary: c) (simp_all add: cumulative_ok_step)

text \<open>What a stored snapshot is read back as.\<close>

lemma failures_read_back:
  assumes "map fst d = REQUEST_FAILURE_CATEGORIES" "list_all (\<lambda>(_, n). 0 \<le> n) d"
  shows "map (\<lambda>category. (category, count (json_get (Some (json1 d)) category))) REQUEST_FAILURE_CATEGORIES = d"
proof -
  obtain a b c where "d = [(''no_answer'', a), (''modbus_exception'', b), (''other'', c)]"
    using assms(1) by (auto simp: const_simps map_eq_Cons_conv)
  with assms(2) show ?thesis by (simp add: json_get_def json1_def const_simps)
qed

lemma stored_fields:
  "json_get (Some (fst (stored_data c))) ''period_started_at'' = Some (JStr (period_started_at c))"
  "json_get (json_get (Some (fst (stored_data c))) ''transport'') ''request_attempts''
     = Some (JInt (request_attempts c))"
  "json_get (json_get (Some (fst (stored_data c))) ''transport'') ''request_failures''
     = Some (json1 (request_failures c))"
  "json_get (json_get (Some (fst (stored_data c))) ''transport'') ''link_recycles'' = Some (JInt (recycles c))"
  "json_get (Some (fst (stored_data c))) ''read_failures'' = Some (json2 (read_failure_counts c))"
  "json_get (Some (fst (stored_data c))) ''write_issues'' = Some (json3 (write_issue_counts c))"
  by (simp_all add: stored_data_def json_get_def)

lemma new_of_stored:
  assumes "cumulative_ok c" "iso_utc (period_started_at c) = Some (period_started_at c)"
  shows "new_cumulative iso_utc now (Some (fst (stored_data c))) =
    c\<lparr>last_save_scheduled_at := None, save_pending := False, save_requests := []\<rparr>"
proof -
  have map: "(case Some (fst (stored_data c)) of Some (JMap d) \<Rightarrow> Some (JMap d) | _ \<Rightarrow> Some (JMap []))
      = Some (fst (stored_data c))"
    by (simp add: stored_data_def)
  from assms show ?thesis
    unfolding new_cumulative_def map Let_def stored_fields
    by (simp add: cumulative_ok_def valid_timestamp_def failures_read_back counters2_json counters3_json)
qed

text \<open>One run of the integration: load what was stored, then record events.\<close>

definition cumulative_life ::
  "(string \<Rightarrow> string option) \<Rightarrow> string \<Rightarrow> json option \<Rightarrow> (seconds \<times> cumulative_op) list \<Rightarrow> cumulative" where
  "cumulative_life iso_utc now stored events =
     fold cumulative_step events (new_cumulative iso_utc now stored)"

text \<open>
  C40. Counters survive a restart and count every event: whatever an earlier run stored, well-formed or
  not, after any events the totals are the ones loaded plus one per event, and the snapshot saved then
  restores every counter, category and the start of the period exactly. The ISO form of a timestamp is
  the parameter: reading a normal form gives it back.
\<close>

theorem counters_survive_restart:
  assumes "\<forall>s t. iso_utc s = Some t \<longrightarrow> iso_utc t = Some t" "iso_utc now = Some now"
  shows "totals (cumulative_life iso_utc now stored events)
      = add_totals (totals (new_cumulative iso_utc now stored)) (event_totals events)
    \<and> new_cumulative iso_utc later (Some (fst (stored_data (cumulative_life iso_utc now stored events)))) =
      (cumulative_life iso_utc now stored events)
        \<lparr>last_save_scheduled_at := None, save_pending := False, save_requests := []\<rparr>"
proof -
  have "iso_utc (period_started_at (new_cumulative iso_utc now stored))
      = Some (period_started_at (new_cumulative iso_utc now stored))"
    using assms
    by (auto simp: new_cumulative_def Let_def valid_timestamp_def split: option.split json.split)
  then show ?thesis
    by (simp add: cumulative_life_def totals_run new_of_stored ok_run period_run cumulative_ok_new)
qed

definition example_iso :: "string \<Rightarrow> string option" where
  "example_iso s = (if s = ''2026-01-01T00:00:00+00:00'' then Some s else None)"

lemma counters_survive_restart_witness:
  "totals (cumulative_life example_iso ''2026-01-01T00:00:00+00:00'' (Some (JMap [(''transport'', JNull)]))
     [(1, CountRequest NoAnswer), (2, CountRequest Success), (3, CountReadFailure ''a'' ''flow'')])
   = (2, 1, 0, 1, 0)"
proof -
  have iso: "\<forall>s t. example_iso s = Some t \<longrightarrow> example_iso t = Some t"
    "example_iso ''2026-01-01T00:00:00+00:00'' = Some ''2026-01-01T00:00:00+00:00''"
    by (auto simp: example_iso_def split: if_splits)
  have loaded: "totals (new_cumulative example_iso now (Some (JMap [(''transport'', JNull)]))) = (0, 0, 0, 0, 0)"
    for now
    by (simp add: totals_def new_cumulative_def json_get_def count_def request_failures_total_def
        failed_read_groups_def write_issues_total_def total1_def total2_def total3_def counters2_def
        counters3_def const_simps)
  show ?thesis
    unfolding counters_survive_restart [OF iso, THEN conjunct1] loaded
    by (simp add: event_totals_def is_request_def is_read_failure_def)
qed

end
