(* ===== verification/Repair_Issues.thy ===== *)
theory Repair_Issues
  imports Client_Reads
begin

text \<open>
  \<open>new_units.py\<close> and \<open>missing_sensors.py\<close>: the repair issues for units the gateway lists but nobody
  set up, and for sensors that keep reporting a placeholder. Calls of Home Assistant's issue registry
  are recorded in order; what the registry holds from an earlier run is an argument of \<open>restore\<close>.
\<close>

section \<open>Addresses as text\<close>

definition digit :: "nat \<Rightarrow> char" where
  "digit n = char_of (48 + n)"

definition isdigit :: "char \<Rightarrow> bool" where
  "isdigit c \<longleftrightarrow> 48 \<le> (of_char c :: nat) \<and> (of_char c :: nat) \<le> 57"

fun decimal :: "nat \<Rightarrow> string" where
  "decimal n = (if n < 10 then [digit n] else decimal (n div 10) @ [digit (n mod 10)])"

declare decimal.simps [simp del]

definition number_of :: "string \<Rightarrow> nat" where
  "number_of s = foldl (\<lambda>a c. 10 * a + (of_char c - 48)) 0 s"

text \<open>\<open>", ".join(...)\<close>, \<open>split(",")\<close> and \<open>strip()\<close>, the last on blanks.\<close>

fun joined :: "string list \<Rightarrow> string" where
  "joined [] = []"
| "joined [s] = s"
| "joined (s # t # rest) = s @ '', '' @ joined (t # rest)"

fun split_comma :: "string \<Rightarrow> string list" where
  "split_comma [] = [[]]"
| "split_comma (c # s) =
     (if c = CHR '','' then [] # split_comma s
      else case split_comma s of [] \<Rightarrow> [[c]] | p # ps \<Rightarrow> (c # p) # ps)"

definition strip :: "string \<Rightarrow> string" where
  "strip s = rev (dropWhile (\<lambda>c. c = CHR '' '') (rev (dropWhile (\<lambda>c. c = CHR '' '') s)))"

definition parse_addresses :: "string \<Rightarrow> int list" where
  "parse_addresses text =
     map (\<lambda>part. int (number_of part))
       (filter (\<lambda>part. part \<noteq> [] \<and> list_all isdigit part) (map strip (split_comma text)))"

section \<open>New units\<close>

datatype new_unit_call = NewUnitsShown nat string | NewUnitsDeleted

record new_unit_issue =
  reported_units :: "int list option"
  new_unit_calls :: "new_unit_call list"

definition NEW_UNIT_ISSUE :: new_unit_issue where
  "NEW_UNIT_ISSUE = \<lparr>reported_units = None, new_unit_calls = []\<rparr>"

definition new_units :: "new_unit_issue \<Rightarrow> int list" where
  "new_units i = (case reported_units i of None \<Rightarrow> [] | Some units \<Rightarrow> units)"

definition unset_units :: "int list \<Rightarrow> int list \<Rightarrow> int list" where
  "unset_units reported configured = sort (remdups (filter (\<lambda>u. u \<notin> set configured) reported))"

definition addresses_text :: "int list \<Rightarrow> string" where
  "addresses_text units = joined (map (\<lambda>u. decimal (nat u)) units)"

definition update_new_units :: "int list \<Rightarrow> int list \<Rightarrow> new_unit_issue \<Rightarrow> new_unit_issue" where
  "update_new_units reported configured i =
     (let units = unset_units reported configured
      in if reported_units i = Some units then i
         else \<lparr>reported_units = Some units,
               new_unit_calls = new_unit_calls i @
                 [if units = [] then NewUnitsDeleted
                  else NewUnitsShown (length units) (addresses_text units)]\<rparr>)"

text \<open>\<open>restore\<close>: the issue of an earlier run is whether it is active and its address text.\<close>

definition restore_new_units :: "(bool \<times> string) option \<Rightarrow> int list \<Rightarrow> new_unit_issue \<Rightarrow> new_unit_issue" where
  "restore_new_units issue configured i =
     (case issue of
        None \<Rightarrow> i
      | Some (active, addresses) \<Rightarrow>
          if \<not> active then i
          else let reported = sort (remdups (parse_addresses addresses))
               in update_new_units reported configured (i\<lparr>reported_units := Some reported\<rparr>))"

section \<open>Missing sensors\<close>

definition MISSING_SENSOR_ISSUE_AFTER_READS :: int where [simp]:
  "MISSING_SENSOR_ISSUE_AFTER_READS = 3"

type_synonym sensor_key = "string \<times> string"

datatype sensor_call = SensorIssueShown sensor_key | SensorIssueDeleted sensor_key

record missing_sensors =
  missing_reads :: "(sensor_key, int) dict"
  raised_sensors :: "sensor_key set"
  sensor_calls :: "sensor_call list"

definition NO_MISSING_SENSORS :: missing_sensors where
  "NO_MISSING_SENSORS = \<lparr>missing_reads = [], raised_sensors = {}, sensor_calls = []\<rparr>"

definition clear_sensor :: "sensor_key \<Rightarrow> missing_sensors \<Rightarrow> missing_sensors" where
  "clear_sensor key m =
     (let m1 = m\<lparr>missing_reads := AList.delete key (missing_reads m)\<rparr>
      in if key \<in> raised_sensors m1
         then m1\<lparr>raised_sensors := raised_sensors m1 - {key},
                 sensor_calls := sensor_calls m1 @ [SensorIssueDeleted key]\<rparr>
         else m1)"

definition count_missing :: "sensor_key \<Rightarrow> missing_sensors \<Rightarrow> missing_sensors" where
  "count_missing key m =
     (let n = dict_get (missing_reads m) key 0 + 1;
          m1 = m\<lparr>missing_reads := AList.update key n (missing_reads m)\<rparr>
      in if n \<ge> MISSING_SENSOR_ISSUE_AFTER_READS \<and> key \<notin> raised_sensors m1
         then m1\<lparr>raised_sensors := insert key (raised_sensors m1),
                 sensor_calls := sensor_calls m1 @ [SensorIssueShown key]\<rparr>
         else m1)"

text \<open>\<open>record\<close>; the sensors of a set are visited in the order of \<^const>\<open>PROFILE_SENSORS\<close>.\<close>

definition record_sensors :: "room_config \<Rightarrow> read_job_outcome \<Rightarrow> missing_sensors \<Rightarrow> missing_sensors" where
  "record_sensors room outcome m =
     (let m1 = fold (\<lambda>sensor. clear_sensor (room_key room, sensor))
            (filter (\<lambda>sensor. sensor \<in> sensor_values outcome) PROFILE_SENSORS) m
      in fold (\<lambda>sensor. count_missing (room_key room, sensor))
           (filter (\<lambda>sensor. sensor \<in> missing_sensor_values outcome) PROFILE_SENSORS) m1)"

text \<open>\<open>restore\<close>: the keys of this entry's issues in the registry, and whether each is active.\<close>

definition restore_sensors ::
  "room_config list \<Rightarrow> (sensor_key \<times> bool) list \<Rightarrow> missing_sensors \<Rightarrow> missing_sensors" where
  "restore_sensors rooms registry m =
     (let expected = concat (map (\<lambda>room. map (Pair (room_key room)) (placeholder_sensors room)) rooms)
      in fold (\<lambda>(key, active) m.
           if key \<notin> set expected then m\<lparr>sensor_calls := sensor_calls m @ [SensorIssueDeleted key]\<rparr>
           else if active
           then m\<lparr>raised_sensors := insert key (raised_sensors m),
                  missing_reads := AList.update key MISSING_SENSOR_ISSUE_AFTER_READS (missing_reads m)\<rparr>
           else m) registry m)"

section \<open>Properties of the missing sensors\<close>

text \<open>The placeholder readings of a sensor since its last plausible one.\<close>

definition next_streak :: "string \<Rightarrow> read_job_outcome \<Rightarrow> int \<Rightarrow> int" where
  "next_streak sensor outcome n =
     (let n1 = (if sensor \<in> sensor_values outcome then 0 else n)
      in if sensor \<in> missing_sensor_values outcome then n1 + 1 else n1)"

definition reads_of :: "missing_sensors \<Rightarrow> sensor_key \<Rightarrow> int" where
  "reads_of m key = dict_get (missing_reads m) key 0"

lemma reads_of_clear: "reads_of (clear_sensor key m) k = (if k = key then 0 else reads_of m k)"
  by (simp add: reads_of_def clear_sensor_def Let_def)

lemma reads_of_count: "reads_of (count_missing key m) k = (if k = key then reads_of m k + 1 else reads_of m k)"
  by (simp add: reads_of_def count_missing_def Let_def)

interpretation sensor_reads: keyed_store reads_of
  "\<lambda>key n m. m\<lparr>missing_reads := AList.update key n (missing_reads m)\<rparr>"
  by unfold_locales (simp add: reads_of_def)

text \<open>An issue is shown exactly for the sensors whose counter reached the limit.\<close>

definition issues_shown :: "missing_sensors \<Rightarrow> bool" where
  "issues_shown m \<longleftrightarrow> (\<forall>k. k \<in> raised_sensors m \<longleftrightarrow> 3 \<le> reads_of m k) \<and> (\<forall>k. 0 \<le> reads_of m k)"

lemma issues_shown_clear: "issues_shown m \<Longrightarrow> issues_shown (clear_sensor key m)"
  by (auto simp: issues_shown_def reads_of_clear) (auto simp: clear_sensor_def Let_def split: if_splits)

lemma issues_shown_count: "issues_shown m \<Longrightarrow> issues_shown (count_missing key m)"
proof -
  assume ok: "issues_shown m"
  have "raised_sensors (count_missing key m)
      = (if reads_of m key + 1 \<ge> 3 then insert key (raised_sensors m) else raised_sensors m)"
    by (auto simp: count_missing_def Let_def reads_of_def)
  with ok show ?thesis by (force simp: issues_shown_def reads_of_count)
qed

lemma issues_shown_record: "issues_shown m \<Longrightarrow> issues_shown (record_sensors room outcome m)"
proof -
  have "issues_shown m \<Longrightarrow> issues_shown (fold (\<lambda>s. clear_sensor (r, s)) ss m)" for r ss m
    by (induction ss arbitrary: m) (simp_all add: issues_shown_clear)
  moreover have "issues_shown m \<Longrightarrow> issues_shown (fold (\<lambda>s. count_missing (r, s)) ss m)" for r ss m
    by (induction ss arbitrary: m) (simp_all add: issues_shown_count)
  ultimately show "issues_shown m \<Longrightarrow> ?thesis" by (simp add: record_sensors_def Let_def)
qed

lemma reads_of_fold_clear:
  "reads_of (fold (\<lambda>s. clear_sensor (r, s)) ss m) (r', s') =
     (if r' = r \<and> s' \<in> set ss then 0 else reads_of m (r', s'))"
  by (induction ss arbitrary: m) (auto simp: reads_of_clear)

lemma reads_of_fold_count:
  "distinct ss \<Longrightarrow> reads_of (fold (\<lambda>s. count_missing (r, s)) ss m) (r', s') =
     (if r' = r \<and> s' \<in> set ss then reads_of m (r', s') + 1 else reads_of m (r', s'))"
  by (induction ss arbitrary: m) (auto simp: reads_of_count)

lemma reads_of_record:
  "reads_of (record_sensors room outcome m) (r, s) =
     (if r = room_key room \<and> s \<in> set PROFILE_SENSORS then next_streak s outcome (reads_of m (r, s))
      else reads_of m (r, s))"
proof -
  have "distinct PROFILE_SENSORS" by (simp add: const_simps)
  then show ?thesis
    by (auto simp: record_sensors_def Let_def reads_of_fold_clear reads_of_fold_count next_streak_def)
qed

text \<open>What the registry shows after the recorded calls.\<close>

fun sensor_registry :: "sensor_call \<Rightarrow> sensor_key set \<Rightarrow> sensor_key set" where
  "sensor_registry (SensorIssueShown k) shown = insert k shown"
| "sensor_registry (SensorIssueDeleted k) shown = shown - {k}"

definition registry_agrees :: "missing_sensors \<Rightarrow> bool" where
  "registry_agrees m \<longleftrightarrow> fold sensor_registry (sensor_calls m) {} = raised_sensors m"

lemma registry_agrees_steps:
  "registry_agrees m \<Longrightarrow> registry_agrees (clear_sensor key m)"
  "registry_agrees m \<Longrightarrow> registry_agrees (count_missing key m)"
  by (simp_all add: registry_agrees_def clear_sensor_def count_missing_def Let_def)

lemma registry_agrees_record: "registry_agrees m \<Longrightarrow> registry_agrees (record_sensors room outcome m)"
proof -
  have "registry_agrees m \<Longrightarrow> registry_agrees (fold (\<lambda>s. clear_sensor (r, s)) ss m)" for r ss m
    by (induction ss arbitrary: m) (simp_all add: registry_agrees_steps)
  moreover have "registry_agrees m \<Longrightarrow> registry_agrees (fold (\<lambda>s. count_missing (r, s)) ss m)" for r ss m
    by (induction ss arbitrary: m) (simp_all add: registry_agrees_steps)
  ultimately show "registry_agrees m \<Longrightarrow> ?thesis" by (simp add: record_sensors_def Let_def)
qed

definition sensor_run :: "(room_config \<times> read_job_outcome) list \<Rightarrow> missing_sensors" where
  "sensor_run reads = fold (\<lambda>(room, outcome). record_sensors room outcome) reads NO_MISSING_SENSORS"

definition streak :: "string \<Rightarrow> string \<Rightarrow> (room_config \<times> read_job_outcome) list \<Rightarrow> int" where
  "streak r sensor reads =
     fold (\<lambda>(room, outcome) n. if room_key room = r then next_streak sensor outcome n else n) reads 0"

text \<open>
  Missing-sensor issues: after any reads of any units, the registry shows an issue for a sensor of a
  unit exactly when its last three or more readings were placeholders, with no plausible value between
  them; a plausible value withdraws it, and no other sensor is ever reported.
\<close>

lemma missing_sensor_issue_iff_streak:
  "((r, sensor) \<in> fold sensor_registry (sensor_calls (sensor_run reads)) {})
     = (sensor \<in> set PROFILE_SENSORS \<and> 3 \<le> streak r sensor reads)"
proof -
  have run: "issues_shown m \<Longrightarrow> registry_agrees m \<Longrightarrow>
      (let m' = fold (\<lambda>(room, outcome). record_sensors room outcome) reads m in
        issues_shown m' \<and> registry_agrees m'
        \<and> reads_of m' (r, sensor) = (if sensor \<in> set PROFILE_SENSORS
            then fold (\<lambda>(room, outcome) n. if room_key room = r then next_streak sensor outcome n else n)
              reads (reads_of m (r, sensor))
            else reads_of m (r, sensor)))" for m
  proof (induction reads arbitrary: m)
    case (Cons p reads)
    obtain room outcome where p: "p = (room, outcome)" by fastforce
    from Cons.IH [of "record_sensors room outcome m"] Cons.prems show ?case
      by (auto simp: p Let_def issues_shown_record registry_agrees_record reads_of_record)
  qed (simp add: Let_def)
  have init: "issues_shown NO_MISSING_SENSORS" "registry_agrees NO_MISSING_SENSORS"
    "reads_of NO_MISSING_SENSORS (r, sensor) = 0"
    by (simp_all add: issues_shown_def registry_agrees_def reads_of_def NO_MISSING_SENSORS_def)
  show ?thesis
    using run [OF init(1,2)] init(3)
    by (auto simp: Let_def sensor_run_def streak_def registry_agrees_def issues_shown_def)
qed

section \<open>Properties of the new-unit issue\<close>

lemma of_char_digit: "n < 10 \<Longrightarrow> (of_char (digit n) :: nat) = 48 + n"
  by (simp add: digit_def)

lemma isdigit_digit: "n < 10 \<Longrightarrow> isdigit (digit n)"
  by (simp add: isdigit_def of_char_digit)

lemma decimal_digits: "decimal n \<noteq> [] \<and> list_all isdigit (decimal n)"
proof (induction n rule: decimal.induct)
  case (1 n)
  then show ?case by (subst (1 2) decimal.simps) (simp add: isdigit_digit)
qed

lemma number_of_decimal: "number_of (decimal n) = n"
proof (induction n rule: decimal.induct)
  case (1 n)
  then show ?case by (subst decimal.simps) (simp add: number_of_def of_char_digit)
qed

lemma isdigit_not_sep: "isdigit c \<Longrightarrow> c \<noteq> CHR '','' \<and> c \<noteq> CHR '' ''"
  by (auto simp: isdigit_def)

lemma split_comma_plain: "list_all isdigit s \<Longrightarrow> split_comma s = [s]"
  by (induction s) (simp_all add: isdigit_not_sep)

lemma split_comma_append: "list_all isdigit s \<Longrightarrow> split_comma (s @ CHR '','' # t) = s # split_comma t"
  by (induction s) (simp_all add: isdigit_not_sep)

lemma split_comma_nonempty: "split_comma s \<noteq> []"
  by (induction s) (auto split: list.split)

lemma strip_digits: "list_all isdigit s \<Longrightarrow> strip s = s"
proof -
  assume "list_all isdigit s"
  then have "\<forall>c \<in> set s. c \<noteq> CHR '' ''" by (auto simp: list_all_iff dest: isdigit_not_sep)
  then have "dropWhile (\<lambda>c. c = CHR '' '') t = t" if "set t \<subseteq> set s" for t
    using that by (cases t) auto
  then show ?thesis by (simp add: strip_def)
qed

lemma strip_blank: "strip (CHR '' '' # s) = strip s"
  by (simp add: strip_def)

lemma joined_parts:
  "list_all (list_all isdigit) (p # ps) \<Longrightarrow> map strip (split_comma (joined (p # ps))) = p # ps"
proof (induction ps arbitrary: p)
  case Nil
  then show ?case by (simp add: split_comma_plain strip_digits)
next
  case (Cons q ps)
  then have p: "list_all isdigit p" and rest: "list_all (list_all isdigit) (q # ps)" by simp_all
  obtain h t where ht: "split_comma (joined (q # ps)) = h # t"
    using split_comma_nonempty by (cases "split_comma (joined (q # ps))") auto
  with Cons.IH [OF rest] have "strip h = q" "map strip t = ps" by simp_all
  then show ?case
    using p by (simp add: split_comma_append strip_digits ht strip_blank)
qed

lemma parse_addresses_text:
  assumes "units \<noteq> []" "list_all (\<lambda>u. 0 \<le> u) units"
  shows "parse_addresses (addresses_text units) = units"
proof -
  let ?ps = "map (\<lambda>u. decimal (nat u)) units"
  have "list_all (list_all isdigit) ?ps"
    using decimal_digits by (simp only: list_all_iff set_map ball_simps) blast
  moreover obtain p ps where "?ps = p # ps" using assms(1) by (cases ?ps) auto
  ultimately have "map strip (split_comma (joined ?ps)) = ?ps" using joined_parts by metis
  moreover have "filter (\<lambda>part. part \<noteq> [] \<and> list_all isdigit part) ?ps = ?ps"
    by (simp add: filter_id_conv decimal_digits)
  moreover have "map (\<lambda>part. int (number_of part)) ?ps = units"
    using assms(2) by (simp add: number_of_decimal list_all_iff map_idI)
  ultimately show ?thesis by (simp add: parse_addresses_def addresses_text_def)
qed

lemma unset_units_props:
  "set (unset_units reported configured) = set reported - set configured"
  "sorted (unset_units reported configured)" "distinct (unset_units reported configured)"
  by (auto simp: unset_units_def)

text \<open>
  The new-unit issue outlives a restart: the addresses shown are the listed ones that are not set up,
  in order; read back from the issue's text they are the same ones, and after a restart with more units
  set up the issue shows exactly what is left, withdrawn when nothing is.
\<close>

lemma new_unit_issue_restored:
  assumes "\<forall>u \<in> set reported. 0 \<le> u" "unset_units reported configured \<noteq> []"
  shows "let shown = unset_units reported configured;
             i = restore_new_units (Some (True, addresses_text shown)) configured' NEW_UNIT_ISSUE
         in parse_addresses (addresses_text shown) = shown
          \<and> new_units i = unset_units reported (configured @ configured')
          \<and> (if new_units i = shown then new_unit_calls i = []
             else new_unit_calls i = [if new_units i = [] then NewUnitsDeleted
               else NewUnitsShown (length (new_units i)) (addresses_text (new_units i))])"
proof -
  let ?shown = "unset_units reported configured"
  have parse: "parse_addresses (addresses_text ?shown) = ?shown"
    using assms by (intro parse_addresses_text) (auto simp: list_all_iff unset_units_props)
  have same: "sort (remdups ?shown) = ?shown"
    using unset_units_props(2,3) [of reported configured] by (simp add: distinct_remdups_id sorted_sort_id)
  have left: "unset_units ?shown configured' = unset_units reported (configured @ configured')"
    by (rule sorted_distinct_set_unique) (auto simp: unset_units_props)
  define shown where "shown = ?shown"
  define rest where "rest = unset_units reported (configured @ configured')"
  show ?thesis
    using parse same left unfolding shown_def [symmetric] rest_def [symmetric]
    by (cases "shown = rest")
      (simp_all add: Let_def restore_new_units_def update_new_units_def new_units_def NEW_UNIT_ISSUE_def)
qed

lemma new_unit_issue_restored_witness:
  "parse_addresses (addresses_text (unset_units [12, 3, 4, 3] [4])) = [3, 12]"
proof -
  have shown: "unset_units [12, 3, 4, 3] [4] = [3, 12]" by (simp add: unset_units_def)
  have "\<forall>u \<in> set [12, 3, 4, 3::int]. 0 \<le> u" "unset_units [12, 3, 4, 3] [4] \<noteq> []"
    by (simp_all add: shown)
  from new_unit_issue_restored [OF this] show ?thesis by (simp add: Let_def shown)
qed

end
