(* ===== verification/Coordinator.thy ===== *)
theory Coordinator
  imports Cumulative_Diagnostics Repair_Issues
begin

text \<open>
  The state of \<open>coordinator.py\<close> and the parts its polling and its commands share: the bookkeeping per
  unit (\<open>room_runtime.py\<close>), availability, effective levels, the confirmation of pending writes, and
  the planning of the next tick. The client is the record of functions the coordinator's protocol class
  names, over a world they change; time is read off that world. Every operation holds the gateway lock
  to its end, so operations do not overlap; timers and callbacks run between them.
\<close>

section \<open>Runtime of a unit\<close>

record room_runtime =
  rt_room :: room_config
  rt_read_failures :: int
  rt_last_read_error :: "room_read_error option"
  rt_unavailable_logged :: bool
  rt_target_read_failing :: bool
  rt_uncertain_flow :: "(read_health \<times> read_health) option"
  rt_level_fallback :: "(level_write_fallback \<times> read_health) option"

definition new_runtime :: "room_config \<Rightarrow> room_runtime" where
  "new_runtime room =
     \<lparr>rt_room = room, rt_read_failures = 0, rt_last_read_error = None, rt_unavailable_logged = False,
      rt_target_read_failing = False, rt_uncertain_flow = None, rt_level_fallback = None\<rparr>"

section \<open>The client and the framework\<close>

text \<open>
  The answer to a client call: a value, a \<open>MeltemModbusError\<close> or \<open>HomeAssistantError\<close> with its text,
  any other exception, or the cancellation of the calling task.
\<close>

datatype 'a call_reply = Replied 'a | MeltemFailed string | OtherFailed exn | CallCancelled

text \<open>What stops an operation early: an exception it does not handle, or its cancellation.\<close>

datatype stop = StopRaised exn | StopCancelled

fun stop_of :: "'a call_reply \<Rightarrow> stop" where
  "stop_of (OtherFailed e) = StopRaised e"
| "stop_of _ = StopCancelled"

datatype gateway_value =
    GatewayNumber int
  | GatewayTime datetime
  | GatewayRf int int "real option" "real option"
  | GatewayUnits "int list"

datatype write_command =
    WriteLevel room_config int
  | WriteUnbalanced room_config int int
  | WriteMode room_config string int int
  | WritePreset room_config string
  | WriteClearIntensive room_config
  | WriteControlSetting room_config string int

type_synonym room_states = "(string, room_state) dict"

text \<open>
  \<open>ce_published\<close> is what \<open>async_set_updated_data\<close> of Home Assistant's \<open>DataUpdateCoordinator\<close> does to
  the data and the success flag, \<open>ce_refreshed\<close> what the end of its \<open>async_refresh\<close> does with the
  result of \<open>_async_update_data\<close> and whether it calls the listeners, \<open>ce_stopping\<close> whether Home Assistant is stopping, and
  \<open>ce_polling_disabled\<close> whether the user switched polling off.
\<close>

record 'w client_env =
  ce_clocks :: "'w \<Rightarrow> clocks"
  ce_sleep :: "seconds \<Rightarrow> 'w \<Rightarrow> 'w"
  ce_since_read :: "int \<Rightarrow> 'w \<Rightarrow> seconds option"
  ce_read_room :: "room_config \<Rightarrow> room_state \<Rightarrow> refresh_plan \<Rightarrow> 'w \<Rightarrow> room_read call_reply \<times> 'w"
  ce_read_target :: "room_config \<Rightarrow> 'w \<Rightarrow> int option call_reply \<times> 'w"
  ce_write :: "write_command \<Rightarrow> 'w \<Rightarrow> int option call_reply \<times> 'w"
  ce_gateway_read :: "string \<Rightarrow> 'w \<Rightarrow> gateway_value task_result \<times> 'w"
  ce_room_read :: "string \<times> string \<Rightarrow> 'w \<Rightarrow> int task_result \<times> 'w"
  ce_stopping :: "'w \<Rightarrow> bool"
  ce_polling_disabled :: "'w \<Rightarrow> bool"
  ce_published :: "room_states \<Rightarrow> room_states \<times> bool \<Rightarrow> room_states \<times> bool"
  ce_refreshed :: "room_states option \<Rightarrow> room_states \<times> bool \<Rightarrow> (room_states \<times> bool) \<times> bool"

abbreviation now_of :: "'w client_env \<Rightarrow> 'w \<Rightarrow> seconds" where
  "now_of env w \<equiv> monotonic (ce_clocks env w)"

section \<open>State\<close>

definition ROOM_UNAVAILABLE_AFTER_FAILURES :: int where [simp]:
  "ROOM_UNAVAILABLE_AFTER_FAILURES = 3"

definition ROOM_SILENT_AFTER_SECONDS :: seconds where [simp]:
  "ROOM_SILENT_AFTER_SECONDS = 120"

definition PRESET_OPTIMISTIC_SECONDS :: seconds where [simp]:
  "PRESET_OPTIMISTIC_SECONDS = 15"

definition NEW_UNIT_CHECK_SECONDS :: seconds where [simp]:
  "NEW_UNIT_CHECK_SECONDS = 3600"

definition NEW_UNIT_CHECK_FIRST_DELAY_SECONDS :: seconds where [simp]:
  "NEW_UNIT_CHECK_FIRST_DELAY_SECONDS = 300"

text \<open>Startup jobs are the same objects as the poll jobs; they are listed by their identity.\<close>

record coordinator =
  co_rooms :: "room_config list"
  co_runtimes :: "(string, room_runtime) dict"
  co_tick_seconds :: seconds
  co_started_at :: seconds
  co_data :: room_states
  co_last_update_success :: bool
  co_startup_states :: room_states
  co_jobs :: "poll_job list"
  co_startup_jobs :: "(string \<times> string) list option"
  co_startup_turn :: bool
  co_last_read_started :: "seconds option"
  co_job_error :: "string option"
  co_job_link_failure :: bool
  co_job_attempted :: bool
  co_transport_failures :: int
  co_backoff :: "seconds option"
  co_next_poll_delay :: seconds
  co_poll_timer :: "seconds option"
  co_poll_running :: bool
  co_polling_stopped :: bool
  co_updated_rooms :: "string set option"
  co_writes :: confirmations
  co_presets :: "string overlay"
  co_intensive :: "bool overlay"
  co_levels :: "(int \<times> int) overlay"
  co_gateway_reads :: "(string, gateway_value optional_read) dict"
  co_room_reads :: "(string \<times> string, int optional_read) dict"
  co_new_units :: new_unit_issue
  co_missing :: missing_sensors
  co_cumulative :: "cumulative option"

definition PRESET_OVERLAY :: "(string, string) overlay_config" where
  "PRESET_OVERLAY =
     \<lparr>ttl_seconds = PRESET_OPTIMISTIC_SECONDS, matches = (\<lambda>c v. c = v), overlay_groups = [''flow_control'']\<rparr>"

definition INTENSIVE_OVERLAY :: "(bool, bool) overlay_config" where
  "INTENSIVE_OVERLAY =
     \<lparr>ttl_seconds = PRESET_OPTIMISTIC_SECONDS, matches = (\<lambda>c v. c = v), overlay_groups = [''intensive'']\<rparr>"

definition LEVELS_OVERLAY :: "(int \<times> int, level_pair) overlay_config" where
  "LEVELS_OVERLAY =
     \<lparr>ttl_seconds = TARGET_OPTIMISTIC_SECONDS, matches = levels_reached,
      overlay_groups = [''flow'', ''flow_control'']\<rparr>"

definition new_gateway_reads :: "seconds \<Rightarrow> (string, gateway_value optional_read) dict" where
  "new_gateway_reads clock =
     [(''uptime'', new_optional_read GATEWAY_UPTIME_REFRESH_SECONDS GATEWAY_UPTIME_STALE_SECONDS
         OPTIONAL_READ_RETRY_SECONDS 0 False),
      (''utc_clock'', new_optional_read GATEWAY_UTC_CLOCK_REFRESH_SECONDS GATEWAY_UTC_CLOCK_STALE_SECONDS
         OPTIONAL_READ_RETRY_SECONDS 0 False),
      (''connected_devices'', new_optional_read GATEWAY_CONNECTED_DEVICES_REFRESH_SECONDS
         GATEWAY_CONNECTED_DEVICES_STALE_SECONDS OPTIONAL_READ_RETRY_SECONDS 0 False),
      (''rf_statistics'', new_optional_read GATEWAY_RF_STATISTICS_REFRESH_SECONDS
         GATEWAY_RF_STATISTICS_STALE_SECONDS OPTIONAL_READ_RETRY_SECONDS 0 False),
      (''unit_list'', snd (set_enabled clock ''new_unit_issue'' True
         (new_optional_read NEW_UNIT_CHECK_SECONDS (2 * NEW_UNIT_CHECK_SECONDS)
            OPTIONAL_READ_RETRY_SECONDS NEW_UNIT_CHECK_FIRST_DELAY_SECONDS False)))]"

definition tick_seconds_of :: "seconds \<Rightarrow> seconds" where
  "tick_seconds_of max_requests_per_second = 1 / max (1 / 10) max_requests_per_second"

text \<open>The constructor; what the issue registry holds from an earlier run are its last two arguments.\<close>

definition new_coordinator ::
  "seconds \<Rightarrow> room_config list \<Rightarrow> seconds \<Rightarrow> cumulative option \<Rightarrow> (bool \<times> string) option
     \<Rightarrow> (sensor_key \<times> bool) list \<Rightarrow> coordinator" where
  "new_coordinator clock rooms rate cumulative new_unit sensors =
     \<lparr>co_rooms = rooms,
      co_runtimes = dict_of (map (\<lambda>room. (room_key room, new_runtime room)) rooms),
      co_tick_seconds = tick_seconds_of rate, co_started_at = clock,
      co_data = [], co_last_update_success = True, co_startup_states = [],
      co_jobs = build_jobs rooms clock, co_startup_jobs = None, co_startup_turn = True,
      co_last_read_started = None, co_job_error = None, co_job_link_failure = False,
      co_job_attempted = False, co_transport_failures = 0, co_backoff = None,
      co_next_poll_delay = tick_seconds_of rate, co_poll_timer = None, co_poll_running = False,
      co_polling_stopped = False, co_updated_rooms = None, co_writes = EMPTY_CONFIRMATIONS,
      co_presets = EMPTY_OVERLAY, co_intensive = EMPTY_OVERLAY, co_levels = EMPTY_OVERLAY,
      co_gateway_reads = new_gateway_reads clock, co_room_reads = [],
      co_new_units = restore_new_units new_unit (map room_slave rooms) NEW_UNIT_ISSUE,
      co_missing = restore_sensors rooms sensors NO_MISSING_SENSORS,
      co_cumulative = cumulative\<rparr>"

section \<open>Small accessors\<close>

text \<open>\<open>self._runtimes[key]\<close>; the rooms and the runtimes have the same keys.\<close>

definition runtime_of :: "coordinator \<Rightarrow> room_config \<Rightarrow> room_runtime" where
  "runtime_of co room = dict_get (co_runtimes co) (room_key room) (new_runtime room)"

definition set_runtime ::
  "room_config \<Rightarrow> (room_runtime \<Rightarrow> room_runtime) \<Rightarrow> coordinator \<Rightarrow> coordinator" where
  "set_runtime room f co =
     co\<lparr>co_runtimes := AList.update (room_key room) (f (runtime_of co room)) (co_runtimes co)\<rparr>"

lemma runtime_of_set [simp]:
  "runtime_of (set_runtime room f co) room' =
     (if room_key room' = room_key room then f (runtime_of co room) else runtime_of co room')"
  by (simp add: runtime_of_def set_runtime_def)

definition room_state_of :: "coordinator \<Rightarrow> room_config \<Rightarrow> room_state option" where
  "room_state_of co room = map_of (co_data co) (room_key room)"

definition state_or_empty :: "room_states \<Rightarrow> room_config \<Rightarrow> room_state" where
  "state_or_empty states room = dict_get states (room_key room) EMPTY_ROOM_STATE"

definition state_room_count :: "coordinator \<Rightarrow> nat" where
  "state_room_count co = length (filter (\<lambda>(_, s). has_data s) (co_data co))"

definition group_health :: "coordinator \<Rightarrow> room_config \<Rightarrow> string \<Rightarrow> read_health" where
  "group_health co room group_key =
     (let s = (case room_state_of co room of
          Some s \<Rightarrow> s
        | None \<Rightarrow> state_or_empty (co_startup_states co) room)
      in read_health_for s group_key)"

text \<open>\<open>async_update_listeners\<close> and \<open>_limit_next_update_to\<close>.\<close>

definition update_listeners :: "coordinator \<Rightarrow> coordinator" where
  "update_listeners co = co\<lparr>co_updated_rooms := None\<rparr>"

definition limit_next_update_to :: "string set \<Rightarrow> coordinator \<Rightarrow> coordinator" where
  "limit_next_update_to keys co =
     (if co_last_update_success co then co\<lparr>co_updated_rooms := Some keys\<rparr> else co)"

definition room_updated :: "coordinator \<Rightarrow> string \<Rightarrow> bool" where
  "room_updated co key = (case co_updated_rooms co of None \<Rightarrow> True | Some keys \<Rightarrow> key \<in> keys)"

section \<open>Availability\<close>

datatype unavailable_reason = RepeatedFailures int | LongSilence

definition room_unavailable_reason ::
  "'w client_env \<Rightarrow> 'w \<Rightarrow> coordinator \<Rightarrow> room_config \<Rightarrow> unavailable_reason option" where
  "room_unavailable_reason env w co room =
     (let rt = runtime_of co room
      in if rt_read_failures rt \<ge> ROOM_UNAVAILABLE_AFTER_FAILURES
         then Some (RepeatedFailures (rt_read_failures rt))
         else (case ce_since_read env (room_slave (rt_room rt)) w of
             Some silent_for \<Rightarrow> if silent_for > ROOM_SILENT_AFTER_SECONDS then Some LongSilence else None
           | None \<Rightarrow> None))"

definition room_available :: "'w client_env \<Rightarrow> 'w \<Rightarrow> coordinator \<Rightarrow> room_config \<Rightarrow> bool" where
  "room_available env w co room =
     (if room_unavailable_reason env w co room \<noteq> None then False
      else case room_state_of co room of None \<Rightarrow> False | Some s \<Rightarrow> has_data s)"

definition room_connectivity :: "'w client_env \<Rightarrow> 'w \<Rightarrow> coordinator \<Rightarrow> room_config \<Rightarrow> bool option" where
  "room_connectivity env w co room =
     (case (case room_state_of co room of
              Some s \<Rightarrow> Some s | None \<Rightarrow> map_of (co_startup_states co) (room_key room)) of
        None \<Rightarrow> None
      | Some s \<Rightarrow>
          if list_ex (\<lambda>(_, h). last_attempt h \<noteq> None) (group_read_health s)
          then Some (room_available env w co room) else None)"

definition last_successful_room_update :: "coordinator \<Rightarrow> room_config \<Rightarrow> datetime option" where
  "last_successful_room_update co room =
     (let stamps = List.map_filter (\<lambda>(g, h).
          if supports_any room (group_entities g) then last_successful_read h else None)
          (group_read_health (state_or_empty (co_data co) room))
      in if stamps = [] then None else Some (Max (set stamps)))"

text \<open>\<open>_log_room_availability\<close> remembers only whether the change has been logged.\<close>

definition log_room_availability ::
  "'w client_env \<Rightarrow> 'w \<Rightarrow> room_config \<Rightarrow> room_state \<Rightarrow> coordinator \<Rightarrow> coordinator" where
  "log_room_availability env w room state co =
     (let logged = rt_unavailable_logged (runtime_of co room)
      in case room_unavailable_reason env w co room of
           Some _ \<Rightarrow> if logged then co
                     else set_runtime room (\<lambda>rt. rt\<lparr>rt_unavailable_logged := True\<rparr>) co
         | None \<Rightarrow> if has_data state \<and> logged
                     then set_runtime room (\<lambda>rt. rt\<lparr>rt_unavailable_logged := False\<rparr>) co
                     else co)"

definition read_group_fresh :: "'w client_env \<Rightarrow> 'w \<Rightarrow> coordinator \<Rightarrow> room_config \<Rightarrow> string \<Rightarrow> bool" where
  "read_group_fresh env w co room g =
     (case room_state_of co room of None \<Rightarrow> False | Some s \<Rightarrow> group_fresh (ce_clocks env w) s g)"

definition read_group_available :: "'w client_env \<Rightarrow> 'w \<Rightarrow> coordinator \<Rightarrow> room_config \<Rightarrow> string \<Rightarrow> bool" where
  "read_group_available env w co room g =
     (case room_state_of co room of None \<Rightarrow> False | Some s \<Rightarrow> group_available (ce_clocks env w) s g)"

definition read_group_stale ::
  "'w client_env \<Rightarrow> 'w \<Rightarrow> coordinator \<Rightarrow> room_config \<Rightarrow> string \<Rightarrow> bool option" where
  "read_group_stale env w co room g =
     (case room_state_of co room of None \<Rightarrow> None | Some s \<Rightarrow> group_stale (ce_clocks env w) s g)"

definition room_data_health_stale :: "'w client_env \<Rightarrow> 'w \<Rightarrow> coordinator \<Rightarrow> room_config \<Rightarrow> bool option" where
  "room_data_health_stale env w co room =
     data_health_stale (ce_clocks env w) (room_state_of co room)
       (unhealthy (ce_clocks env w) (co_writes co) (room_key room)) (has_any (co_writes co) (room_key room))"

section \<open>Effective levels and pending values\<close>

definition levels_reported_since :: "clocks \<Rightarrow> room_state \<Rightarrow> read_health \<Rightarrow> read_health \<Rightarrow> bool" where
  "levels_reported_since ck state flow_control_baseline flow_baseline \<longleftrightarrow>
     read_since ck state ''flow_control'' flow_control_baseline
     \<or> \<not> group_fresh ck state ''flow_control'' \<and> read_since ck state ''flow'' flow_baseline"

definition flow_write_uncertain ::
  "clocks \<Rightarrow> room_config \<Rightarrow> coordinator \<Rightarrow> bool \<times> coordinator" where
  "flow_write_uncertain ck room co =
     (case rt_uncertain_flow (runtime_of co room) of
        None \<Rightarrow> (False, co)
      | Some (flow_control_baseline, flow_baseline) \<Rightarrow>
          (case room_state_of co room of
             None \<Rightarrow> (True, co)
           | Some s \<Rightarrow>
               if levels_reported_since ck s flow_control_baseline flow_baseline
               then (False, set_runtime room (\<lambda>rt. rt\<lparr>rt_uncertain_flow := None\<rparr>) co)
               else (True, co)))"

definition reported_of :: "clocks \<Rightarrow> room_state option \<Rightarrow> level_pair option \<times> level_source option" where
  "reported_of ck state = (case state of None \<Rightarrow> (None, None) | Some s \<Rightarrow> reported_levels ck s)"

definition resolve_levels ::
  "clocks \<Rightarrow> room_config \<Rightarrow> coordinator \<Rightarrow> (level_pair \<times> level_source option) \<times> coordinator" where
  "resolve_levels ck room co =
     (let (uncertain, co1) = flow_write_uncertain ck room co
      in if uncertain then (((None, None), None), co1)
         else let state = room_state_of co1 room;
                  (reported, source) = reported_of ck state
              in (case overlay_active LEVELS_OVERLAY ck (room_key room) state reported (co_levels co1) of
                    Some (s, e) \<Rightarrow> (((Some s, Some e), Some LEVEL_SOURCE_PENDING), co1)
                  | None \<Rightarrow>
                      ((case reported of Some p \<Rightarrow> p | None \<Rightarrow> (None, None), source), co1)))"

definition optimistic_preset_mode :: "clocks \<Rightarrow> coordinator \<Rightarrow> room_config \<Rightarrow> string option" where
  "optimistic_preset_mode ck co room =
     (let state = room_state_of co room
      in overlay_active PRESET_OVERLAY ck (room_key room) state
           (case state of None \<Rightarrow> None | Some s \<Rightarrow> preset_mode s) (co_presets co))"

definition optimistic_intensive :: "clocks \<Rightarrow> coordinator \<Rightarrow> room_config \<Rightarrow> bool option" where
  "optimistic_intensive ck co room =
     (let state = room_state_of co room
      in overlay_active INTENSIVE_OVERLAY ck (room_key room) state
           (case state of None \<Rightarrow> None | Some s \<Rightarrow> intensive_active s) (co_intensive co))"

definition level_write_fallback_of :: "coordinator \<Rightarrow> room_config \<Rightarrow> level_write_fallback option" where
  "level_write_fallback_of co room =
     (case rt_level_fallback (runtime_of co room) of
        None \<Rightarrow> None
      | Some (marker, base) \<Rightarrow>
          (case room_state_of co room of
             None \<Rightarrow> Some marker
           | Some s \<Rightarrow> if mode_read_since s base then None else Some marker))"

definition apply_level_fallback ::
  "room_config \<Rightarrow> level_write_fallback option \<Rightarrow> coordinator \<Rightarrow> coordinator" where
  "apply_level_fallback room fallback co =
     (case fallback of
        None \<Rightarrow>
          if rt_level_fallback (runtime_of co room) \<noteq> None
          then update_listeners (set_runtime room (\<lambda>rt. rt\<lparr>rt_level_fallback := None\<rparr>) co)
          else co
      | Some marker \<Rightarrow>
          update_listeners (set_runtime room
            (\<lambda>rt. rt\<lparr>rt_level_fallback := Some (marker, group_health co room ''flow_control'')\<rparr>) co))"

section \<open>Confirming pending writes\<close>

text \<open>\<open>_record_write_issue\<close>, called for every issue the confirmations report.\<close>

definition with_writes :: "seconds \<Rightarrow> (confirmations \<Rightarrow> confirmations) \<Rightarrow> coordinator \<Rightarrow> coordinator" where
  "with_writes clock f co =
     (let writes = f (co_writes co);
          new = drop (length (issues (co_writes co))) (issues writes)
      in co\<lparr>co_writes := writes,
            co_cumulative := map_option
              (fold (\<lambda>(room, k, st). cumulative_write_issue clock room (write_key_name k) st) new)
              (co_cumulative co)\<rparr>)"

text \<open>The body of the loop over the states: the new coordinator and whether something settled.\<close>

definition settle_room :: "clocks \<Rightarrow> string \<times> room_state \<Rightarrow> coordinator \<times> bool \<Rightarrow> coordinator \<times> bool" where
  "settle_room ck entry acc =
     (let (key, state) = entry;
          (co, changed) = acc;
          (levels, c1) = settle_if_read LEVELS_OVERLAY ck key (Some state)
             (fst (reported_levels ck state)) (co_levels co);
          (presets, c2) = settle_if_read PRESET_OVERLAY ck key (Some state)
             (preset_mode state) (co_presets co);
          (intensive, c3) = settle_if_read INTENSIVE_OVERLAY ck key (Some state)
             (intensive_active state) (co_intensive co);
          co1 = co\<lparr>co_levels := levels, co_presets := presets, co_intensive := intensive\<rparr>
      in case map_of (co_runtimes co1) key of
           None \<Rightarrow> (co1, changed \<or> c1 \<or> c2 \<or> c3)
         | Some rt \<Rightarrow>
             (case rt_level_fallback rt of
                None \<Rightarrow> (co1, changed \<or> c1 \<or> c2 \<or> c3)
              | Some (_, base) \<Rightarrow>
                  if mode_read_since state base
                  then (co1\<lparr>co_runtimes :=
                          AList.update key (rt\<lparr>rt_level_fallback := None\<rparr>) (co_runtimes co1)\<rparr>, True)
                  else (co1, changed \<or> c1 \<or> c2 \<or> c3)))"

definition confirm_pending_writes ::
  "clocks \<Rightarrow> room_states \<Rightarrow> bool \<Rightarrow> string set option \<Rightarrow> coordinator \<Rightarrow> coordinator" where
  "confirm_pending_writes ck states notify updated_rooms co =
     (let confirmed = snd (confirm ck states (co_writes co));
          co1 = with_writes (monotonic ck) (\<lambda>wc. fst (confirm ck states wc)) co;
          (co2, changed) = fold (settle_room ck) states (co1, confirmed)
      in if changed \<and> notify
         then update_listeners (case updated_rooms of
                None \<Rightarrow> co2 | Some keys \<Rightarrow> limit_next_update_to keys co2)
         else co2)"

section \<open>Read slots and silence\<close>

definition read_spacing_remaining :: "coordinator \<Rightarrow> seconds \<Rightarrow> seconds" where
  "read_spacing_remaining co now =
     (case co_last_read_started co of
        None \<Rightarrow> 0
      | Some t \<Rightarrow> t + co_tick_seconds co - now)"

definition wait_for_room_read ::
  "'w client_env \<Rightarrow> coordinator \<Rightarrow> 'w \<Rightarrow> coordinator \<times> 'w" where
  "wait_for_room_read env co w =
     (let remaining = read_spacing_remaining co (now_of env w);
          w1 = (if remaining > 0 then ce_sleep env remaining w else w)
      in (co\<lparr>co_last_read_started := Some (now_of env w1)\<rparr>, w1))"

definition room_silent :: "'w client_env \<Rightarrow> 'w \<Rightarrow> coordinator \<Rightarrow> room_config \<Rightarrow> bool" where
  "room_silent env w co room =
     ((case ce_since_read env (room_slave room) w of
         Some t \<Rightarrow> t
       | None \<Rightarrow> now_of env w - co_started_at co) > ROOM_SILENT_AFTER_SECONDS)"

definition room_of :: "coordinator \<Rightarrow> string \<Rightarrow> room_config option" where
  "room_of co key = find (\<lambda>room. room_key room = key) (co_rooms co)"

definition job_interval :: "'w client_env \<Rightarrow> 'w \<Rightarrow> coordinator \<Rightarrow> room_config \<Rightarrow> poll_job \<Rightarrow> bool \<Rightarrow> seconds" where
  "job_interval env w co room job never =
     interval job (now_of env w - co_started_at co) never (room_silent env w co room)"

section \<open>Planning the next tick\<close>

definition schedule_poll :: "'w client_env \<Rightarrow> 'w \<Rightarrow> seconds \<Rightarrow> coordinator \<Rightarrow> coordinator" where
  "schedule_poll env w delay co =
     co\<lparr>co_poll_timer :=
       (if co_polling_stopped co \<or> ce_stopping env w \<or> ce_polling_disabled env w then None
        else Some (now_of env w + max 0 delay))\<rparr>"

definition set_next_poll_delay :: "'w client_env \<Rightarrow> 'w \<Rightarrow> seconds \<Rightarrow> coordinator \<Rightarrow> coordinator" where
  "set_next_poll_delay env w delay co =
     (let co1 = co\<lparr>co_next_poll_delay := delay\<rparr>
      in if \<not> co_poll_running co1 \<and> co_poll_timer co1 \<noteq> None then schedule_poll env w delay co1 else co1)"

definition due_delays :: "seconds \<Rightarrow> seconds \<Rightarrow> 'v optional_read list \<Rightarrow> seconds \<Rightarrow> seconds" where
  "due_delays clock tick reads delay =
     fold (\<lambda>r d. case seconds_until_due clock r of None \<Rightarrow> d | Some due_in \<Rightarrow> min d (max tick due_in)) reads delay"

definition schedule_next_tick :: "'w client_env \<Rightarrow> 'w \<Rightarrow> coordinator \<Rightarrow> coordinator" where
  "schedule_next_tick env w co =
     (if co_backoff co \<noteq> None then co
      else let clock = now_of env w;
               tick = co_tick_seconds co;
               pending = (case co_startup_jobs co of None \<Rightarrow> False | Some js \<Rightarrow> js \<noteq> []);
               base = next_tick_seconds (co_jobs co) pending tick clock;
               delay = due_delays clock tick (map snd (co_room_reads co))
                 (due_delays clock tick (map snd (co_gateway_reads co)) base)
           in set_next_poll_delay env w delay co)"

definition on_transport_success :: "'w client_env \<Rightarrow> 'w \<Rightarrow> coordinator \<Rightarrow> coordinator" where
  "on_transport_success env w co =
     (let co1 = co\<lparr>co_transport_failures := 0\<rparr>
      in if co_backoff co1 = None then co1
         else schedule_next_tick env w (co1\<lparr>co_backoff := None\<rparr>))"

definition apply_transport_backoff :: "'w client_env \<Rightarrow> 'w \<Rightarrow> coordinator \<Rightarrow> coordinator" where
  "apply_transport_backoff env w co =
     (case backoff_seconds (co_transport_failures co) of
        None \<Rightarrow> co
      | Some delay \<Rightarrow>
          if co_backoff co = Some delay then co
          else set_next_poll_delay env w delay (co\<lparr>co_backoff := Some delay\<rparr>))"

definition on_transport_failure :: "'w client_env \<Rightarrow> 'w \<Rightarrow> coordinator \<Rightarrow> coordinator" where
  "on_transport_failure env w co =
     apply_transport_backoff env w (co\<lparr>co_transport_failures := co_transport_failures co + 1\<rparr>)"

definition update_rate :: "'w client_env \<Rightarrow> 'w \<Rightarrow> seconds \<Rightarrow> coordinator \<Rightarrow> coordinator" where
  "update_rate env w rate co =
     (let co1 = co\<lparr>co_tick_seconds := tick_seconds_of rate\<rparr>
      in if co_backoff co1 = None then schedule_next_tick env w co1 else co1)"

section \<open>The balanced target of a pending write\<close>

definition read_balanced_target_if_pending ::
  "'w client_env \<Rightarrow> room_config \<Rightarrow> room_state \<Rightarrow> room_state \<Rightarrow> coordinator \<Rightarrow> 'w
     \<Rightarrow> (stop + room_state) \<times> coordinator \<times> 'w" where
  "read_balanced_target_if_pending env room state previous co w =
     (let (writes, state1, should_read) =
            prepare_balanced_target_readback (ce_clocks env w) (room_key room) state previous (co_writes co);
          co1 = with_writes (now_of env w) (\<lambda>_. writes) co
      in if \<not> should_read then (Inr state1, co1, w)
         else let (co2, w1) = wait_for_room_read env co1 w;
                  (reply_of, w2) = ce_read_target env room w1
              in (case reply_of of
                    MeltemFailed _ \<Rightarrow>
                      (Inr state1, set_runtime room (\<lambda>rt. rt\<lparr>rt_target_read_failing := True\<rparr>) co2, w2)
                  | Replied target \<Rightarrow>
                      (Inr (case target of None \<Rightarrow> state1
                              | Some t \<Rightarrow> state1\<lparr>balanced_target_readback := Some t\<rparr>),
                       set_runtime room (\<lambda>rt. rt\<lparr>rt_target_read_failing := False\<rparr>) co2, w2)
                  | _ \<Rightarrow> (Inl (stop_of reply_of), co2, w2)))"

end
