(* ===== verification/Coordinator_Poll.thy ===== *)
theory Coordinator_Poll
  imports Coordinator
begin

text \<open>
  The polling half of \<open>coordinator.py\<close>: choosing a job, reading it, the optional gateway reads after it,
  the startup phase, the transport backoff, and the poll tick that plans its successor.
\<close>

section \<open>Choosing a job\<close>

definition job_of :: "coordinator \<Rightarrow> string \<times> string \<Rightarrow> poll_job option" where
  "job_of co jid = find (\<lambda>job. job_id job = jid) (co_jobs co)"

definition select_poll_job ::
  "seconds \<Rightarrow> coordinator \<Rightarrow> poll_job option \<times> bool \<times> coordinator" where
  "select_poll_job now co =
     (let co1 = (if co_startup_jobs co = None \<and> co_data co = []
                 then co\<lparr>co_startup_jobs := Some (map job_id (co_jobs co))\<rparr> else co)
      in if read_spacing_remaining co1 now > 0 then (None, False, co1)
         else case co_startup_jobs co1 of
                Some (jid # rest) \<Rightarrow>
                  (let due = select_due_job
                         (filter (\<lambda>job. job_id job \<notin> set (jid # rest)) (co_jobs co1)) now
                   in if due = None \<or> co_startup_turn co1
                      then (job_of co1 jid, True,
                            co1\<lparr>co_startup_turn := False, co_startup_jobs := Some rest\<rparr>)
                      else (due, False, co1\<lparr>co_startup_turn := True\<rparr>))
              | _ \<Rightarrow> (select_due_job (co_jobs co1) now, False, co1))"

text \<open>\<open>self._rooms_by_key[job.room_key]\<close>: every job was built for a configured room.\<close>

definition job_room_config :: "coordinator \<Rightarrow> poll_job \<Rightarrow> room_config" where
  "job_room_config co job = the (room_of co (job_room job))"

definition set_next_due :: "string \<times> string \<Rightarrow> seconds \<Rightarrow> coordinator \<Rightarrow> coordinator" where
  "set_next_due jid due co = co\<lparr>co_jobs := reschedule jid due (co_jobs co)\<rparr>"

section \<open>Optional reads\<close>

fun stop_of_task :: "'v task_result \<Rightarrow> stop" where
  "stop_of_task (TaskRaised e) = StopRaised e"
| "stop_of_task _ = StopCancelled"

text \<open>
  \<open>async_read_if_due\<close>: whether a read was made, whether its exception goes on, and the value it brought.
  \<open>on_value\<close> runs in \<open>read_gateway_value\<close> below.
\<close>

definition read_if_due ::
  "('w \<Rightarrow> seconds) \<Rightarrow> ('w \<Rightarrow> 'v task_result \<times> 'w) \<Rightarrow> 'v optional_read \<Rightarrow> 'w
     \<Rightarrow> (bool \<times> 'v task_result) option \<times> 'v optional_read \<times> 'w" where
  "read_if_due clock request r w =
     (case begin_read (clock w) r of
        None \<Rightarrow> (None, r, w)
      | Some (generation, r1) \<Rightarrow>
          let (result, w1) = request w;
              (raises, r2) = finish_read (clock w1) generation result r1
          in (Some (raises, result), r2, w1))"

definition read_gateway_value ::
  "'w client_env \<Rightarrow> string \<times> gateway_value optional_read \<Rightarrow> coordinator \<Rightarrow> 'w \<Rightarrow> stop option \<times> coordinator \<times> 'w" where
  "read_gateway_value env entry co w =
     (let (name, r) = entry;
          (result, r', w1) = read_if_due (now_of env) (ce_gateway_read env name) r w
      in case result of
           None \<Rightarrow> (None, co, w1)
         | Some (raises, answer) \<Rightarrow>
             let co1 = co\<lparr>co_gateway_reads := AList.update name r' (co_gateway_reads co)\<rparr>;
                 co2 = (case answer of
                          TaskValue (GatewayUnits units) \<Rightarrow>
                            if name = ''unit_list''
                            then co1\<lparr>co_new_units := update_new_units units
                                   (map room_slave (co_rooms co1)) (co_new_units co1)\<rparr>
                            else co1
                        | _ \<Rightarrow> co1)
             in if raises then (Some (stop_of_task answer), co2, w1)
                else (None, co2\<lparr>co_last_read_started := Some (now_of env w1)\<rparr>, w1))"

fun read_gateway_values ::
  "'w client_env \<Rightarrow> (string \<times> gateway_value optional_read) list \<Rightarrow> coordinator \<Rightarrow> 'w
     \<Rightarrow> stop option \<times> coordinator \<times> 'w" where
  "read_gateway_values env [] co w = (None, co, w)"
| "read_gateway_values env (entry # entries) co w =
     (let (stopped, co1, w1) = read_gateway_value env entry co w
      in if stopped \<noteq> None then (stopped, co1, w1) else read_gateway_values env entries co1 w1)"

text \<open>One due reading of a unit, the one that is due the longest.\<close>

definition due_room_reads :: "seconds \<Rightarrow> coordinator \<Rightarrow> (seconds \<times> (string \<times> string) \<times> int optional_read) list" where
  "due_room_reads clock co =
     List.map_filter (\<lambda>(key, r).
       case seconds_until_due clock r of
         None \<Rightarrow> None
       | Some due \<Rightarrow> if due \<le> 0 then Some (due, key, r) else None) (co_room_reads co)"

text \<open>The rooms whose values changed, or what stopped the reads.\<close>

definition read_optional_values_due ::
  "'w client_env \<Rightarrow> coordinator \<Rightarrow> 'w \<Rightarrow> (stop + string set) \<times> coordinator \<times> 'w" where
  "read_optional_values_due env co w =
     (let (stopped, co1, w1) = read_gateway_values env (co_gateway_reads co) co w
      in case stopped of
           Some reason \<Rightarrow> (Inl reason, co1, w1)
         | None \<Rightarrow>
            (case min_by fst (due_room_reads (now_of env w1) co1) of
                None \<Rightarrow> (Inr {}, co1, w1)
              | Some (_, key, r) \<Rightarrow>
                  (let (result, r', w2) = read_if_due (now_of env) (ce_room_read env key) r w1
                   in case result of
                        None \<Rightarrow> (Inr {}, co1, w2)
                      | Some (raises, answer) \<Rightarrow>
                          let co2 = co1\<lparr>co_room_reads := AList.update key r' (co_room_reads co1)\<rparr>
                          in if raises then (Inl (stop_of_task answer), co2, w2)
                             else (Inr {fst key},
                                   co2\<lparr>co_last_read_started := Some (now_of env w2)\<rparr>, w2))))"

section \<open>One job\<close>

text \<open>What \<open>_read_one_job\<close> does after the read, whether it succeeded or failed.\<close>

definition finish_job ::
  "'w client_env \<Rightarrow> 'w \<Rightarrow> room_config \<Rightarrow> room_states \<Rightarrow> room_state \<Rightarrow> room_state \<Rightarrow> string option
     \<Rightarrow> string list \<Rightarrow> coordinator \<Rightarrow> room_states \<times> coordinator" where
  "finish_job env w room previous_states previous state error failed_groups co =
     (let co1 = log_room_availability env w room state co;
          co2 = (case error of
                   None \<Rightarrow> co1
                 | Some e \<Rightarrow> set_runtime room (\<lambda>rt. rt\<lparr>rt_last_read_error :=
                     Some \<lparr>error_message = e, error_at = utcnow (ce_clocks env w)\<rparr>\<rparr>) co1);
          co3 = co2\<lparr>co_cumulative := map_option
            (fold (\<lambda>g. cumulative_read_failure (now_of env w) (room_key room) g) failed_groups)
            (co_cumulative co2)\<rparr>
      in (if state = previous then previous_states
          else AList.update (room_key room) state previous_states, co3))"

text \<open>What the outcome of an answered read says about the job and its unit.\<close>

definition judge_job :: "room_config \<Rightarrow> read_job_outcome \<Rightarrow> refresh_plan \<Rightarrow> coordinator \<Rightarrow> coordinator" where
  "judge_job room outcome plan co =
     (let failure = job_read_failure_of room outcome plan;
          co1 = co\<lparr>co_missing := record_sensors room outcome (co_missing co),
                   co_job_attempted := job_read_attempted room outcome plan,
                   co_job_error := map_option failure_error failure,
                   co_job_link_failure := job_read_unanswered room outcome plan\<rparr>
      in case failure of
           Some f \<Rightarrow>
             (let optional_rejection = (\<not> link_failure f \<and>
                    list_all (\<lambda>g. g \<in> set OPTIONAL_DIAGNOSTIC_READ_GROUPS) (supported_groups room plan))
              in if job_read_received_values room outcome plan
                 then set_runtime room (\<lambda>rt. rt\<lparr>rt_read_failures := 0\<rparr>) co1
                 else if \<not> optional_rejection
                 then set_runtime room (\<lambda>rt. rt\<lparr>rt_read_failures := rt_read_failures rt + 1\<rparr>) co1
                 else co1)
         | None \<Rightarrow>
             if job_read_succeeded room outcome plan
             then set_runtime room (\<lambda>rt. rt\<lparr>rt_read_failures := 0\<rparr>) co1 else co1)"

definition read_one_job ::
  "'w client_env \<Rightarrow> room_states \<Rightarrow> room_config \<Rightarrow> refresh_plan \<Rightarrow> coordinator \<Rightarrow> 'w
     \<Rightarrow> (stop + room_states) \<times> coordinator \<times> 'w" where
  "read_one_job env previous_states room plan co w =
     (let previous = state_or_empty previous_states room;
          (reply_of, w1) = ce_read_room env room previous plan w
      in case reply_of of
           MeltemFailed err \<Rightarrow>
             (let co1 = set_runtime room (\<lambda>rt. rt\<lparr>rt_read_failures := rt_read_failures rt + 1\<rparr>)
                    (co\<lparr>co_job_error := Some err, co_job_link_failure := True, co_job_attempted := True\<rparr>);
                  state = record_read_failures (utcnow (ce_clocks env w1)) previous room plan err;
                  (states, co2) = finish_job env w1 room previous_states previous state (Some err)
                    (supported_groups room plan) co1
              in (Inr states, co2, w1))
         | Replied rr \<Rightarrow>
             (let outcome = rr_outcome rr;
                  co1 = judge_job room outcome plan co;
                  (state, co2, w2) =
                    (if job_read_failure_of room outcome plan = None
                        \<and> job_read_succeeded room outcome plan \<and> refresh_airflow plan
                     then read_balanced_target_if_pending env room (rr_state rr) previous co1 w1
                     else (Inr (rr_state rr), co1, w1))
              in case state of
                   Inl reason \<Rightarrow> (Inl reason, co2, w2)
                 | Inr s \<Rightarrow>
                     let (states, co3) = finish_job env w2 room previous_states previous s
                           (co_job_error co1) (map fst (errors outcome)) co2
                     in (Inr states, co3, w2))
         | _ \<Rightarrow> (Inl (stop_of reply_of), co, w1))"

section \<open>One poll tick\<close>

text \<open>
  The result of \<open>_async_update_data\<close>: the new states, the \<open>UpdateFailed\<close> it raises, or any other
  exception.
\<close>

datatype update_result = Updated room_states | UpdateFailed | UpdateRaised stop

text \<open>The handler of a \<open>MeltemModbusError\<close>: a job that left a startup without values.\<close>

definition startup_failed :: "'w client_env \<Rightarrow> coordinator \<Rightarrow> 'w \<Rightarrow> update_result \<times> coordinator \<times> 'w" where
  "startup_failed env co w =
     (let co1 = (if co_job_link_failure co then on_transport_failure env w co
                 else if co_job_attempted co then on_transport_success env w co else co)
      in (UpdateFailed,
          if co_backoff co1 = None then set_next_poll_delay env w TRANSPORT_BACKOFF_START_SECONDS co1
          else co1, w))"

text \<open>No job to run: only the optional reads.\<close>

definition idle_tick :: "'w client_env \<Rightarrow> coordinator \<Rightarrow> 'w \<Rightarrow> update_result \<times> coordinator \<times> 'w" where
  "idle_tick env co w =
     (let (rooms, co1, w1) = read_optional_values_due env co w
      in case rooms of
           Inl reason \<Rightarrow> (UpdateRaised reason, co1, w1)
         | Inr keys \<Rightarrow>
             let co2 = schedule_next_tick env w1 co1
             in if co_startup_states co2 \<noteq> [] then (UpdateFailed, co2, w1)
                else (Updated (co_data co2), limit_next_update_to keys co2, w1))"

text \<open>After the job and the optional reads: the startup check, the backoff, the confirmations.\<close>

definition finish_tick ::
  "'w client_env \<Rightarrow> room_config \<Rightarrow> poll_job \<Rightarrow> bool \<Rightarrow> room_states \<Rightarrow> string set \<Rightarrow> coordinator \<Rightarrow> 'w
     \<Rightarrow> update_result \<times> coordinator \<times> 'w" where
  "finish_tick env room job startup states optional_rooms co w =
     (let never = never_read job room states;
          co1 = (if startup \<or> never
                 then set_next_due (job_id job) (now_of env w + job_interval env w co room job never) co
                 else co)
      in if \<not> list_ex (\<lambda>(_, s). has_data s) states
         then startup_failed env (co1\<lparr>co_startup_states := states\<rparr>) w
         else let co2 = co1\<lparr>co_startup_states := []\<rparr>;
                  co3 = (if co_job_link_failure co2 then on_transport_failure env w co2
                         else if co_job_attempted co2 then on_transport_success env w co2 else co2);
                  co4 = confirm_pending_writes (ce_clocks env w) states False None co3;
                  co5 = schedule_next_tick env w co4
              in (Updated states, limit_next_update_to (insert (room_key room) optional_rooms) co5, w))"

definition run_job ::
  "'w client_env \<Rightarrow> room_config \<Rightarrow> poll_job \<Rightarrow> bool \<Rightarrow> coordinator \<Rightarrow> 'w \<Rightarrow> update_result \<times> coordinator \<times> 'w" where
  "run_job env room job startup co w =
     (let now = now_of env w;
          co1 = set_next_due (job_id job) (now + job_interval env w co room job False) co;
          co2 = co1\<lparr>co_last_read_started := Some now, co_job_error := None,
                    co_job_link_failure := False, co_job_attempted := False\<rparr>;
          previous = (if co_data co2 \<noteq> [] then co_data co2 else co_startup_states co2);
          (states, co3, w1) = read_one_job env previous room (job_plan job) co2 w
      in case states of
           Inl reason \<Rightarrow> (UpdateRaised reason, co3, w1)
         | Inr updated \<Rightarrow>
             let (optional_rooms, co4, w2) =
                   (if co_job_link_failure co3 then (Inr {}, co3, w1)
                    else read_optional_values_due env co3 w1)
             in case optional_rooms of
                  Inl reason \<Rightarrow> (UpdateRaised reason, co4, w2)
                | Inr keys \<Rightarrow> finish_tick env room job startup updated keys co4 w2)"

definition update_data :: "'w client_env \<Rightarrow> coordinator \<Rightarrow> 'w \<Rightarrow> update_result \<times> coordinator \<times> 'w" where
  "update_data env co w =
     (let (selected, startup, co1) = select_poll_job (now_of env w) (co\<lparr>co_updated_rooms := None\<rparr>)
      in case selected of
           None \<Rightarrow> idle_tick env co1 w
         | Some job \<Rightarrow> run_job env (job_room_config co1 job) job startup co1 w)"

text \<open>The framework's refresh around it, and \<open>async_poll\<close>, which plans the next tick.\<close>

definition refresh :: "'w client_env \<Rightarrow> coordinator \<Rightarrow> 'w \<Rightarrow> coordinator \<times> 'w" where
  "refresh env co w =
     (let (result, co1, w1) = update_data env co w;
          ((states, success), notifies) = ce_refreshed env
            (case result of Updated states \<Rightarrow> Some states | _ \<Rightarrow> None)
            (co_data co1, co_last_update_success co1);
          co2 = co1\<lparr>co_data := states, co_last_update_success := success\<rparr>
      in (if notifies then update_listeners co2 else co2, w1))"

definition poll :: "'w client_env \<Rightarrow> coordinator \<Rightarrow> 'w \<Rightarrow> coordinator \<times> 'w" where
  "poll env co w =
     (if co_polling_stopped co \<or> ce_stopping env w then (co, w)
      else let (co1, w1) = refresh env (co\<lparr>co_poll_timer := None, co_poll_running := True\<rparr>) w
           in (schedule_poll env w1 (co_next_poll_delay co1) (co1\<lparr>co_poll_running := False\<rparr>), w1))"

section \<open>Consumers of optional values\<close>

definition optional_read_toggled :: "'w client_env \<Rightarrow> 'w \<Rightarrow> bool \<Rightarrow> coordinator \<Rightarrow> coordinator" where
  "optional_read_toggled env w changed co = (if changed then schedule_next_tick env w co else co)"

text \<open>\<open>set_gateway_uptime_enabled\<close> and its siblings; \<open>name\<close> is the key of the read.\<close>

definition set_gateway_read_enabled ::
  "'w client_env \<Rightarrow> 'w \<Rightarrow> string \<Rightarrow> string \<Rightarrow> bool \<Rightarrow> coordinator \<Rightarrow> coordinator" where
  "set_gateway_read_enabled env w name consumer on co =
     (case map_of (co_gateway_reads co) name of
        None \<Rightarrow> co
      | Some r \<Rightarrow>
          let (changed, r') = set_enabled (now_of env w) consumer on r
          in optional_read_toggled env w changed
               (co\<lparr>co_gateway_reads := AList.update name r' (co_gateway_reads co)\<rparr>))"

definition gateway_read_value :: "'w client_env \<Rightarrow> 'w \<Rightarrow> coordinator \<Rightarrow> string \<Rightarrow> gateway_value option" where
  "gateway_read_value env w co name =
     (case map_of (co_gateway_reads co) name of None \<Rightarrow> None | Some r \<Rightarrow> current_value (now_of env w) r)"

definition set_external_input_enabled ::
  "'w client_env \<Rightarrow> 'w \<Rightarrow> string \<Rightarrow> string \<Rightarrow> bool \<Rightarrow> coordinator \<Rightarrow> (meltem_error + unit) \<times> coordinator" where
  "set_external_input_enabled env w key setting on co =
     (case room_of co key of
        None \<Rightarrow> (Inl (KeyError key), co)
      | Some room \<Rightarrow>
          if map_of EXTERNAL_INPUT_REGISTERS setting = None \<or> \<not> supports room setting
          then (Inl (ValueError ''Unsupported external input setting''), co)
          else (case map_of (co_room_reads co) (key, setting) of
                  None \<Rightarrow>
                    if \<not> on then (Inr (), co)
                    else let (changed, r) = set_enabled (now_of env w) setting True
                           (new_optional_read EXTERNAL_INPUT_REFRESH_SECONDS EXTERNAL_INPUT_STALE_SECONDS
                              OPTIONAL_READ_RETRY_SECONDS 0 True)
                         in (Inr (), optional_read_toggled env w changed
                              (co\<lparr>co_room_reads := AList.update (key, setting) r (co_room_reads co)\<rparr>))
                | Some r \<Rightarrow>
                    let (changed, r') = set_enabled (now_of env w) setting on r
                    in (Inr (), optional_read_toggled env w changed
                         (co\<lparr>co_room_reads := AList.update (key, setting) r' (co_room_reads co)\<rparr>))))"

definition external_input_value :: "'w client_env \<Rightarrow> 'w \<Rightarrow> coordinator \<Rightarrow> string \<Rightarrow> string \<Rightarrow> int option" where
  "external_input_value env w co key setting =
     (case map_of (co_room_reads co) (key, setting) of
        None \<Rightarrow> None
      | Some r \<Rightarrow> if read_enabled r then current_value (now_of env w) r else None)"

text \<open>\<open>async_shutdown\<close> up to the framework's own shutdown.\<close>

definition switch_off :: "seconds \<Rightarrow> 'v optional_read \<Rightarrow> 'v optional_read" where
  "switch_off clock r =
     (if consumers r = {} then r
      else r\<lparr>consumers := {}, disable_generation := disable_generation r + 1,
             read_value := (if clear_on_disable r then None else read_value r),
             read_at := (if clear_on_disable r then None else read_at r)\<rparr>)"

definition shutdown_coordinator :: "'w client_env \<Rightarrow> 'w \<Rightarrow> coordinator \<Rightarrow> coordinator" where
  "shutdown_coordinator env w co =
     co\<lparr>co_polling_stopped := True, co_poll_timer := None,
        co_gateway_reads := map (\<lambda>(k, r). (k, switch_off (now_of env w) r)) (co_gateway_reads co),
        co_room_reads := map (\<lambda>(k, r). (k, switch_off (now_of env w) r)) (co_room_reads co),
        co_presets := overlay_shutdown (co_presets co),
        co_intensive := overlay_shutdown (co_intensive co),
        co_levels := overlay_shutdown (co_levels co)\<rparr>"

end
