(* ===== verification/Coordinator_Writes.thy ===== *)
theory Coordinator_Writes
  imports Coordinator_Poll
begin

text \<open>
  The commands of \<open>coordinator.py\<close>: every write goes through \<open>write_with_confirmation\<close>, which records
  what was asked for, shows it, withdraws what it replaces, and judges it by a readback; failed and
  cancelled writes take their own paths.
\<close>

section \<open>Results\<close>

text \<open>How a command ends for its caller.\<close>

datatype command_result =
    CommandDone
  | CommandFailed meltem_error
  | CommandRaised exn
  | CommandCancelled

fun stopped_command :: "stop \<Rightarrow> command_result" where
  "stopped_command (StopRaised e) = CommandRaised e"
| "stopped_command StopCancelled = CommandCancelled"

section \<open>The refresh after a write\<close>

definition publish :: "'w client_env \<Rightarrow> room_states \<Rightarrow> coordinator \<Rightarrow> coordinator" where
  "publish env states co =
     (let (d, success) = ce_published env states (co_data co, co_last_update_success co)
      in update_listeners (co\<lparr>co_data := d, co_last_update_success := success\<rparr>))"

definition finish_refresh ::
  "'w client_env \<Rightarrow> 'w \<Rightarrow> room_config \<Rightarrow> room_state \<Rightarrow> room_state \<Rightarrow> bool \<Rightarrow> coordinator \<Rightarrow> coordinator" where
  "finish_refresh env w room previous refreshed read_failed co =
     (let states = AList.update (room_key room) refreshed (co_data co)
      in if refreshed \<noteq> previous
         then let co1 = limit_next_update_to {room_key room}
                    (confirm_pending_writes (ce_clocks env w) states False None co)
              in if read_failed \<and> \<not> co_last_update_success co1
                 then update_listeners (co1\<lparr>co_data := states\<rparr>)
                 else publish env states co1
         else confirm_pending_writes (ce_clocks env w) states True (Some {room_key room}) co)"

text \<open>What stopped the refresh, if anything did, with the coordinator it left.\<close>

definition refresh_room_after_write ::
  "'w client_env \<Rightarrow> room_config \<Rightarrow> refresh_plan \<Rightarrow> coordinator \<Rightarrow> 'w \<Rightarrow> stop option \<times> coordinator \<times> 'w" where
  "refresh_room_after_write env room plan co w =
     (let (co1, w1) = wait_for_room_read env co w;
          previous = state_or_empty (co_data co1) room;
          (reply_of, w2) = ce_read_room env room previous plan w1
      in case reply_of of
           MeltemFailed err \<Rightarrow>
             (None, finish_refresh env w2 room previous
                (record_read_failures (utcnow (ce_clocks env w2)) previous room plan err) True co1, w2)
         | Replied rr \<Rightarrow>
             (let (state, co2, w3) =
                    (if refresh_airflow plan
                     then read_balanced_target_if_pending env room (rr_state rr) previous co1 w2
                     else (Inr (rr_state rr), co1, w2))
              in case state of
                   Inl reason \<Rightarrow> (Some reason, co2, w3)
                 | Inr refreshed \<Rightarrow> (None, finish_refresh env w3 room previous refreshed False co2, w3))
         | _ \<Rightarrow> (Some (stop_of reply_of), co1, w2))"

section \<open>Overlays of a write\<close>

text \<open>\<open>self._overlays\<close>: the writes whose value is shown at once. A change of an overlay notifies.\<close>

definition notify_if :: "bool \<Rightarrow> coordinator \<Rightarrow> coordinator" where
  "notify_if shown co = (if shown then update_listeners co else co)"

fun clear_overlay :: "write_key \<Rightarrow> room_config \<Rightarrow> coordinator \<Rightarrow> coordinator" where
  "clear_overlay AirflowLevels room co =
     (let (ov, shown) = overlay_clear (room_key room) (co_levels co)
      in notify_if shown (co\<lparr>co_levels := ov\<rparr>))"
| "clear_overlay PresetMode room co =
     (let (ov, shown) = overlay_clear (room_key room) (co_presets co)
      in notify_if shown (co\<lparr>co_presets := ov\<rparr>))"
| "clear_overlay Intensive room co =
     (let (ov, shown) = overlay_clear (room_key room) (co_intensive co)
      in notify_if shown (co\<lparr>co_intensive := ov\<rparr>))"
| "clear_overlay _ room co = co"

fun show_overlay :: "clocks \<Rightarrow> write_key \<Rightarrow> room_config \<Rightarrow> write_value \<Rightarrow> coordinator \<Rightarrow> coordinator" where
  "show_overlay ck AirflowLevels room (WPair s e) co =
     update_listeners (co\<lparr>co_levels := fst (overlay_set LEVELS_OVERLAY ck (room_state_of co room) (room_key room) (s, e) (co_levels co))\<rparr>)"
| "show_overlay ck PresetMode room (WStr p) co =
     update_listeners (co\<lparr>co_presets := fst (overlay_set PRESET_OVERLAY ck (room_state_of co room) (room_key room) p (co_presets co))\<rparr>)"
| "show_overlay ck Intensive room (WBool b) co =
     update_listeners (co\<lparr>co_intensive := fst (overlay_set INTENSIVE_OVERLAY ck (room_state_of co room) (room_key room) b (co_intensive co))\<rparr>)"
| "show_overlay ck k room v co = update_listeners co"

definition clear_flow_overlays :: "room_config \<Rightarrow> coordinator \<Rightarrow> coordinator" where
  "clear_flow_overlays room co =
     fold (\<lambda>k. clear_overlay k room) [AirflowLevels, PresetMode, Intensive] co"

section \<open>Writing with confirmation\<close>

definition readback_plan :: "write_key \<Rightarrow> refresh_plan" where
  "readback_plan k =
     (if write_group k = ''control_settings'' then CONTROL_SETTINGS_REFRESH_PLAN else AIRFLOW_REFRESH_PLAN)"

definition settle_seconds :: "write_key \<Rightarrow> seconds" where
  "settle_seconds k =
     (if write_group k = ''control_settings'' then CONTROL_SETTING_SETTLE_SECONDS else WRITE_SETTLE_SECONDS)"

definition range_check :: "coordinator \<Rightarrow> room_config \<Rightarrow> write_key \<Rightarrow> write_value \<Rightarrow> meltem_error + unit" where
  "range_check co room k expected =
     (case (k, expected) of
        (ControlSetting key, WInt n) \<Rightarrow>
          check_control_level_range (co_writes co) room (state_or_empty (co_data co) room) key n
      | (ControlSetting key, WBool b) \<Rightarrow>
          check_control_level_range (co_writes co) room (state_or_empty (co_data co) room) key (of_bool b)
      | _ \<Rightarrow> Inr ())"

text \<open>The cancelled write: it may have reached the unit, so nothing shown before it can be trusted.\<close>

definition cancelled_write ::
  "clocks \<Rightarrow> room_config \<Rightarrow> write_key \<Rightarrow> write_value \<Rightarrow> read_health \<Rightarrow> coordinator \<Rightarrow> coordinator" where
  "cancelled_write ck room k expected base co =
     (let co1 = (if write_group k = ''flow_control''
                 then clear_flow_overlays room (set_runtime room
                   (\<lambda>rt. rt\<lparr>rt_uncertain_flow := Some (base, group_health co room ''flow'')\<rparr>) co)
                 else clear_overlay k room co)
      in update_listeners (with_writes (monotonic ck)
           (\<lambda>wc. fst (mark_unconfirmed (room_key room) k ''Write was cancelled''
             (record_pending ck (room_key room) k expected base (fst (supersede (room_key room) k wc))))) co1))"

definition failed_write ::
  "clocks \<Rightarrow> room_config \<Rightarrow> write_key \<Rightarrow> write_value \<Rightarrow> read_health \<Rightarrow> string \<Rightarrow> coordinator \<Rightarrow> coordinator" where
  "failed_write ck room k expected base err co =
     update_listeners (with_writes (monotonic ck)
       (\<lambda>wc. fst (set_status (room_key room) k WriteFailed (Some err) None
          (record_pending ck (room_key room) k expected base wc)))
       (clear_overlay k room co))"

text \<open>The accepted write: it replaces older commands, and its own value is shown.\<close>

definition accepted_write ::
  "clocks \<Rightarrow> room_config \<Rightarrow> write_key \<Rightarrow> write_value \<Rightarrow> write_value \<Rightarrow> read_health \<Rightarrow> coordinator \<Rightarrow> coordinator" where
  "accepted_write ck room k expected confirmed_expected base co =
     (let superseded = snd (supersede (room_key room) k (co_writes co));
          co1 = with_writes (monotonic ck)
            (\<lambda>wc. record_pending ck (room_key room) k confirmed_expected base
              (fst (supersede (room_key room) k wc))) co;
          co2 = fold (\<lambda>previous. clear_overlay previous room) superseded co1
      in show_overlay ck k room expected co2)"

definition write_with_confirmation ::
  "'w client_env \<Rightarrow> room_config \<Rightarrow> write_key \<Rightarrow> write_value \<Rightarrow> write_command \<Rightarrow> bool \<Rightarrow> bool
     \<Rightarrow> coordinator \<Rightarrow> 'w \<Rightarrow> command_result \<times> coordinator \<times> 'w" where
  "write_with_confirmation env room k expected command read_back use_result co w =
     (let base = group_health co room (write_group k)
      in case range_check co room k expected of
           Inl e \<Rightarrow> (CommandFailed e, co, w)
         | Inr _ \<Rightarrow>
             (let (reply_of, w1) = ce_write env command w;
                  ck = ce_clocks env w1
              in case reply_of of
                   CallCancelled \<Rightarrow> (CommandCancelled, cancelled_write ck room k expected base co, w1)
                 | OtherFailed e \<Rightarrow> (CommandRaised e, co, w1)
                 | MeltemFailed err \<Rightarrow>
                     (let (stopped, co1, w2) = refresh_room_after_write env room (readback_plan k)
                            (failed_write ck room k expected base err co) w1
                      in (case stopped of
                            Some reason \<Rightarrow> stopped_command reason
                          | None \<Rightarrow> CommandFailed (HomeAssistantError ''write_failed''), co1, w2))
                 | Replied written \<Rightarrow>
                     (let confirmed_expected = (case written of
                            Some n \<Rightarrow> if use_result then WInt n else expected | None \<Rightarrow> expected);
                          co1 = accepted_write ck room k expected confirmed_expected base co
                      in if \<not> read_back then (CommandDone, co1, w1)
                         else let w2 = ce_sleep env (settle_seconds k) w1;
                                  (stopped, co2, w3) =
                                    refresh_room_after_write env room (readback_plan k) co1 w2
                              in case stopped of
                                   Some reason \<Rightarrow> (stopped_command reason, co2, w3)
                                 | None \<Rightarrow>
                                      let marked = snd (mark_unconfirmed (room_key room) k
                                            ''No matching device readback was received'' (co_writes co2));
                                          co3 = with_writes (now_of env w3) (\<lambda>wc. fst (mark_unconfirmed
                                            (room_key room) k
                                            ''No matching device readback was received'' wc)) co2
                                      in (CommandDone, if marked then update_listeners co3 else co3, w3))))"

section \<open>Commands\<close>

definition set_level_locked ::
  "'w client_env \<Rightarrow> room_config \<Rightarrow> int \<Rightarrow> coordinator \<Rightarrow> 'w \<Rightarrow> command_result \<times> coordinator \<times> 'w" where
  "set_level_locked env room level co w =
     (let co1 = clear_overlay PresetMode room co;
          co2 = (if level = 0 then clear_overlay Intensive room co1 else co1)
      in write_with_confirmation env room AirflowLevels (WPair level level) (WriteLevel room level)
           False False co2 w)"

definition set_unbalanced_levels_locked ::
  "'w client_env \<Rightarrow> room_config \<Rightarrow> int \<Rightarrow> int \<Rightarrow> coordinator \<Rightarrow> 'w \<Rightarrow> command_result \<times> coordinator \<times> 'w" where
  "set_unbalanced_levels_locked env room supply_level extract_level co w =
     write_with_confirmation env room AirflowLevels (WPair supply_level extract_level)
       (WriteUnbalanced room supply_level extract_level) False False (clear_overlay PresetMode room co) w"

definition airflow_unknown :: meltem_error where
  "airflow_unknown = HomeAssistantError ''airflow_unknown''"

definition set_direction_level_locked ::
  "'w client_env \<Rightarrow> room_config \<Rightarrow> string \<Rightarrow> int \<Rightarrow> coordinator \<Rightarrow> 'w \<Rightarrow> command_result \<times> coordinator \<times> 'w" where
  "set_direction_level_locked env room direction level co w =
     (let ck = ce_clocks env w;
          (uncertain, co1) = flow_write_uncertain ck room co
      in if uncertain then (CommandFailed airflow_unknown, co1, w)
         else let ((resolved, resolved_source), co2) = resolve_levels ck room co1;
                  (levels, source) =
                    (case overlay_get LEVELS_OVERLAY ck (room_key room) None (co_levels co2) of
                       Some (s, e) \<Rightarrow> ((Some s, Some e), Some LEVEL_SOURCE_PENDING)
                     | None \<Rightarrow> (resolved, resolved_source));
                  state = state_or_empty (co_data co2) room
              in case plan_direction_write room state levels source direction level of
                   Inl e \<Rightarrow> (CommandFailed e, co2, w)
                 | Inr (planned, fallback) \<Rightarrow>
                     (let (result, co3, w1) = (case planned of
                            Balanced n \<Rightarrow> set_level_locked env room n co2 w
                          | Separate s e \<Rightarrow> set_unbalanced_levels_locked env room s e co2 w)
                      in if result = CommandDone
                         then (result, apply_level_fallback room fallback co3, w1)
                         else (result, co3, w1)))"

definition set_operation_mode_locked ::
  "'w client_env \<Rightarrow> room_config \<Rightarrow> string \<Rightarrow> coordinator \<Rightarrow> 'w \<Rightarrow> command_result \<times> coordinator \<times> 'w" where
  "set_operation_mode_locked env room requested co w =
     (let ck = ce_clocks env w;
          state = state_or_empty (co_data co) room;
          (uncertain, co1) = flow_write_uncertain ck room co
      in if uncertain then (CommandFailed airflow_unknown, co1, w)
         else if requested = OPERATION_MODE_INACTIVE
              \<and> in_modes (operation_mode state) DIRECT_OPERATION_MODES
              \<and> group_fresh ck state ''flow_control''
         then (CommandDone, co1, w)
         else let op = (if requested = OPERATION_MODE_INACTIVE then OPERATION_MODE_MANUAL else requested);
                  ((effective, _), co2) = resolve_levels ck room co1;
                  (balanced_level, extract_level) = mode_write_levels state effective
              in if balanced_level = None \<and> op \<in> {OPERATION_MODE_MANUAL, OPERATION_MODE_UNBALANCED}
                 then (CommandFailed airflow_unknown, co2, w)
                 else let co3 = (if op = OPERATION_MODE_OFF then clear_overlay Intensive room co2 else co2);
                          co4 = clear_overlay AirflowLevels room co3
                      in write_with_confirmation env room OperationMode (WStr op)
                           (WriteMode room op (case balanced_level of None \<Rightarrow> 0 | Some n \<Rightarrow> n)
                              (case extract_level of None \<Rightarrow> 0 | Some n \<Rightarrow> n))
                           True False co4 w)"

definition set_preset_mode_locked ::
  "'w client_env \<Rightarrow> room_config \<Rightarrow> string \<Rightarrow> coordinator \<Rightarrow> 'w \<Rightarrow> command_result \<times> coordinator \<times> 'w" where
  "set_preset_mode_locked env room preset co w =
     write_with_confirmation env room PresetMode (WStr preset) (WritePreset room preset) True False
       (clear_overlay AirflowLevels room co) w"

definition clear_preset_mode_locked ::
  "'w client_env \<Rightarrow> room_config \<Rightarrow> coordinator \<Rightarrow> 'w \<Rightarrow> command_result \<times> coordinator \<times> 'w" where
  "clear_preset_mode_locked env room co w =
     (let state = state_or_empty (co_data co) room;
          shown = optimistic_preset_mode (ce_clocks env w) co room;
          effective = (case shown of
              Some p \<Rightarrow> if p \<noteq> [] then Some p else preset_mode state
            | None \<Rightarrow> preset_mode state)
      in if effective = None \<or> effective = Some PRESET_MODE_INACTIVE
         then (CommandDone, clear_overlay PresetMode room co, w)
         else let op = (if effective \<in> {Some PRESET_MODE_EXTRACT_ONLY, Some PRESET_MODE_SUPPLY_ONLY}
                        then OPERATION_MODE_UNBALANCED else OPERATION_MODE_MANUAL);
                  (result, co1, w1) = set_operation_mode_locked env room op co w
              in if result = CommandDone then (result, clear_overlay PresetMode room co1, w1)
                 else (result, co1, w1))"

definition activate_intensive ::
  "'w client_env \<Rightarrow> room_config \<Rightarrow> coordinator \<Rightarrow> 'w \<Rightarrow> command_result \<times> coordinator \<times> 'w" where
  "activate_intensive env room co w =
     write_with_confirmation env room Intensive (WBool True) (WritePreset room PRESET_MODE_INTENSIVE)
       True False co w"

definition deactivate_intensive ::
  "'w client_env \<Rightarrow> room_config \<Rightarrow> coordinator \<Rightarrow> 'w \<Rightarrow> command_result \<times> coordinator \<times> 'w" where
  "deactivate_intensive env room co w =
     write_with_confirmation env room Intensive (WBool False) (WriteClearIntensive room) True False co w"

definition set_control_setting ::
  "'w client_env \<Rightarrow> room_config \<Rightarrow> string \<Rightarrow> int \<Rightarrow> coordinator \<Rightarrow> 'w \<Rightarrow> command_result \<times> coordinator \<times> 'w" where
  "set_control_setting env room setting_key v co w =
     write_with_confirmation env room (ControlSetting setting_key) (WInt v)
       (WriteControlSetting room setting_key v) True True co w"

text \<open>The commands of the entities; an unknown unit is a \<open>KeyError\<close> of \<open>self._rooms_by_key\<close>.\<close>

datatype command =
    SetLevel int
  | SetUnbalancedLevels int int
  | SetDirectionLevel string int
  | SetOperationMode string
  | SetPresetMode string
  | ClearPresetMode
  | ActivateIntensive
  | DeactivateIntensive
  | SetControlSetting string int

fun run_command ::
  "'w client_env \<Rightarrow> command \<Rightarrow> room_config \<Rightarrow> coordinator \<Rightarrow> 'w \<Rightarrow> command_result \<times> coordinator \<times> 'w" where
  "run_command env (SetLevel level) room = set_level_locked env room level"
| "run_command env (SetUnbalancedLevels s e) room = set_unbalanced_levels_locked env room s e"
| "run_command env (SetDirectionLevel d level) room = set_direction_level_locked env room d level"
| "run_command env (SetOperationMode op) room = set_operation_mode_locked env room op"
| "run_command env (SetPresetMode p) room = set_preset_mode_locked env room p"
| "run_command env ClearPresetMode room = clear_preset_mode_locked env room"
| "run_command env ActivateIntensive room = activate_intensive env room"
| "run_command env DeactivateIntensive room = deactivate_intensive env room"
| "run_command env (SetControlSetting key v) room = set_control_setting env room key v"

definition command_for ::
  "'w client_env \<Rightarrow> command \<Rightarrow> string \<Rightarrow> coordinator \<Rightarrow> 'w \<Rightarrow> command_result \<times> coordinator \<times> 'w" where
  "command_for env cmd key co w =
     (case room_of co key of
        None \<Rightarrow> (CommandFailed (KeyError key), co, w)
      | Some room \<Rightarrow> run_command env cmd room co w)"

end
