(* ===== verification/Device_Blocks.thy ===== *)
theory Device_Blocks
  imports Client_Writes
begin

text \<open>
  \<open>device/components.py\<close> and the device classes of \<open>device/device.py\<close>: the register blocks, their
  fields, and which blocks a unit, the setup probe and the gateway have. How \<open>modbus_connection.model\<close>
  reads and decodes a block is not part of the repository; what is fixed here is where each field lies.
\<close>

section \<open>Register blocks\<close>

datatype register_field = RawRegister int | Uint32 int | Float32 int

fun field_registers :: "register_field \<Rightarrow> int list" where
  "field_registers (RawRegister a) = [a]"
| "field_registers (Uint32 a) = [a, a + 1]"
| "field_registers (Float32 a) = [a, a + 1]"

text \<open>The component classes; \<open>RegisterAt a\<close> is \<open>Register(unit, base_offset=a)\<close>.\<close>

datatype register_block =
    RegisterAt int
  | GatewayMac | GatewayUptime | GatewayUtcClock | GatewayRfStatistics
  | FanMotorHours | Airflow | ModeBlock | ModeStatus | Command | Status | Temperatures
  | AirQuality | ExtractAirQuality | SupplyAirQuality | SupplyTemperature | OperatingHours
  | ControlSettings | ProductId | AppSetupCode

fun block_range :: "register_block \<Rightarrow> int \<times> int" where
  "block_range (RegisterAt a) = (a, a)"
| "block_range GatewayMac = (REGISTER_GATEWAY_MAC_START, REGISTER_GATEWAY_MAC_START + 2)"
| "block_range GatewayUptime = (REGISTER_GATEWAY_UPTIME, REGISTER_GATEWAY_UPTIME + 1)"
| "block_range GatewayUtcClock = (REGISTER_GATEWAY_UTC_CLOCK, REGISTER_GATEWAY_UTC_CLOCK + 1)"
| "block_range GatewayRfStatistics =
     (REGISTER_GATEWAY_RF_MESSAGES_CURRENT_HOUR, REGISTER_GATEWAY_RF_LOAD_PREVIOUS_HOUR + 1)"
| "block_range FanMotorHours = (REGISTER_FAN_MOTOR_HOURS, REGISTER_FAN_MOTOR_HOURS + 1)"
| "block_range Airflow = (REGISTER_EXTRACT_AIR_FLOW, REGISTER_SUPPLY_AIR_FLOW)"
| "block_range ModeBlock = (REGISTER_MODE, REGISTER_PRESET_VALUE)"
| "block_range ModeStatus = (REGISTER_MODE_STATUS, REGISTER_EXTRACT_MODE_STATUS)"
| "block_range Command = (REGISTER_APPLY, REGISTER_APPLY)"
| "block_range Status = (REGISTER_ERROR_STATUS, REGISTER_FROST_PROTECTION_ACTIVE)"
| "block_range Temperatures = (REGISTER_EXTRACT_AIR_TEMPERATURE, REGISTER_EXHAUST_AIR_TEMPERATURE + 1)"
| "block_range AirQuality = (REGISTER_HUMIDITY_EXTRACT_AIR, REGISTER_VOC_SUPPLY_AIR)"
| "block_range ExtractAirQuality = (REGISTER_HUMIDITY_EXTRACT_AIR, REGISTER_CO2_EXTRACT_AIR)"
| "block_range SupplyAirQuality = (REGISTER_HUMIDITY_SUPPLY_AIR, REGISTER_HUMIDITY_SUPPLY_AIR)"
| "block_range SupplyTemperature = (REGISTER_SUPPLY_AIR_TEMPERATURE, REGISTER_SUPPLY_AIR_TEMPERATURE + 1)"
| "block_range OperatingHours = (REGISTER_OPERATING_HOURS, REGISTER_OPERATING_HOURS + 1)"
| "block_range ControlSettings = (REGISTER_HUMIDITY_STARTING_POINT, REGISTER_CO2_MAX_LEVEL)"
| "block_range ProductId = (REGISTER_PRODUCT_ID, REGISTER_PRODUCT_ID + 1)"
| "block_range AppSetupCode = (REGISTER_APP_SETUP_CODE, REGISTER_APP_SETUP_CODE + 1)"

fun block_fields :: "register_block \<Rightarrow> (string, register_field) dict" where
  "block_fields (RegisterAt a) = [(''value'', RawRegister a)]"
| "block_fields GatewayMac =
     [(''word_1'', RawRegister REGISTER_GATEWAY_MAC_START),
      (''word_2'', RawRegister (REGISTER_GATEWAY_MAC_START + 1)),
      (''word_3'', RawRegister (REGISTER_GATEWAY_MAC_START + 2))]"
| "block_fields GatewayUptime = [(''uptime'', Uint32 REGISTER_GATEWAY_UPTIME)]"
| "block_fields GatewayUtcClock = [(''value'', Uint32 REGISTER_GATEWAY_UTC_CLOCK)]"
| "block_fields GatewayRfStatistics =
     [(''messages_current_hour'', RawRegister REGISTER_GATEWAY_RF_MESSAGES_CURRENT_HOUR),
      (''messages_previous_hour'', RawRegister REGISTER_GATEWAY_RF_MESSAGES_PREVIOUS_HOUR),
      (''load_current_hour'', Float32 REGISTER_GATEWAY_RF_LOAD_CURRENT_HOUR),
      (''load_previous_hour'', Float32 REGISTER_GATEWAY_RF_LOAD_PREVIOUS_HOUR)]"
| "block_fields FanMotorHours = [(''value'', Uint32 REGISTER_FAN_MOTOR_HOURS)]"
| "block_fields Airflow =
     [(''extract_air_flow'', RawRegister REGISTER_EXTRACT_AIR_FLOW),
      (''supply_air_flow'', RawRegister REGISTER_SUPPLY_AIR_FLOW)]"
| "block_fields ModeBlock =
     [(''mode'', RawRegister REGISTER_MODE), (''current_level'', RawRegister REGISTER_CURRENT_LEVEL),
      (''extract_target_level'', RawRegister REGISTER_EXTRACT_AIR_TARGET_LEVEL),
      (''preset_mode'', RawRegister REGISTER_PRESET_MODE),
      (''preset_value'', RawRegister REGISTER_PRESET_VALUE)]"
| "block_fields ModeStatus =
     [(''mode'', RawRegister REGISTER_MODE_STATUS),
      (''current_level'', RawRegister REGISTER_SUPPLY_MODE_STATUS),
      (''extract_target_level'', RawRegister REGISTER_EXTRACT_MODE_STATUS)]"
| "block_fields Command = [(''apply'', RawRegister REGISTER_APPLY)]"
| "block_fields Status =
     [(''error_status'', RawRegister REGISTER_ERROR_STATUS),
      (''filter_change_due'', RawRegister REGISTER_FILTER_CHANGE_DUE),
      (''frost_protection_active'', RawRegister REGISTER_FROST_PROTECTION_ACTIVE)]"
| "block_fields Temperatures =
     [(''extract_air_temperature'', Float32 REGISTER_EXTRACT_AIR_TEMPERATURE),
      (''outdoor_air_temperature'', Float32 REGISTER_OUTDOOR_AIR_TEMPERATURE),
      (''exhaust_temperature'', Float32 REGISTER_EXHAUST_AIR_TEMPERATURE)]"
| "block_fields AirQuality =
     [(''humidity_extract_air'', RawRegister REGISTER_HUMIDITY_EXTRACT_AIR),
      (''co2_extract_air'', RawRegister REGISTER_CO2_EXTRACT_AIR),
      (''voc_extract_air'', RawRegister REGISTER_VOC_EXTRACT_AIR),
      (''humidity_supply_air'', RawRegister REGISTER_HUMIDITY_SUPPLY_AIR),
      (''co2_supply_air'', RawRegister REGISTER_CO2_SUPPLY_AIR),
      (''voc_supply_air'', RawRegister REGISTER_VOC_SUPPLY_AIR)]"
| "block_fields ExtractAirQuality =
     [(''humidity_extract_air'', RawRegister REGISTER_HUMIDITY_EXTRACT_AIR),
      (''co2_extract_air'', RawRegister REGISTER_CO2_EXTRACT_AIR)]"
| "block_fields SupplyAirQuality =
     [(''humidity_supply_air'', RawRegister REGISTER_HUMIDITY_SUPPLY_AIR)]"
| "block_fields SupplyTemperature =
     [(''supply_air_temperature'', Float32 REGISTER_SUPPLY_AIR_TEMPERATURE)]"
| "block_fields OperatingHours = [(''operating_hours'', Uint32 REGISTER_OPERATING_HOURS)]"
| "block_fields ControlSettings =
     [(''humidity_starting_point'', RawRegister REGISTER_HUMIDITY_STARTING_POINT),
      (''humidity_min_level'', RawRegister REGISTER_HUMIDITY_MIN_LEVEL),
      (''humidity_max_level'', RawRegister REGISTER_HUMIDITY_MAX_LEVEL),
      (''co2_starting_point'', RawRegister REGISTER_CO2_STARTING_POINT),
      (''co2_min_level'', RawRegister REGISTER_CO2_MIN_LEVEL),
      (''co2_max_level'', RawRegister REGISTER_CO2_MAX_LEVEL)]"
| "block_fields ProductId = [(''product_id'', Uint32 REGISTER_PRODUCT_ID)]"
| "block_fields AppSetupCode =
     [(''low_word'', RawRegister REGISTER_APP_SETUP_CODE),
      (''high_word'', RawRegister (REGISTER_APP_SETUP_CODE + 1))]"

text \<open>Every field lies inside the range its block reads, and the write block is the mock's.\<close>

lemma fields_in_range:
  "(name, f) \<in> set (block_fields b) \<Longrightarrow> r \<in> set (field_registers f) \<Longrightarrow>
     fst (block_range b) \<le> r \<and> r \<le> snd (block_range b)"
  by (cases b) auto

lemma mode_block_fields: "block_fields ModeBlock = map (\<lambda>(n, r). (n, RawRegister r)) MODE_BLOCK"
  by (simp add: MODE_BLOCK_def)

section \<open>Devices\<close>

text \<open>A component of a device: its block, and the fields it is restricted to.\<close>

record device_component =
  dc_block :: register_block
  dc_only :: "string list option"

definition whole :: "register_block \<Rightarrow> device_component" where
  "whole b = \<lparr>dc_block = b, dc_only = None\<rparr>"

definition only :: "register_block \<Rightarrow> string list \<Rightarrow> device_component" where
  "only b names = \<lparr>dc_block = b, dc_only = Some names\<rparr>"

definition component_fields :: "device_component \<Rightarrow> (string, register_field) dict" where
  "component_fields c =
     (case dc_only c of
        None \<Rightarrow> block_fields (dc_block c)
      | Some names \<Rightarrow> filter (\<lambda>(n, _). n \<in> set names) (block_fields (dc_block c)))"

type_synonym device = "(string, device_component) dict"

text \<open>\<open>MeltemRoomDevice\<close>; its arguments follow from the profile, as \<open>_room_device\<close> passes them.\<close>

definition room_device :: "bool \<Rightarrow> bool \<Rightarrow> device" where
  "room_device exhaust_temperature_only has_co2 =
     [(''airflow'', whole Airflow),
      (''temperatures'', if exhaust_temperature_only then only Temperatures [''exhaust_temperature'']
                         else whole Temperatures),
      (''supply_temperature'', whole SupplyTemperature),
      (''air_quality'', whole AirQuality),
      (''extract_air_quality'', if has_co2 then whole ExtractAirQuality
                                else only ExtractAirQuality [''humidity_extract_air'']),
      (''supply_air_quality'', whole SupplyAirQuality),
      (''status'', whole Status),
      (''days_until_filter_change'', whole (RegisterAt REGISTER_DAYS_UNTIL_FILTER_CHANGE)),
      (''operating_hours'', whole OperatingHours),
      (''fan_motor_hours'', whole FanMotorHours),
      (''software_version'', whole (RegisterAt REGISTER_SOFTWARE_VERSION)),
      (''app_setup_code'', whole AppSetupCode),
      (''control_settings'', if has_co2 then whole ControlSettings
         else only ControlSettings
           [''humidity_starting_point'', ''humidity_min_level'', ''humidity_max_level'']),
      (''rf_comm_status'', whole (RegisterAt REGISTER_RF_COMM_STATUS)),
      (''device_fault'', whole (RegisterAt REGISTER_DEVICE_FAULT)),
      (''value_error_status'', whole (RegisterAt REGISTER_VALUE_ERROR_STATUS)),
      (''rf_last_seen_age'', whole (RegisterAt REGISTER_RF_LAST_SEEN_AGE)),
      (''rf_signal_strength'', whole (RegisterAt REGISTER_RF_SIGNAL_STRENGTH)),
      (''mode'', whole ModeBlock),
      (''current_level_readback'', whole (RegisterAt REGISTER_CURRENT_LEVEL)),
      (''mode_status'', whole ModeStatus),
      (''command'', whole Command)]"

definition device_of_room :: "room_config \<Rightarrow> device" where
  "device_of_room room =
     room_device (room_profile room \<in> set PLAIN_PROFILES) (room_profile room \<in> set CO2_PROFILES)"

definition probe_device :: device where
  "probe_device =
     [(''product_id'', whole ProductId),
      (''humidity_extract_air'', whole (RegisterAt REGISTER_HUMIDITY_EXTRACT_AIR)),
      (''humidity_supply_air'', whole (RegisterAt REGISTER_HUMIDITY_SUPPLY_AIR)),
      (''co2_extract_air'', whole (RegisterAt REGISTER_CO2_EXTRACT_AIR)),
      (''voc_supply_air'', whole (RegisterAt REGISTER_VOC_SUPPLY_AIR)),
      (''app_setup_code'', whole AppSetupCode)]"

definition gateway_device :: device where
  "gateway_device =
     [(''node_count'', whole (RegisterAt REGISTER_GATEWAY_NUMBER_OF_NODES)),
      (''mac'', whole GatewayMac), (''uptime'', whole GatewayUptime),
      (''utc_clock'', whole GatewayUtcClock), (''rf_statistics'', whole GatewayRfStatistics)]"

definition has_field :: "device \<Rightarrow> string \<Rightarrow> string \<Rightarrow> bool" where
  "has_field device place attribute =
     (case map_of device place of
        None \<Rightarrow> False
      | Some c \<Rightarrow> attribute \<in> set (map fst (component_fields c)))"

lemmas device_simps = has_field_def component_fields_def device_of_room_def room_device_def
  probe_device_def gateway_device_def whole_def only_def

section \<open>What is polled exists\<close>

text \<open>
  \<open>getattr\<close> on the device and on its component never fails: the table of due fields and the device
  classes, which are kept in two files, agree for every profile, known or not.
\<close>

lemma due_field_all:
  "list_all P (due_field room name place grp due attr gated) \<longleftrightarrow>
     (due \<and> (\<not> gated \<or> supports room name) \<longrightarrow>
        P (name, \<lparr>fr_component = place,
                  fr_attribute = (case attr of None \<Rightarrow> name | Some a \<Rightarrow> a), fr_group = grp\<rparr>))"
  by (auto simp: due_field_def)

definition block_served :: "device \<Rightarrow> string \<Rightarrow> bool" where
  "block_served device place =
     (case map_of device place of
        None \<Rightarrow> False
      | Some c \<Rightarrow> (let (first, last_register) = block_range (dc_block c)
                  in list_ex (\<lambda>(low, high). low \<le> first \<and> last_register \<le> high) UNIT_READABLE_RANGES))"

definition readable_field :: "device \<Rightarrow> string \<Rightarrow> string \<Rightarrow> bool" where
  "readable_field device place attribute \<longleftrightarrow> has_field device place attribute \<and> block_served device place"

definition readable_fields :: "device \<Rightarrow> (string \<times> string) list \<Rightarrow> bool" where
  "readable_fields device fs \<longleftrightarrow> list_all (\<lambda>(place, attribute). readable_field device place attribute) fs"

lemma readable_always:
  "readable_fields (room_device plain co2)
     [(''airflow'', ''extract_air_flow''), (''airflow'', ''supply_air_flow''),
      (''temperatures'', ''exhaust_temperature''), (''supply_temperature'', ''supply_air_temperature''),
      (''air_quality'', ''humidity_extract_air''), (''air_quality'', ''co2_extract_air''),
      (''air_quality'', ''voc_extract_air''), (''air_quality'', ''humidity_supply_air''),
      (''air_quality'', ''co2_supply_air''), (''air_quality'', ''voc_supply_air''),
      (''extract_air_quality'', ''humidity_extract_air''),
      (''supply_air_quality'', ''humidity_supply_air''),
      (''status'', ''error_status''), (''status'', ''frost_protection_active''),
      (''status'', ''filter_change_due''), (''days_until_filter_change'', ''value''),
      (''operating_hours'', ''operating_hours''), (''fan_motor_hours'', ''value''),
      (''software_version'', ''value''), (''control_settings'', ''humidity_starting_point''),
      (''control_settings'', ''humidity_min_level''), (''control_settings'', ''humidity_max_level''),
      (''rf_comm_status'', ''value''), (''device_fault'', ''value''), (''value_error_status'', ''value''),
      (''rf_last_seen_age'', ''value''), (''rf_signal_strength'', ''value'')]"
  by (induct plain; induct co2; code_simp)

lemma readable_extended:
  "readable_fields (room_device False co2)
     [(''temperatures'', ''outdoor_air_temperature''), (''temperatures'', ''extract_air_temperature'')]"
  by (induct co2; code_simp)

lemma readable_co2:
  "readable_fields (room_device plain True)
     [(''extract_air_quality'', ''co2_extract_air''), (''control_settings'', ''co2_starting_point''),
      (''control_settings'', ''co2_min_level''), (''control_settings'', ''co2_max_level'')]"
  by (induct plain; code_simp)

lemmas readable_simps [simp] = readable_always [unfolded readable_fields_def, simplified]
  readable_extended [unfolded readable_fields_def, simplified]
  readable_co2 [unfolded readable_fields_def, simplified]

text \<open>
  Every field a refresh plan asks for is a field of a component that the unit's device object really
  has, and the component's whole register block lies in one range that a unit serves; for every unit,
  every profile and every plan. The plan tables and the device classes, kept in two files, agree.
\<close>

lemma due_fields_exist:
  "list_all (\<lambda>(name, source).
       readable_field (device_of_room room) (fr_component source) (fr_attribute source))
     (due_fields room plan)"
  by (simp add: due_fields_def Let_def due_field_all AIR_QUALITY_FIELDS_def CONTROL_SETTING_REGISTERS_def
      profile_tables device_of_room_def)

end
