(* ===== verification/Gateway_Registers.thy ===== *)
theory Gateway_Registers
  imports Device_Blocks
begin

text \<open>
  The single reads of \<open>device/device.py\<close> and the calls of \<open>modbus_client.py\<close> around them: the gateway's
  node count, node addresses, MAC address, uptime, clock and RF counters, and the app setup code of a
  unit. Updating a block is a parameter; what the code makes of the decoded fields is modelled.
\<close>

section \<open>Awaited calls\<close>

text \<open>How an awaited call ends: a value, an exception, or the cancellation of the task.\<close>

datatype 'a outcome = Returned 'a | Erred client_error | Aborted

definition await_then ::
  "'a outcome \<times> 'w \<Rightarrow> ('a \<Rightarrow> 'w \<Rightarrow> 'b outcome \<times> 'w) \<Rightarrow> 'b outcome \<times> 'w" where
  "await_then r f =
     (case r of
        (Returned a, w) \<Rightarrow> f a w
      | (Erred e, w) \<Rightarrow> (Erred e, w)
      | (Aborted, w) \<Rightarrow> (Aborted, w))"

lemma await_then_simps [simp]:
  "await_then (Returned a, w) f = f a w"
  "await_then (Erred e, w) f = (Erred e, w)"
  "await_then (Aborted, w) f = (Aborted, w)"
  by (simp_all add: await_then_def)

text \<open>
  A unit as \<open>modbus_connection\<close> hands it out: updating a block with its decoded fields, reading a block
  of raw registers, whether the link is open, and the class hierarchy of its exceptions. \<open>ul_sleep\<close> is
  \<open>asyncio.sleep\<close>.
\<close>

record 'w unit_link =
  ul_update :: "register_block \<Rightarrow> 'w \<Rightarrow> (string \<Rightarrow> raw_value option) outcome \<times> 'w"
  ul_registers :: "int \<Rightarrow> int \<Rightarrow> 'w \<Rightarrow> int list outcome \<times> 'w"
  ul_connected :: "'w \<Rightarrow> bool"
  ul_sleep :: "seconds \<Rightarrow> 'w \<Rightarrow> unit outcome \<times> 'w"
  ul_superclasses :: "exn_class \<Rightarrow> exn_class list"

definition protocol_error :: "'w unit_link \<Rightarrow> string \<Rightarrow> client_error" where
  "protocol_error link text =
     Untranslated \<lparr>isa = ModbusProtocolError # ul_superclasses link ModbusProtocolError, message = text\<rparr>"

definition int_field :: "(string \<Rightarrow> raw_value option) \<Rightarrow> string \<Rightarrow> int option" where
  "int_field fs name = (case fs name of Some (RInt n) \<Rightarrow> Some n | _ \<Rightarrow> None)"

definition float_field :: "(string \<Rightarrow> raw_value option) \<Rightarrow> string \<Rightarrow> pyfloat option" where
  "float_field fs name = (case fs name of Some (RFloat x) \<Rightarrow> Some x | _ \<Rightarrow> None)"

section \<open>Hexadecimal text\<close>

definition hex_digit :: "string \<Rightarrow> nat \<Rightarrow> char" where
  "hex_digit alphabet n = alphabet ! n"

definition LOWER_HEX :: string where "LOWER_HEX = ''0123456789abcdef''"
definition UPPER_HEX :: string where "UPPER_HEX = ''0123456789ABCDEF''"

text \<open>\<open>f"{n:02x}"\<close> and \<open>f"{n:06X}"\<close> of a number that fits: exactly that many digits.\<close>

fun hex_text :: "string \<Rightarrow> nat \<Rightarrow> nat \<Rightarrow> string" where
  "hex_text alphabet 0 n = []"
| "hex_text alphabet (Suc k) n = hex_text alphabet k (n div 16) @ [hex_digit alphabet (n mod 16)]"

section \<open>Decoding\<close>

definition format_app_setup_code :: "int option \<Rightarrow> int option \<Rightarrow> string option" where
  "format_app_setup_code low_word high_word =
     (case (low_word, high_word) of
        (Some low, Some high) \<Rightarrow>
          if high > 255 then None
          else let code = push_bit 16 high OR low
               in if code = 0 then None else Some (CHR ''R'' # hex_text UPPER_HEX 6 (nat code))
      | _ \<Rightarrow> None)"

definition read_app_setup_code :: "'w unit_link \<Rightarrow> 'w \<Rightarrow> string option outcome \<times> 'w" where
  "read_app_setup_code link w =
     await_then (ul_update link AppSetupCode w) (\<lambda>fs w.
       (Returned (format_app_setup_code (int_field fs ''low_word'') (int_field fs ''high_word'')), w))"

record gateway_rf_statistics =
  messages_current_hour :: int
  messages_previous_hour :: int
  load_current_hour :: "real option"
  load_previous_hour :: "real option"

definition valid_load :: "pyfloat option \<Rightarrow> real option" where
  "valid_load v =
     (case v of
        Some (Finite x) \<Rightarrow> if 0 \<le> x \<and> x \<le> 100 then Some x else None
      | _ \<Rightarrow> None)"

definition read_rf_statistics :: "'w unit_link \<Rightarrow> 'w \<Rightarrow> gateway_rf_statistics outcome \<times> 'w" where
  "read_rf_statistics link w =
     await_then (ul_update link GatewayRfStatistics w) (\<lambda>fs w.
       case (int_field fs ''messages_current_hour'', int_field fs ''messages_previous_hour'') of
         (Some current, Some previous) \<Rightarrow>
           (Returned \<lparr>messages_current_hour = current, messages_previous_hour = previous,
              load_current_hour = valid_load (float_field fs ''load_current_hour''),
              load_previous_hour = valid_load (float_field fs ''load_previous_hour'')\<rparr>, w)
       | _ \<Rightarrow> (Erred (protocol_error link ''The gateway RF counters returned no value''), w))"

definition mac_octets :: "int \<Rightarrow> int \<Rightarrow> int \<Rightarrow> int list" where
  "mac_octets word_1 word_2 word_3 =
     [drop_bit 8 word_1, word_1 AND 255, drop_bit 8 word_2, word_2 AND 255,
      drop_bit 8 word_3, word_3 AND 255]"

definition invalid_mac :: "int list \<Rightarrow> bool" where
  "invalid_mac octets \<longleftrightarrow>
     \<not> list_ex (\<lambda>octet. octet \<noteq> 0) octets \<or> list_all (\<lambda>octet. octet = 255) octets
     \<or> octets ! 0 AND 1 \<noteq> 0"

fun joined_by :: "string \<Rightarrow> string list \<Rightarrow> string" where
  "joined_by sep [] = []"
| "joined_by sep [s] = s"
| "joined_by sep (s # t # rest) = s @ sep @ joined_by sep (t # rest)"

definition mac_text :: "int list \<Rightarrow> string" where
  "mac_text octets = joined_by '':'' (map (\<lambda>octet. hex_text LOWER_HEX 2 (nat octet)) octets)"

definition read_mac :: "'w unit_link \<Rightarrow> 'w \<Rightarrow> string outcome \<times> 'w" where
  "read_mac link w =
     await_then (ul_update link GatewayMac w) (\<lambda>fs w.
       case (int_field fs ''word_1'', int_field fs ''word_2'', int_field fs ''word_3'') of
         (Some word_1, Some word_2, Some word_3) \<Rightarrow>
           (let octets = mac_octets word_1 word_2 word_3
            in if invalid_mac octets
               then (Erred (protocol_error link ''The gateway returned an invalid Ethernet MAC address''), w)
               else (Returned (mac_text octets), w))
       | _ \<Rightarrow> (Erred (protocol_error link ''The gateway MAC registers returned no value''), w))"

definition read_uptime :: "'w unit_link \<Rightarrow> 'w \<Rightarrow> int outcome \<times> 'w" where
  "read_uptime link w =
     await_then (ul_update link GatewayUptime w) (\<lambda>fs w.
       case int_field fs ''uptime'' of
         Some n \<Rightarrow> (Returned n, w)
       | None \<Rightarrow> (Erred (protocol_error link ''The gateway uptime register returned no value''), w))"

definition read_node_count :: "'w unit_link \<Rightarrow> 'w \<Rightarrow> int outcome \<times> 'w" where
  "read_node_count link w =
     await_then (ul_update link (RegisterAt REGISTER_GATEWAY_NUMBER_OF_NODES) w) (\<lambda>fs w.
       (Returned (case int_field fs ''value'' of None \<Rightarrow> 0 | Some n \<Rightarrow> n), w))"

definition read_utc_clock :: "'w unit_link \<Rightarrow> 'w \<Rightarrow> int outcome \<times> 'w" where
  "read_utc_clock link w =
     await_then (ul_update link GatewayUtcClock w) (\<lambda>fs w.
       let no_time = (Erred (protocol_error link ''The gateway UTC clock returned no valid time''), w)
       in case int_field fs ''value'' of
            Some n \<Rightarrow> if n = 4294967295 then no_time else (Returned n, w)
          | None \<Rightarrow> no_time)"

definition read_node_addresses :: "'w unit_link \<Rightarrow> int \<Rightarrow> 'w \<Rightarrow> int list outcome \<times> 'w" where
  "read_node_addresses link count w = ul_registers link REGISTER_GATEWAY_NODE_ADDRESS_1 count w"

section \<open>Calls of the client\<close>

text \<open>\<open>_gateway_operation\<close>.\<close>

definition gateway_operation ::
  "client \<Rightarrow> string \<Rightarrow> ('w \<Rightarrow> 'a outcome \<times> 'w) \<Rightarrow> 'w \<Rightarrow> 'a outcome \<times> 'w" where
  "gateway_operation c description body w =
     (if client_shut_down c then (Erred (shut_down_error c), w)
      else case body w of
        (Erred (Untranslated e), w') \<Rightarrow> (Erred (translate_error (client_port c) description e), w')
      | result \<Rightarrow> result)"

definition client_read_uptime :: "client \<Rightarrow> (int \<Rightarrow> 'w unit_link) \<Rightarrow> 'w \<Rightarrow> int outcome \<times> 'w" where
  "client_read_uptime c units =
     gateway_operation c ''reading gateway uptime'' (read_uptime (units DEFAULT_GATEWAY_DEVICE_ID))"

definition client_read_app_setup_code ::
  "client \<Rightarrow> (int \<Rightarrow> 'w unit_link) \<Rightarrow> room_config \<Rightarrow> 'w \<Rightarrow> string option outcome \<times> 'w" where
  "client_read_app_setup_code c units room =
     gateway_operation c (''reading app setup code for room '' @ room_key room)
       (read_app_setup_code (units (room_slave room)))"

definition client_read_node_count :: "client \<Rightarrow> (int \<Rightarrow> 'w unit_link) \<Rightarrow> 'w \<Rightarrow> int outcome \<times> 'w" where
  "client_read_node_count c units =
     gateway_operation c ''reading gateway device count''
       (read_node_count (units DEFAULT_GATEWAY_DEVICE_ID))"

definition client_read_rf_statistics ::
  "client \<Rightarrow> (int \<Rightarrow> 'w unit_link) \<Rightarrow> 'w \<Rightarrow> gateway_rf_statistics outcome \<times> 'w" where
  "client_read_rf_statistics c units =
     gateway_operation c ''reading gateway RF statistics''
       (read_rf_statistics (units DEFAULT_GATEWAY_DEVICE_ID))"

definition client_read_mac :: "client \<Rightarrow> (int \<Rightarrow> 'w unit_link) \<Rightarrow> 'w \<Rightarrow> string outcome \<times> 'w" where
  "client_read_mac c units =
     gateway_operation c ''reading gateway MAC address'' (read_mac (units DEFAULT_GATEWAY_DEVICE_ID))"

definition client_read_utc_clock :: "client \<Rightarrow> (int \<Rightarrow> 'w unit_link) \<Rightarrow> 'w \<Rightarrow> int outcome \<times> 'w" where
  "client_read_utc_clock c units =
     gateway_operation c ''reading gateway UTC clock''
       (read_utc_clock (units DEFAULT_GATEWAY_DEVICE_ID))"

section \<open>Properties\<close>

text \<open>Fixed-width hexadecimal texts of numbers below \<open>16 ^ k\<close> can be read back.\<close>

lemma hex_text_numeral [simp]:
  "hex_text alphabet (numeral k) n =
     hex_text alphabet (pred_numeral k) (n div 16) @ [hex_digit alphabet (n mod 16)]"
  by (simp only: numeral_eq_Suc [of k] hex_text.simps)

lemma hex_text_length [simp]: "length (hex_text alphabet k n) = k"
  by (induction k arbitrary: n) auto

lemma hex_text_inj:
  assumes "distinct alphabet" "length alphabet = 16"
  shows "m < 16 ^ k \<Longrightarrow> n < 16 ^ k \<Longrightarrow> hex_text alphabet k m = hex_text alphabet k n \<Longrightarrow> m = n"
proof (induction k arbitrary: m n)
  case (Suc k)
  from Suc.prems(3) have eqs: "hex_text alphabet k (m div 16) = hex_text alphabet k (n div 16)"
    "alphabet ! (m mod 16) = alphabet ! (n mod 16)" by (simp_all add: hex_digit_def)
  have "m div 16 = n div 16" using Suc.IH [OF _ _ eqs(1)] Suc.prems(1,2) by (simp add: less_mult_imp_div_less)
  moreover have "m mod 16 = n mod 16"
    using eqs(2) assms nth_eq_iff_index_eq [of alphabet "m mod 16" "n mod 16"] by simp
  ultimately show ?case by (metis mult_div_mod_eq)
qed simp

lemma hex_alphabets: "distinct UPPER_HEX" "length UPPER_HEX = 16" "distinct LOWER_HEX" "length LOWER_HEX = 16"
  by (simp_all add: UPPER_HEX_def LOWER_HEX_def)

definition is_word :: "int \<Rightarrow> bool" where
  "is_word n \<longleftrightarrow> 0 \<le> n \<and> n \<le> 65535"

lemma join_words: "is_word low \<Longrightarrow> push_bit 16 high OR low = high * 65536 + low"
proof -
  assume "is_word low"
  then have "take_bit 16 low = low" by (simp add: is_word_def take_bit_int_eq_self)
  then show ?thesis using concat_bit_eq [of 16 low high]
    by (simp add: concat_bit_def push_bit_eq_mult or.commute)
qed

lemma words_of_code:
  assumes "is_word low"
  shows "(high * 65536 + low) mod 65536 = low" "(high * 65536 + low) div 65536 = high"
  using assms by (simp_all add: is_word_def)

lemma format_app_setup_code_text:
  assumes "is_word low" "is_word high"
    and "format_app_setup_code (Some low) (Some high) = Some text"
  shows "nat (high * 65536 + low) < 16 ^ 6"
    and "text = CHR ''R'' # hex_text UPPER_HEX 6 (nat (high * 65536 + low))"
proof -
  define code where "code = push_bit 16 high OR low"
  have code: "code = high * 65536 + low" using assms(1) by (simp add: code_def join_words)
  from assms(3) have "high \<le> 255" "text = CHR ''R'' # hex_text UPPER_HEX 6 (nat code)"
    unfolding format_app_setup_code_def Let_def option.case code_def
    by (auto simp del: hex_text_numeral split: if_splits)
  moreover from assms(1) this(1) have "high * 65536 + low < 16777216" by (simp add: is_word_def)
  ultimately show "nat (high * 65536 + low) < 16 ^ 6"
    "text = CHR ''R'' # hex_text UPPER_HEX 6 (nat (high * 65536 + low))" by (simp_all add: code del: hex_text_numeral)
qed

text \<open>
  The app setup code identifies a unit: two register pairs that are shown as the same R-code are the
  same pair. The six hexadecimal digits hold every code the two registers can carry, without loss.
\<close>

lemma app_setup_code_injective:
  assumes "is_word low" "is_word high" "is_word low'" "is_word high'"
    and "format_app_setup_code (Some low) (Some high) = Some text"
    and "format_app_setup_code (Some low') (Some high') = Some text"
  shows "low = low' \<and> high = high'"
proof -
  note one = format_app_setup_code_text [OF assms(1,2,5)]
  note two = format_app_setup_code_text [OF assms(3,4,6)]
  have "nat (high * 65536 + low) = nat (high' * 65536 + low')"
    by (rule hex_text_inj [OF hex_alphabets(1,2) one(1) two(1)]) (use one(2) two(2) in \<open>simp del: hex_text_numeral\<close>)
  moreover have "0 \<le> high * 65536 + low" "0 \<le> high' * 65536 + low'"
    using assms(1-4) by (simp_all add: is_word_def)
  ultimately have "high * 65536 + low = high' * 65536 + low'" by simp
  then show ?thesis
    using words_of_code [OF assms(1), of high] words_of_code [OF assms(3), of high'] by simp
qed

lemma app_setup_code_injective_witness:
  "format_app_setup_code (Some 40963) (Some 0) = Some ''R00A003'' \<and> (40963 :: int) = 40963 \<and> (0 :: int) = 0"
proof -
  have code: "format_app_setup_code (Some 40963) (Some 0) = Some ''R00A003''"
    by (simp add: format_app_setup_code_def hex_digit_def UPPER_HEX_def)
  have words: "is_word 40963" "is_word 0" by (simp_all add: is_word_def)
  from app_setup_code_injective [OF words words code code] code show ?thesis by blast
qed

end
