(* ===== verification/Node_Discovery.thy ===== *)
theory Node_Discovery
  imports Gateway_Registers Repair_Issues
begin

text \<open>
  Discovery and probing in \<open>modbus_helpers.py\<close>: the units a gateway lists, and the setup-time probe
  that reads a few registers of one unit to suggest its profile. Both run against a unit that may lose
  replies, refuse registers or be gone.
\<close>

section \<open>Discovery\<close>

definition MAX_NODE_ADDRESSES :: int where [simp]: "MAX_NODE_ADDRESSES = 32"

text \<open>\<open>read_gateway_node_count\<close> of the flows.\<close>

definition read_gateway_node_count :: "'w unit_link \<Rightarrow> 'w \<Rightarrow> int outcome \<times> 'w" where
  "read_gateway_node_count link w =
     (case read_node_count link w of
        (Erred (Untranslated e), w') \<Rightarrow>
          (Erred (if isinstance e [ModbusConnectionError] then Translated (MeltemConnectionError (message e))
                  else if isinstance e [ModbusError] then Translated (MeltemModbusError (message e))
                  else Untranslated e), w')
      | result \<Rightarrow> result)"

definition link_is_dead :: "'w unit_link \<Rightarrow> exn \<Rightarrow> 'w \<Rightarrow> bool" where
  "link_is_dead link e w \<longleftrightarrow>
     isinstance e [ModbusConnectionError]
     \<or> (isinstance e [ModbusTimeoutError] \<and> \<not> ul_connected link w)"

definition discovery_failed ::
  "'w unit_link \<Rightarrow> string \<Rightarrow> string \<Rightarrow> bool \<Rightarrow> exn \<Rightarrow> 'w \<Rightarrow> int list outcome" where
  "discovery_failed link port what strict e w =
     (if link_is_dead link e w
      then Erred (Translated (MeltemConnectionError
             (''Could not open connection on '' @ port @ '': '' @ message e)))
      else if strict
      then Erred (Translated (MeltemModbusError
             (''Could not read the '' @ what @ '' of the gateway: '' @ message e)))
      else Returned [])"

text \<open>The loop over the listed addresses.\<close>

definition keep_address :: "int \<Rightarrow> int \<Rightarrow> int \<Rightarrow> int list \<Rightarrow> int list" where
  "keep_address start end_address address discovered =
     (if address = 0 \<or> address \<in> set discovered then discovered
      else if start \<le> address \<and> address \<le> end_address then discovered @ [address]
      else discovered)"

definition discover_gateway_nodes ::
  "'w unit_link \<Rightarrow> string \<Rightarrow> int \<Rightarrow> int \<Rightarrow> bool \<Rightarrow> 'w \<Rightarrow> int list outcome \<times> 'w" where
  "discover_gateway_nodes link port start end_address strict w =
     (case read_node_count link w of
        (Returned node_count, w1) \<Rightarrow>
          if node_count \<le> 0 then (Returned [], w1)
          else (case read_node_addresses link (min MAX_NODE_ADDRESSES node_count) w1 of
             (Returned addresses, w2) \<Rightarrow>
               (Returned (fold (keep_address start end_address) addresses []), w2)
           | (Erred (Untranslated e), w2) \<Rightarrow>
               if isinstance e [ModbusError]
               then (discovery_failed link port ''node address list'' strict e w2, w2)
               else (Erred (Untranslated e), w2)
           | (Erred (Translated e), w2) \<Rightarrow> (Erred (Translated e), w2)
           | (Aborted, w2) \<Rightarrow> (Aborted, w2))
      | (Erred (Untranslated e), w1) \<Rightarrow>
          if isinstance e [ModbusError]
          then (discovery_failed link port ''node count'' strict e w1, w1)
          else (Erred (Untranslated e), w1)
      | (Erred (Translated e), w1) \<Rightarrow> (Erred (Translated e), w1)
      | (Aborted, w1) \<Rightarrow> (Aborted, w1))"

definition client_discover_units ::
  "client \<Rightarrow> (int \<Rightarrow> 'w unit_link) \<Rightarrow> int \<Rightarrow> int \<Rightarrow> bool \<Rightarrow> 'w \<Rightarrow> int list outcome \<times> 'w" where
  "client_discover_units c units start end_address strict =
     gateway_operation c ''discovering units''
       (discover_gateway_nodes (units DEFAULT_GATEWAY_DEVICE_ID) (client_port c) start end_address strict)"

definition client_validate_gateway :: "client \<Rightarrow> (int \<Rightarrow> 'w unit_link) \<Rightarrow> 'w \<Rightarrow> int outcome \<times> 'w" where
  "client_validate_gateway c units =
     gateway_operation c ''validating the gateway''
       (read_gateway_node_count (units DEFAULT_GATEWAY_DEVICE_ID))"

section \<open>One probe read\<close>

datatype probe_outcome = VALUE | ABSENT | SILENT

text \<open>The \<open>while True\<close> loop of \<open>_probe_read\<close>; \<open>retried\<close> is its loop variable.\<close>

function probe_read ::
  "'w unit_link \<Rightarrow> ('w \<Rightarrow> 'a outcome \<times> 'w) \<Rightarrow> bool \<Rightarrow> bool \<Rightarrow> 'w
     \<Rightarrow> (probe_outcome \<times> 'a option) outcome \<times> 'w" where
  "probe_read link rd heard retried w =
     (case rd w of
        (Returned v, w1) \<Rightarrow> (Returned (VALUE, Some v), w1)
      | (Aborted, w1) \<Rightarrow> (Aborted, w1)
      | (Erred (Translated e), w1) \<Rightarrow> (Erred (Translated e), w1)
      | (Erred (Untranslated e), w1) \<Rightarrow>
          if isinstance e [ModbusConnectionError]
          then (Erred (Translated (MeltemConnectionError (message e))), w1)
          else if isinstance e [ModbusTimeoutError] \<and> \<not> ul_connected link w1
          then (Erred (Translated (MeltemConnectionError (message e))), w1)
          else if isinstance e [ModbusTimeoutError] \<and> (retried \<or> \<not> heard)
          then (Returned (SILENT, None), w1)
          else if \<not> isinstance e [ModbusTimeoutError] \<and> isinstance e [ModbusProtocolError] \<and> retried
          then (Returned (SILENT, None), w1)
          else if isinstance e [ModbusTimeoutError] \<or> isinstance e [ModbusProtocolError]
          then (case ul_sleep link TRANSPORT_READ_RECOVERY_SECONDS w1 of
                  (Returned _, w2) \<Rightarrow> probe_read link rd heard True w2
                | (Erred err, w2) \<Rightarrow> (Erred err, w2)
                | (Aborted, w2) \<Rightarrow> (Aborted, w2))
          else if isinstance e [ModbusError] then (Returned (ABSENT, None), w1)
          else (Erred (Untranslated e), w1))"
  by pat_completeness auto

termination probe_read
  by (relation "measure (\<lambda>(link, rd, heard, retried, w). if retried then 0 else 1)") auto

declare probe_read.simps [simp del]

section \<open>The probe\<close>

definition PROBE_COMPONENTS :: "string list" where
  "PROBE_COMPONENTS =
     [''product_id'', ''humidity_extract_air'', ''humidity_supply_air'', ''co2_extract_air'',
      ''voc_supply_air'']"

definition SUFFIXES :: "(string \<times> string \<times> string list) list" where
  "SUFFIXES =
     [(''fc_voc'', ''VOC'', [''voc_supply_air'']),
      (''fc'', ''CO2'', [''co2_extract_air'']),
      (''f'', ''humidity'', [''humidity_extract_air'', ''humidity_supply_air''])]"

record unit_probe_result =
  probe_profile :: string
  probe_preview :: "string option"
  probe_product_id :: "int option"
  probe_setup_code :: "string option"

definition probe_block :: "string \<Rightarrow> register_block" where
  "probe_block name = dc_block (dict_get probe_device name (whole ProductId))"

definition probe_value :: "string \<Rightarrow> (string \<Rightarrow> raw_value option) \<Rightarrow> int option" where
  "probe_value name fs = int_field fs (if name = ''product_id'' then ''product_id'' else ''value'')"

text \<open>The loop over the components: whether it was left early, and the values it found.\<close>

fun probe_components ::
  "'w unit_link \<Rightarrow> string list \<Rightarrow> bool \<Rightarrow> (string, int option) dict \<Rightarrow> 'w
     \<Rightarrow> (bool \<times> bool \<times> (string, int option) dict) outcome \<times> 'w" where
  "probe_components link [] heard found w = (Returned (False, heard, found), w)"
| "probe_components link (name # names) heard found w =
     await_then (probe_read link (ul_update link (probe_block name)) heard False w) (\<lambda>(outcome, fs) w.
       if outcome = SILENT then (Returned (True, heard, found), w)
       else probe_components link names True
              (case fs of None \<Rightarrow> found | Some fs \<Rightarrow> AList.update name (probe_value name fs) found) w)"

definition detected_sensors :: "(string, int option) dict \<Rightarrow> string list" where
  "detected_sensors found =
     filter (\<lambda>key. is_plausible key (dict_get found key None)) (map fst PLAUSIBLE_RANGES)"

definition detected_suffix :: "string list \<Rightarrow> string \<times> string" where
  "detected_suffix sensors =
     (case find (\<lambda>(_, _, keys). list_ex (\<lambda>k. k \<in> set sensors) keys) SUFFIXES of
        None \<Rightarrow> (''plain'', ''basic'') | Some (sfx, shown, _) \<Rightarrow> (sfx, shown))"

definition probe_result :: "(string, int option) dict \<Rightarrow> string option \<Rightarrow> unit_probe_result" where
  "probe_result found code =
     (let (profile, capability) = detected_suffix (detected_sensors found);
          product = dict_get found ''product_id'' None;
          parts = (case code of None \<Rightarrow> [] | Some c \<Rightarrow> [''R-Code '' @ c])
            @ (case product of
                 None \<Rightarrow> []
               | Some p \<Rightarrow> (''ID '' @ decimal (nat p))
                   # (case product_metadata_of (Some p) of
                        None \<Rightarrow> []
                      | Some m \<Rightarrow> [''App: '' @ series m @ '' ('' @ model_id m @ '')'']))
            @ [capability]
      in \<lparr>probe_profile = profile, probe_preview = Some (joined_by '' | '' parts),
          probe_product_id = product, probe_setup_code = code\<rparr>)"

definition detect_slave_details :: "'w unit_link \<Rightarrow> 'w \<Rightarrow> unit_probe_result outcome \<times> 'w" where
  "detect_slave_details link w =
     await_then (probe_components link PROBE_COMPONENTS False [] w) (\<lambda>(silent, heard, found) w.
       if silent then (Returned (probe_result found None), w)
       else await_then (probe_read link (read_app_setup_code link) heard False w) (\<lambda>(_, code) w.
         (Returned (probe_result found (case code of Some (Some c) \<Rightarrow> Some c | _ \<Rightarrow> None)), w)))"

definition client_probe_slave_details ::
  "client \<Rightarrow> (int \<Rightarrow> 'w unit_link) \<Rightarrow> int \<Rightarrow> 'w \<Rightarrow> unit_probe_result outcome \<times> 'w" where
  "client_probe_slave_details c units slave =
     gateway_operation c (''probing unit '' @ decimal (nat slave)) (detect_slave_details (units slave))"

section \<open>What discovery returns\<close>

text \<open>The kept addresses: the first occurrence of each listed one in the range, in listed order.\<close>

lemma fold_keep_address:
  assumes "distinct (found @ addresses)" "0 \<notin> set addresses"
  shows "fold (keep_address start end_address) addresses found =
    found @ filter (\<lambda>a. start \<le> a \<and> a \<le> end_address) addresses"
  using assms
proof (induction addresses arbitrary: found)
  case (Cons a addresses)
  then show ?case by (cases "start \<le> a \<and> a \<le> end_address") (auto simp: keep_address_def)
qed simp

lemma fold_keep_address_sound:
  "distinct found \<Longrightarrow> list_all (\<lambda>a. a \<noteq> 0 \<and> start \<le> a \<and> a \<le> end_address) found \<Longrightarrow>
     fold (keep_address start end_address) addresses found = kept \<Longrightarrow>
     distinct kept \<and> list_all (\<lambda>a. a \<noteq> 0 \<and> start \<le> a \<and> a \<le> end_address) kept"
proof (induction addresses arbitrary: found)
  case (Cons a addresses)
  show ?case
    by (rule Cons.IH [of "keep_address start end_address a found"])
      (use Cons.prems in \<open>auto simp: keep_address_def split: if_splits\<close>)
qed simp

text \<open>
  The interface between discovery and a gateway: it lists \<open>nodes\<close> in the node count and node address
  registers as long as \<open>sound\<close> holds.
\<close>

locale node_list =
  fixes link :: "'w unit_link"
    and nodes :: "'w \<Rightarrow> int list"
    and sound :: "'w \<Rightarrow> bool"
  assumes count_read: "sound w \<Longrightarrow>
      \<exists>fs w'. ul_update link (RegisterAt REGISTER_GATEWAY_NUMBER_OF_NODES) w = (Returned fs, w')
        \<and> fs ''value'' = Some (RInt (int (length (nodes w)))) \<and> nodes w' = nodes w \<and> sound w'"
    and addresses_read: "sound w \<Longrightarrow> 0 < n \<Longrightarrow> n \<le> length (nodes w) \<Longrightarrow>
      \<exists>w'. ul_registers link REGISTER_GATEWAY_NODE_ADDRESS_1 (int n) w = (Returned (take n (nodes w)), w')"
begin

lemma node_count: "sound w \<Longrightarrow>
    \<exists>w'. read_node_count link w = (Returned (int (length (nodes w))), w') \<and> nodes w' = nodes w \<and> sound w'"
  using count_read [of w] by (auto simp: read_node_count_def int_field_def)

lemma discovers_nodes:
  assumes "sound w" "distinct (nodes w)" "0 \<notin> set (nodes w)" "length (nodes w) \<le> 32"
  shows "fst (discover_gateway_nodes link port start end_address strict w) =
    Returned (filter (\<lambda>a. start \<le> a \<and> a \<le> end_address) (nodes w))"
proof -
  obtain w1 where one: "read_node_count link w = (Returned (int (length (nodes w))), w1)"
    "nodes w1 = nodes w" "sound w1"
    using node_count [OF assms(1)] by blast
  show ?thesis
  proof (cases "nodes w = []")
    case True
    then show ?thesis by (simp add: discover_gateway_nodes_def one(1))
  next
    case False
    obtain w2 where two: "ul_registers link REGISTER_GATEWAY_NODE_ADDRESS_1 (int (length (nodes w))) w1
        = (Returned (nodes w), w2)"
      using addresses_read [OF one(3), of "length (nodes w)"] False by (auto simp: one(2))
    have fewer: "min MAX_NODE_ADDRESSES (int (length (nodes w))) = int (length (nodes w))"
      using assms(4) by simp
    show ?thesis using False
      by (simp add: discover_gateway_nodes_def one(1) read_node_addresses_def two [simplified] fewer
          fold_keep_address [of "[]", simplified, OF assms(2,3)] del: MAX_NODE_ADDRESSES_def)
  qed
qed

end

lemma discovery_failed_cases:
  "\<exists>text. discovery_failed link port what strict e w =
     (if link_is_dead link e w then Erred (Translated (MeltemConnectionError text))
      else if strict then Erred (Translated (MeltemModbusError text)) else Returned [])"
  by (cases "link_is_dead link e w"; cases strict) (simp_all add: discovery_failed_def)

text \<open>
  C22. A failed discovery is never mistaken for an empty gateway when the caller asks for strictness.
  Whichever of the two reads fails with a Modbus error: a dead link is always raised as a connection
  error, any other failure raises with \<open>strict\<close> and gives the empty list only without it.
\<close>

theorem discovery_failure_reported:
  assumes "read_node_count link w = (Erred (Untranslated e), w')
      \<or> (\<exists>n w1. read_node_count link w = (Returned n, w1) \<and> 0 < n
           \<and> read_node_addresses link (min 32 n) w1 = (Erred (Untranslated e), w'))"
    and "isinstance e [ModbusError]"
  shows "\<exists>text. discover_gateway_nodes link port start end_address strict w =
    (if link_is_dead link e w' then Erred (Translated (MeltemConnectionError text))
     else if strict then Erred (Translated (MeltemModbusError text))
     else Returned [], w')"
  using assms(1)
proof
  assume "read_node_count link w = (Erred (Untranslated e), w')"
  then show ?thesis
    using assms(2) discovery_failed_cases [of link port "''node count''" strict e w']
    by (simp add: discover_gateway_nodes_def)
next
  assume "\<exists>n w1. read_node_count link w = (Returned n, w1) \<and> 0 < n
      \<and> read_node_addresses link (min 32 n) w1 = (Erred (Untranslated e), w')"
  then show ?thesis
    using assms(2) discovery_failed_cases [of link port "''node address list''" strict e w']
    by (auto simp: discover_gateway_nodes_def)
qed

section \<open>The probe loop ends\<close>

text \<open>The loop with a record of what it does.\<close>

datatype probe_event = ProbeRead | ProbeSlept seconds

definition recorded ::
  "probe_event \<Rightarrow> ('w \<Rightarrow> 'a outcome \<times> 'w) \<Rightarrow> 'w \<times> probe_event list \<Rightarrow> 'a outcome \<times> 'w \<times> probe_event list" where
  "recorded event action s = (let (r, w') = action (fst s) in (r, (w', snd s @ [event])))"

definition recording :: "'w unit_link \<Rightarrow> ('w \<times> probe_event list) unit_link" where
  "recording link =
     \<lparr>ul_update = (\<lambda>b. recorded ProbeRead (ul_update link b)),
      ul_registers = (\<lambda>a n. recorded ProbeRead (ul_registers link a n)),
      ul_connected = (\<lambda>s. ul_connected link (fst s)),
      ul_sleep = (\<lambda>d. recorded (ProbeSlept d) (ul_sleep link d)),
      ul_superclasses = ul_superclasses link\<rparr>"

lemma recording_simps [simp]:
  "ul_update (recording link) b = recorded ProbeRead (ul_update link b)"
  "ul_connected (recording link) s = ul_connected link (fst s)"
  "ul_sleep (recording link) d = recorded (ProbeSlept d) (ul_sleep link d)"
  by (simp_all add: recording_def)

lemma probe_read_retried_events:
  "\<exists>r w'. probe_read (recording link) (recorded ProbeRead rd) heard True (w, es) = (r, (w', es @ [ProbeRead]))"
  by (subst probe_read.simps)
    (auto simp: recorded_def split: prod.splits outcome.splits client_error.splits)



section \<open>Lost replies\<close>

text \<open>
  A unit with fixed answers behind a radio that loses some replies: the world says, request by request,
  whether the reply is lost. \<open>spaced\<close> says that no two replies in a row are, and the first one only if
  \<open>may\<close>.
\<close>

fun spaced :: "bool \<Rightarrow> bool list \<Rightarrow> bool" where
  "spaced may [] \<longleftrightarrow> True"
| "spaced may (lost # rest) \<longleftrightarrow> (lost \<longrightarrow> may) \<and> spaced (\<not> lost) rest"

definition lossy_link ::
  "exn \<Rightarrow> (register_block \<Rightarrow> (string \<Rightarrow> raw_value option) outcome) \<Rightarrow> bool list unit_link" where
  "lossy_link e answers =
     \<lparr>ul_update = (\<lambda>b losses. (if losses \<noteq> [] \<and> hd losses then Erred (Untranslated e) else answers b, tl losses)),
      ul_registers = (\<lambda>a n losses. (Aborted, losses)),
      ul_connected = (\<lambda>losses. True),
      ul_sleep = (\<lambda>d losses. (Returned (), losses)),
      ul_superclasses = (\<lambda>c. [ModbusError])\<rparr>"

definition no_answer :: "exn \<Rightarrow> bool" where
  "no_answer e \<longleftrightarrow> \<not> isinstance e [ModbusConnectionError] \<and>
     (isinstance e [ModbusTimeoutError] \<or> isinstance e [ModbusProtocolError])"

text \<open>A block is answered with its registers or with an exception response.\<close>

definition block_answered :: "'a outcome \<Rightarrow> bool" where
  "block_answered r \<longleftrightarrow>
     (case r of
        Returned _ \<Rightarrow> True
      | Erred (Untranslated e) \<Rightarrow> isinstance e [ModbusError] \<and>
          \<not> isinstance e [ModbusConnectionError] \<and> \<not> no_answer e
      | _ \<Rightarrow> False)"

definition map_read :: "('a \<Rightarrow> 'b) \<Rightarrow> 'a outcome \<times> 'w \<Rightarrow> 'b outcome \<times> 'w" where
  "map_read f r = await_then r (\<lambda>a w. (Returned (f a), w))"

text \<open>What one probe read finds when no reply is lost.\<close>

definition undisturbed :: "('a \<Rightarrow> 'b) \<Rightarrow> 'a outcome \<Rightarrow> probe_outcome \<times> 'b option" where
  "undisturbed f r = (case r of Returned a \<Rightarrow> (VALUE, Some (f a)) | _ \<Rightarrow> (ABSENT, None))"

lemma spaced_tl: "spaced may losses \<Longrightarrow> losses = [] \<or> \<not> hd losses \<Longrightarrow> spaced True (tl losses)"
  by (cases losses) auto

lemma spaced_mono: "spaced may losses \<Longrightarrow> spaced True losses"
  by (cases losses) auto

lemma probe_read_undisturbed:
  assumes "block_answered (answers b)" "losses = [] \<or> \<not> hd losses"
  shows "probe_read (lossy_link e answers) (\<lambda>w. map_read f (ul_update (lossy_link e answers) b w))
      heard retried losses = (Returned (undisturbed f (answers b)), tl losses)"
  using assms
  by (subst probe_read.simps)
    (auto simp: lossy_link_def map_read_def undisturbed_def block_answered_def no_answer_def
      split: outcome.splits client_error.splits)

lemma probe_read_lossy:
  assumes "no_answer e" "block_answered (answers b)" "spaced heard losses"
  shows "\<exists>losses'. spaced True losses' \<and>
    probe_read (lossy_link e answers) (\<lambda>w. map_read f (ul_update (lossy_link e answers) b w))
      heard False losses = (Returned (undisturbed f (answers b)), losses')"
proof (cases "losses \<noteq> [] \<and> hd losses")
  case False
  then show ?thesis
    using probe_read_undisturbed [where b = b and answers = answers, OF assms(2), of losses e f heard False] spaced_tl [OF assms(3)]
    by auto
next
  case True
  then obtain rest where rest: "losses = True # rest" by (cases losses) auto
  with assms(3) have heard: "heard" and calm: "rest = [] \<or> \<not> hd rest" "spaced True (tl rest)"
    by (cases rest; simp)+
  have again: "probe_read (lossy_link e answers) (\<lambda>w. map_read f (ul_update (lossy_link e answers) b w))
      heard True rest = (Returned (undisturbed f (answers b)), tl rest)"
    by (rule probe_read_undisturbed [where b = b and answers = answers, OF assms(2) calm(1)])
  have lost: "map_read f (ul_update (lossy_link e answers) b losses) = (Erred (Untranslated e), rest)"
    "ul_connected (lossy_link e answers) rest" 
    "ul_sleep (lossy_link e answers) d rest = (Returned (), rest)" for d
    by (simp_all add: lossy_link_def map_read_def rest)
  show ?thesis
    using assms(1) heard again calm(2)
    by (subst probe_read.simps) (auto simp: lost no_answer_def)
qed

lemma map_read_id: "map_read (\<lambda>a. a) r = r"
  by (auto simp: map_read_def await_then_def split: prod.splits outcome.splits)

definition app_setup_code_of :: "(string \<Rightarrow> raw_value option) \<Rightarrow> string option" where
  "app_setup_code_of fs = format_app_setup_code (int_field fs ''low_word'') (int_field fs ''high_word'')"

lemma read_app_setup_code_map:
  "read_app_setup_code link = (\<lambda>w. map_read app_setup_code_of (ul_update link AppSetupCode w))"
  by (simp add: fun_eq_iff read_app_setup_code_def map_read_def app_setup_code_of_def)

text \<open>The values of the components, read without losses.\<close>

fun undisturbed_values ::
  "(register_block \<Rightarrow> (string \<Rightarrow> raw_value option) outcome) \<Rightarrow> string list
     \<Rightarrow> (string, int option) dict \<Rightarrow> (string, int option) dict" where
  "undisturbed_values answers [] found = found"
| "undisturbed_values answers (name # names) found =
     undisturbed_values answers names
       (case answers (probe_block name) of
          Returned fs \<Rightarrow> AList.update name (probe_value name fs) found | _ \<Rightarrow> found)"

lemma probe_something: "PROBE_COMPONENTS \<noteq> []"
  by (simp add: PROBE_COMPONENTS_def)

definition detected_from ::
  "(register_block \<Rightarrow> (string \<Rightarrow> raw_value option) outcome) \<Rightarrow> unit_probe_result" where
  "detected_from answers =
     probe_result (undisturbed_values answers PROBE_COMPONENTS [])
       (case undisturbed app_setup_code_of (answers AppSetupCode) of (_, Some code) \<Rightarrow> code | _ \<Rightarrow> None)"

text \<open>
  The interface between the probe and a unit: as long as it is \<open>ready\<close>, each probe read ends with the
  unit's own answer. Whether it has been heard before is the first argument of \<open>ready\<close>.
\<close>

locale answering_unit =
  fixes link :: "'w unit_link"
    and answers :: "register_block \<Rightarrow> (string \<Rightarrow> raw_value option) outcome"
    and ready :: "bool \<Rightarrow> 'w \<Rightarrow> bool"
  assumes component_read: "ready heard w \<Longrightarrow> name \<in> set PROBE_COMPONENTS \<Longrightarrow>
      \<exists>w'. ready True w' \<and> probe_read link (ul_update link (probe_block name)) heard False w
        = (Returned (undisturbed (\<lambda>fs. fs) (answers (probe_block name))), w')"
    and code_read: "ready True w \<Longrightarrow>
      \<exists>w'. probe_read link (read_app_setup_code link) True False w
        = (Returned (undisturbed app_setup_code_of (answers AppSetupCode)), w')"
begin

lemma components_read:
  "ready heard w \<Longrightarrow> set names \<subseteq> set PROBE_COMPONENTS \<Longrightarrow> names \<noteq> [] \<Longrightarrow> \<exists>w'. ready True w' \<and>
    probe_components link names heard found w
      = (Returned (False, True, undisturbed_values answers names found), w')"
proof (induction names arbitrary: heard found w)
  case (Cons name names)
  obtain w1 where first: "ready True w1"
    "probe_read link (ul_update link (probe_block name)) heard False w
      = (Returned (undisturbed (\<lambda>fs. fs) (answers (probe_block name))), w1)"
    using component_read [OF Cons.prems(1), of name] Cons.prems(2) by auto
  show ?case
    using Cons.IH [OF first(1), of "case answers (probe_block name) of
        Returned fs \<Rightarrow> AList.update name (probe_value name fs) found | _ \<Rightarrow> found"] first(1) Cons.prems(2)
    by (cases "names = []") (auto simp: first(2) undisturbed_def split: outcome.splits)
qed simp

lemma detects:
  assumes "ready False w"
  shows "fst (detect_slave_details link w) = Returned (detected_from answers)"
proof -
  obtain w1 where one: "ready True w1" "probe_components link PROBE_COMPONENTS False [] w
      = (Returned (False, True, undisturbed_values answers PROBE_COMPONENTS []), w1)"
    using components_read [OF assms, of PROBE_COMPONENTS "[]"] probe_something by blast
  obtain w2 where two: "probe_read link (read_app_setup_code link) True False w1
      = (Returned (undisturbed app_setup_code_of (answers AppSetupCode)), w2)"
    using code_read [OF one(1)] by blast
  show ?thesis
    by (auto simp: detect_slave_details_def detected_from_def one(2) two undisturbed_def
        split: prod.split option.split outcome.split)
qed

end

definition lossy_ready :: "exn \<Rightarrow> (register_block \<Rightarrow> 'a outcome) \<Rightarrow> bool \<Rightarrow> bool list \<Rightarrow> bool" where
  "lossy_ready e answers heard losses \<longleftrightarrow>
     no_answer e \<and> (\<forall>b. block_answered (answers b)) \<and> spaced heard losses"

interpretation lossy: answering_unit "lossy_link e answers" answers "lossy_ready e answers" for e answers
proof unfold_locales
  fix heard losses name
  assume "lossy_ready e answers heard losses"
  then show "\<exists>w'. lossy_ready e answers True w' \<and>
      probe_read (lossy_link e answers) (ul_update (lossy_link e answers) (probe_block name)) heard False losses
        = (Returned (undisturbed (\<lambda>fs. fs) (answers (probe_block name))), w')"
    using probe_read_lossy [where f = "\<lambda>fs. fs" and b = "probe_block name" and answers = answers
        and e = e and heard = heard and losses = losses]
    by (auto simp: lossy_ready_def map_read_id)
next
  fix losses
  assume "lossy_ready e answers True losses"
  then show "\<exists>w'. probe_read (lossy_link e answers) (read_app_setup_code (lossy_link e answers))
      True False losses = (Returned (undisturbed app_setup_code_of (answers AppSetupCode)), w')"
    using probe_read_lossy [where f = app_setup_code_of and b = AppSetupCode and answers = answers
        and e = e and heard = True and losses = losses]
    by (auto simp: lossy_ready_def read_app_setup_code_map)
qed

text \<open>
  C18. A lost reply does not turn a sensor unit into a plain one. However many replies of a unit that
  answers are lost, as long as the very first one arrives and no two in a row are lost, the setup probe
  finds the same profile, product and app setup code as without any loss.
\<close>

theorem lost_replies_do_not_matter:
  assumes "no_answer e" "\<forall>b. block_answered (answers b)" "spaced False losses"
  shows "fst (detect_slave_details (lossy_link e answers) losses)
    = fst (detect_slave_details (lossy_link e answers) [])"
  using assms lossy.detects [of e answers losses] lossy.detects [of e answers "[]"]
  by (simp add: lossy_ready_def)

text \<open>A unit that reports humidity and CO2, and refuses the registers of the sensors it lacks.\<close>

definition refused_block :: exn where
  "refused_block = \<lparr>isa = [ModbusExceptionError, ModbusError], message = ''refused''\<rparr>"

fun sensor_unit :: "register_block \<Rightarrow> (string \<Rightarrow> raw_value option) outcome" where
  "sensor_unit ProductId = Returned (\<lambda>name. Some (RInt 116852))"
| "sensor_unit AppSetupCode = Returned (\<lambda>name. Some (RInt (if name = ''low_word'' then 40963 else 0)))"
| "sensor_unit (RegisterAt a) =
     (if a = REGISTER_VOC_SUPPLY_AIR then Erred (Untranslated refused_block)
      else Returned (\<lambda>name. Some (RInt (if a = REGISTER_CO2_EXTRACT_AIR then 720 else 48))))"
| "sensor_unit _ = Erred (Untranslated refused_block)"

lemma sensor_unit_answers: "block_answered (sensor_unit b)"
  by (cases b) (auto simp: block_answered_def refused_block_def isinstance_def no_answer_def)

lemma timeout_no_answer: "no_answer timeout_exn"
  by (simp add: no_answer_def timeout_exn_def isinstance_def)

lemma lost_replies_do_not_matter_witness:
  "fst (detect_slave_details (lossy_link timeout_exn sensor_unit) [False, True, False, True, False, False, True])
    = fst (detect_slave_details (lossy_link timeout_exn sensor_unit) [])"
  by (rule lost_replies_do_not_matter [OF timeout_no_answer])
    (simp_all add: sensor_unit_answers)

lemma discovery_failure_reported_witness:
  "\<exists>text. discover_gateway_nodes (lossy_link timeout_exn sensor_unit) ''gw'' 2 16 True [True]
    = (Erred (Translated (MeltemModbusError text)), [])"
  using discovery_failure_reported [of "lossy_link timeout_exn sensor_unit" "[True]" timeout_exn "[]"
      "''gw''" 2 16 True]
  by (simp add: lossy_link_def read_node_count_def link_is_dead_def timeout_exn_def isinstance_def)

end
