(* ===== verification/Discovery_Mock.thy ===== *)
theory Discovery_Mock
  imports Node_Discovery
begin

text \<open>
  Discovery and probe against the mock gateway of \<open>tools/_mock_model.py\<close>: what the gateway lists is what
  the integration finds, and the profile of a unit is the profile the probe suggests.
\<close>

section \<open>The mock behind a link\<close>

record mock_world =
  mw_gateway :: mock_gateway
  mw_clock :: seconds
  mw_wall :: seconds

definition response_exn :: "int \<Rightarrow> exn" where
  "response_exn code =
     \<lparr>isa = (if code = ACKNOWLEDGE then [AcknowledgeError] else []) @ [ModbusExceptionError, ModbusError],
      message = ''exception response''\<rparr>"

text \<open>The fields of a block, decoded low word first; the decoding of floats is a parameter.\<close>

definition decode_block ::
  "(int \<Rightarrow> int \<Rightarrow> pyfloat) \<Rightarrow> register_block \<Rightarrow> int list \<Rightarrow> string \<Rightarrow> raw_value option" where
  "decode_block decode_float b words name =
     (let word_at = (\<lambda>a. words ! nat (a - fst (block_range b)))
      in case map_of (block_fields b) name of
           None \<Rightarrow> None
         | Some (RawRegister a) \<Rightarrow> Some (RInt (word_at a))
         | Some (Uint32 a) \<Rightarrow> Some (RInt (word_at a + 65536 * word_at (a + 1)))
         | Some (Float32 a) \<Rightarrow> Some (RFloat (decode_float (word_at a) (word_at (a + 1)))))"

text \<open>A request to a unit: silence is a timeout.\<close>

definition mock_request :: "int \<Rightarrow> int \<Rightarrow> int \<Rightarrow> mock_world \<Rightarrow> int list outcome \<times> mock_world" where
  "mock_request address register count w =
     (if \<not> gw_answers (mw_gateway w) address then (Erred (Untranslated timeout_exn), w)
      else case mock_read (mw_clock w) (mw_wall w) address register count (mw_gateway w) of
        (Inl _, g) \<Rightarrow> (Erred (Untranslated timeout_exn), w\<lparr>mw_gateway := g\<rparr>)
      | (Inr (Inl code), g) \<Rightarrow> (Erred (Untranslated (response_exn code)), w\<lparr>mw_gateway := g\<rparr>)
      | (Inr (Inr words), g) \<Rightarrow> (Returned words, w\<lparr>mw_gateway := g\<rparr>))"

definition mock_unit :: "(int \<Rightarrow> int \<Rightarrow> pyfloat) \<Rightarrow> int \<Rightarrow> mock_world unit_link" where
  "mock_unit decode_float address =
     \<lparr>ul_update = (\<lambda>b w. map_read (decode_block decode_float b)
        (mock_request address (fst (block_range b)) (snd (block_range b) - fst (block_range b) + 1) w)),
      ul_registers = mock_request address,
      ul_connected = (\<lambda>w. True),
      ul_sleep = (\<lambda>d w. (Returned (), w\<lparr>mw_clock := mw_clock w + d, mw_wall := mw_wall w + d\<rparr>)),
      ul_superclasses = (\<lambda>c. [ModbusError])\<rparr>"

section \<open>The node list of the gateway\<close>

definition node_register :: "int list \<Rightarrow> nat \<Rightarrow> int" where
  "node_register paired i = (if i < length paired then paired ! i else 0)"

text \<open>The gateway device as its own operations leave it; nobody refused or forced its registers.\<close>

definition plain_gateway :: "unit_device \<Rightarrow> bool" where
  "plain_gateway d \<longleftrightarrow> dv_profile d = None \<and> dv_refused d = {} \<and> dv_pending d = None
     \<and> dv_readable_ranges d = GATEWAY_READABLE_RANGES"

definition lists_nodes :: "unit_device \<Rightarrow> int list \<Rightarrow> bool" where
  "lists_nodes d paired \<longleftrightarrow>
     dv_registers d REGISTER_GATEWAY_NUMBER_OF_NODES = Some (int (length paired))
     \<and> (\<forall>i < 16. dv_registers d (REGISTER_GATEWAY_NODE_ADDRESS_1 + int i) = Some (node_register paired i))"

definition node_list_ok :: "mock_gateway \<Rightarrow> bool" where
  "node_list_ok g \<longleftrightarrow>
     (\<exists>d. gw_devices g GATEWAY_ADDRESS = Some d \<and> plain_gateway d \<and> lists_nodes d (gw_paired g))
     \<and> distinct (gw_paired g) \<and> set (gw_paired g) \<subseteq> {MIN_UNIT_ADDRESS..MAX_UNIT_ADDRESS}"

lemma node_list_ok_length: "node_list_ok g \<Longrightarrow> length (gw_paired g) \<le> 15"
  using card_mono [of "{2..16 :: int}" "set (gw_paired g)"]
  by (auto simp: node_list_ok_def distinct_card)

lemma update_registers_nth:
  assumes "distinct (map fst us)" "i < length us" "us ! i = (r, v)"
  shows "update_registers us m r = Some v"
  using assms
proof (induction us arbitrary: m i)
  case (Cons u us)
  show ?case
  proof (cases i)
    case 0
    with Cons.prems show ?thesis by (auto simp: update_registers_other)
  next
    case (Suc j)
    obtain r' v' where "u = (r', v')" by fastforce
    with Cons.IH [of j "m(r' \<mapsto> v')"] Cons.prems Suc show ?thesis by (simp add: fun_upd_def)
  qed
qed simp

lemma sync_node_list_ok:
  assumes "gw_devices g GATEWAY_ADDRESS = Some d" "plain_gateway d" "distinct (gw_paired g)"
    and "set (gw_paired g) \<subseteq> {MIN_UNIT_ADDRESS..MAX_UNIT_ADDRESS}"
  shows "node_list_ok (sync_node_list g)"
proof -
  define us where "us = (REGISTER_GATEWAY_NUMBER_OF_NODES, int (length (gw_paired g)))
    # map (\<lambda>i. (REGISTER_GATEWAY_NODE_ADDRESS_1 + int i,
        if i < length (gw_paired g) then gw_paired g ! i else 0)) [0..<16]"
  have keys: "distinct (map fst us)" by (auto simp: us_def distinct_map inj_on_def)
  have "us ! Suc i = (REGISTER_GATEWAY_NODE_ADDRESS_1 + int i, node_register (gw_paired g) i)" if "i < 16" for i
    using that by (simp add: us_def node_register_def)
  then have "update_registers us m (REGISTER_GATEWAY_NODE_ADDRESS_1 + int i) = Some (node_register (gw_paired g) i)"
    if "i < 16" for i m
    using update_registers_nth [OF keys, of "Suc i"] that by (simp add: us_def)
  moreover have "update_registers us m REGISTER_GATEWAY_NUMBER_OF_NODES = Some (int (length (gw_paired g)))" for m
    using update_registers_nth [OF keys, of 0] by (simp add: us_def)
  ultimately show ?thesis
    using assms unfolding sync_node_list_def us_def [symmetric]
    by (auto simp: node_list_ok_def lists_nodes_def plain_gateway_def put_device_def)
qed


text \<open>A clock read changes neither the node list nor what is readable.\<close>

lemma refresh_clock_keeps:
  assumes "plain_gateway d" "lists_nodes d paired"
  shows "plain_gateway (refresh_gateway_clock clock wall g d)"
    and "lists_nodes (refresh_gateway_clock clock wall g d) paired"
  using assms
  by (auto simp: plain_gateway_def lists_nodes_def refresh_gateway_clock_def word_swapped_u32_def)

text \<open>What the gateway answers to a read of registers it lists.\<close>

lemma gateway_request:
  assumes "node_list_ok (mw_gateway w)" "1 \<le> count" "count \<le> 17"
    and "REGISTER_GATEWAY_NUMBER_OF_NODES \<le> register"
    and "register + count - 1 \<le> REGISTER_GATEWAY_NODE_ADDRESS_1 + 15"
  shows "\<exists>d w'. mock_request GATEWAY_ADDRESS register count w =
      (Returned (map (\<lambda>r. register_or (dv_registers d) r 0) [register..register + count - 1]), w')
    \<and> lists_nodes d (gw_paired (mw_gateway w))
    \<and> node_list_ok (mw_gateway w') \<and> gw_paired (mw_gateway w') = gw_paired (mw_gateway w)"
proof -
  obtain d where d: "gw_devices (mw_gateway w) GATEWAY_ADDRESS = Some d" "plain_gateway d"
    "lists_nodes d (gw_paired (mw_gateway w))" using assms(1) by (auto simp: node_list_ok_def)
  define d' where "d' = refresh_gateway_clock (mw_clock w) (mw_wall w) (mw_gateway w) d"
  have d': "plain_gateway d'" "lists_nodes d' (gw_paired (mw_gateway w))"
    using refresh_clock_keeps [OF d(2,3)] by (simp_all add: d'_def)
  have readable: "\<not> list_ex (\<lambda>r. r \<in> dv_refused d' \<or> \<not> dv_readable d' r) [register..register + count - 1]"
    using d'(1) assms(4,5)
    by (auto simp: list_ex_iff plain_gateway_def dv_readable_def in_ranges_def GATEWAY_READABLE_RANGES_def)
  have code: "read_code (mw_clock w) (mw_gateway w) d' [register..register + count - 1] =
      Inr (map (\<lambda>r. register_or (dv_registers d') r 0) [register..register + count - 1])"
    unfolding read_code_def using readable d'(1) by (simp add: plain_gateway_def)
  have "mock_read (mw_clock w) (mw_wall w) GATEWAY_ADDRESS register count (mw_gateway w) =
      (Inr (Inr (map (\<lambda>r. register_or (dv_registers d') r 0) [register..register + count - 1])),
       put_device GATEWAY_ADDRESS d' (mw_gateway w))"
    using assms(2-5) d(1,2) d'(1) code
    by (simp add: mock_read_def device_of_def plain_gateway_def settle_device_def d'_def [symmetric])
  moreover have "node_list_ok (put_device GATEWAY_ADDRESS d' (mw_gateway w))"
    "gw_paired (put_device GATEWAY_ADDRESS d' (mw_gateway w)) = gw_paired (mw_gateway w)"
    using assms(1) d' by (auto simp: node_list_ok_def put_device_def)
  ultimately show ?thesis using d'(2)
    by (intro exI [of _ d'] exI [of _ "w\<lparr>mw_gateway := put_device GATEWAY_ADDRESS d' (mw_gateway w)\<rparr>"])
      (simp add: mock_request_def gw_answers_def)
qed

interpretation mock_nodes:
  node_list "mock_unit decode_float GATEWAY_ADDRESS" "\<lambda>w. gw_paired (mw_gateway w)"
    "\<lambda>w. node_list_ok (mw_gateway w)" for decode_float
proof unfold_locales
  fix w :: mock_world
  assume ok: "node_list_ok (mw_gateway w)"
  show "\<exists>fs w'. ul_update (mock_unit decode_float GATEWAY_ADDRESS)
      (RegisterAt REGISTER_GATEWAY_NUMBER_OF_NODES) w = (Returned fs, w')
    \<and> fs ''value'' = Some (RInt (int (length (gw_paired (mw_gateway w)))))
    \<and> gw_paired (mw_gateway w') = gw_paired (mw_gateway w) \<and> node_list_ok (mw_gateway w')"
    using gateway_request [OF ok, of 1 REGISTER_GATEWAY_NUMBER_OF_NODES]
    by (auto simp: mock_unit_def map_read_def decode_block_def lists_nodes_def register_or_def)
next
  fix w :: mock_world and n :: nat
  assume ok: "node_list_ok (mw_gateway w)" and n: "0 < n" "n \<le> length (gw_paired (mw_gateway w))"
  have fits: "n \<le> 15" using node_list_ok_length [OF ok] n(2) by simp
  obtain d w' where read: "mock_request GATEWAY_ADDRESS REGISTER_GATEWAY_NODE_ADDRESS_1 (int n) w =
      (Returned (map (\<lambda>r. register_or (dv_registers d) r 0)
         [REGISTER_GATEWAY_NODE_ADDRESS_1..REGISTER_GATEWAY_NODE_ADDRESS_1 + int n - 1]), w')"
    and d: "lists_nodes d (gw_paired (mw_gateway w))"
    using gateway_request [OF ok, of "int n" REGISTER_GATEWAY_NODE_ADDRESS_1] n(1) fits by auto
  have "map (\<lambda>r. register_or (dv_registers d) r 0)
      [REGISTER_GATEWAY_NODE_ADDRESS_1..REGISTER_GATEWAY_NODE_ADDRESS_1 + int n - 1]
    = take n (gw_paired (mw_gateway w))"
    using d n(2) fits
    by (intro nth_equalityI) (auto simp: lists_nodes_def register_or_def node_register_def)
  with read show "\<exists>w'. ul_registers (mock_unit decode_float GATEWAY_ADDRESS)
      REGISTER_GATEWAY_NODE_ADDRESS_1 (int n) w = (Returned (take n (gw_paired (mw_gateway w))), w')"
    by (simp add: mock_unit_def)
qed


section \<open>Reachable gateways\<close>

text \<open>Everything the mock's command line and its Modbus side do, short of forcing gateway registers.\<close>

inductive mock_reachable :: "mock_gateway \<Rightarrow> bool" where
  fresh: "new_gateway units no_units silent warmup settle clock = Inr g \<Longrightarrow> distinct (map fst units) \<Longrightarrow>
    mock_reachable g"
| pairing: "mock_reachable g \<Longrightarrow> pair_unit a profile g = Inr g' \<Longrightarrow> mock_reachable g'"
| unpairing: "mock_reachable g \<Longrightarrow> unpair_unit a g = Inr g' \<Longrightarrow> mock_reachable g'"
| silencing: "mock_reachable g \<Longrightarrow> set_silent a quiet g = Inr g' \<Longrightarrow> mock_reachable g'"
| flagging: "mock_reachable g \<Longrightarrow> set_flag a flag active g = Inr g' \<Longrightarrow> mock_reachable g'"
| app: "mock_reachable g \<Longrightarrow> app_change a req g = Inr g' \<Longrightarrow> mock_reachable g'"
| rebooting: "mock_reachable g \<Longrightarrow> reboot clock seconds_of g = Inr g' \<Longrightarrow> mock_reachable g'"
| warming: "mock_reachable g \<Longrightarrow> start_warmup clock s g = Inr g' \<Longrightarrow> mock_reachable g'"
| reading: "mock_reachable g \<Longrightarrow> mock_reachable (snd (mock_read clock wall a register count g))"
| writing: "mock_reachable g \<Longrightarrow> mock_reachable (snd (mock_write clock a register v g))"

lemma put_device_simps [simp]:
  "gw_paired (put_device a d g) = gw_paired g"
  "gw_silent (put_device a d g) = gw_silent g"
  "gw_devices (put_device a d g) = (gw_devices g)(a \<mapsto> d)"
  by (simp_all add: put_device_def)

lemma node_list_ok_cong:
  "gw_devices g' GATEWAY_ADDRESS = gw_devices g GATEWAY_ADDRESS \<Longrightarrow> gw_paired g' = gw_paired g \<Longrightarrow>
     node_list_ok g' \<longleftrightarrow> node_list_ok g"
  by (simp add: node_list_ok_def)

lemma node_list_ok_unit:
  "node_list_ok g \<Longrightarrow> unit_of g a = Inr d \<Longrightarrow> a \<noteq> GATEWAY_ADDRESS \<and> gw_devices g a = Some d"
  by (auto simp: node_list_ok_def unit_of_def device_of_def plain_gateway_def split: option.splits if_splits)

lemma node_list_ok_put: "a \<noteq> GATEWAY_ADDRESS \<Longrightarrow> node_list_ok (put_device a d g) \<longleftrightarrow> node_list_ok g"
  by (rule node_list_ok_cong) simp_all

lemma node_list_ok_sync:
  assumes "node_list_ok g" "gw_devices g' GATEWAY_ADDRESS = gw_devices g GATEWAY_ADDRESS"
    and "distinct (gw_paired g')" "set (gw_paired g') \<subseteq> {MIN_UNIT_ADDRESS..MAX_UNIT_ADDRESS}"
  shows "node_list_ok (sync_node_list g')"
  using assms sync_node_list_ok [of g'] by (auto simp: node_list_ok_def)

lemma node_list_ok_new:
  assumes "new_gateway units no_units silent warmup settle clock = Inr g" "distinct (map fst units)"
  shows "node_list_ok g"
proof -
  from assms(1) have addresses: "\<And>a p. (a, p) \<in> set units \<Longrightarrow> validate_unit_address a = Inr a"
    by (auto simp: new_gateway_def list_ex_iff split: if_splits)
  have in_range: "2 \<le> a \<and> a \<le> 16" if "(a, p) \<in> set units" for a p
    using addresses [OF that] by (auto simp: validate_unit_address_def split: if_splits)
  have "plain_gateway (new_device None gateway_registers GATEWAY_READABLE_RANGES)"
    by (simp add: plain_gateway_def new_device_def)
  then show ?thesis using assms
    by (auto simp: new_gateway_def split: if_splits intro!: sync_node_list_ok) (use in_range in blast)+
qed

lemma node_list_ok_pair:
  assumes "node_list_ok g" "pair_unit a profile g = Inr g'"
  shows "node_list_ok g'"
proof -
  from assms(2) have a: "MIN_UNIT_ADDRESS \<le> a" "a \<le> MAX_UNIT_ADDRESS"
    by (auto simp: pair_unit_def validate_unit_address_def split: if_splits sum.splits)
  then have other: "a \<noteq> GATEWAY_ADDRESS" by simp
  define g1 where "g1 = (if (case gw_devices g a of None \<Rightarrow> False | Some d \<Rightarrow> dv_profile d = Some profile)
    then g else put_device a (Mock_Gateway.new_unit a profile) g)"
  define g2 where "g2 = (if a \<in> set (gw_paired g1) then g1 else g1\<lparr>gw_paired := gw_paired g1 @ [a]\<rparr>)"
  have g': "g' = sync_node_list g2"
    using assms(2) by (auto simp: pair_unit_def g1_def g2_def Let_def split: sum.splits)
  have "gw_devices g2 GATEWAY_ADDRESS = gw_devices g GATEWAY_ADDRESS"
    "gw_paired g2 = (if a \<in> set (gw_paired g) then gw_paired g else gw_paired g @ [a])"
    using other by (auto simp: g1_def g2_def)
  with assms(1) a show ?thesis unfolding g'
    by (intro node_list_ok_sync [OF assms(1)]) (auto simp: node_list_ok_def)
qed

lemma node_list_ok_read: "node_list_ok g \<Longrightarrow> node_list_ok (snd (mock_read clock wall a register count g))"
proof (cases "gw_devices g a")
  case (Some d)
  assume ok: "node_list_ok g"
  show ?thesis
  proof (cases "a = GATEWAY_ADDRESS")
    case True
    from ok Some True have d: "plain_gateway d" "lists_nodes d (gw_paired g)"
      by (auto simp: node_list_ok_def)
    define d' where "d' = refresh_gateway_clock clock wall g d"
    have "plain_gateway d'" "lists_nodes d' (gw_paired g)"
      using refresh_clock_keeps [OF d] by (simp_all add: d'_def)
    moreover have "node_list_ok (put_device a (settle_device clock False d') g)"
      using ok True calculation by (auto simp: node_list_ok_def plain_gateway_def settle_device_def)
    ultimately show ?thesis
      using ok Some d(1) by (simp add: mock_read_def device_of_def plain_gateway_def Let_def d'_def)
  next
    case False
    then show ?thesis using ok Some node_list_ok_put [OF False]
      by (simp add: mock_read_def device_of_def Let_def del: GATEWAY_ADDRESS_def)
  qed
qed (simp add: mock_read_def device_of_def)

lemma node_list_ok_write: "node_list_ok g \<Longrightarrow> node_list_ok (snd (mock_write clock a register v g))"
proof -
  assume ok: "node_list_ok g"
  show ?thesis
  proof (cases "unit_of g a")
    case (Inl e)
    then have "snd (mock_write clock a register v g) = g"
      by (auto simp: mock_write_def unit_of_def split: sum.splits if_splits)
    with ok show ?thesis by simp
  next
    case (Inr d)
    have "a \<noteq> GATEWAY_ADDRESS" using node_list_ok_unit [OF ok Inr] by simp
    then have "node_list_ok (put_device a d' (g\<lparr>gw_writes := n\<rparr>)) = node_list_ok g" for d' n
      by (intro node_list_ok_cong) auto
    with ok show ?thesis by (auto simp: mock_write_def split: sum.split)
  qed
qed

lemma reachable_node_list: "mock_reachable g \<Longrightarrow> node_list_ok g"
proof (induction rule: mock_reachable.induct)
  case (fresh units no_units silent warmup settle clock g)
  then show ?case by (rule node_list_ok_new)
next
  case (pairing g a profile g')
  then show ?case by (blast intro: node_list_ok_pair)
next
  case (unpairing g a g')
  then have "g' = sync_node_list (g\<lparr>gw_paired := remove1 a (gw_paired g)\<rparr>)"
    by (auto simp: unpair_unit_def split: sum.splits)
  moreover have "distinct (remove1 a (gw_paired g))"
    "set (remove1 a (gw_paired g)) \<subseteq> {MIN_UNIT_ADDRESS..MAX_UNIT_ADDRESS}"
    using unpairing.IH by (auto simp: node_list_ok_def)
  ultimately show ?case using node_list_ok_sync [OF unpairing.IH] by simp
next
  case (silencing g a quiet g')
  then show ?case
    by (auto simp: set_silent_def split: sum.splits cong: node_list_ok_cong)
next
  case (flagging g a flag active g')
  then show ?case
    using node_list_ok_unit [OF flagging.IH]
    by (auto simp: set_flag_def node_list_ok_put split: sum.splits option.splits)
next
  case (app g a req g')
  then show ?case
    using node_list_ok_unit [OF app.IH] by (auto simp: app_change_def node_list_ok_put split: sum.splits)
next
  case (rebooting g clock seconds_of g')
  then show ?case
    by (fastforce simp: reboot_def node_list_ok_def lists_nodes_def plain_gateway_def settle_device_def
        split: sum.splits option.splits if_splits)
next
  case (warming g clock s g')
  then show ?case by (auto simp: start_warmup_def node_list_ok_def split: if_splits)
next
  case (reading g clock wall a register count)
  then show ?case by (simp add: node_list_ok_read)
next
  case (writing g clock a register v)
  then show ?case by (simp add: node_list_ok_write)
qed

text \<open>
  C19. Discovery finds exactly the paired units. Whatever the gateway went through (units paired, removed
  or silenced, app changes, reboots, warm-up, any reads and writes), the integration's discovery returns
  the addresses the gateway is paired with, in its order, that lie in the scanned range, with and without
  strictness; silent and warming units are listed too.
\<close>

theorem discovery_finds_paired_units:
  assumes "mock_reachable (mw_gateway w)"
  shows "fst (discover_gateway_nodes (mock_unit decode_float GATEWAY_ADDRESS) port start end_address strict w)
    = Returned (filter (\<lambda>a. start \<le> a \<and> a \<le> end_address) (gw_paired (mw_gateway w)))"
proof (rule mock_nodes.discovers_nodes)
  show ok: "node_list_ok (mw_gateway w)" by (rule reachable_node_list [OF assms])
  then show "distinct (gw_paired (mw_gateway w))" "0 \<notin> set (gw_paired (mw_gateway w))"
    by (auto simp: node_list_ok_def)
  show "length (gw_paired (mw_gateway w)) \<le> 32" using node_list_ok_length [OF ok] by simp
qed


lemma discovery_finds_paired_units_witness:
  "\<exists>g. new_gateway [(4, ''ii_f''), (3, ''ii_fc'')] False {} 0 0 0 = Inr g
    \<and> fst (discover_gateway_nodes (mock_unit (\<lambda>_ _. NonFinite) GATEWAY_ADDRESS) ''gw'' 2 16 True
        \<lparr>mw_gateway = g, mw_clock = 0, mw_wall = 0\<rparr>) = Returned [3, 4]"
proof -
  obtain g where g: "new_gateway [(4, ''ii_f''), (3, ''ii_fc'')] False {} 0 0 0 = Inr g"
    "gw_paired g = [3, 4]"
    by (auto simp: new_gateway_def validate_unit_address_def validate_profile_def PROFILE_METADATA_def
        sync_node_list_def)
  from mock_reachable.fresh [OF g(1)] have "mock_reachable g" by simp
  then have "fst (discover_gateway_nodes (mock_unit (\<lambda>_ _. NonFinite) GATEWAY_ADDRESS) ''gw'' 2 16 True
      \<lparr>mw_gateway = g, mw_clock = 0, mw_wall = 0\<rparr>) = Returned (filter (\<lambda>a. 2 \<le> a \<and> a \<le> 16) (gw_paired g))"
    using discovery_finds_paired_units [of "\<lparr>mw_gateway = g, mw_clock = 0, mw_wall = 0\<rparr>" "\<lambda>_ _. NonFinite"
        "''gw''" 2 16 True] by simp
  with g show ?thesis by auto
qed

section \<open>Probing a unit\<close>

text \<open>The registers the probe reads.\<close>

definition probed_registers :: "int list" where
  "probed_registers =
     [40000, 40001, 40002, 40003, REGISTER_HUMIDITY_EXTRACT_AIR, REGISTER_HUMIDITY_SUPPLY_AIR,
      REGISTER_CO2_EXTRACT_AIR, REGISTER_VOC_SUPPLY_AIR]"

text \<open>
  A unit that answers after its warm-up with the sensors of its profile. Mode commands and app changes
  do not touch these registers.
\<close>

definition probe_ready :: "int \<Rightarrow> string \<Rightarrow> mock_world \<Rightarrow> bool" where
  "probe_ready a profile w \<longleftrightarrow>
     a \<noteq> GATEWAY_ADDRESS \<and> gw_answers (mw_gateway w) a
     \<and> warmup_remaining (mw_clock w) (mw_gateway w) = 0
     \<and> (\<exists>d. gw_devices (mw_gateway w) a = Some d \<and> dv_profile d = Some profile \<and> dv_refused d = {}
          \<and> dv_readable_ranges d = UNIT_READABLE_RANGES \<and> pending_ok d
          \<and> (\<forall>r \<in> set probed_registers.
               dv_registers d r = unit_registers profile (40960 + a) r))"

lemma probed_not_status: "r \<in> set probed_registers \<Longrightarrow> r \<notin> STATUS_REGISTERS"
  by (auto simp: probed_registers_def STATUS_REGISTERS_def)

lemma probed_readable:
  "r \<in> set probed_registers \<Longrightarrow> in_ranges r UNIT_READABLE_RANGES \<and> r \<notin> set SET_REGISTERS"
proof -
  have "list_all (\<lambda>r. in_ranges r UNIT_READABLE_RANGES \<and> r \<notin> set SET_REGISTERS) probed_registers"
    by code_simp
  then show "r \<in> set probed_registers \<Longrightarrow> ?thesis" by (auto simp: list_all_iff)
qed

definition factory_word :: "string \<Rightarrow> int \<Rightarrow> int \<Rightarrow> int" where
  "factory_word profile a r = register_or (unit_registers profile (40960 + a)) r 0"

lemma probe_ready_request:
  assumes "probe_ready a profile w" "1 \<le> count" "count \<le> 2" "register \<le> 65000"
    and "set [register..register + count - 1] \<subseteq> set probed_registers"
  shows "\<exists>w'. mock_request a register count w =
      (Returned (map (factory_word profile a) [register..register + count - 1]), w') \<and> probe_ready a profile w'"
proof -
  obtain d where d: "gw_devices (mw_gateway w) a = Some d" "dv_profile d = Some profile" "dv_refused d = {}"
    "dv_readable_ranges d = UNIT_READABLE_RANGES" "pending_ok d"
    "\<And>r. r \<in> set probed_registers \<Longrightarrow> dv_registers d r = unit_registers profile (40960 + a) r"
    using assms(1) by (auto simp: probe_ready_def)
  define d' where "d' = settle_device (mw_clock w) False d"
  have d': "dv_profile d' = Some profile" "dv_refused d' = {}" "dv_readable_ranges d' = UNIT_READABLE_RANGES"
    "pending_ok d'" using d by (auto simp: d'_def settle_device_def pending_ok_def split: option.split)
  have kept: "dv_registers d' r = unit_registers profile (40960 + a) r" if "r \<in> set probed_registers" for r
    using settle_device_other [OF d(5) probed_not_status [OF that]] d(6) [OF that] by (simp add: d'_def)
  have awake: "warmup_remaining (mw_clock w) (mw_gateway w) = 0" using assms(1) by (simp add: probe_ready_def)
  have "read_code (mw_clock w) (mw_gateway w) d' [register..register + count - 1]
      = Inr (map (factory_word profile a) [register..register + count - 1])"
    using assms(5) probed_readable kept d' awake
    by (fastforce simp: read_code_def list_ex_iff dv_readable_def factory_word_def register_or_def)
  then have "mock_read (mw_clock w) (mw_wall w) a register count (mw_gateway w)
      = (Inr (Inr (map (factory_word profile a) [register..register + count - 1])),
         put_device a d' (mw_gateway w))"
    using assms(2-4) d(1,2) by (simp add: mock_read_def device_of_def d'_def)
  moreover have "probe_ready a profile (w\<lparr>mw_gateway := put_device a d' (mw_gateway w)\<rparr>)"
    using assms(1) d' kept by (auto simp: probe_ready_def gw_answers_def warmup_remaining_def put_device_def)
  ultimately show ?thesis using assms(1) by (simp add: mock_request_def probe_ready_def)
qed


definition factory_answer ::
  "(int \<Rightarrow> int \<Rightarrow> pyfloat) \<Rightarrow> string \<Rightarrow> int \<Rightarrow> register_block \<Rightarrow> (string \<Rightarrow> raw_value option) outcome" where
  "factory_answer decode_float profile a b =
     Returned (decode_block decode_float b
       (map (factory_word profile a) [fst (block_range b)..snd (block_range b)]))"

definition probe_blocks :: "register_block list" where
  "probe_blocks = AppSetupCode # map probe_block PROBE_COMPONENTS"

lemma probe_blocks_probed:
  "b \<in> set probe_blocks \<Longrightarrow> snd (block_range b) - fst (block_range b) \<in> {0, 1}
     \<and> fst (block_range b) \<le> 65000
     \<and> set [fst (block_range b)..snd (block_range b)] \<subseteq> set probed_registers"
proof -
  have "list_all (\<lambda>b. snd (block_range b) - fst (block_range b) \<in> {0, 1} \<and> fst (block_range b) \<le> 65000
      \<and> list_all (\<lambda>r. r \<in> set probed_registers) [fst (block_range b)..snd (block_range b)]) probe_blocks"
    by code_simp
  then show "b \<in> set probe_blocks \<Longrightarrow> ?thesis" by (auto simp: list_all_iff)
qed

lemma probe_ready_update:
  assumes "probe_ready a profile w" "b \<in> set probe_blocks"
  shows "\<exists>w'. ul_update (mock_unit decode_float a) b w = (factory_answer decode_float profile a b, w')
    \<and> probe_ready a profile w'"
proof -
  note b = probe_blocks_probed [OF assms(2)]
  have "\<exists>w'. mock_request a (fst (block_range b)) (snd (block_range b) - fst (block_range b) + 1) w =
      (Returned (map (factory_word profile a) [fst (block_range b)..snd (block_range b)]), w')
    \<and> probe_ready a profile w'"
    using probe_ready_request [OF assms(1), of "snd (block_range b) - fst (block_range b) + 1"
        "fst (block_range b)"] b by auto
  then show ?thesis by (auto simp: mock_unit_def map_read_def factory_answer_def)
qed

lemma probe_read_returned:
  "rd w = (Returned v, w') \<Longrightarrow> probe_read link rd heard retried w = (Returned (VALUE, Some v), w')"
  by (subst probe_read.simps) simp

interpretation mock_probe: answering_unit "mock_unit decode_float a" "factory_answer decode_float profile a"
    "\<lambda>heard. probe_ready a profile" for decode_float a profile
proof unfold_locales
  fix heard :: bool and w name
  assume ready: "probe_ready a profile w" and name: "name \<in> set PROBE_COMPONENTS"
  obtain w' where "ul_update (mock_unit decode_float a) (probe_block name) w
      = (factory_answer decode_float profile a (probe_block name), w')" "probe_ready a profile w'"
    using probe_ready_update [OF ready, of "probe_block name"] name by (auto simp: probe_blocks_def)
  then show "\<exists>w'. probe_ready a profile w' \<and>
      probe_read (mock_unit decode_float a) (ul_update (mock_unit decode_float a) (probe_block name)) heard False w
        = (Returned (undisturbed (\<lambda>fs. fs) (factory_answer decode_float profile a (probe_block name))), w')"
    by (auto simp: factory_answer_def undisturbed_def intro: probe_read_returned)
next
  fix w
  assume ready: "probe_ready a profile w"
  obtain w' where "ul_update (mock_unit decode_float a) AppSetupCode w
      = (factory_answer decode_float profile a AppSetupCode, w')" "probe_ready a profile w'"
    using probe_ready_update [OF ready, of AppSetupCode] by (auto simp: probe_blocks_def)
  then show "\<exists>w'. probe_read (mock_unit decode_float a) (read_app_setup_code (mock_unit decode_float a)) True False w
        = (Returned (undisturbed app_setup_code_of (factory_answer decode_float profile a AppSetupCode)), w')"
    by (auto simp: factory_answer_def undisturbed_def read_app_setup_code_map map_read_def
        intro!: exI probe_read_returned)
qed

text \<open>The sensors and the product of a profile, as the factory registers show them.\<close>

lemma factory_words:
  "factory_word profile a REGISTER_PRODUCT_ID + 65536 * factory_word profile a (REGISTER_PRODUCT_ID + 1) =
     (if take 2 profile = ''s_'' then PRODUCT_ID_M_WRG else PRODUCT_ID_M_WRG_II)"
  "factory_word profile a REGISTER_HUMIDITY_EXTRACT_AIR =
     (if ''humidity'' \<in> set (profile_capabilities profile) then 48 else NO_HUMIDITY_VALUE)"
  "factory_word profile a REGISTER_HUMIDITY_SUPPLY_AIR =
     (if ''humidity'' \<in> set (profile_capabilities profile) then 44 else NO_HUMIDITY_VALUE)"
  "factory_word profile a REGISTER_CO2_EXTRACT_AIR =
     (if ''co2'' \<in> set (profile_capabilities profile) then 720 else NO_SENSOR_VALUE)"
  "factory_word profile a REGISTER_VOC_SUPPLY_AIR =
     (if ''voc'' \<in> set (profile_capabilities profile) then 360 else NO_SENSOR_VALUE)"
  by (simp_all add: factory_word_def register_or_def unit_registers_def Let_def word_swapped_u32_def
      word_swapped_float_def FLOAT_WORDS_def dict_get_def)


lemma factory_values:
  "undisturbed_values (factory_answer decode_float profile a) PROBE_COMPONENTS [] =
     [(''product_id'', Some (if take 2 profile = ''s_'' then PRODUCT_ID_M_WRG else PRODUCT_ID_M_WRG_II)),
      (''humidity_extract_air'', Some (factory_word profile a REGISTER_HUMIDITY_EXTRACT_AIR)),
      (''humidity_supply_air'', Some (factory_word profile a REGISTER_HUMIDITY_SUPPLY_AIR)),
      (''co2_extract_air'', Some (factory_word profile a REGISTER_CO2_EXTRACT_AIR)),
      (''voc_supply_air'', Some (factory_word profile a REGISTER_VOC_SUPPLY_AIR))]"
proof -
  have range: "[40002..40003 :: int] = [40002, 40003]" by code_simp
  show ?thesis
    using factory_words(1) [of profile a]
    by (simp add: PROBE_COMPONENTS_def factory_answer_def probe_value_def int_field_def decode_block_def
        probe_block_def probe_device_def dict_get_def whole_def range)
qed


lemma plausible_probes:
  "is_plausible ''humidity_extract_air'' (Some v) \<longleftrightarrow> 0 \<le> v \<and> v \<le> 100"
  "is_plausible ''humidity_supply_air'' (Some v) \<longleftrightarrow> 0 \<le> v \<and> v \<le> 100"
  "is_plausible ''co2_extract_air'' (Some v) \<longleftrightarrow> 250 \<le> v \<and> v \<le> 10000"
  "is_plausible ''voc_supply_air'' (Some v) \<longleftrightarrow> 0 \<le> v \<and> v \<le> 10000"
  "\<not> is_plausible key None"
  by (auto simp: is_plausible_def PLAUSIBLE_RANGES_def split: option.split)

lemma probe_result_simps [simp]:
  "probe_profile (probe_result found code) = fst (detected_suffix (detected_sensors found))"
  "probe_product_id (probe_result found code) = dict_get found ''product_id'' None"
  "probe_setup_code (probe_result found code) = code"
  by (simp_all add: probe_result_def Let_def split: prod.split)

text \<open>The suffix is decided by the sensors the profile has.\<close>

lemma factory_suffix:
  "fst (detected_suffix (detected_sensors
     (undisturbed_values (factory_answer decode_float profile a) PROBE_COMPONENTS []))) =
   (if ''voc'' \<in> set (profile_capabilities profile) then ''fc_voc''
    else if ''co2'' \<in> set (profile_capabilities profile) then ''fc''
    else if ''humidity'' \<in> set (profile_capabilities profile) then ''f'' else ''plain'')"
proof -
  define h c v where "h = (''humidity'' \<in> set (profile_capabilities profile))"
    and "c = (''co2'' \<in> set (profile_capabilities profile))"
    and "v = (''voc'' \<in> set (profile_capabilities profile))"
  have "detected_sensors (undisturbed_values (factory_answer decode_float profile a) PROBE_COMPONENTS []) =
      (if h then [''humidity_extract_air'', ''humidity_supply_air''] else [])
      @ (if c then [''co2_extract_air''] else []) @ (if v then [''voc_supply_air''] else [])"
    unfolding factory_values factory_words(2-) h_def [symmetric] c_def [symmetric] v_def [symmetric]
    by (cases h; cases c; cases v)
      (simp_all add: detected_sensors_def PLAUSIBLE_RANGES_def dict_get_def plausible_probes)
  then show ?thesis
    unfolding h_def [symmetric] c_def [symmetric] v_def [symmetric]
    by (cases h; cases c; cases v) (simp_all add: detected_suffix_def SUFFIXES_def)
qed

lemma factory_setup_code:
  assumes "0 \<le> a" "a \<le> 16"
  shows "app_setup_code_of (\<lambda>name. decode_block decode_float AppSetupCode
      (map (factory_word profile a) [40000..40001]) name)
    = Some (CHR ''R'' # hex_text UPPER_HEX 6 (nat (40960 + a)))"
proof -
  have range: "[40000..40001 :: int] = [40000, 40001]" by code_simp
  have words: "factory_word profile a 40000 = 40960 + a" "factory_word profile a 40001 = 0"
    by (simp_all add: factory_word_def register_or_def unit_registers_def Let_def word_swapped_u32_def
      word_swapped_float_def FLOAT_WORDS_def dict_get_def)
  show ?thesis using assms
    by (simp add: app_setup_code_of_def int_field_def decode_block_def range words
        format_app_setup_code_def del: hex_text_numeral)
qed

text \<open>
  C20. The setup probe suggests the right profile. For every profile the integration knows, probing a unit
  of that profile (once its warm-up is over) finds the sensor suffix and the product id that together are
  the profile, and the unit's own app setup code.
\<close>

theorem probe_finds_profile:
  assumes "probe_ready a profile w" "profile \<in> set ALL_PROFILES" "0 \<le> a" "a \<le> 16"
  shows "\<exists>r. fst (detect_slave_details (mock_unit decode_float a) w) = Returned r
    \<and> profile = (if probe_product_id r = Some PRODUCT_ID_M_WRG then ''s_'' else ''ii_'') @ probe_profile r
    \<and> probe_setup_code r = Some (CHR ''R'' # hex_text UPPER_HEX 6 (nat (40960 + a)))"
proof -
  define r where "r = detected_from (factory_answer decode_float profile a)"
  have detected: "fst (detect_slave_details (mock_unit decode_float a) w) = Returned r"
    using mock_probe.detects [OF assms(1)] by (simp add: r_def)
  have product: "probe_product_id r = Some (if take 2 profile = ''s_'' then PRODUCT_ID_M_WRG else PRODUCT_ID_M_WRG_II)"
    by (simp add: r_def detected_from_def factory_values dict_get_def)
  have sensors: "probe_profile r = (if ''voc'' \<in> set (profile_capabilities profile) then ''fc_voc''
    else if ''co2'' \<in> set (profile_capabilities profile) then ''fc''
    else if ''humidity'' \<in> set (profile_capabilities profile) then ''f'' else ''plain'')"
    by (simp add: r_def detected_from_def factory_suffix)
  have code: "probe_setup_code r = Some (CHR ''R'' # hex_text UPPER_HEX 6 (nat (40960 + a)))"
    using factory_setup_code [OF assms(3,4), of decode_float profile]
    by (simp add: r_def detected_from_def undisturbed_def factory_answer_def del: hex_text_numeral)
  have "profile = (if probe_product_id r = Some PRODUCT_ID_M_WRG then ''s_'' else ''ii_'') @ probe_profile r"
    using assms(2) unfolding product sensors
    by (auto simp: profile_tables profile_capabilities_def PROFILE_METADATA_def)
  with detected code show ?thesis by blast
qed

lemma fresh_unit_ready:
  "probe_ready 3 ''ii_fc'' \<lparr>mw_gateway =
      (put_device 3 (Mock_Gateway.new_unit 3 ''ii_fc'') \<lparr>gw_warmup_seconds = 0, gw_settle_seconds = 0,
         gw_clock_offset = 0, gw_writes = 0, gw_devices = Map.empty, gw_silent = {}, gw_paired = [3],
         gw_boot = 0, gw_uptime_at_boot = 0, gw_warmup_until = 0\<rparr>), mw_clock = 0, mw_wall = 0\<rparr>"
  by (simp add: probe_ready_def gw_answers_def warmup_remaining_def put_device_def Mock_Gateway.new_unit_def
      new_device_def pending_ok_def)

lemma probe_finds_profile_witness:
  "\<exists>w r. fst (detect_slave_details (mock_unit (\<lambda>_ _. NonFinite) 3) w) = Returned r
    \<and> ''ii_fc'' = (if probe_product_id r = Some PRODUCT_ID_M_WRG then ''s_'' else ''ii_'') @ probe_profile r"
proof -
  have "''ii_fc'' \<in> set ALL_PROFILES" "0 \<le> (3 :: int)" "3 \<le> (16 :: int)" by (simp_all add: profile_tables)
  from probe_finds_profile [OF fresh_unit_ready this] show ?thesis by blast
qed

end
