(* ===== verification/Probe_Transport.thy ===== *)
theory Probe_Transport
  imports Node_Discovery
begin

text \<open>
  The probe over the transport policy: \<open>prepare_unit\<close> of \<open>modbus_helpers.py\<close> wraps every unit in the
  policy, so the second read of the probe must get past the quarantine that its first read caused.
\<close>

text \<open>
  A unit behind the policy, \<open>PolicyUnit\<close>. The link below it and the decoding of a block from its words
  are parameters.
\<close>

fun reply_outcome :: "(int list \<Rightarrow> 'a) \<Rightarrow> reply \<times> transport \<times> 'w \<Rightarrow> 'a outcome \<times> transport \<times> 'w" where
  "reply_outcome f (Answered words, s) = (Returned (f words), s)"
| "reply_outcome f (Raised e, s) = (Erred (Untranslated e), s)"
| "reply_outcome f (TaskCancelled, s) = (Aborted, s)"

definition prepare_unit ::
  "'w link_env \<Rightarrow> (register_block \<Rightarrow> int list \<Rightarrow> string \<Rightarrow> raw_value option) \<Rightarrow> ('w \<Rightarrow> bool) \<Rightarrow> int
     \<Rightarrow> (transport \<times> 'w) unit_link" where
  "prepare_unit env decode open_link unit_id =
     \<lparr>ul_update = (\<lambda>b (p, w). reply_outcome (decode b)
        (run env unit_id (ReadHolding (fst (block_range b)) (snd (block_range b) - fst (block_range b) + 1)) p w)),
      ul_registers = (\<lambda>a n (p, w). reply_outcome (\<lambda>words. words) (run env unit_id (ReadHolding a n) p w)),
      ul_connected = (\<lambda>(p, w). open_link w),
      ul_sleep = (\<lambda>d (p, w). (Returned (), async_sleep env d p w)),
      ul_superclasses = superclasses env\<rparr>"

lemma reply_outcome_state: "snd (reply_outcome f r) = snd r"
  by (cases "(f, r)" rule: reply_outcome.cases) auto

interpretation clock: transport_invariant "\<lambda>p. t0 \<le> mono_now p" for t0
  by unfold_locales
    (auto simp: time_passes_def notify_request_def record_request_def prune_samples_def Let_def
      read_finished_def link_answered_def notify_link_recycle_def shutdown_policy_def quarantine_read_def
      release_quarantine_def)

text \<open>
  The probe's retry is never refused by the read quarantine. After any history of the shared policy
  and whatever the first read of a block met, the wait of the probe loop ends the quarantine: the second
  read is let through to the link unless the client was shut down.
\<close>

lemma probe_retry_let_through:
  assumes "0 \<le> t0" "(p, w) = transport_run env ops (new_transport_policy timeout t0 offset, w0)"
    and "ul_update (prepare_unit env decode open_link unit_id) b (p, w) = (first, (p1, w1))"
    and "ul_sleep (prepare_unit env decode open_link unit_id) TRANSPORT_READ_RECOVERY_SECONDS (p1, w1)
      = (slept, (p2, w2))"
  shows "ensure_read_allowed env unit_id p2 = (if policy_closed p2 then Some (closed_error env) else None)"
proof -
  have p: "p = fst (transport_run env ops (new_transport_policy timeout t0 offset, w0))"
    using assms(2) by (metis fst_conv)
  have "quarantine_bounded p" unfolding p by (rule quarantine.kept_transport_run) simp
  moreover have "0 \<le> mono_now p" unfolding p
    by (rule clock.kept_transport_run) (simp add: new_transport_policy_def new_transport_def assms(1))
  moreover have "p1 = fst (snd (run env unit_id
      (ReadHolding (fst (block_range b)) (snd (block_range b) - fst (block_range b) + 1)) p w))"
    using assms(3) reply_outcome_state [of "decode b" "run env unit_id (ReadHolding (fst (block_range b))
        (snd (block_range b) - fst (block_range b) + 1)) p w"]
    by (simp add: prepare_unit_def) (metis fst_conv)
  ultimately have p1: "quarantine_bounded p1" "0 \<le> mono_now p1"
    by (auto intro: quarantine.kept_run clock.kept_run)
  have sleep: "async_sleep env TRANSPORT_READ_RECOVERY_SECONDS p1 w1 = (p2, w2)"
    using assms(4) by (simp add: prepare_unit_def)
  have "0 \<le> mono_now p2" using clock.kept_sleep [OF p1(2)] sleep by (metis fst_conv)
  from quarantine_outwaited [OF p1(1) order.refl sleep this] show ?thesis
    by (simp add: ensure_read_allowed_def)
qed

definition example_unit :: "(transport \<times> (seconds \<times> bool \<times> reply) list) unit_link" where
  "example_unit = prepare_unit scripted_link (\<lambda>b words name. None) (\<lambda>w. True) 2"

definition example_after_timeout :: "transport \<times> (seconds \<times> bool \<times> reply) list" where
  "example_after_timeout = snd (ul_update example_unit ProductId
     (new_transport_policy 3 0 0, [(3, False, Raised timeout_exn)]))"

definition example_after_wait :: "transport \<times> (seconds \<times> bool \<times> reply) list" where
  "example_after_wait = snd (ul_sleep example_unit TRANSPORT_READ_RECOVERY_SECONDS example_after_timeout)"

lemma probe_retry_let_through_witness:
  "read_delayed (fst example_after_timeout) 2
   \<and> ensure_read_allowed scripted_link 2 (fst example_after_wait) = None"
proof -
  have facts: "read_delayed (fst example_after_timeout) 2" "\<not> policy_closed (fst example_after_wait)"
    by code_simp+
  have start: "(new_transport_policy 3 0 0, [(3, False, Raised timeout_exn)])
    = transport_run scripted_link [] (new_transport_policy 3 0 0, [(3, False, Raised timeout_exn)])"
    by (simp add: transport_run_def)
  obtain first where first: "ul_update example_unit ProductId
      (new_transport_policy 3 0 0, [(3, False, Raised timeout_exn)])
    = (first, (fst example_after_timeout, snd example_after_timeout))"
    by (metis example_after_timeout_def prod.collapse)
  obtain slept where slept: "ul_sleep example_unit TRANSPORT_READ_RECOVERY_SECONDS
      (fst example_after_timeout, snd example_after_timeout)
    = (slept, (fst example_after_wait, snd example_after_wait))"
    by (metis example_after_wait_def prod.collapse)
  show ?thesis
    using probe_retry_let_through [OF order.refl start first [unfolded example_unit_def]
        slept [unfolded example_unit_def]] facts by simp
qed

end
