(* ===== verification/Coordinator_Steps.thy ===== *)
theory Coordinator_Steps
  imports Coordinator_Writes
begin

text \<open>
  Every operation of the coordinator as a sequence of small changes to its lasting state. A property of
  the coordinator is then proved once per small change. The changes name the units whose bookkeeping
  they may alter, and whether the link's failure count may change; the display fields (data, flags of the last job, listeners, optional values) are free.
\<close>

section \<open>Small changes\<close>

definition core where
  "core co =
     (co_rooms co, co_runtimes co, co_tick_seconds co, co_started_at co, co_jobs co, co_startup_jobs co,
      co_transport_failures co, co_backoff co, co_next_poll_delay co, co_poll_timer co,
      co_polling_stopped co, co_writes co, co_presets co, co_intensive co, co_levels co)"

lemma core_eqD:
  assumes "core co' = core co"
  shows "co_rooms co' = co_rooms co" "co_runtimes co' = co_runtimes co"
    "co_tick_seconds co' = co_tick_seconds co" "co_started_at co' = co_started_at co"
    "co_jobs co' = co_jobs co" "co_startup_jobs co' = co_startup_jobs co"
    "co_transport_failures co' = co_transport_failures co" "co_backoff co' = co_backoff co"
    "co_next_poll_delay co' = co_next_poll_delay co" "co_poll_timer co' = co_poll_timer co"
    "co_polling_stopped co' = co_polling_stopped co" "co_writes co' = co_writes co"
    "co_presets co' = co_presets co" "co_intensive co' = co_intensive co" "co_levels co' = co_levels co"
  using assms by (simp_all add: core_def)

definition known :: "coordinator \<Rightarrow> string \<Rightarrow> bool" where
  "known co key \<longleftrightarrow> map_of (co_runtimes co) key \<noteq> None"

inductive change :: "'w client_env \<Rightarrow> string set \<Rightarrow> bool \<Rightarrow> coordinator \<Rightarrow> coordinator \<Rightarrow> bool"
  for env :: "'w client_env" and R :: "string set" and L :: bool where
  ChangeDisplay: "core co' = core co \<Longrightarrow> change env R L co co'"
| ChangeRuntime:
    "key \<in> R \<Longrightarrow> map_of (co_runtimes co) key = Some rt \<Longrightarrow> rt_room rt' = rt_room rt \<Longrightarrow>
     change env R L co (co\<lparr>co_runtimes := AList.update key rt' (co_runtimes co)\<rparr>)"
| ChangeFallback:
    "map_of (co_runtimes co) key = Some rt \<Longrightarrow>
     change env R L co (co\<lparr>co_runtimes :=
       AList.update key (rt\<lparr>rt_level_fallback := None\<rparr>) (co_runtimes co)\<rparr>)"
| ChangeDue: "change env R L co (set_next_due jid due co)"
| ChangeStartup:
    "set jids \<subseteq> job_id ` set (co_jobs co) \<union> set (case co_startup_jobs co of None \<Rightarrow> [] | Some js \<Rightarrow> js) \<Longrightarrow>
     change env R L co (co\<lparr>co_startup_jobs := Some jids\<rparr>)"
| ChangeWrites: "change env R L co (with_writes t (fold wc_step ops) co)"
| ChangePresets: "change env R L co (co\<lparr>co_presets := overlay_step PRESET_OVERLAY op_p (co_presets co)\<rparr>)"
| ChangeIntensive: "change env R L co (co\<lparr>co_intensive := overlay_step INTENSIVE_OVERLAY op_i (co_intensive co)\<rparr>)"
| ChangeLevels: "change env R L co (co\<lparr>co_levels := overlay_step LEVELS_OVERLAY op_l (co_levels co)\<rparr>)"
| ChangePlan: "change env R L co (schedule_next_tick env w co)"
| ChangeSuccess: "L \<Longrightarrow> change env R L co (on_transport_success env w co)"
| ChangeFailure: "L \<Longrightarrow> change env R L co (on_transport_failure env w co)"
| ChangeRetry:
    "co_backoff co = None \<Longrightarrow> change env R L co (set_next_poll_delay env w TRANSPORT_BACKOFF_START_SECONDS co)"
| ChangeRate: "change env R L co (update_rate env w rate co)"
| ChangeTimer: "change env R L co (schedule_poll env w delay co)"
| ChangeTimerOff: "change env R L co (co\<lparr>co_poll_timer := None\<rparr>)"
| ChangeStop: "change env R L co (co\<lparr>co_polling_stopped := True, co_poll_timer := None\<rparr>)"

abbreviation evolves :: "'w client_env \<Rightarrow> string set \<Rightarrow> bool \<Rightarrow> coordinator \<Rightarrow> coordinator \<Rightarrow> bool" where
  "evolves env R L \<equiv> (change env R L)\<^sup>*\<^sup>*"

lemma evolvesI: "change env R L co co' \<Longrightarrow> evolves env R L co co'"
  by (rule r_into_rtranclp)

lemma evolves_trans [trans]: "evolves env R L a b \<Longrightarrow> evolves env R L b c \<Longrightarrow> evolves env R L a c"
  by (rule rtranclp_trans)

lemma evolves_display: "core co' = core co \<Longrightarrow> evolves env R L co co'"
  by (rule evolvesI) (rule ChangeDisplay)

lemma evolves_then_display: "evolves env R L co co1 \<Longrightarrow> core co' = core co1 \<Longrightarrow> evolves env R L co co'"
  by (rule evolves_trans [OF _ evolves_display])

lemma evolves_after_display: "core co1 = core co \<Longrightarrow> evolves env R L co1 co' \<Longrightarrow> evolves env R L co co'"
  by (rule evolves_trans [OF evolves_display])

section \<open>What no change alters\<close>

lemma schedule_poll_simps [simp]:
  "core (schedule_poll env w d co) = core (co\<lparr>co_poll_timer := co_poll_timer (schedule_poll env w d co)\<rparr>)"
  by (simp add: core_def schedule_poll_def)

lemma set_next_poll_delay_core:
  "core (set_next_poll_delay env w d co)
     = core (co\<lparr>co_next_poll_delay := d, co_poll_timer := co_poll_timer (set_next_poll_delay env w d co)\<rparr>)"
  by (simp add: core_def set_next_poll_delay_def schedule_poll_def Let_def)

text \<open>The fields a plan of the next tick leaves alone.\<close>

definition unplanned where
  "unplanned co =
     (co_rooms co, co_runtimes co, co_started_at co, co_jobs co, co_startup_jobs co,
      co_polling_stopped co, co_writes co, co_presets co, co_intensive co, co_levels co)"

lemma unplanned_core: "core co' = core co \<Longrightarrow> unplanned co' = unplanned co"
  by (simp add: core_def unplanned_def)

lemma unplanned_simps [simp]:
  "unplanned (set_next_poll_delay env w d co) = unplanned co"
  "unplanned (schedule_next_tick env w co) = unplanned co"
  "unplanned (on_transport_success env w co) = unplanned co"
  "unplanned (on_transport_failure env w co) = unplanned co"
  "unplanned (update_rate env w rate co) = unplanned co"
  "unplanned (schedule_poll env w d co) = unplanned co"
  by (simp_all add: unplanned_def set_next_poll_delay_def schedule_poll_def schedule_next_tick_def
      on_transport_success_def on_transport_failure_def apply_transport_backoff_def update_rate_def Let_def
      split: option.split)

lemma unplannedD:
  assumes "unplanned co' = unplanned co"
  shows "co_rooms co' = co_rooms co" "co_runtimes co' = co_runtimes co"
    "co_started_at co' = co_started_at co" "co_jobs co' = co_jobs co"
    "co_startup_jobs co' = co_startup_jobs co" "co_polling_stopped co' = co_polling_stopped co"
    "co_writes co' = co_writes co" "co_presets co' = co_presets co"
    "co_intensive co' = co_intensive co" "co_levels co' = co_levels co"
  using assms by (simp_all add: unplanned_def)

lemmas plan_fields =
  unplannedD [OF unplanned_simps(1)] unplannedD [OF unplanned_simps(2)]
  unplannedD [OF unplanned_simps(3)] unplannedD [OF unplanned_simps(4)]
  unplannedD [OF unplanned_simps(5)] unplannedD [OF unplanned_simps(6)]

lemma with_writes_fields [simp]:
  "co_rooms (with_writes t f co) = co_rooms co" "co_runtimes (with_writes t f co) = co_runtimes co"
  "co_started_at (with_writes t f co) = co_started_at co" "co_jobs (with_writes t f co) = co_jobs co"
  "co_startup_jobs (with_writes t f co) = co_startup_jobs co" "co_data (with_writes t f co) = co_data co"
  "co_polling_stopped (with_writes t f co) = co_polling_stopped co"
  "co_writes (with_writes t f co) = f (co_writes co)"
  "co_presets (with_writes t f co) = co_presets co" "co_intensive (with_writes t f co) = co_intensive co"
  "co_levels (with_writes t f co) = co_levels co" "co_tick_seconds (with_writes t f co) = co_tick_seconds co"
  "co_transport_failures (with_writes t f co) = co_transport_failures co"
  "co_backoff (with_writes t f co) = co_backoff co"
  "co_next_poll_delay (with_writes t f co) = co_next_poll_delay co"
  "co_poll_timer (with_writes t f co) = co_poll_timer co"
  by (simp_all add: with_writes_def Let_def)

lemma with_writes_cong:
  "f (co_writes co) = g (co_writes co) \<Longrightarrow> with_writes t f co = with_writes t g co"
  by (simp add: with_writes_def)

lemma change_rooms: "change env R L co co' \<Longrightarrow> co_rooms co' = co_rooms co"
  by (induction rule: change.induct) (auto dest: core_eqD simp: set_next_due_def plan_fields)

lemma change_known:
  assumes "change env R L co co'" shows "known co' = known co"
  using assms
proof (cases rule: change.cases)
  case ChangeDisplay
  then show ?thesis by (auto dest!: core_eqD(2) simp: known_def)
qed (simp_all add: known_def set_next_due_def plan_fields update_conv fun_eq_iff)

lemma change_job_ids: "change env R L co co' \<Longrightarrow> map job_id (co_jobs co') = map job_id (co_jobs co)"
  by (induction rule: change.induct) (auto dest: core_eqD simp: set_next_due_def plan_fields)

lemma evolves_rooms: "evolves env R L co co' \<Longrightarrow> co_rooms co' = co_rooms co"
  by (induction rule: rtranclp_induct) (simp_all add: change_rooms)

lemma evolves_known: "evolves env R L co co' \<Longrightarrow> known co' = known co"
  by (induction rule: rtranclp_induct) (simp_all add: change_known)

section \<open>The operations of the shared part\<close>

lemma display_simps [simp]:
  "core (update_listeners co) = core co" "core (limit_next_update_to keys co) = core co"
  by (simp_all add: update_listeners_def limit_next_update_to_def core_def)

lemma evolves_listeners [intro!]:
  "evolves env R L co co1 \<Longrightarrow> evolves env R L co (update_listeners co1)"
  "evolves env R L co co1 \<Longrightarrow> evolves env R L co (limit_next_update_to keys co1)"
  by (rule evolves_then_display; simp)+

lemma evolves_runtime:
  assumes "known co (room_key room)" "room_key room \<in> R" "\<And>rt. rt_room (f rt) = rt_room rt"
  shows "evolves env R L co (set_runtime room f co)"
proof -
  obtain rt where rt: "map_of (co_runtimes co) (room_key room) = Some rt"
    using assms(1) by (auto simp: known_def)
  then have "runtime_of co room = rt" by (simp add: runtime_of_def dict_get_def)
  with assms rt show ?thesis
    unfolding set_runtime_def by (intro evolvesI ChangeRuntime) auto
qed

lemma evolves_log:
  "known co (room_key room) \<Longrightarrow> room_key room \<in> R \<Longrightarrow> evolves env R L co (log_room_availability env w room s co)"
  by (auto simp: log_room_availability_def Let_def intro: evolves_runtime split: option.split)

lemma evolves_uncertain:
  "known co (room_key room) \<Longrightarrow> room_key room \<in> R \<Longrightarrow> evolves env R L co (snd (flow_write_uncertain ck room co))"
  by (auto simp: flow_write_uncertain_def intro: evolves_runtime split: option.split prod.split)

lemma evolves_resolve:
  "known co (room_key room) \<Longrightarrow> room_key room \<in> R \<Longrightarrow> evolves env R L co (snd (resolve_levels ck room co))"
  using evolves_uncertain [of co room R env L ck]
  by (auto simp: resolve_levels_def Let_def split: prod.splits option.splits)

lemma evolves_fallback:
  assumes "known co (room_key room)" "room_key room \<in> R"
  shows "evolves env R L co (apply_level_fallback room fallback co)"
proof -
  have "evolves env R L co (set_runtime room (\<lambda>rt. rt\<lparr>rt_level_fallback := f\<rparr>) co)" for f
    using assms by (intro evolves_runtime) auto
  then show ?thesis
    by (auto simp: apply_level_fallback_def split: option.split)
qed

lemma evolves_writes:
  "(\<And>wc. f wc = fold wc_step ops wc) \<Longrightarrow> evolves env R L co (with_writes t f co)"
  using evolvesI [OF ChangeWrites, of env R L co t ops] by (simp cong: with_writes_cong)

lemma evolves_settle_room: "evolves env R L (fst acc) (fst (settle_room ck entry acc))"
proof -
  obtain key state where e: "entry = (key, state)" by fastforce
  obtain co changed where a: "acc = (co, changed)" by fastforce
  let ?l = "fst (settle_if_read LEVELS_OVERLAY ck key (Some state) (fst (reported_levels ck state)) (co_levels co))"
  let ?p = "fst (settle_if_read PRESET_OVERLAY ck key (Some state) (preset_mode state) (co_presets co))"
  let ?i = "fst (settle_if_read INTENSIVE_OVERLAY ck key (Some state) (intensive_active state) (co_intensive co))"
  let ?co = "co\<lparr>co_levels := ?l, co_presets := ?p, co_intensive := ?i\<rparr>"
  have c1: "change env R L co (co\<lparr>co_levels := ?l\<rparr>)"
    using ChangeLevels [of env R L co "OverlaySettleIfRead ck key (Some state) (fst (reported_levels ck state))"]
    by simp
  have c2: "change env R L (co\<lparr>co_levels := ?l\<rparr>) (co\<lparr>co_levels := ?l, co_presets := ?p\<rparr>)"
    using ChangePresets [of env R L "co\<lparr>co_levels := ?l\<rparr>" "OverlaySettleIfRead ck key (Some state) (preset_mode state)"]
    by simp
  have c3: "change env R L (co\<lparr>co_levels := ?l, co_presets := ?p\<rparr>) ?co"
    using ChangeIntensive [of env R L "co\<lparr>co_levels := ?l, co_presets := ?p\<rparr>"
        "OverlaySettleIfRead ck key (Some state) (intensive_active state)"]
    by simp
  have ov: "evolves env R L co ?co"
    by (rule evolves_trans [OF evolvesI [OF c1] evolves_trans [OF evolvesI [OF c2] evolvesI [OF c3]]])
  have "fst (settle_room ck entry acc) = ?co \<or>
      (\<exists>rt. map_of (co_runtimes ?co) key = Some rt \<and> fst (settle_room ck entry acc) =
        ?co\<lparr>co_runtimes := AList.update key (rt\<lparr>rt_level_fallback := None\<rparr>) (co_runtimes ?co)\<rparr>)"
    by (auto simp: settle_room_def e a Let_def split: prod.splits option.splits)
  then show ?thesis
  proof (elim disjE exE conjE)
    fix rt
    assume "map_of (co_runtimes ?co) key = Some rt"
    from evolves_trans [OF ov evolvesI [OF ChangeFallback [OF this]]]
    show "fst (settle_room ck entry acc) =
        ?co\<lparr>co_runtimes := AList.update key (rt\<lparr>rt_level_fallback := None\<rparr>) (co_runtimes ?co)\<rparr> \<Longrightarrow> ?thesis"
      by (simp only: a fst_conv)
  qed (use ov in \<open>simp add: a\<close>)
qed

lemma evolves_settle_rooms: "evolves env R L (fst acc) (fst (fold (settle_room ck) states acc))"
proof (induction states arbitrary: acc)
  case (Cons entry states)
  show ?case using evolves_trans [OF evolves_settle_room Cons.IH] by simp
qed simp

lemma evolves_confirm: "evolves env R L co (confirm_pending_writes ck states notify rooms co)"
proof -
  let ?co = "with_writes (monotonic ck) (\<lambda>wc. fst (confirm ck states wc)) co"
  have "evolves env R L co ?co" by (rule evolves_writes [where ops = "[OpConfirm ck states]"]) simp
  then have "evolves env R L co (fst (fold (settle_room ck) states (?co, b)))" for b
    using evolves_settle_rooms [of env R L "(?co, b)" ck states] by (auto intro: evolves_trans)
  note * = this [of "snd (confirm ck states (co_writes co))"]
  show ?thesis
    using * by (auto simp: confirm_pending_writes_def Let_def split: prod.splits option.splits)
qed

lemma wait_for_room_read_core: "core (fst (wait_for_room_read env co w)) = core co"
  by (simp add: wait_for_room_read_def core_def Let_def)

lemma evolves_balanced_target:
  assumes "read_balanced_target_if_pending env room s previous co w = (r, co', w')"
    and "known co (room_key room)" "room_key room \<in> R"
  shows "evolves env R L co co'"
proof -
  obtain wc s1 b where p: "prepare_balanced_target_readback (ce_clocks env w) (room_key room) s previous
      (co_writes co) = (wc, s1, b)" by (cases rule: prod_cases3)
  let ?co = "with_writes (now_of env w) (\<lambda>_. wc) co"
  obtain co2 w1 where wait: "wait_for_room_read env ?co w = (co2, w1)" by fastforce
  have "?co = with_writes (now_of env w)
      (fold wc_step [OpPrepare (ce_clocks env w) (room_key room) s previous]) co"
    using p by (intro with_writes_cong) simp
  then have 1: "evolves env R L co ?co" using evolvesI [OF ChangeWrites] by metis
  have "core co2 = core ?co" using wait_for_room_read_core [of env ?co w] by (simp add: wait)
  then have 2: "evolves env R L co co2" by (rule evolves_then_display [OF 1])
  then have "known co2 (room_key room)" using assms(2) by (simp add: evolves_known)
  then have "evolves env R L co (set_runtime room (\<lambda>rt. rt\<lparr>rt_target_read_failing := c\<rparr>) co2)" for c
    using assms(3) by (intro evolves_trans [OF 2] evolves_runtime) auto
  then show ?thesis
    using assms(1) 1 2
    by (simp add: read_balanced_target_if_pending_def p)
      (auto simp: Let_def wait split: if_splits prod.splits call_reply.splits)
qed

section \<open>Polling\<close>

lemma evolves_due: "evolves env R L co (set_next_due jid due co)"
  by (rule evolvesI) (rule ChangeDue)

lemma evolves_select:
  assumes "select_poll_job now co = (job, startup, co')"
  shows "evolves env R L co co'"
proof -
  let ?co = "if co_startup_jobs co = None \<and> co_data co = []
    then co\<lparr>co_startup_jobs := Some (map job_id (co_jobs co))\<rparr> else co"
  have 1: "evolves env R L co ?co"
    using evolvesI [OF ChangeStartup, of "map job_id (co_jobs co)" co env R L] by simp
  have "change env R L ?co (?co\<lparr>co_startup_jobs := Some rest\<rparr>)" if "co_startup_jobs ?co = Some (jid # rest)" for jid rest
    by (rule ChangeStartup) (use that in \<open>auto split: if_splits\<close>)
  note pop = evolves_trans [OF 1 evolvesI [OF this]]
  show ?thesis
  proof (cases "co_startup_jobs ?co")
    case None
    then show ?thesis using assms 1 by (simp add: select_poll_job_def Let_def split: if_splits)
  next
    case (Some js)
    show ?thesis
    proof (cases js)
      case Nil
      then show ?thesis using assms 1 Some by (simp add: select_poll_job_def Let_def split: if_splits)
    next
      case (Cons jid rest)
      have "core (?co\<lparr>co_startup_turn := b, co_startup_jobs := x\<rparr>) = core (?co\<lparr>co_startup_jobs := x\<rparr>)"
           "core (?co\<lparr>co_startup_turn := b\<rparr>) = core ?co" for b x
        by (simp_all add: core_def)
      note display = evolves_then_display [OF pop this(1)] evolves_then_display [OF 1 this(2)]
      define co1 where "co1 = ?co"
      show ?thesis
        using assms 1 Some display [unfolded Some Cons]
        unfolding select_poll_job_def co1_def [symmetric] Let_def Cons
        by (cases jid) (auto split: if_splits)
    qed
  qed
qed

lemma read_gateway_value_core:
  "read_gateway_value env entry co w = (stopped, co', w') \<Longrightarrow> core co' = core co"
  by (auto simp: read_gateway_value_def core_def Let_def
      split: prod.splits option.splits task_result.splits gateway_value.splits if_splits)

lemma read_gateway_values_core:
  "read_gateway_values env entries co w = (stopped, co', w') \<Longrightarrow> core co' = core co"
proof (induction entries arbitrary: co w)
  case (Cons entry entries)
  then show ?case
    by (auto split: prod.splits if_splits dest!: read_gateway_value_core)
qed simp

lemma read_optional_values_core:
  assumes "read_optional_values_due env co w = (r, co', w')"
  shows "core co' = core co"
proof -
  obtain stopped co1 w1 where v: "read_gateway_values env (co_gateway_reads co) co w = (stopped, co1, w1)"
    by (cases rule: prod_cases3)
  have "core co' = core co1"
    using assms by (auto simp: read_optional_values_due_def v core_def Let_def
        split: option.splits prod.splits if_splits)
  then show ?thesis using read_gateway_values_core [OF v] by simp
qed

lemma evolves_judge:
  "known co (room_key room) \<Longrightarrow> room_key room \<in> R \<Longrightarrow> evolves env R L co (judge_job room outcome plan co)"
proof -
  assume k: "known co (room_key room)" and R: "room_key room \<in> R"
  define co1 where "co1 = co\<lparr>co_missing := record_sensors room outcome (co_missing co),
                   co_job_attempted := job_read_attempted room outcome plan,
                   co_job_error := map_option failure_error (job_read_failure_of room outcome plan),
                   co_job_link_failure := job_read_unanswered room outcome plan\<rparr>"
  have 1: "core co1 = core co" by (simp add: co1_def core_def)
  then have "known co1 (room_key room)" using k by (simp add: known_def core_eqD(2) [OF 1])
  then have "evolves env R L co (set_runtime room (\<lambda>rt. rt\<lparr>rt_read_failures := f rt\<rparr>) co1)" for f
    using R by (intro evolves_after_display [OF 1] evolves_runtime) auto
  then show ?thesis
    using evolves_display [OF 1]
    by (simp only: judge_job_def Let_def co1_def [symmetric]) (auto split: option.split)
qed

lemma evolves_finish_job:
  assumes "finish_job env w room states previous s err fg co = (states', co')"
    and "known co (room_key room)" "room_key room \<in> R"
  shows "evolves env R L co co'"
proof -
  define co1 where "co1 = log_room_availability env w room s co"
  have 1: "evolves env R L co co1" using assms(2,3) by (simp add: co1_def evolves_log)
  then have "evolves env R L co (set_runtime room (\<lambda>rt. rt\<lparr>rt_last_read_error := e\<rparr>) co1)" for e
    using assms(2,3) by (intro evolves_trans [OF 1] evolves_runtime) (auto simp: evolves_known)
  with 1 have 2: "evolves env R L co (case err of None \<Rightarrow> co1
      | Some e \<Rightarrow> set_runtime room (\<lambda>rt. rt\<lparr>rt_last_read_error := Some \<lparr>error_message = e, error_at = t\<rparr>\<rparr>) co1)" for t
    by (auto split: option.split)
  show ?thesis
    by (rule evolves_then_display [OF 2 [of "utcnow (ce_clocks env w)"]])
      (use assms(1) in \<open>auto simp: finish_job_def Let_def co1_def [symmetric] core_def\<close>)
qed

lemma evolves_job:
  assumes "read_one_job env states room plan co w = (r, co', w')"
    and k: "known co (room_key room)" and R: "room_key room \<in> R"
  shows "evolves env R L co co'"
proof -
  obtain a w1 where rep: "ce_read_room env room (state_or_empty states room) plan w = (a, w1)" by fastforce
  show ?thesis
  proof (cases a)
    case (MeltemFailed err)
    define co1 where "co1 = co\<lparr>co_job_error := Some err, co_job_link_failure := True, co_job_attempted := True\<rparr>"
    define co2 where "co2 = set_runtime room (\<lambda>rt. rt\<lparr>rt_read_failures := rt_read_failures rt + 1\<rparr>) co1"
    have c: "core co1 = core co" by (simp add: co1_def core_def)
    have "known co1 (room_key room)" using k by (simp add: known_def core_eqD(2) [OF c])
    then have 1: "evolves env R L co co2"
      unfolding co2_def using R by (intro evolves_after_display [OF c] evolves_runtime) auto
    show ?thesis
      using assms(1)
      by (auto simp: read_one_job_def rep MeltemFailed Let_def co1_def [symmetric] co2_def [symmetric]
          split: prod.splits dest!: evolves_finish_job [where R = R, OF _ _ R]
          intro: evolves_trans [OF 1] simp: evolves_known [OF 1] k)
  next
    case (Replied rr)
    define co1 where "co1 = judge_job room (rr_outcome rr) plan co"
    have 1: "evolves env R L co co1" unfolding co1_def using k R by (rule evolves_judge)
    have k1: "known co1 (room_key room)" using k by (simp add: evolves_known [OF 1])
    obtain s co2 w2 where t: "(if job_read_failure_of room (rr_outcome rr) plan = None
        \<and> job_read_succeeded room (rr_outcome rr) plan \<and> refresh_airflow plan
        then read_balanced_target_if_pending env room (rr_state rr) (state_or_empty states room) co1 w1
        else (Inr (rr_state rr), co1, w1)) = (s, co2, w2)" by (cases rule: prod_cases3)
    then have 2: "evolves env R L co1 co2"
      using evolves_balanced_target [OF _ k1 R] by (auto split: if_splits)
    then have k2: "known co2 (room_key room)" using k1 by (simp add: evolves_known)
    show ?thesis
      using assms(1) evolves_trans [OF 1 2]
      by (simp add: read_one_job_def rep Replied Let_def t [unfolded co1_def] split: sum.splits prod.splits)
        (auto dest!: evolves_finish_job [OF _ k2 R] intro: evolves_trans)
  qed (use assms(1) in \<open>simp_all add: read_one_job_def rep\<close>)
qed

lemma evolves_plan:
  "evolves env R L co co1 \<Longrightarrow> evolves env R L co (schedule_next_tick env w co1)"
  "evolves env R True co co1 \<Longrightarrow> evolves env R True co (on_transport_success env w co1)"
  "evolves env R True co co1 \<Longrightarrow> evolves env R True co (on_transport_failure env w co1)"
  "evolves env R L co co1 \<Longrightarrow> evolves env R L co (schedule_poll env w d co1)"
  by (auto intro: evolves_trans evolvesI ChangePlan ChangeSuccess ChangeFailure ChangeTimer)

lemma evolves_startup_failed:
  assumes "startup_failed env co w = (r, co', w')"
  shows "evolves env R True co co'"
proof -
  define co1 where "co1 = (if co_job_link_failure co then on_transport_failure env w co
      else if co_job_attempted co then on_transport_success env w co else co)"
  have 1: "evolves env R True co co1" by (auto simp: co1_def intro: evolves_plan)
  have "co_backoff co1 = None \<Longrightarrow>
      evolves env R True co (set_next_poll_delay env w TRANSPORT_BACKOFF_START_SECONDS co1)"
    by (rule evolves_trans [OF 1 evolvesI [OF ChangeRetry]])
  with 1 show ?thesis
    using assms unfolding startup_failed_def co1_def [symmetric] Let_def by (auto split: if_splits)
qed

lemma evolves_idle:
  assumes "idle_tick env co w = (r, co', w')"
  shows "evolves env R L co co'"
proof -
  obtain rooms co1 w1 where o: "read_optional_values_due env co w = (rooms, co1, w1)"
    by (cases rule: prod_cases3)
  have "evolves env R L co co1" by (rule evolves_display [OF read_optional_values_core [OF o]])
  then show ?thesis
    using assms by (auto simp: idle_tick_def o Let_def intro: evolves_plan split: sum.splits if_splits)
qed

lemma evolves_finish_tick:
  assumes "finish_tick env room job startup states optional co w = (r, co', w')"
  shows "evolves env R True co co'"
proof -
  define never where "never = never_read job room states"
  define co1 where "co1 = (if startup \<or> never
    then set_next_due (job_id job) (now_of env w + job_interval env w co room job never) co else co)"
  have 1: "evolves env R True co co1" by (auto simp: co1_def evolves_due)
  have display: "core (co1\<lparr>co_startup_states := x\<rparr>) = core co1" for x by (simp add: core_def)
  show ?thesis
  proof (cases "list_ex (\<lambda>(_, s). has_data s) states")
    case False
    then have "startup_failed env (co1\<lparr>co_startup_states := states\<rparr>) w = (r, co', w')"
      using assms unfolding finish_tick_def never_def [symmetric] Let_def co1_def [symmetric] by simp
    from evolves_startup_failed [OF this, of R] show ?thesis
      using evolves_then_display [OF 1 display] by (blast intro: evolves_trans)
  next
    case True
    define co2 where "co2 = co1\<lparr>co_startup_states := []\<rparr>"
    have "evolves env R True co co2" unfolding co2_def using evolves_then_display [OF 1 display] by simp
    then have "evolves env R True co (if co_job_link_failure co2 then on_transport_failure env w co2
        else if co_job_attempted co2 then on_transport_success env w co2 else co2)"
      by (auto intro: evolves_plan)
    with True show ?thesis
      using assms unfolding finish_tick_def never_def [symmetric] Let_def co1_def [symmetric] co2_def [symmetric]
      by (auto intro!: evolves_plan intro: evolves_trans [OF _ evolves_confirm] split del: if_split)
  qed
qed

lemma evolves_run_job:
  assumes "run_job env room job startup co w = (r, co', w')"
    and k: "known co (room_key room)" and R: "room_key room \<in> R"
  shows "evolves env R True co co'"
proof -
  define co1 where "co1 = set_next_due (job_id job) (now_of env w + job_interval env w co room job False) co"
  define co2 where "co2 = co1\<lparr>co_last_read_started := Some (now_of env w), co_job_error := None,
                    co_job_link_failure := False, co_job_attempted := False\<rparr>"
  define previous where "previous = (if co_data co2 \<noteq> [] then co_data co2 else co_startup_states co2)"
  have "core co2 = core co1" by (simp add: co2_def core_def)
  then have 2: "evolves env R True co co2"
    unfolding co1_def by (rule evolves_then_display [OF evolves_due])
  have k2: "known co2 (room_key room)" using k by (simp add: evolves_known [OF 2])
  obtain states co3 w1 where j: "read_one_job env previous room (job_plan job) co2 w = (states, co3, w1)"
    by (cases rule: prod_cases3)
  have 3: "evolves env R True co co3" by (rule evolves_trans [OF 2 evolves_job [OF j k2 R]])
  obtain keys co4 w2 where o: "(if co_job_link_failure co3 then (Inr {}, co3, w1)
      else read_optional_values_due env co3 w1) = (keys, co4, w2)" by (cases rule: prod_cases3)
  have "core co4 = core co3" using o read_optional_values_core by (auto split: if_splits)
  then have 4: "evolves env R True co co4" by (rule evolves_then_display [OF 3])
  show ?thesis
    using assms(1) 3 4
    unfolding run_job_def Let_def co1_def [symmetric] co2_def [symmetric] previous_def [symmetric]
    by (simp add: j o split: sum.splits) (auto dest: evolves_finish_tick intro: evolves_trans)
qed

definition jobs_configured :: "coordinator \<Rightarrow> bool" where
  "jobs_configured co \<longleftrightarrow>
     (\<forall>job \<in> set (co_jobs co). \<exists>room. room_of co (job_room job) = Some room \<and> known co (room_key room))"

lemma room_of_Some: "room_of co key = Some room \<Longrightarrow> room \<in> set (co_rooms co) \<and> room_key room = key"
  by (auto simp: room_of_def find_Some_iff)

lemma job_of_Some: "job_of co jid = Some job \<Longrightarrow> job \<in> set (co_jobs co) \<and> job_id job = jid"
  by (auto simp: job_of_def find_Some_iff)

lemma job_of_cong [simp]:
  "job_of (co\<lparr>co_startup_jobs := x\<rparr>) = job_of co" "job_of (co\<lparr>co_startup_turn := b\<rparr>) = job_of co"
  by (simp_all add: job_of_def fun_eq_iff)

lemma select_in_jobs:
  assumes "select_poll_job now co = (Some job, startup, co')"
  shows "job \<in> set (co_jobs co)"
  using assms
  by (auto simp: select_poll_job_def Let_def
      dest: select_due_job_Some(1) job_of_Some [THEN conjunct1] split: if_splits option.splits list.splits)

lemma select_keeps:
  "select_poll_job now co = (job, startup, co') \<Longrightarrow>
     co_rooms co' = co_rooms co \<and> co_data co' = co_data co \<and> co_runtimes co' = co_runtimes co
     \<and> co_startup_states co' = co_startup_states co"
  by (auto simp: select_poll_job_def Let_def split: if_splits option.splits list.splits)

text \<open>The unit whose job a tick runs.\<close>

definition selected_unit :: "seconds \<Rightarrow> coordinator \<Rightarrow> string set" where
  "selected_unit now co =
     (case fst (select_poll_job now (co\<lparr>co_updated_rooms := None\<rparr>)) of
        None \<Rightarrow> {} | Some job \<Rightarrow> {job_room job})"

lemma evolves_update:
  assumes u: "update_data env co w = (r, co', w')" and jobs: "jobs_configured co"
  shows "evolves env (selected_unit (now_of env w) co) True co co'"
proof -
  define co0 where "co0 = co\<lparr>co_updated_rooms := None\<rparr>"
  obtain selected startup co1 where sel: "select_poll_job (now_of env w) co0 = (selected, startup, co1)"
    by (cases rule: prod_cases3)
  define R where "R = selected_unit (now_of env w) co"
  have "core co0 = core co" by (simp add: co0_def core_def)
  then have 1: "evolves env R True co co1" by (rule evolves_after_display [OF _ evolves_select [OF sel]])
  have "evolves env R True co1 co'"
  proof (cases selected)
    case None
    then have "idle_tick env co1 w = (r, co', w')" using u sel by (simp add: update_data_def co0_def)
    then show ?thesis by (rule evolves_idle)
  next
    case (Some job)
    have "job \<in> set (co_jobs co)" using select_in_jobs [of _ co0] sel Some by (auto simp: co0_def)
    then obtain room where room: "room_of co (job_room job) = Some room" "known co (room_key room)"
      using jobs by (auto simp: jobs_configured_def)
    have "co_rooms co1 = co_rooms co" using select_keeps [OF sel] by (simp add: co0_def)
    then have "room_of co1 (job_room job) = Some room" using room by (simp add: room_of_def)
    then have cfg: "job_room_config co1 job = room" by (simp add: job_room_config_def)
    then have "run_job env room job startup co1 w = (r, co', w')"
      using u sel Some by (simp add: update_data_def co0_def)
    moreover have "known co1 (room_key room)" using room(2) by (simp add: evolves_known [OF 1])
    moreover have "room_key room \<in> R"
      using room_of_Some [OF room(1)] sel Some by (simp add: R_def selected_unit_def co0_def)
    ultimately show ?thesis by (rule evolves_run_job)
  qed
  with 1 show ?thesis unfolding R_def by (rule evolves_trans)
qed

lemma evolves_refresh:
  assumes "refresh env co w = (co', w')" "jobs_configured co"
  shows "evolves env (selected_unit (now_of env w) co) True co co'"
proof -
  obtain r co1 w1 where u: "update_data env co w = (r, co1, w1)" by (cases rule: prod_cases3)
  have "core co' = core co1"
    using assms(1) by (auto simp: refresh_def u Let_def core_def update_listeners_def split: prod.splits if_splits)
  then show ?thesis by (rule evolves_then_display [OF evolves_update [OF u assms(2)]])
qed

lemma select_cong:
  assumes "co_startup_jobs co' = co_startup_jobs co" "co_data co' = co_data co" "co_jobs co' = co_jobs co"
    "co_startup_turn co' = co_startup_turn co" "co_last_read_started co' = co_last_read_started co"
    "co_tick_seconds co' = co_tick_seconds co"
  shows "fst (select_poll_job now co') = fst (select_poll_job now co)"
proof -
  have pick: "fst (let co1 = c in if read_spacing_remaining co1 now > 0 then (None, False, co1)
         else case co_startup_jobs co1 of
                Some (jid # rest) \<Rightarrow>
                  (let due = select_due_job
                         (filter (\<lambda>job. job_id job \<notin> set (jid # rest)) (co_jobs co1)) now
                   in if due = None \<or> co_startup_turn co1
                      then (job_of co1 jid, True,
                            co1\<lparr>co_startup_turn := False, co_startup_jobs := Some rest\<rparr>)
                      else (due, False, co1\<lparr>co_startup_turn := True\<rparr>))
              | _ \<Rightarrow> (select_due_job (co_jobs co1) now, False, co1))
      = (if read_spacing_remaining c now > 0 then None
         else case co_startup_jobs c of
                Some (jid # rest) \<Rightarrow>
                  (let due = select_due_job (filter (\<lambda>job. job_id job \<notin> set (jid # rest)) (co_jobs c)) now
                   in if due = None \<or> co_startup_turn c then find (\<lambda>job. job_id job = jid) (co_jobs c) else due)
              | _ \<Rightarrow> select_due_job (co_jobs c) now)" for c
    by (cases "co_startup_jobs c"; simp add: Let_def job_of_def split: list.split)
  show ?thesis
    unfolding select_poll_job_def pick using assms
    by (cases "co_startup_jobs co = None \<and> co_data co = []")
      (auto simp: read_spacing_remaining_def Let_def cong: option.case_cong list.case_cong if_cong)
qed

lemma selected_unit_cong [simp]:
  "selected_unit now (co\<lparr>co_poll_timer := x, co_poll_running := b\<rparr>) = selected_unit now co"
  "jobs_configured (co\<lparr>co_poll_timer := x, co_poll_running := b\<rparr>) = jobs_configured co"
proof -
  show "selected_unit now (co\<lparr>co_poll_timer := x, co_poll_running := b\<rparr>) = selected_unit now co"
    unfolding selected_unit_def by (subst select_cong [of _ "co\<lparr>co_updated_rooms := None\<rparr>"]) simp_all
qed (simp_all add: jobs_configured_def room_of_def known_def)

lemma evolves_poll:
  assumes "poll env co w = (co', w')" "jobs_configured co"
  shows "evolves env (selected_unit (now_of env w) co) True co co'"
proof (cases "co_polling_stopped co \<or> ce_stopping env w")
  case False
  let ?co = "co\<lparr>co_poll_timer := None, co_poll_running := True\<rparr>" and ?R = "selected_unit (now_of env w) co"
  obtain co1 w1 where r: "refresh env ?co w = (co1, w1)" by fastforce
  have "core ?co = core (co\<lparr>co_poll_timer := None\<rparr>)" by (simp add: core_def)
  then have "evolves env ?R True co ?co" by (rule evolves_then_display [OF evolvesI [OF ChangeTimerOff]])
  moreover have "evolves env ?R True ?co co1" using evolves_refresh [OF r] assms(2) by simp
  moreover have "core (co1\<lparr>co_poll_running := False\<rparr>) = core co1" by (simp add: core_def)
  ultimately have "evolves env ?R True co (co1\<lparr>co_poll_running := False\<rparr>)"
    by (blast intro: evolves_trans evolves_then_display)
  then show ?thesis using assms(1) False by (auto simp: poll_def r intro: evolves_plan)
qed (use assms in \<open>simp add: poll_def\<close>)

section \<open>Commands\<close>

lemma evolves_overlay_ops:
  "evolves env R L co (co\<lparr>co_levels := fst (overlay_clear k (co_levels co))\<rparr>)"
  "evolves env R L co (co\<lparr>co_presets := fst (overlay_clear k (co_presets co))\<rparr>)"
  "evolves env R L co (co\<lparr>co_intensive := fst (overlay_clear k (co_intensive co))\<rparr>)"
  "evolves env R L co (co\<lparr>co_levels := fst (overlay_set LEVELS_OVERLAY ck s k lv (co_levels co))\<rparr>)"
  "evolves env R L co (co\<lparr>co_presets := fst (overlay_set PRESET_OVERLAY ck s k p (co_presets co))\<rparr>)"
  "evolves env R L co (co\<lparr>co_intensive := fst (overlay_set INTENSIVE_OVERLAY ck s k b (co_intensive co))\<rparr>)"
  using ChangeLevels [of env R L co "OverlayClear k"] ChangePresets [of env R L co "OverlayClear k"]
    ChangeIntensive [of env R L co "OverlayClear k"] ChangeLevels [of env R L co "OverlaySet ck s k lv"]
    ChangePresets [of env R L co "OverlaySet ck s k p"] ChangeIntensive [of env R L co "OverlaySet ck s k b"]
  by (auto intro: evolvesI)

lemma evolves_clear_overlay: "evolves env R L co (clear_overlay k room co)"
proof (cases k)
  case AirflowLevels
  then show ?thesis using evolves_overlay_ops(1) [of env R L co "room_key room"]
    by (auto simp: notify_if_def split: prod.splits)
next
  case PresetMode
  then show ?thesis using evolves_overlay_ops(2) [of env R L co "room_key room"]
    by (auto simp: notify_if_def split: prod.splits)
next
  case Intensive
  then show ?thesis using evolves_overlay_ops(3) [of env R L co "room_key room"]
    by (auto simp: notify_if_def split: prod.splits)
qed simp_all

lemma evolves_then_clear:
  assumes "evolves env R L co co1"
  shows "evolves env R L co (clear_overlay k room co1)"
    and "evolves env R L co (if b then clear_overlay k room co1 else co1)"
proof -
  show 1: "evolves env R L co (clear_overlay k room co1)"
    by (rule evolves_trans [OF assms evolves_clear_overlay])
  show "evolves env R L co (if b then clear_overlay k room co1 else co1)"
    using assms 1 by presburger
qed

lemma evolves_clear_overlays: "evolves env R L co (fold (\<lambda>k. clear_overlay k room) ks co)"
proof (induction ks arbitrary: co)
  case (Cons k ks)
  show ?case using evolves_trans [OF evolves_clear_overlay Cons.IH] by simp
qed simp

lemma evolves_clear_flow: "evolves env R L co (clear_flow_overlays room co)"
  unfolding clear_flow_overlays_def by (rule evolves_clear_overlays)

lemma evolves_show_overlay: "evolves env R L co (show_overlay ck k room v co)"
  by (cases "(ck, k, room, v, co)" rule: show_overlay.cases) (auto intro: evolves_overlay_ops)

lemma evolves_finish_refresh: "evolves env R L co (finish_refresh env w room previous refreshed b co)"
proof -
  note c = evolves_confirm [of env R L co "ce_clocks env w" "AList.update (room_key room) refreshed (co_data co)"]
  have "core (co1\<lparr>co_data := d\<rparr>) = core co1" "core (co1\<lparr>co_data := d, co_last_update_success := u\<rparr>) = core co1"
    for co1 d u by (simp_all add: core_def)
  note display = this [THEN evolves_then_display [rotated]]
  show ?thesis
    using c unfolding finish_refresh_def publish_def Let_def
    by (auto intro!: display evolves_listeners split: prod.split)
qed

lemma evolves_refresh_room:
  assumes "refresh_room_after_write env room plan co w = (r, co', w')"
    and k: "known co (room_key room)" and R: "room_key room \<in> R"
  shows "evolves env R L co co'"
proof -
  obtain co1 w1 where wait: "wait_for_room_read env co w = (co1, w1)" by fastforce
  define previous where "previous = state_or_empty (co_data co1) room"
  obtain a w2 where rep: "ce_read_room env room previous plan w1 = (a, w2)" by fastforce
  have "core co1 = core co" using wait_for_room_read_core [of env co w] by (simp add: wait)
  then have 1: "evolves env R L co co1" by (rule evolves_display)
  have k1: "known co1 (room_key room)" using k by (simp add: evolves_known [OF 1])
  show ?thesis
  proof (cases a)
    case (Replied rr)
    obtain s co2 w3 where t: "(if refresh_airflow plan
        then read_balanced_target_if_pending env room (rr_state rr) previous co1 w2
        else (Inr (rr_state rr), co1, w2)) = (s, co2, w3)" by (cases rule: prod_cases3)
    then have "evolves env R L co1 co2"
      using evolves_balanced_target [OF _ k1 R] by (auto split: if_splits)
    then have "evolves env R L co co2" by (rule evolves_trans [OF 1])
    then show ?thesis
      using assms(1) unfolding refresh_room_after_write_def wait prod.case Let_def previous_def [symmetric]
      by (simp add: rep Replied t split: sum.splits)
        (auto intro: evolves_trans [OF _ evolves_finish_refresh])
  next
    case (MeltemFailed err)
    then show ?thesis
      using assms(1) 1 unfolding refresh_room_after_write_def wait prod.case Let_def previous_def [symmetric]
      by (auto simp: rep intro: evolves_trans [OF _ evolves_finish_refresh])
  qed (use assms(1) 1 in \<open>auto simp: refresh_room_after_write_def wait Let_def previous_def [symmetric] rep\<close>)
qed

lemma evolves_cancelled:
  assumes k: "known co (room_key room)" and R: "room_key room \<in> R"
  shows "evolves env R L co (cancelled_write ck room k' v base co)"
proof -
  define co1 where "co1 = (if write_group k' = ''flow_control''
     then clear_flow_overlays room (set_runtime room
       (\<lambda>rt. rt\<lparr>rt_uncertain_flow := Some (base, group_health co room ''flow'')\<rparr>) co)
     else clear_overlay k' room co)"
  have "evolves env R L co (set_runtime room (\<lambda>rt. rt\<lparr>rt_uncertain_flow := u\<rparr>) co)" for u
    using assms by (intro evolves_runtime) auto
  then have 1: "evolves env R L co co1"
    by (auto simp: co1_def intro: evolves_clear_overlay evolves_trans [OF _ evolves_clear_flow])
  have 2: "evolves env R L co1 (with_writes (monotonic ck)
      (\<lambda>wc. fst (mark_unconfirmed (room_key room) k' ''Write was cancelled''
        (record_pending ck (room_key room) k' v base (fst (supersede (room_key room) k' wc))))) co1)"
    by (rule evolves_writes [where ops = "[OpSupersede (room_key room) k',
        OpRecordPending ck (room_key room) k' v base,
        OpMarkUnconfirmed (room_key room) k' ''Write was cancelled'']"]) simp
  show ?thesis
    unfolding cancelled_write_def Let_def co1_def [symmetric]
    by (rule evolves_listeners(1) [OF evolves_trans [OF 1 2]])
qed

lemma evolves_failed: "evolves env R L co (failed_write ck room k v base err co)"
proof -
  have 1: "evolves env R L (clear_overlay k room co) (with_writes (monotonic ck)
      (\<lambda>wc. fst (set_status (room_key room) k WriteFailed (Some err) None
        (record_pending ck (room_key room) k v base wc))) (clear_overlay k room co))"
    by (rule evolves_writes [where ops = "[OpRecordPending ck (room_key room) k v base,
        OpSetStatus (room_key room) k WriteFailed (Some err) None]"]) simp
  show ?thesis
    unfolding failed_write_def by (rule evolves_listeners(1) [OF evolves_trans [OF evolves_clear_overlay 1]])
qed

lemma evolves_accepted: "evolves env R L co (accepted_write ck room k v cv base co)"
proof -
  define co1 where "co1 = with_writes (monotonic ck)
    (\<lambda>wc. record_pending ck (room_key room) k cv base (fst (supersede (room_key room) k wc))) co"
  have 1: "evolves env R L co co1"
    unfolding co1_def
    by (rule evolves_writes [where ops = "[OpSupersede (room_key room) k,
        OpRecordPending ck (room_key room) k cv base]"]) simp
  show ?thesis
    unfolding accepted_write_def Let_def co1_def [symmetric]
    by (rule evolves_trans [OF evolves_trans [OF 1 evolves_clear_overlays] evolves_show_overlay])
qed

lemma evolves_write:
  assumes "write_with_confirmation env room k v command read_back use_result co w = (r, co', w')"
    and kn: "known co (room_key room)" and R: "room_key room \<in> R"
  shows "evolves env R L co co'"
proof (cases "range_check co room k v")
  case (Inl e)
  then show ?thesis using assms(1) by (simp add: write_with_confirmation_def Let_def)
next
  case (Inr u)
  define base where "base = group_health co room (write_group k)"
  obtain a w1 where a: "ce_write env command w = (a, w1)" by fastforce
  show ?thesis
  proof (cases a)
    case (Replied written)
    define co1 where "co1 = accepted_write (ce_clocks env w1) room k v
      (case written of Some n \<Rightarrow> if use_result then WInt n else v | None \<Rightarrow> v) base co"
    have 1: "evolves env R L co co1" unfolding co1_def by (rule evolves_accepted)
    show ?thesis
    proof (cases read_back)
      case False
      then show ?thesis
        using assms(1) 1 by (auto simp: write_with_confirmation_def Inr a Replied Let_def co1_def base_def)
    next
      case True
      obtain stopped co2 w3 where f: "refresh_room_after_write env room (readback_plan k) co1
          (ce_sleep env (settle_seconds k) w1) = (stopped, co2, w3)" by (cases rule: prod_cases3)
      have "known co1 (room_key room)" using kn by (simp add: evolves_known [OF 1])
      from evolves_refresh_room [OF f this R] have 2: "evolves env R L co co2" by (rule evolves_trans [OF 1])
      have "evolves env R L co2 (with_writes t (\<lambda>wc. fst (mark_unconfirmed (room_key room) k err wc)) co2)" for t err
        by (rule evolves_writes [where ops = "[OpMarkUnconfirmed (room_key room) k err]"]) simp
      then have 3: "evolves env R L co (with_writes t (\<lambda>wc. fst (mark_unconfirmed (room_key room) k err wc)) co2)"
        for t err by (rule evolves_trans [OF 2])
      show ?thesis
        using assms(1) 2 3 True unfolding write_with_confirmation_def base_def [symmetric]
        by (auto simp: Inr a Replied Let_def f [unfolded co1_def] split: option.splits)
    qed
  next
    case (MeltemFailed err)
    define co1 where "co1 = failed_write (ce_clocks env w1) room k v base err co"
    have 1: "evolves env R L co co1" unfolding co1_def by (rule evolves_failed)
    obtain stopped co2 w3 where f: "refresh_room_after_write env room (readback_plan k) co1 w1
      = (stopped, co2, w3)" by (cases rule: prod_cases3)
    have "known co1 (room_key room)" using kn by (simp add: evolves_known [OF 1])
    from evolves_refresh_room [OF f this R] have "evolves env R L co co2" by (rule evolves_trans [OF 1])
    then show ?thesis
      using assms(1) unfolding write_with_confirmation_def base_def [symmetric]
      by (auto simp: Inr a MeltemFailed Let_def f [unfolded co1_def])
  next
    case CallCancelled
    then show ?thesis
      using assms(1) evolves_cancelled [OF kn R]
      by (auto simp: write_with_confirmation_def Inr a Let_def)
  qed (use assms(1) in \<open>simp add: write_with_confirmation_def Inr a Let_def\<close>)
qed

lemma evolves_set_level:
  assumes "set_level_locked env room level co w = (r, co', w')"
    and kn: "known co (room_key room)" and R: "room_key room \<in> R"
  shows "evolves env R L co co'"
proof -
  define co1 where "co1 = clear_overlay PresetMode room co"
  define co2 where "co2 = (if level = 0 then clear_overlay Intensive room co1 else co1)"
  have "evolves env R L co co1" unfolding co1_def by (rule evolves_clear_overlay)
  then have 2: "evolves env R L co co2" unfolding co2_def by (rule evolves_then_clear)
  have k2: "known co2 (room_key room)" using kn by (simp add: evolves_known [OF 2])
  have "write_with_confirmation env room AirflowLevels (WPair level level) (WriteLevel room level)
      False False co2 w = (r, co', w')"
    using assms(1) unfolding set_level_locked_def Let_def co1_def [symmetric] co2_def [symmetric] .
  from evolves_write [OF this k2 R] show ?thesis by (rule evolves_trans [OF 2])
qed

lemma evolves_set_unbalanced:
  assumes "set_unbalanced_levels_locked env room s e co w = (r, co', w')"
    and kn: "known co (room_key room)" and R: "room_key room \<in> R"
  shows "evolves env R L co co'"
proof -
  have 1: "evolves env R L co (clear_overlay PresetMode room co)" by (rule evolves_clear_overlay)
  have "known (clear_overlay PresetMode room co) (room_key room)" using kn by (simp only: evolves_known [OF 1])
  then show ?thesis
    using assms(1) R unfolding set_unbalanced_levels_locked_def
    by (blast intro: evolves_trans [OF 1] evolves_write)
qed

lemma evolves_set_direction:
  assumes "set_direction_level_locked env room d level co w = (r, co', w')"
    and kn: "known co (room_key room)" and R: "room_key room \<in> R"
  shows "evolves env R L co co'"
proof -
  define ck where "ck = ce_clocks env w"
  obtain uncertain co1 where u: "flow_write_uncertain ck room co = (uncertain, co1)" by fastforce
  have 1: "evolves env R L co co1" using evolves_uncertain [OF kn R, of env L ck] by (simp add: u)
  obtain lv src co2 where l: "resolve_levels ck room co1 = ((lv, src), co2)" by (metis prod.exhaust)
  have k1: "known co1 (room_key room)" using kn by (simp add: evolves_known [OF 1])
  have 2: "evolves env R L co co2"
    using evolves_resolve [OF k1 R, of env L ck] by (auto simp: l intro: evolves_trans [OF 1])
  have k2: "known co2 (room_key room)" using kn by (simp add: evolves_known [OF 2])
  have 3: "evolves env R L co (apply_level_fallback room f co3) \<and> evolves env R L co co3"
    if "(case planned of Balanced n \<Rightarrow> set_level_locked env room n co2 w
          | Separate s e \<Rightarrow> set_unbalanced_levels_locked env room s e co2 w) = (r', co3, w3)"
    for planned r' co3 w3 f
  proof -
    have "evolves env R L co co3"
      using that 2
      by (cases planned)
        (auto dest!: evolves_set_level [OF _ k2 R] evolves_set_unbalanced [OF _ k2 R] intro: evolves_trans)
    moreover from this have "known co3 (room_key room)" using kn by (simp add: evolves_known)
    ultimately show ?thesis using R by (blast intro: evolves_trans evolves_fallback)
  qed
  show ?thesis
    using assms(1) unfolding set_direction_level_locked_def ck_def [symmetric] Let_def u prod.case l
    using 1 2 3 by (fastforce split: if_splits sum.splits prod.splits option.splits)
qed

lemma evolves_set_mode:
  assumes "set_operation_mode_locked env room requested co w = (r, co', w')"
    and kn: "known co (room_key room)" and R: "room_key room \<in> R"
  shows "evolves env R L co co'"
proof -
  define ck where "ck = ce_clocks env w"
  obtain uncertain co1 where u: "flow_write_uncertain ck room co = (uncertain, co1)" by fastforce
  have 1: "evolves env R L co co1" using evolves_uncertain [OF kn R, of env L ck] by (simp add: u)
  have k1: "known co1 (room_key room)" using kn by (simp add: evolves_known [OF 1])
  obtain eff src co2 where l: "resolve_levels ck room co1 = ((eff, src), co2)" by (metis prod.exhaust)
  have 2: "evolves env R L co co2"
    using evolves_resolve [OF k1 R, of env L ck] by (auto simp: l intro: evolves_trans [OF 1])
  define clr where "clr op = clear_overlay AirflowLevels room
      (if op = OPERATION_MODE_OFF then clear_overlay Intensive room co2 else co2)" for op
  obtain bl el where m: "mode_write_levels (state_or_empty (co_data co) room) eff = (bl, el)" by fastforce
  have 3: "evolves env R L co (clr op)" for op unfolding clr_def by (intro evolves_then_clear 2)
  then have k3: "known (clr op) (room_key room)" for op using kn by (simp only: evolves_known [OF 3])
  have "co' = co1 \<or> co' = co2 \<or> (\<exists>op cmd. write_with_confirmation env room OperationMode (WStr op) cmd
      True False (clr op) w = (r, co', w'))"
    using assms(1) unfolding set_operation_mode_locked_def ck_def [symmetric] Let_def u prod.case l m
      clr_def [symmetric]
    by (auto simp del: clear_overlay.simps split: if_split_asm)
  then show ?thesis
  proof (elim disjE exE)
    fix op cmd
    assume "write_with_confirmation env room OperationMode (WStr op) cmd True False (clr op) w = (r, co', w')"
    from evolves_write [OF this k3 R] show ?thesis by (rule evolves_trans [OF 3])
  qed (use 1 2 in simp_all)
qed

lemma evolves_clear_preset:
  assumes "clear_preset_mode_locked env room co w = (r, co', w')"
    and kn: "known co (room_key room)" and R: "room_key room \<in> R"
  shows "evolves env R L co co'"
  using assms(1) unfolding clear_preset_mode_locked_def Let_def
  by (auto simp del: clear_overlay.simps split: if_split_asm prod.split_asm
      intro: evolves_clear_overlay evolves_then_clear dest!: evolves_set_mode [OF _ kn R])

lemma evolves_command:
  assumes "run_command env cmd room co w = (r, co', w')"
    and kn: "known co (room_key room)" and R: "room_key room \<in> R"
  shows "evolves env R L co co'"
proof (cases cmd)
  case (SetPresetMode p)
  have 1: "evolves env R L co (clear_overlay AirflowLevels room co)" by (rule evolves_clear_overlay)
  have "known (clear_overlay AirflowLevels room co) (room_key room)" using kn by (simp only: evolves_known [OF 1])
  moreover have "write_with_confirmation env room PresetMode (WStr p) (WritePreset room p) True False
      (clear_overlay AirflowLevels room co) w = (r, co', w')"
    using assms(1) by (simp add: SetPresetMode set_preset_mode_locked_def del: clear_overlay.simps)
  ultimately show ?thesis using R evolves_trans [OF 1 evolves_write] by metis
qed (use assms(1) in \<open>auto simp: activate_intensive_def deactivate_intensive_def set_control_setting_def
  dest: evolves_set_level [OF _ kn R] evolves_set_unbalanced [OF _ kn R] evolves_set_direction [OF _ kn R]
    evolves_set_mode [OF _ kn R] evolves_clear_preset [OF _ kn R] evolves_write [OF _ kn R]\<close>)

end
