(* ===== verification/Coordinator_Run.thy ===== *)
theory Coordinator_Run
  imports Coordinator_Steps
begin

text \<open>
  The coordinator over its whole life: what Home Assistant, the user and time do to it as a step
  relation, the invariants every reachable state has, and the backoff as a function of the outcomes of
  the polls.
\<close>

section \<open>Invariants\<close>

text \<open>The schedule never loses, adds or swaps a job; each belongs to a configured unit.\<close>

definition job_table :: "poll_job list \<Rightarrow> poll_job list" where
  "job_table jobs = map (\<lambda>job. job\<lparr>poll_job.next_due := 0\<rparr>) jobs"

definition startup_list :: "coordinator \<Rightarrow> (string \<times> string) list" where
  "startup_list co = (case co_startup_jobs co of None \<Rightarrow> [] | Some jids \<Rightarrow> jids)"

definition runtimes_ok :: "room_config list \<Rightarrow> (string, room_runtime) dict \<Rightarrow> bool" where
  "runtimes_ok rooms runtimes \<longleftrightarrow>
     (\<forall>room \<in> set rooms. map_option rt_room (map_of runtimes (room_key room)) = Some room)"

definition coordinator_ok :: "room_config list \<Rightarrow> seconds \<Rightarrow> coordinator \<Rightarrow> bool" where
  "coordinator_ok rooms start co \<longleftrightarrow>
     co_rooms co = rooms
     \<and> job_table (co_jobs co) = job_table (build_jobs rooms start)
     \<and> set (startup_list co) \<subseteq> job_id ` set (co_jobs co)
     \<and> runtimes_ok rooms (co_runtimes co)
     \<and> confirmations_wf (co_writes co) \<and> issues_reported (co_writes co)
     \<and> overlay_ok PRESET_OVERLAY (co_presets co)
     \<and> overlay_ok INTENSIVE_OVERLAY (co_intensive co)
     \<and> overlay_ok LEVELS_OVERLAY (co_levels co)
     \<and> (co_polling_stopped co \<longrightarrow> co_poll_timer co = None)"

text \<open>The pace of the polls: the backoff the failures call for, and never faster than the rate.\<close>

definition pace_ok :: "coordinator \<Rightarrow> bool" where
  "pace_ok co \<longleftrightarrow>
     0 \<le> co_transport_failures co
     \<and> 0 < co_tick_seconds co \<and> co_tick_seconds co \<le> 10
     \<and> co_backoff co = backoff_seconds (co_transport_failures co)
     \<and> (\<forall>s. co_backoff co = Some s \<longrightarrow> co_next_poll_delay co = s)
     \<and> min (co_tick_seconds co) TRANSPORT_BACKOFF_START_SECONDS \<le> co_next_poll_delay co"

lemma job_table_ids: "job_table jobs = job_table jobs' \<Longrightarrow> map job_id jobs = map job_id jobs'"
proof -
  have "map job_id jobs = map job_id (job_table jobs)" for jobs
    by (simp add: job_table_def job_id_def o_def)
  then show "job_table jobs = job_table jobs' \<Longrightarrow> map job_id jobs = map job_id jobs'" by metis
qed

lemma job_table_reschedule [simp]: "job_table (reschedule jid due jobs) = job_table jobs"
  by (simp add: job_table_def reschedule_def)

lemma confirmations_wf_steps: "confirmations_wf wc \<Longrightarrow> confirmations_wf (fold wc_step ops wc)"
  by (induction ops arbitrary: wc) (simp_all add: confirmations_wf_step)

lemma issues_reported_steps: "issues_reported wc \<Longrightarrow> issues_reported (fold wc_step ops wc)"
  by (induction ops arbitrary: wc) (simp_all add: issues_reported_step)

lemma timer_stopped:
  "co_polling_stopped co \<Longrightarrow> co_poll_timer co = None \<Longrightarrow> co_poll_timer (schedule_poll env w d co) = None"
  "co_polling_stopped co \<Longrightarrow> co_poll_timer co = None \<Longrightarrow> co_poll_timer (set_next_poll_delay env w d co) = None"
  "co_polling_stopped co \<Longrightarrow> co_poll_timer co = None \<Longrightarrow> co_poll_timer (schedule_next_tick env w co) = None"
  "co_polling_stopped co \<Longrightarrow> co_poll_timer co = None \<Longrightarrow> co_poll_timer (on_transport_success env w co) = None"
  "co_polling_stopped co \<Longrightarrow> co_poll_timer co = None \<Longrightarrow> co_poll_timer (on_transport_failure env w co) = None"
  "co_polling_stopped co \<Longrightarrow> co_poll_timer co = None \<Longrightarrow> co_poll_timer (update_rate env w rate co) = None"
  by (simp_all add: schedule_poll_def set_next_poll_delay_def schedule_next_tick_def on_transport_success_def
      on_transport_failure_def apply_transport_backoff_def update_rate_def Let_def split: option.split)

lemma change_ok:
  assumes "change env R L co co'" "coordinator_ok rooms start co"
  shows "coordinator_ok rooms start co'"
  using assms
proof (induction rule: change.induct)
  case (ChangeDisplay co' co)
  then show ?case
    using core_eqD [OF ChangeDisplay(1)] by (simp add: coordinator_ok_def startup_list_def)
next
  case (ChangeRuntime key co rt rt')
  then show ?case
    by (auto simp: coordinator_ok_def startup_list_def runtimes_ok_def update_conv)
next
  case (ChangeFallback co key rt)
  then show ?case
    by (auto simp: coordinator_ok_def startup_list_def runtimes_ok_def update_conv)
next
  case (ChangeDue co jid due)
  then have "map job_id (reschedule jid due (co_jobs co)) = map job_id (co_jobs co)" by simp
  then have "job_id ` set (reschedule jid due (co_jobs co)) = job_id ` set (co_jobs co)"
    by (metis list.set_map)
  with ChangeDue show ?case by (simp add: coordinator_ok_def startup_list_def set_next_due_def)
next
  case (ChangeStartup jids co)
  then show ?case by (auto simp: coordinator_ok_def startup_list_def)
qed (auto simp: coordinator_ok_def startup_list_def plan_fields timer_stopped schedule_poll_def
    confirmations_wf_steps issues_reported_steps overlay_ok_step)

lemma evolves_ok:
  "evolves env R L co co' \<Longrightarrow> coordinator_ok rooms start co \<Longrightarrow> coordinator_ok rooms start co'"
  by (induction rule: rtranclp_induct) (simp_all add: change_ok)

lemma coordinator_ok_jobs:
  assumes "coordinator_ok rooms start co" "distinct (map room_key rooms)"
  shows "jobs_configured co"
proof -
  have "\<exists>room. room_of co (job_room job) = Some room \<and> known co (room_key room)" if "job \<in> set (co_jobs co)" for job
  proof -
    have "map job_id (co_jobs co) = map job_id (build_jobs rooms start)"
      using assms(1) by (intro job_table_ids) (simp add: coordinator_ok_def)
    then have "job_id ` set (co_jobs co) = job_id ` set (build_jobs rooms start)" by (metis list.set_map)
    then have "job_id job \<in> job_id ` set (build_jobs rooms start)" using that by blast
    then obtain room where r: "room \<in> set rooms" "room_key room = job_room job"
      unfolding build_jobs_ids by (auto simp: job_id_def)
    then have "room_of co (job_room job) \<noteq> None"
      using assms(1) by (auto simp: room_of_def coordinator_ok_def find_None_iff)
    then obtain room' where r': "room_of co (job_room job) = Some room'" by blast
    then have "room' \<in> set rooms" using assms(1) by (auto simp: coordinator_ok_def dest: room_of_Some)
    then have "known co (room_key room')"
      using assms(1) by (auto simp: coordinator_ok_def runtimes_ok_def known_def)
    with r' show ?thesis by blast
  qed
  then show ?thesis by (simp add: jobs_configured_def)
qed

lemma backoff_seconds_le: "backoff_seconds n = Some s \<Longrightarrow> 5 \<le> s \<and> s \<le> 60"
proof -
  have "(5::real) \<le> 5 * 2 ^ k" for k by simp
  then show "backoff_seconds n = Some s \<Longrightarrow> 5 \<le> s \<and> s \<le> 60"
    by (auto simp: backoff_seconds_def Let_def split: if_splits)
qed

lemma backoff_seconds_mono:
  "backoff_seconds (n + 1) = None \<Longrightarrow> backoff_seconds n = None"
  by (auto simp: backoff_seconds_def Let_def split: if_splits)

lemma due_delays_ge: "m \<le> d \<Longrightarrow> m \<le> tick \<Longrightarrow> m \<le> due_delays clock tick reads d"
proof (induction reads arbitrary: d)
  case (Cons r reads)
  have "m \<le> (case seconds_until_due clock r of None \<Rightarrow> d | Some due_in \<Rightarrow> min d (max tick due_in))"
    using Cons.prems by (auto split: option.split)
  from Cons.IH [OF this Cons.prems(2)] show ?case by (simp add: due_delays_def)
qed (simp add: due_delays_def)

lemma next_tick_seconds_ge: "tick \<le> 60 \<Longrightarrow> tick \<le> next_tick_seconds jobs early tick now"
  by (simp add: next_tick_seconds_def Let_def split: option.split)

lemma schedule_next_tick_backoff: "co_backoff co = Some s \<Longrightarrow> schedule_next_tick env w co = co"
  by (simp add: schedule_next_tick_def)

lemma schedule_next_tick_delay:
  assumes "co_tick_seconds co \<le> 60" "co_backoff co = None"
  shows "co_tick_seconds co \<le> co_next_poll_delay (schedule_next_tick env w co)"
  using assms unfolding schedule_next_tick_def set_next_poll_delay_def schedule_poll_def Let_def
  by (simp add: due_delays_ge next_tick_seconds_ge)

lemma plan_pace_fields [simp]:
  "co_transport_failures (set_next_poll_delay env w d co) = co_transport_failures co"
  "co_tick_seconds (set_next_poll_delay env w d co) = co_tick_seconds co"
  "co_backoff (set_next_poll_delay env w d co) = co_backoff co"
  "co_next_poll_delay (set_next_poll_delay env w d co) = d"
  "co_transport_failures (schedule_next_tick env w co) = co_transport_failures co"
  "co_tick_seconds (schedule_next_tick env w co) = co_tick_seconds co"
  "co_backoff (schedule_next_tick env w co) = co_backoff co"
  "co_transport_failures (schedule_poll env w d co) = co_transport_failures co"
  "co_tick_seconds (schedule_poll env w d co) = co_tick_seconds co"
  "co_backoff (schedule_poll env w d co) = co_backoff co"
  "co_next_poll_delay (schedule_poll env w d co) = co_next_poll_delay co"
  by (simp_all add: schedule_next_tick_def set_next_poll_delay_def schedule_poll_def Let_def)

lemma pace_schedule:
  assumes "pace_ok co" shows "pace_ok (schedule_next_tick env w co)"
proof -
  have "co_tick_seconds co \<le> 60" using assms by (simp add: pace_ok_def)
  note delay = schedule_next_tick_delay [OF this, of env w]
  show ?thesis
  proof (cases "co_backoff co")
    case None
    with assms delay show ?thesis by (simp add: pace_ok_def)
  next
    case (Some s)
    with assms show ?thesis by (simp add: schedule_next_tick_backoff)
  qed
qed

lemma backoff_seconds_0 [simp]: "backoff_seconds 0 = None"
  by (simp add: backoff_seconds_def)

lemma pace_success:
  assumes "pace_ok co" shows "pace_ok (on_transport_success env w co)"
proof (cases "co_backoff co")
  case None
  then show ?thesis using assms by (simp add: pace_ok_def on_transport_success_def)
next
  case (Some s)
  let ?co = "co\<lparr>co_transport_failures := 0, co_backoff := None\<rparr>"
  have "co_tick_seconds ?co \<le> 60" using assms by (simp add: pace_ok_def)
  from schedule_next_tick_delay [OF this, of env w]
  have "min (co_tick_seconds co) 5 \<le> co_next_poll_delay (schedule_next_tick env w ?co)" by simp
  moreover have "on_transport_success env w co = schedule_next_tick env w ?co"
    using Some by (simp add: on_transport_success_def)
  ultimately show ?thesis using assms by (simp add: pace_ok_def)
qed

lemma pace_failure:
  assumes "pace_ok co" shows "pace_ok (on_transport_failure env w co)"
proof (cases "backoff_seconds (co_transport_failures co + 1)")
  case None
  then show ?thesis
    using assms backoff_seconds_mono [OF None]
    by (simp add: pace_ok_def on_transport_failure_def apply_transport_backoff_def)
next
  case (Some s)
  then show ?thesis
    using assms backoff_seconds_le [OF Some]
    by (auto simp: pace_ok_def on_transport_failure_def apply_transport_backoff_def)
qed

lemma tick_seconds_of_range: "0 < tick_seconds_of rate" "tick_seconds_of rate \<le> 10"
proof -
  have "1 / 10 \<le> max (1 / 10) rate" by simp
  then show "0 < tick_seconds_of rate" "tick_seconds_of rate \<le> 10"
    by (simp_all add: tick_seconds_of_def field_simps)
qed

lemma pace_rate:
  assumes "pace_ok co" shows "pace_ok (update_rate env w rate co)"
proof -
  let ?co = "co\<lparr>co_tick_seconds := tick_seconds_of rate\<rparr>"
  note t = tick_seconds_of_range [of rate]
  then have "co_tick_seconds ?co \<le> 60" by simp
  note delay = schedule_next_tick_delay [OF this, of env w]
  show ?thesis
  proof (cases "co_backoff co")
    case None
    with assms t delay show ?thesis by (simp add: pace_ok_def update_rate_def)
  next
    case (Some s)
    then have "5 \<le> s" using assms backoff_seconds_le by (auto simp: pace_ok_def)
    moreover have "update_rate env w rate co = ?co" using Some by (simp add: update_rate_def)
    ultimately show ?thesis using Some assms t by (auto simp: pace_ok_def)
  qed
qed

lemma change_pace: "change env R L co co' \<Longrightarrow> pace_ok co \<Longrightarrow> pace_ok co'"
proof (induction rule: change.induct)
  case (ChangeDisplay co' co)
  then show ?case using core_eqD [OF ChangeDisplay(1)] by (simp add: pace_ok_def)
qed (simp_all add: pace_schedule pace_success pace_failure pace_rate, simp_all add: pace_ok_def set_next_due_def)

lemma evolves_pace: "evolves env R L co co' \<Longrightarrow> pace_ok co \<Longrightarrow> pace_ok co'"
  by (induction rule: rtranclp_induct) (simp_all add: change_pace)

section \<open>The outcome of a poll\<close>

datatype link_outcome = LinkFailed | LinkAnswered | LinkIdle

text \<open>
  What the client's answer to a tick's read says of the link. A tick without a job, or one that an
  unexpected exception ended, says nothing.
\<close>

definition read_outcome :: "room_config \<Rightarrow> refresh_plan \<Rightarrow> room_read call_reply \<Rightarrow> link_outcome" where
  "read_outcome room plan a =
     (case a of
        MeltemFailed _ \<Rightarrow> LinkFailed
      | Replied rr \<Rightarrow>
          if job_read_unanswered room (rr_outcome rr) plan then LinkFailed
          else if job_read_attempted room (rr_outcome rr) plan then LinkAnswered else LinkIdle
      | _ \<Rightarrow> LinkIdle)"

definition tick_outcome :: "'w client_env \<Rightarrow> coordinator \<Rightarrow> 'w \<Rightarrow> link_outcome" where
  "tick_outcome env co w =
     (case fst (select_poll_job (now_of env w) (co\<lparr>co_updated_rooms := None\<rparr>)) of
        None \<Rightarrow> LinkIdle
      | Some job \<Rightarrow>
          (case fst (update_data env co w) of
             UpdateRaised _ \<Rightarrow> LinkIdle
           | _ \<Rightarrow>
               let room = job_room_config co job;
                   states = (if co_data co \<noteq> [] then co_data co else co_startup_states co)
               in read_outcome room (job_plan job)
                    (fst (ce_read_room env room (state_or_empty states room) (job_plan job) w))))"

definition poll_outcome :: "'w client_env \<Rightarrow> coordinator \<Rightarrow> 'w \<Rightarrow> link_outcome" where
  "poll_outcome env co w =
     (if co_polling_stopped co \<or> ce_stopping env w then LinkIdle
      else tick_outcome env (co\<lparr>co_poll_timer := None, co_poll_running := True\<rparr>) w)"

fun failures_after :: "link_outcome \<Rightarrow> int \<Rightarrow> int" where
  "failures_after LinkFailed n = n + 1"
| "failures_after LinkAnswered n = 0"
| "failures_after LinkIdle n = n"

lemma evolves_failures:
  "evolves env R False co co' \<Longrightarrow> co_transport_failures co' = co_transport_failures co"
proof (induction rule: rtranclp_induct)
  case (step y z)
  have "change env R L y z \<Longrightarrow> \<not> L \<Longrightarrow> co_transport_failures z = co_transport_failures y" for L
    by (induction rule: change.induct) (auto dest: core_eqD simp: set_next_due_def update_rate_def Let_def)
  from this [OF step(2)] step show ?case by simp
qed simp

abbreviation flags :: "coordinator \<Rightarrow> bool \<times> bool" where
  "flags co \<equiv> (co_job_link_failure co, co_job_attempted co)"

lemma flags_simps [simp]:
  "co_job_link_failure (set_runtime room f co) = co_job_link_failure co"
  "co_job_attempted (set_runtime room f co) = co_job_attempted co"
  "co_job_link_failure (with_writes t g co) = co_job_link_failure co"
  "co_job_attempted (with_writes t g co) = co_job_attempted co"
  "co_job_link_failure (log_room_availability env w room s co) = co_job_link_failure co"
  "co_job_attempted (log_room_availability env w room s co) = co_job_attempted co"
  "co_job_link_failure (fst (wait_for_room_read env co w)) = co_job_link_failure co"
  "co_job_attempted (fst (wait_for_room_read env co w)) = co_job_attempted co"
  by (simp_all add: set_runtime_def with_writes_def log_room_availability_def wait_for_room_read_def Let_def
      split: option.split)

lemma finish_job_flags:
  "finish_job env w room states previous s err fg co = (states', co') \<Longrightarrow> flags co' = flags co"
  by (cases err) (auto simp: finish_job_def Let_def)

lemma balanced_target_flags:
  "read_balanced_target_if_pending env room s previous co w = (r, co', w') \<Longrightarrow> flags co' = flags co"
  using flags_simps(7,8) [of env]
  by (auto simp: read_balanced_target_if_pending_def Let_def wait_for_room_read_def
      split: prod.splits if_splits call_reply.splits)

lemma judge_job_flags:
  "flags (judge_job room outcome plan co)
     = (job_read_unanswered room outcome plan, job_read_attempted room outcome plan)"
  by (simp add: judge_job_def Let_def split: option.split)

lemma outcome_of_flags:
  "failures_after (if u then LinkFailed else if a then LinkAnswered else LinkIdle) n
     = (if u then n + 1 else if a then 0 else n)"
  by simp

lemma read_one_job_flags:
  assumes "read_one_job env states room plan co w = (Inr states', co', w')"
  shows "(if co_job_link_failure co' then n + 1 else if co_job_attempted co' then 0 else n)
    = failures_after (read_outcome room plan
        (fst (ce_read_room env room (state_or_empty states room) plan w))) n"
proof -
  obtain a w1 where a: "ce_read_room env room (state_or_empty states room) plan w = (a, w1)" by fastforce
  have "flags co' = (case a of MeltemFailed _ \<Rightarrow> (True, True)
      | Replied rr \<Rightarrow> (job_read_unanswered room (rr_outcome rr) plan, job_read_attempted room (rr_outcome rr) plan)
      | _ \<Rightarrow> flags co')"
  proof (cases a)
    case (Replied rr)
    obtain s co2 w2 where t: "(if job_read_failure_of room (rr_outcome rr) plan = None
        \<and> job_read_succeeded room (rr_outcome rr) plan \<and> refresh_airflow plan
        then read_balanced_target_if_pending env room (rr_state rr) (state_or_empty states room)
          (judge_job room (rr_outcome rr) plan co) w1
        else (Inr (rr_state rr), judge_job room (rr_outcome rr) plan co, w1)) = (s, co2, w2)"
      by (cases rule: prod_cases3)
    then have "flags co2 = (job_read_unanswered room (rr_outcome rr) plan, job_read_attempted room (rr_outcome rr) plan)"
      using judge_job_flags [of room "rr_outcome rr" plan co]
      by (auto split: if_splits dest!: balanced_target_flags)
    then show ?thesis
      using assms by (auto simp: read_one_job_def a Replied Let_def t split: sum.splits prod.splits
          dest!: finish_job_flags)
  next
    case (MeltemFailed err)
    then show ?thesis
      using assms by (auto simp: read_one_job_def a Let_def split: prod.splits dest!: finish_job_flags)
  qed simp_all
  then show ?thesis
    using assms by (cases a) (auto simp: read_outcome_def a read_one_job_def)
qed

lemma read_optional_values_flags:
  assumes "read_optional_values_due env co w = (r, co', w')"
  shows "flags co' = flags co"
proof -
  have one: "read_gateway_value env entry co w = (stopped, co', w') \<Longrightarrow> flags co' = flags co"
    for entry co w stopped co' w'
    by (auto simp: read_gateway_value_def Let_def
        split: prod.splits option.splits task_result.splits gateway_value.splits if_splits)
  have many: "read_gateway_values env entries co w = (stopped, co', w') \<Longrightarrow> flags co' = flags co"
    for entries co w stopped co' w'
  proof (induction entries arbitrary: co w)
    case (Cons entry entries)
    then show ?case by (auto split: prod.splits if_splits dest!: one)
  qed simp
  obtain stopped co1 w1 where v: "read_gateway_values env (co_gateway_reads co) co w = (stopped, co1, w1)"
    by (cases rule: prod_cases3)
  have "flags co' = flags co1"
    using assms by (auto simp: read_optional_values_due_def v Let_def
        split: option.splits prod.splits if_splits)
  then show ?thesis using many [OF v] by simp
qed

lemma transport_failures_simps [simp]:
  "co_transport_failures (on_transport_failure env w co) = co_transport_failures co + 1"
  "co_transport_failures (on_transport_success env w co) = 0"
  "co_transport_failures (limit_next_update_to keys co) = co_transport_failures co"
  "co_transport_failures (set_next_due jid due co) = co_transport_failures co"
  by (simp_all add: on_transport_failure_def apply_transport_backoff_def on_transport_success_def Let_def
      limit_next_update_to_def set_next_due_def split: option.split)

lemma confirm_failures [simp]:
  "co_transport_failures (confirm_pending_writes ck states b rooms co) = co_transport_failures co"
  by (rule evolves_failures [OF evolves_confirm])

lemma due_flags [simp]:
  "co_job_link_failure (set_next_due jid due co) = co_job_link_failure co"
  "co_job_attempted (set_next_due jid due co) = co_job_attempted co"
  by (simp_all add: set_next_due_def)

lemma finish_tick_failures:
  assumes "finish_tick env room job startup states optional co w = (r, co', w')"
  shows "co_transport_failures co' =
      (if co_job_link_failure co then co_transport_failures co + 1
       else if co_job_attempted co then 0 else co_transport_failures co)"
    and "r \<noteq> UpdateRaised e"
proof -
  define never where "never = never_read job room states"
  define co1 where "co1 = (if startup \<or> never
    then set_next_due (job_id job) (now_of env w + job_interval env w co room job never) co else co)"
  have co1: "co_job_link_failure co1 = co_job_link_failure co" "co_job_attempted co1 = co_job_attempted co"
    "co_transport_failures co1 = co_transport_failures co" by (simp_all add: co1_def)
  note def = assms [unfolded finish_tick_def never_def [symmetric] Let_def co1_def [symmetric]]
  show "co_transport_failures co' =
      (if co_job_link_failure co then co_transport_failures co + 1
       else if co_job_attempted co then 0 else co_transport_failures co)"
    using def co1 by (auto simp: startup_failed_def Let_def split: if_splits)
  show "r \<noteq> UpdateRaised e"
    using def by (auto simp: startup_failed_def Let_def split: if_splits)
qed

lemma run_job_failures:
  assumes "run_job env room job startup co w = (r, co', w')"
    and k: "known co (room_key room)"
  shows "co_transport_failures co' = failures_after
      (case r of UpdateRaised _ \<Rightarrow> LinkIdle | _ \<Rightarrow> read_outcome room (job_plan job)
         (fst (ce_read_room env room
           (state_or_empty (if co_data co \<noteq> [] then co_data co else co_startup_states co) room)
           (job_plan job) w))) (co_transport_failures co)"
proof -
  define co1 where "co1 = set_next_due (job_id job) (now_of env w + job_interval env w co room job False) co"
  define co2 where "co2 = co1\<lparr>co_last_read_started := Some (now_of env w), co_job_error := None,
                    co_job_link_failure := False, co_job_attempted := False\<rparr>"
  define previous where "previous = (if co_data co2 \<noteq> [] then co_data co2 else co_startup_states co2)"
  have previous: "previous = (if co_data co \<noteq> [] then co_data co else co_startup_states co)"
    by (simp add: previous_def co2_def co1_def set_next_due_def)
  have "core co2 = core co1" by (simp add: co2_def core_def)
  then have 2: "evolves env {room_key room} False co co2"
    unfolding co1_def by (rule evolves_then_display [OF evolves_due])
  have k2: "known co2 (room_key room)" using k by (simp add: evolves_known [OF 2])
  obtain states co3 w1 where j: "read_one_job env previous room (job_plan job) co2 w = (states, co3, w1)"
    by (cases rule: prod_cases3)
  have 3: "evolves env {room_key room} False co co3"
    by (rule evolves_trans [OF 2 evolves_job [OF j k2]]) simp
  obtain keys co4 w2 where o: "(if co_job_link_failure co3 then (Inr {}, co3, w1)
      else read_optional_values_due env co3 w1) = (keys, co4, w2)" by (cases rule: prod_cases3)
  have "core co4 = core co3" using o read_optional_values_core by (auto split: if_splits)
  from evolves_failures [OF evolves_then_display [OF 3 this]]
  have f4: "co_transport_failures co4 = co_transport_failures co" .
  have flags: "flags co4 = flags co3"
    using o read_optional_values_flags [of env co3 w1 keys co4 w2] by (auto split: if_splits)
  note def = assms(1) [unfolded run_job_def Let_def co1_def [symmetric] co2_def [symmetric]
      previous_def [symmetric] j prod.case o]
  show ?thesis
  proof (cases states)
    case (Inl e)
    then show ?thesis using def evolves_failures [OF 3] by auto
  next
    case (Inr updated)
    note outcome = read_one_job_flags [OF j [unfolded Inr], of "co_transport_failures co", unfolded previous]
    show ?thesis
    proof (cases keys)
      case (Inl e)
      then show ?thesis using def Inr f4 o by (auto split: if_splits)
    next
      case (Inr ks)
      then have "finish_tick env room job startup updated ks co4 w2 = (r, co', w')"
        using def \<open>states = Inr updated\<close> o by (simp split: if_splits)
      note t = finish_tick_failures [OF this]
      have "co_transport_failures co' = (if co_job_link_failure co3 then co_transport_failures co + 1
          else if co_job_attempted co3 then 0 else co_transport_failures co)"
        using t(1) f4 flags by simp
      then show ?thesis using t(2) unfolding outcome by (cases r) auto
    qed
  qed
qed

lemma update_failures:
  assumes "update_data env co w = (r, co', w')" and jobs: "jobs_configured co"
  shows "co_transport_failures co' = failures_after (tick_outcome env co w) (co_transport_failures co)"
proof -
  define co0 where "co0 = co\<lparr>co_updated_rooms := None\<rparr>"
  obtain selected startup co1 where sel: "select_poll_job (now_of env w) co0 = (selected, startup, co1)"
    by (cases rule: prod_cases3)
  have "core co0 = core co" by (simp add: co0_def core_def)
  then have 1: "evolves env {} False co co1" by (rule evolves_after_display [OF _ evolves_select [OF sel]])
  note f1 = evolves_failures [OF 1]
  show ?thesis
  proof (cases selected)
    case None
    then have "idle_tick env co1 w = (r, co', w')" using assms(1) sel by (simp add: update_data_def co0_def)
    from evolves_failures [OF evolves_idle [OF this, where R = "{}"]] f1 None sel show ?thesis
      by (simp add: tick_outcome_def co0_def)
  next
    case (Some job)
    have "job \<in> set (co_jobs co)" using select_in_jobs [of _ co0] sel Some by (auto simp: co0_def)
    then obtain room where room: "room_of co (job_room job) = Some room" "known co (room_key room)"
      using jobs by (auto simp: jobs_configured_def)
    have "co_rooms co1 = co_rooms co" "co_data co1 = co_data co" "co_startup_states co1 = co_startup_states co"
      using select_keeps [OF sel] by (simp_all add: co0_def)
    moreover from this have "room_of co1 (job_room job) = Some room" using room by (simp add: room_of_def)
    moreover have "known co1 (room_key room)" using room(2) by (simp add: evolves_known [OF 1])
    moreover have "run_job env (job_room_config co1 job) job startup co1 w = (r, co', w')"
      using assms(1) sel Some by (simp add: update_data_def co0_def)
    ultimately show ?thesis
      using run_job_failures [of env room job startup co1 w r co' w'] f1 Some sel room assms(1)
      by (cases r) (simp_all add: tick_outcome_def co0_def job_room_config_def)
  qed
qed

lemma refresh_failures:
  assumes "refresh env co w = (co', w')" "jobs_configured co"
  shows "co_transport_failures co' = failures_after (tick_outcome env co w) (co_transport_failures co)"
proof -
  obtain r co1 w1 where u: "update_data env co w = (r, co1, w1)" by (cases rule: prod_cases3)
  have "co_transport_failures co' = co_transport_failures co1"
    using assms(1) by (auto simp: refresh_def u Let_def update_listeners_def split: prod.splits if_splits)
  then show ?thesis using update_failures [OF u assms(2)] by simp
qed

section \<open>The life of a coordinator\<close>

text \<open>
  What happens to a coordinator, each step up to its end: a poll tick, a refresh the user asks for, a
  command of an entity, a look at the effective levels, a new request rate, an optional value that is
  switched on or off, an overlay whose time has run out, the shutdown, and time passing.
\<close>

inductive coordinator_step ::
  "'w client_env \<Rightarrow> link_outcome \<Rightarrow> coordinator \<times> 'w \<Rightarrow> coordinator \<times> 'w \<Rightarrow> bool"
  for env :: "'w client_env" where
  StepTick: "poll env co w = (co', w') \<Longrightarrow>
    coordinator_step env (poll_outcome env co w) (co, w) (co', w')"
| StepRefresh: "refresh env co w = (co', w') \<Longrightarrow> coordinator_step env (tick_outcome env co w) (co, w) (co', w')"
| StepCommand: "command_for env cmd key co w = (result, co', w') \<Longrightarrow> coordinator_step env LinkIdle (co, w) (co', w')"
| StepLevels: "room_of co key = Some room \<Longrightarrow>
    coordinator_step env LinkIdle (co, w) (snd (resolve_levels (ce_clocks env w) room co), w)"
| StepRate: "coordinator_step env LinkIdle (co, w) (update_rate env w rate co, w)"
| StepGatewayRead: "coordinator_step env LinkIdle (co, w) (set_gateway_read_enabled env w name consumer on co, w)"
| StepExternalInput:
    "coordinator_step env LinkIdle (co, w) (snd (set_external_input_enabled env w key setting on co), w)"
| StepPresetEnds: "coordinator_step env LinkIdle (co, w)
    (update_listeners (co\<lparr>co_presets := fst (overlay_expire key (co_presets co))\<rparr>), w)"
| StepIntensiveEnds: "coordinator_step env LinkIdle (co, w)
    (update_listeners (co\<lparr>co_intensive := fst (overlay_expire key (co_intensive co))\<rparr>), w)"
| StepLevelsEnd: "coordinator_step env LinkIdle (co, w)
    (update_listeners (co\<lparr>co_levels := fst (overlay_expire key (co_levels co))\<rparr>), w)"
| StepShutdown: "coordinator_step env LinkIdle (co, w) (shutdown_coordinator env w co, w)"
| StepTime: "now_of env w \<le> now_of env w' \<Longrightarrow> coordinator_step env LinkIdle (co, w) (co, w')"

text \<open>A run from a new coordinator, with the outcomes of its polls.\<close>

inductive coordinator_run ::
  "'w client_env \<Rightarrow> room_config list \<Rightarrow> seconds \<Rightarrow> link_outcome list \<Rightarrow> coordinator \<times> 'w \<Rightarrow> bool"
  for env :: "'w client_env" and rooms :: "room_config list" and start :: seconds where
  RunStart: "coordinator_run env rooms start [] (new_coordinator start rooms rate cumulative new_unit sensors, w)"
| RunStep: "coordinator_run env rooms start outcomes s \<Longrightarrow> coordinator_step env outcome s s' \<Longrightarrow>
    coordinator_run env rooms start (outcomes @ [outcome]) s'"

inductive_cases coordinator_stepE: "coordinator_step env outcome (co, w) (co', w')"

lemmas coordinator_step_cases = coordinator_stepE
  [consumes 1, case_names StepTick StepRefresh StepCommand StepLevels StepRate StepGatewayRead
    StepExternalInput StepPresetEnds StepIntensiveEnds StepLevelsEnd StepShutdown StepTime]

lemma new_coordinator_ok:
  assumes "distinct (map room_key rooms)"
  shows "coordinator_ok rooms start (new_coordinator start rooms rate cumulative new_unit sensors)"
proof -
  let ?ps = "map (\<lambda>room. (room_key room, new_runtime room)) rooms"
  have eq: "dict_of ?ps = ?ps" using assms by (intro dict_of_distinct) (simp add: o_def)
  have look: "map_of ?ps (room_key room) = Some (new_runtime room)" if "room \<in> set rooms" for room
    using that assms by (intro map_of_is_SomeI) (auto simp: o_def)
  have "runtimes_ok rooms (dict_of ?ps)"
    unfolding runtimes_ok_def eq by (intro ballI) (simp only: look option.map, simp add: new_runtime_def)
  then show ?thesis
    by (simp add: coordinator_ok_def new_coordinator_def startup_list_def confirmations_wf_EMPTY)
      (simp add: issues_reported_def confirmation_of_def confirmations_of_def EMPTY_CONFIRMATIONS_def)
qed

lemma new_coordinator_pace: "pace_ok (new_coordinator start rooms rate cumulative new_unit sensors)"
  by (simp add: pace_ok_def new_coordinator_def tick_seconds_of_range)

lemma evolves_toggled: "evolves env R L co (optional_read_toggled env w b co)"
  by (auto simp: optional_read_toggled_def intro: evolves_plan)

lemma evolves_gateway_toggle: "evolves env R L co (set_gateway_read_enabled env w name consumer on co)"
proof -
  have display: "core (co\<lparr>co_gateway_reads := x\<rparr>) = core co" for x by (simp add: core_def)
  have "evolves env R L co (optional_read_toggled env w b (co\<lparr>co_gateway_reads := x\<rparr>))" for b x
    by (rule evolves_after_display [OF display evolves_toggled])
  then show ?thesis by (auto simp: set_gateway_read_enabled_def split: option.split prod.split)
qed

lemma evolves_external_toggle:
  "evolves env R L co (snd (set_external_input_enabled env w key setting on co))"
proof -
  have display: "core (co\<lparr>co_room_reads := x\<rparr>) = core co" for x by (simp add: core_def)
  have "evolves env R L co (optional_read_toggled env w b (co\<lparr>co_room_reads := x\<rparr>))" for b x
    by (rule evolves_after_display [OF display evolves_toggled])
  then show ?thesis by (auto simp: set_external_input_enabled_def split: option.split prod.split)
qed

lemma evolves_expire:
  "evolves env R L co (co\<lparr>co_presets := fst (overlay_expire k (co_presets co))\<rparr>)"
  "evolves env R L co (co\<lparr>co_intensive := fst (overlay_expire k (co_intensive co))\<rparr>)"
  "evolves env R L co (co\<lparr>co_levels := fst (overlay_expire k (co_levels co))\<rparr>)"
  using ChangePresets [of env R L co "OverlayExpire k"] ChangeIntensive [of env R L co "OverlayExpire k"]
    ChangeLevels [of env R L co "OverlayExpire k"]
  by (auto intro: evolvesI)

lemma evolves_shutdown: "evolves env R L co (shutdown_coordinator env w co)"
proof -
  let ?c1 = "co\<lparr>co_polling_stopped := True, co_poll_timer := None\<rparr>"
  let ?c2 = "?c1\<lparr>co_presets := overlay_shutdown (co_presets co)\<rparr>"
  let ?c3 = "?c2\<lparr>co_intensive := overlay_shutdown (co_intensive co)\<rparr>"
  let ?c4 = "?c3\<lparr>co_levels := overlay_shutdown (co_levels co)\<rparr>"
  have 1: "evolves env R L co ?c1" by (rule evolvesI [OF ChangeStop])
  have 2: "evolves env R L co ?c2"
    using evolves_trans [OF 1 evolvesI [OF ChangePresets [of env R L ?c1 OverlayShutdown]]] by simp
  have 3: "evolves env R L co ?c3"
    using evolves_trans [OF 2 evolvesI [OF ChangeIntensive [of env R L ?c2 OverlayShutdown]]] by simp
  have 4: "evolves env R L co ?c4"
    using evolves_trans [OF 3 evolvesI [OF ChangeLevels [of env R L ?c3 OverlayShutdown]]] by simp
  show ?thesis by (rule evolves_then_display [OF 4]) (simp add: shutdown_coordinator_def core_def)
qed

lemma evolves_command_for:
  assumes "command_for env cmd key co w = (r, co', w')" "coordinator_ok rooms start co"
  shows "evolves env {key} L co co'"
proof (cases "room_of co key")
  case (Some room)
  have "room \<in> set rooms" "room_key room = key"
    using room_of_Some [OF Some] assms(2) by (auto simp: coordinator_ok_def)
  moreover from this have "known co (room_key room)"
    using assms(2) by (auto simp: coordinator_ok_def runtimes_ok_def known_def)
  ultimately show ?thesis
    using assms(1) by (auto simp: command_for_def Some intro: evolves_command)
qed (use assms in \<open>simp add: command_for_def\<close>)

text \<open>The unit a step is about: its bookkeeping is the only one that changes.\<close>

lemma step_evolves:
  assumes "coordinator_step env outcome (co, w) (co', w')"
    and ok: "coordinator_ok rooms start co" "distinct (map room_key rooms)"
  shows "\<exists>key. evolves env {key} True co co'"
proof -
  have jobs: "jobs_configured co" using ok by (rule coordinator_ok_jobs)
  have "\<exists>key. selected_unit (now_of env w) co \<subseteq> {key}"
    by (auto simp: selected_unit_def split: option.split)
  then obtain key where sel: "selected_unit (now_of env w) co \<subseteq> {key}" by blast
  have mono: "evolves env {key} True co c" if "evolves env S True co c" "S \<subseteq> {key}" for S key c
    using that(1)
  proof (induction rule: rtranclp_induct)
    case (step y z)
    have "change env S True y z \<Longrightarrow> change env {key} True y z" for y z
      by (induction rule: change.induct) (use that(2) in \<open>blast intro: change.intros\<close>)+
    then show ?case using step by (meson rtranclp.rtrancl_into_rtrancl)
  qed simp
  have any: "\<exists>key. evolves env {key} True co c" if "evolves env {undefined} True co c" for c
    using that by blast
  from assms(1) show ?thesis
  proof (cases rule: coordinator_step_cases)
    case StepTick
    show ?thesis using mono [OF evolves_poll [OF StepTick(2) jobs] sel] by (rule exI)
  next
    case StepRefresh
    show ?thesis using mono [OF evolves_refresh [OF StepRefresh(2) jobs] sel] by (rule exI)
  next
    case (StepCommand cmd key result)
    show ?thesis using evolves_command_for [OF StepCommand(2) ok(1)] by (rule exI)
  next
    case (StepLevels key room)
    then have "room \<in> set rooms" using ok(1) by (auto simp: coordinator_ok_def dest: room_of_Some)
    then have "known co (room_key room)"
      using ok(1) by (auto simp: coordinator_ok_def runtimes_ok_def known_def)
    then have "evolves env {room_key room} True co co'" using StepLevels by (auto intro: evolves_resolve)
    then show ?thesis by blast
  next
    case (StepRate rate)
    have "evolves env R True co (update_rate env w rate co)" for R by (rule evolvesI [OF ChangeRate])
    then show ?thesis using StepRate by blast
  next
    case StepGatewayRead
    then show ?thesis using any [OF evolves_gateway_toggle] by simp
  next
    case StepExternalInput
    then show ?thesis using any [OF evolves_external_toggle] by simp
  next
    case StepPresetEnds
    then show ?thesis using any [OF evolves_listeners(1) [OF evolves_expire(1)]] by simp
  next
    case StepIntensiveEnds
    then show ?thesis using any [OF evolves_listeners(1) [OF evolves_expire(2)]] by simp
  next
    case StepLevelsEnd
    then show ?thesis using any [OF evolves_listeners(1) [OF evolves_expire(3)]] by simp
  next
    case StepShutdown
    then show ?thesis using any [OF evolves_shutdown] by simp
  next
    case StepTime
    then show ?thesis using any [OF rtranclp.rtrancl_refl] by simp
  qed
qed

lemma step_failures:
  assumes "coordinator_step env outcome (co, w) (co', w')"
    and ok: "coordinator_ok rooms start co" "distinct (map room_key rooms)"
  shows "co_transport_failures co' = failures_after outcome (co_transport_failures co)"
proof -
  have jobs: "jobs_configured co" using ok by (rule coordinator_ok_jobs)
  from assms(1) show ?thesis
  proof (cases rule: coordinator_step_cases)
    case StepTick
    show ?thesis
    proof (cases "co_polling_stopped co \<or> ce_stopping env w")
      case False
      let ?co = "co\<lparr>co_poll_timer := None, co_poll_running := True\<rparr>"
      obtain co1 w1 where r: "refresh env ?co w = (co1, w1)" by fastforce
      show ?thesis
        using StepTick False refresh_failures [OF r] jobs by (auto simp: poll_def r poll_outcome_def)
    qed (use StepTick in \<open>auto simp: poll_def poll_outcome_def\<close>)
  next
    case StepRefresh
    then show ?thesis using refresh_failures [OF StepRefresh(2) jobs] by simp
  next
    case (StepCommand cmd key result)
    then show ?thesis using evolves_failures [OF evolves_command_for [OF _ ok(1)]] by simp
  next
    case (StepLevels key room)
    then have "room \<in> set rooms" using ok(1) by (auto simp: coordinator_ok_def dest: room_of_Some)
    then have "known co (room_key room)"
      using ok(1) by (auto simp: coordinator_ok_def runtimes_ok_def known_def)
    then have "evolves env {room_key room} False co co'" using StepLevels by (auto intro: evolves_resolve)
    then show ?thesis using StepLevels evolves_failures by simp
  next
    case (StepRate rate)
    then show ?thesis by (simp add: update_rate_def Let_def)
  qed (use evolves_failures [OF evolves_gateway_toggle] evolves_failures [OF evolves_external_toggle]
      evolves_failures [OF evolves_shutdown] in \<open>simp_all add: update_listeners_def\<close>)
qed

lemma run_invariant:
  assumes "coordinator_run env rooms start outcomes s" "distinct (map room_key rooms)"
  shows "coordinator_ok rooms start (fst s) \<and> pace_ok (fst s)
    \<and> co_transport_failures (fst s) = fold failures_after outcomes 0"
  using assms
proof (induction rule: coordinator_run.induct)
  case (RunStart rate cumulative new_unit sensors w)
  then show ?case by (simp add: new_coordinator_ok new_coordinator_pace) (simp add: new_coordinator_def)
next
  case (RunStep outcomes s outcome s')
  obtain co w co' w' where s: "s = (co, w)" "s' = (co', w')" by fastforce
  have ok: "coordinator_ok rooms start co" "pace_ok co" using RunStep by (simp_all add: s)
  note step = RunStep(2) [unfolded s]
  obtain key where "evolves env {key} True co co'" using step_evolves [OF step ok(1) RunStep.prems] by blast
  then show ?case
    using ok step_failures [OF step ok(1) RunStep.prems] RunStep
    by (simp add: s evolves_ok evolves_pace)
qed

text \<open>The number of failed reads since the link last answered.\<close>

definition consecutive_failures :: "link_outcome list \<Rightarrow> nat" where
  "consecutive_failures outcomes =
     length (filter (\<lambda>x. x = LinkFailed) (takeWhile (\<lambda>x. x \<noteq> LinkAnswered) (rev outcomes)))"

lemma consecutive_failures_fold: "fold failures_after outcomes 0 = int (consecutive_failures outcomes)"
proof (induction outcomes rule: rev_induct)
  case (snoc x xs)
  then show ?case by (cases x) (simp_all add: consecutive_failures_def)
qed (simp add: consecutive_failures_def)

section \<open>An unreachable gateway\<close>

text \<open>A client no request of which is answered; the world is the clock.\<close>

definition deaf_env :: "real client_env" where
  "deaf_env =
     \<lparr>ce_clocks = (\<lambda>w. \<lparr>monotonic = w, utcnow = w\<rparr>), ce_sleep = (\<lambda>s w. w + s),
      ce_since_read = (\<lambda>_ _. None), ce_read_room = (\<lambda>_ _ _ w. (MeltemFailed ''no reply'', w)),
      ce_read_target = (\<lambda>_ w. (MeltemFailed ''no reply'', w)),
      ce_write = (\<lambda>_ w. (MeltemFailed ''no reply'', w)),
      ce_gateway_read = (\<lambda>_ w. (TaskFailed ''no reply'', w)),
      ce_room_read = (\<lambda>_ w. (TaskFailed ''no reply'', w)), ce_stopping = (\<lambda>_. False),
      ce_polling_disabled = (\<lambda>_. False), ce_published = (\<lambda>d _. (d, True)),
      ce_refreshed = (\<lambda>r (d, b). case r of Some s \<Rightarrow> ((s, True), True) | None \<Rightarrow> ((d, False), b))\<rparr>"

definition deaf_start :: coordinator where
  "deaf_start = new_coordinator 0 [plain_room ''a'' 2] 1 None None []"

definition deaf_polled :: coordinator where
  "deaf_polled = fst (poll deaf_env deaf_start 0)"

lemma deaf_reads: "ce_read_room deaf_env room s plan w = (MeltemFailed ''no reply'', w)"
  by (simp add: deaf_env_def)

lemma deaf_job: "fst (run_job deaf_env room job startup co w) \<noteq> UpdateRaised e"
proof -
  obtain r co' w' where r: "run_job deaf_env room job startup co w = (r, co', w')" by (cases rule: prod_cases3)
  show ?thesis
    using r by (auto simp: run_job_def read_one_job_def deaf_reads Let_def dest!: finish_job_flags
        dest: finish_tick_failures(2) split: prod.splits if_splits)
qed

lemma deaf_tick_outcome:
  assumes "fst (select_poll_job (now_of deaf_env w) (co\<lparr>co_updated_rooms := None\<rparr>)) = Some job"
  shows "tick_outcome deaf_env co w = LinkFailed"
proof -
  have "fst (update_data deaf_env co w) \<noteq> UpdateRaised e" for e
    using assms deaf_job by (auto simp: update_data_def split: prod.splits)
  then show ?thesis
    using assms by (cases "fst (update_data deaf_env co w)")
      (auto simp: tick_outcome_def deaf_reads read_outcome_def Let_def)
qed

lemma deaf_run:
  "coordinator_run deaf_env [plain_room ''a'' 2] 0 [LinkFailed] (deaf_polled, snd (poll deaf_env deaf_start 0))"
proof -
  have tick: "poll deaf_env deaf_start 0 = (deaf_polled, snd (poll deaf_env deaf_start 0))"
    by (simp add: deaf_polled_def)
  have "map_option job_id (fst (select_poll_job 0 (deaf_start\<lparr>co_poll_timer := None, co_poll_running := True,
      co_updated_rooms := None\<rparr>))) = Some (''flow'', ''a'')"
    by code_simp
  then have outcome: "poll_outcome deaf_env deaf_start 0 = LinkFailed"
    by (auto simp: poll_outcome_def deaf_start_def new_coordinator_def intro!: deaf_tick_outcome)
      (auto simp: deaf_env_def)
  have "coordinator_run deaf_env [plain_room ''a'' 2] 0 [] (deaf_start, 0)"
    unfolding deaf_start_def by (rule RunStart)
  from RunStep [OF this StepTick [OF tick]] show ?thesis by (simp add: outcome)
qed

text \<open>
  C1. Whatever happens to a coordinator after it is built - polls, refreshes, commands, new rates, optional
  values, timers, shutdown - its tables stay well formed: the same units and the same jobs, each job of a
  configured unit and each unit with its own bookkeeping, the startup list within the jobs, sound write
  confirmations with every unhealthy one counted, sound overlays, and no poll timer after the shutdown.
\<close>

theorem coordinator_stays_well_formed:
  assumes "distinct (map room_key rooms)" "coordinator_run env rooms start outcomes (co, w)"
  shows "coordinator_ok rooms start co \<and> jobs_configured co"
  using run_invariant [OF assms(2,1)] coordinator_ok_jobs [OF _ assms(1), of start co] by simp

lemma coordinator_stays_well_formed_witness:
  "coordinator_ok [plain_room ''a'' 2] 0 deaf_polled"
  using coordinator_stays_well_formed [OF _ deaf_run] by simp

text \<open>
  C3. The polls slow down exactly as the failures ask for: after any run the coordinator backs off for
  the time that belongs to the number of failed polls since the link last answered (nothing up to two,
  then 5 s doubling to 60 s), its next tick waits just that long, and without a backoff never less than
  the request rate allows, or 5 s while nothing has been read.
\<close>

theorem backoff_follows_link:
  assumes "distinct (map room_key rooms)" "coordinator_run env rooms start outcomes (co, w)"
  shows "co_transport_failures co = int (consecutive_failures outcomes)
    \<and> co_backoff co = backoff_seconds (int (consecutive_failures outcomes))
    \<and> (case backoff_seconds (int (consecutive_failures outcomes)) of
         Some s \<Rightarrow> co_next_poll_delay co = s
       | None \<Rightarrow> min (co_tick_seconds co) TRANSPORT_BACKOFF_START_SECONDS \<le> co_next_poll_delay co)"
  using run_invariant [OF assms(2,1)]
  by (auto simp: pace_ok_def consecutive_failures_fold split: option.split)

lemma backoff_follows_link_witness:
  "co_transport_failures deaf_polled = 1 \<and> co_backoff deaf_polled = None"
  using backoff_follows_link [OF _ deaf_run]
  by (simp add: consecutive_failures_def backoff_seconds_def Let_def)

end
