(* ===== verification/Coordinator_Isolation.thy ===== *)
theory Coordinator_Isolation
  imports Coordinator_Run
begin

text \<open>
  One unit cannot disturb another: a poll tick reads one unit, and whatever the client answers, the
  values, the failure counts and the last errors of all other units stay as they were.
\<close>

section \<open>Who changes the states\<close>

abbreviation both_states :: "coordinator \<Rightarrow> room_states \<times> room_states" where
  "both_states co \<equiv> (co_data co, co_startup_states co)"

lemma both_states_simps [simp]:
  "co_data (set_runtime room f co) = co_data co"
  "co_startup_states (set_runtime room f co) = co_startup_states co"
  "co_startup_states (with_writes t g co) = co_startup_states co"
  "co_data (log_room_availability env w room s co) = co_data co"
  "co_startup_states (log_room_availability env w room s co) = co_startup_states co"
  "co_data (set_next_due jid due co) = co_data co"
  "co_startup_states (set_next_due jid due co) = co_startup_states co"
  "co_data (set_next_poll_delay env w d co) = co_data co"
  "co_startup_states (set_next_poll_delay env w d co) = co_startup_states co"
  "co_data (schedule_next_tick env w co) = co_data co"
  "co_startup_states (schedule_next_tick env w co) = co_startup_states co"
  "co_data (on_transport_success env w co) = co_data co"
  "co_startup_states (on_transport_success env w co) = co_startup_states co"
  "co_data (on_transport_failure env w co) = co_data co"
  "co_startup_states (on_transport_failure env w co) = co_startup_states co"
  "co_data (limit_next_update_to keys co) = co_data co"
  "co_startup_states (limit_next_update_to keys co) = co_startup_states co"
  "co_data (update_listeners co) = co_data co"
  "co_startup_states (update_listeners co) = co_startup_states co"
  "co_data (schedule_poll env w d co) = co_data co"
  "co_startup_states (schedule_poll env w d co) = co_startup_states co"
  "co_data (judge_job room outcome plan co) = co_data co"
  "co_startup_states (judge_job room outcome plan co) = co_startup_states co"
  by (simp_all add: set_runtime_def with_writes_def log_room_availability_def Let_def set_next_due_def
      set_next_poll_delay_def schedule_poll_def schedule_next_tick_def on_transport_success_def
      on_transport_failure_def apply_transport_backoff_def limit_next_update_to_def update_listeners_def
      judge_job_def split: option.split)

lemma settle_rooms_states: "both_states (fst (fold (settle_room ck) states acc)) = both_states (fst acc)"
proof (induction states arbitrary: acc)
  case (Cons entry states)
  have "both_states (fst (settle_room ck entry acc)) = both_states (fst acc)"
    by (cases acc; cases entry) (auto simp: settle_room_def Let_def split: prod.splits option.splits)
  with Cons.IH show ?case by simp
qed simp

lemma confirm_states [simp]:
  "co_data (confirm_pending_writes ck states b rooms co) = co_data co"
  "co_startup_states (confirm_pending_writes ck states b rooms co) = co_startup_states co"
proof -
  let ?co = "with_writes (monotonic ck) (\<lambda>wc. fst (confirm ck states wc)) co"
  obtain co2 changed where f: "fold (settle_room ck) states (?co, snd (confirm ck states (co_writes co))) = (co2, changed)"
    by fastforce
  have "both_states co2 = both_states co"
    using settle_rooms_states [of ck states "(?co, snd (confirm ck states (co_writes co)))"] by (simp add: f)
  then show "co_data (confirm_pending_writes ck states b rooms co) = co_data co"
    "co_startup_states (confirm_pending_writes ck states b rooms co) = co_startup_states co"
    by (auto simp: confirm_pending_writes_def f split: option.split)
qed

lemma finish_job_states:
  "finish_job env w room states previous s err fg co = (states', co') \<Longrightarrow>
     both_states co' = both_states co \<and> (\<forall>k. k \<noteq> room_key room \<longrightarrow> map_of states' k = map_of states k)"
  by (cases err) (auto simp: finish_job_def Let_def update_conv)

lemma balanced_target_states:
  "read_balanced_target_if_pending env room s previous co w = (r, co', w') \<Longrightarrow> both_states co' = both_states co"
  by (auto simp: read_balanced_target_if_pending_def Let_def wait_for_room_read_def
      split: prod.splits if_splits call_reply.splits)

lemma read_one_job_states:
  assumes "read_one_job env states room plan co w = (r, co', w')"
  shows "both_states co' = both_states co"
    and "r = Inr states' \<Longrightarrow> k \<noteq> room_key room \<Longrightarrow> map_of states' k = map_of states k"
proof -
  obtain a w1 where a: "ce_read_room env room (state_or_empty states room) plan w = (a, w1)" by fastforce
  have "both_states co' = both_states co \<and>
      (\<forall>states' k. r = Inr states' \<longrightarrow> k \<noteq> room_key room \<longrightarrow> map_of states' k = map_of states k)"
  proof (cases a)
    case (Replied rr)
    obtain s co2 w2 where t: "(if job_read_failure_of room (rr_outcome rr) plan = None
        \<and> job_read_succeeded room (rr_outcome rr) plan \<and> refresh_airflow plan
        then read_balanced_target_if_pending env room (rr_state rr) (state_or_empty states room)
          (judge_job room (rr_outcome rr) plan co) w1
        else (Inr (rr_state rr), judge_job room (rr_outcome rr) plan co, w1)) = (s, co2, w2)"
      by (cases rule: prod_cases3)
    then have "both_states co2 = both_states co"
      by (auto split: if_splits dest!: balanced_target_states)
    then show ?thesis
      using assms by (auto simp: read_one_job_def a Replied Let_def t split: sum.splits prod.splits
          dest!: finish_job_states)
  qed (use assms in \<open>auto simp: read_one_job_def a Let_def split: prod.splits dest!: finish_job_states\<close>)
  then show "both_states co' = both_states co"
    "r = Inr states' \<Longrightarrow> k \<noteq> room_key room \<Longrightarrow> map_of states' k = map_of states k" by auto
qed

lemma read_optional_values_states:
  assumes "read_optional_values_due env co w = (r, co', w')"
  shows "both_states co' = both_states co"
proof -
  have one: "read_gateway_value env entry co w = (stopped, co', w') \<Longrightarrow> both_states co' = both_states co"
    for entry co w stopped co' w'
    by (auto simp: read_gateway_value_def Let_def
        split: prod.splits option.splits task_result.splits gateway_value.splits if_splits)
  have many: "read_gateway_values env entries co w = (stopped, co', w') \<Longrightarrow> both_states co' = both_states co"
    for entries co w stopped co' w'
  proof (induction entries arbitrary: co w)
    case (Cons entry entries)
    then show ?case by (auto split: prod.splits if_splits dest!: one)
  qed simp
  obtain stopped co1 w1 where v: "read_gateway_values env (co_gateway_reads co) co w = (stopped, co1, w1)"
    by (cases rule: prod_cases3)
  have "both_states co' = both_states co1"
    using assms by (auto simp: read_optional_values_due_def v Let_def
        split: option.splits prod.splits if_splits)
  then show ?thesis using many [OF v] by simp
qed

section \<open>The states after a tick\<close>

text \<open>
  The values known of the units: the published data, and before there are any, the values the startup
  has gathered.
\<close>

definition known_states :: "coordinator \<Rightarrow> room_states" where
  "known_states co = (if co_data co \<noteq> [] then co_data co else co_startup_states co)"

definition states_after :: "update_result \<Rightarrow> coordinator \<Rightarrow> room_states" where
  "states_after r co = (case r of Updated states \<Rightarrow> states | _ \<Rightarrow> known_states co)"

lemma finish_tick_states:
  assumes "finish_tick env room job startup states optional co w = (r, co', w')"
  shows "co_data co' = co_data co"
    and "r = Updated states \<and> states \<noteq> [] \<or> r = UpdateFailed \<and> co_startup_states co' = states"
proof -
  define never where "never = never_read job room states"
  define co1 where "co1 = (if startup \<or> never
    then set_next_due (job_id job) (now_of env w + job_interval env w co room job never) co else co)"
  have co1: "co_data co1 = co_data co" by (simp add: co1_def)
  note def = assms [unfolded finish_tick_def never_def [symmetric] Let_def co1_def [symmetric]]
  show "co_data co' = co_data co"
    using def co1 by (auto simp: startup_failed_def Let_def split: if_splits)
  show "r = Updated states \<and> states \<noteq> [] \<or> r = UpdateFailed \<and> co_startup_states co' = states"
    using def by (auto simp: startup_failed_def Let_def split: if_splits)
qed

lemma run_job_states:
  assumes "run_job env room job startup co w = (r, co', w')" "k \<noteq> room_key room"
  shows "co_data co' = co_data co"
    and "map_of (states_after r co') k = map_of (known_states co) k"
    and "r = Updated [] \<Longrightarrow> False"
proof -
  define co1 where "co1 = set_next_due (job_id job) (now_of env w + job_interval env w co room job False) co"
  define co2 where "co2 = co1\<lparr>co_last_read_started := Some (now_of env w), co_job_error := None,
                    co_job_link_failure := False, co_job_attempted := False\<rparr>"
  have co2: "both_states co2 = both_states co" by (simp add: co2_def co1_def)
  then have known: "known_states co2 = known_states co" by (simp add: known_states_def)
  obtain states co3 w1 where j: "read_one_job env (known_states co2) room (job_plan job) co2 w = (states, co3, w1)"
    by (cases rule: prod_cases3)
  note s3 = read_one_job_states [OF j]
  obtain keys co4 w2 where o: "(if co_job_link_failure co3 then (Inr {}, co3, w1)
      else read_optional_values_due env co3 w1) = (keys, co4, w2)" by (cases rule: prod_cases3)
  have s4: "both_states co4 = both_states co"
    using o s3(1) co2 read_optional_values_states [of env co3 w1 keys co4 w2] by (auto split: if_splits)
  note def = assms(1) [unfolded run_job_def Let_def co1_def [symmetric] co2_def [symmetric]
      known_states_def [symmetric] j prod.case o]
  have "co_data co' = co_data co \<and> map_of (states_after r co') k = map_of (known_states co) k \<and> r \<noteq> Updated []"
  proof (cases states)
    case (Inl e)
    then show ?thesis using def s3(1) co2 by (auto simp: states_after_def known_states_def)
  next
    case (Inr updated)
    have other: "map_of updated k = map_of (known_states co) k"
      using s3(2) [OF Inr assms(2)] by (simp add: known)
    show ?thesis
    proof (cases keys)
      case (Inl e)
      then show ?thesis using def Inr o s4 by (auto simp: states_after_def known_states_def)
    next
      case (Inr ks)
      then have "finish_tick env room job startup updated ks co4 w2 = (r, co', w')"
        using def \<open>states = Inr updated\<close> o by simp
      note f = finish_tick_states [OF this]
      then have "states_after r co' = updated \<or> co_data co \<noteq> [] \<and> states_after r co' = co_data co"
        using s4 by (auto simp: states_after_def known_states_def)
      then show ?thesis using f s4 other by (auto simp: known_states_def)
    qed
  qed
  then show "co_data co' = co_data co"
    "map_of (states_after r co') k = map_of (known_states co) k" "r = Updated [] \<Longrightarrow> False" by simp_all
qed

lemma update_states:
  assumes "update_data env co w = (r, co', w')" "jobs_configured co"
    and other: "k \<notin> selected_unit (now_of env w) co"
  shows "co_data co' = co_data co"
    and "map_of (states_after r co') k = map_of (known_states co) k"
    and "r = Updated [] \<Longrightarrow> co_data co = [] \<and> co_startup_states co' = []"
proof -
  define co0 where "co0 = co\<lparr>co_updated_rooms := None\<rparr>"
  obtain selected startup co1 where sel: "select_poll_job (now_of env w) co0 = (selected, startup, co1)"
    by (cases rule: prod_cases3)
  have co1: "both_states co1 = both_states co" "co_rooms co1 = co_rooms co"
    using select_keeps [OF sel] by (simp_all add: co0_def)
  have "co_data co' = co_data co \<and> map_of (states_after r co') k = map_of (known_states co) k
      \<and> (r = Updated [] \<longrightarrow> co_data co = [] \<and> co_startup_states co' = [])"
  proof (cases selected)
    case None
    then have idle: "idle_tick env co1 w = (r, co', w')" using assms(1) sel by (simp add: update_data_def co0_def)
    obtain rooms co2 w1 where o: "read_optional_values_due env co1 w = (rooms, co2, w1)"
      by (cases rule: prod_cases3)
    show ?thesis
      using idle co1 read_optional_values_states [OF o]
      by (auto simp: idle_tick_def o Let_def states_after_def known_states_def split: sum.splits if_splits)
  next
    case (Some job)
    have "job \<in> set (co_jobs co)" using select_in_jobs [of _ co0] sel Some by (auto simp: co0_def)
    then obtain room where room: "room_of co (job_room job) = Some room"
      using assms(2) by (auto simp: jobs_configured_def)
    then have "room_of co1 (job_room job) = Some room" using co1 by (simp add: room_of_def)
    then have run: "run_job env room job startup co1 w = (r, co', w')"
      using assms(1) sel Some by (simp add: update_data_def co0_def job_room_config_def)
    have "k \<noteq> room_key room"
      using other room_of_Some [OF room] sel Some by (simp add: selected_unit_def co0_def)
    from run_job_states [OF run this] co1 show ?thesis by (auto simp: known_states_def)
  qed
  then show "co_data co' = co_data co"
    "map_of (states_after r co') k = map_of (known_states co) k"
    "r = Updated [] \<Longrightarrow> co_data co = [] \<and> co_startup_states co' = []" by simp_all
qed

lemma refresh_states:
  assumes "refresh env co w = (co', w')" "jobs_configured co" "k \<notin> selected_unit (now_of env w) co"
    and ok: "\<And>states d b. fst (ce_refreshed env (Some states) (d, b)) = (states, True)"
    and fails: "\<And>d b. fst (ce_refreshed env None (d, b)) = (d, False)"
  shows "map_of (known_states co') k = map_of (known_states co) k"
proof -
  obtain r co1 w1 where u: "update_data env co w = (r, co1, w1)" by (cases rule: prod_cases3)
  note s = update_states [OF u assms(2,3)]
  have "both_states co' = (case r of Updated states \<Rightarrow> states | _ \<Rightarrow> co_data co1, co_startup_states co1)"
    using assms(1) ok fails
    by (cases r) (auto simp: refresh_def u Let_def split: prod.splits if_splits, (metis fst_conv prod.inject)+)
  then have "known_states co' = states_after r co1 \<or> r = Updated [] \<and> known_states co' = co_startup_states co1"
    by (cases r) (auto simp: known_states_def states_after_def)
  then show ?thesis using s by (auto simp: states_after_def)
qed

text \<open>The bookkeeping of the units a step may not touch; a readback may end a fan write's fallback.\<close>

lemma evolves_other_runtime:
  assumes "evolves env R L co co'" "k \<notin> R"
  shows "map_option (rt_level_fallback_update (\<lambda>_. None)) (map_of (co_runtimes co') k)
    = map_option (rt_level_fallback_update (\<lambda>_. None)) (map_of (co_runtimes co) k)"
  using assms(1)
proof (induction rule: rtranclp_induct)
  case (step y z)
  from step(2) have "map_option (rt_level_fallback_update (\<lambda>_. None)) (map_of (co_runtimes z) k)
    = map_option (rt_level_fallback_update (\<lambda>_. None)) (map_of (co_runtimes y) k)"
  proof (induction rule: change.induct)
    case (ChangeDisplay co' co)
    then show ?case by (simp add: core_eqD(2) [OF ChangeDisplay(1)])
  qed (use assms(2) in \<open>auto simp: update_conv set_next_due_def plan_fields\<close>)
  with step show ?case by simp
qed simp

lemma poll_states:
  assumes "poll env co w = (co', w')" "jobs_configured co" "k \<notin> selected_unit (now_of env w) co"
    and "\<And>states d b. fst (ce_refreshed env (Some states) (d, b)) = (states, True)"
    and "\<And>d b. fst (ce_refreshed env None (d, b)) = (d, False)"
  shows "map_of (known_states co') k = map_of (known_states co) k"
proof (cases "co_polling_stopped co \<or> ce_stopping env w")
  case False
  let ?co = "co\<lparr>co_poll_timer := None, co_poll_running := True\<rparr>"
  obtain co1 w1 where r: "refresh env ?co w = (co1, w1)" by fastforce
  have "map_of (known_states co1) k = map_of (known_states ?co) k"
    using assms(2,3) by (intro refresh_states [OF r _ _ assms(4,5)]) simp_all
  then show ?thesis using assms(1) False by (auto simp: poll_def r known_states_def)
qed (use assms(1) in \<open>simp add: poll_def\<close>)


definition deaf_house :: coordinator where
  "deaf_house = new_coordinator 0 [plain_room ''a'' 2, plain_room ''b'' 3] 1 None None []"

lemma deaf_house_run:
  "coordinator_run deaf_env [plain_room ''a'' 2, plain_room ''b'' 3] 0 [] (deaf_house, 0)"
  unfolding deaf_house_def by (rule RunStart)


end
