(* ===== verification/Coordinator_Commands.thy ===== *)
theory Coordinator_Commands
  imports Coordinator_Isolation
begin

text \<open>
  What a command leaves behind on each of its three ends: accepted, failed and cancelled.
\<close>

section \<open>Fields the parts of a command leave alone\<close>

text \<open>The value a write shows at once, as it stands in the overlay of its key.\<close>

fun shown_value :: "coordinator \<Rightarrow> string \<Rightarrow> write_key \<Rightarrow> write_value option" where
  "shown_value co key AirflowLevels = map_option (\<lambda>(s, e). WPair s e) (pending_value (co_levels co) key)"
| "shown_value co key PresetMode = map_option WStr (pending_value (co_presets co) key)"
| "shown_value co key Intensive = map_option WBool (pending_value (co_intensive co) key)"
| "shown_value co key _ = None"

lemma notify_if_fields [simp]:
  "co_data (notify_if b co) = co_data co" "co_startup_states (notify_if b co) = co_startup_states co"
  "co_runtimes (notify_if b co) = co_runtimes co" "co_writes (notify_if b co) = co_writes co"
  "co_levels (notify_if b co) = co_levels co" "co_presets (notify_if b co) = co_presets co"
  "co_intensive (notify_if b co) = co_intensive co"
  by (simp_all add: notify_if_def update_listeners_def)

lemma update_listeners_fields [simp]:
  "co_runtimes (update_listeners co) = co_runtimes co" "co_writes (update_listeners co) = co_writes co"
  "co_levels (update_listeners co) = co_levels co" "co_presets (update_listeners co) = co_presets co"
  "co_intensive (update_listeners co) = co_intensive co"
  by (simp_all add: update_listeners_def)

lemma clear_overlay_fields [simp]:
  "co_data (clear_overlay k room co) = co_data co"
  "co_startup_states (clear_overlay k room co) = co_startup_states co"
  "co_runtimes (clear_overlay k room co) = co_runtimes co"
  "co_writes (clear_overlay k room co) = co_writes co"
  by (cases k; simp split: prod.split)+

lemma show_overlay_fields [simp]:
  "co_data (show_overlay ck k room v co) = co_data co"
  "co_startup_states (show_overlay ck k room v co) = co_startup_states co"
  "co_runtimes (show_overlay ck k room v co) = co_runtimes co"
  "co_writes (show_overlay ck k room v co) = co_writes co"
  by (cases "(ck, k, room, v, co)" rule: show_overlay.cases; simp)+

lemma pending_cleared:
  "pending_value (fst (overlay_clear key ov)) key' = (if key' = key then None else pending_value ov key')"
  by (rule overlay_slots.slot_clear)

lemma pending_set:
  "pending_value (fst (overlay_set cfg ck s key v ov)) key' =
     (if key' = key then Some v else pending_value ov key')"
  by (rule overlay_slots.slot_fill)

lemma shown_after_clear:
  "shown_value (clear_overlay k room co) key k' =
     (if k' = k \<and> key = room_key room then None else shown_value co key k')"
proof -
  have "shown_value (clear_overlay k room co) key k' =
      (if k' = k \<and> key = room_key room \<and> k \<in> {AirflowLevels, PresetMode, Intensive} then None
       else shown_value co key k')"
  proof (cases k)
    case AirflowLevels
    obtain ov b where o: "overlay_clear (room_key room) (co_levels co) = (ov, b)" by fastforce
    show ?thesis using pending_cleared [of "room_key room" "co_levels co" key]
      by (cases k') (auto simp: AirflowLevels o)
  next
    case PresetMode
    obtain ov b where o: "overlay_clear (room_key room) (co_presets co) = (ov, b)" by fastforce
    show ?thesis using pending_cleared [of "room_key room" "co_presets co" key]
      by (cases k') (auto simp: PresetMode o)
  next
    case Intensive
    obtain ov b where o: "overlay_clear (room_key room) (co_intensive co) = (ov, b)" by fastforce
    show ?thesis using pending_cleared [of "room_key room" "co_intensive co" key]
      by (cases k') (auto simp: Intensive o)
  qed simp_all
  then show ?thesis by (cases k') auto
qed

lemma shown_after_clears:
  "shown_value (fold (\<lambda>k. clear_overlay k room) ks co) key k' =
     (if k' \<in> set ks \<and> key = room_key room then None else shown_value co key k')"
proof (induction ks arbitrary: co)
  case (Cons k ks)
  show ?case by (simp add: Cons.IH shown_after_clear)
qed simp

lemma clears_fields [simp]:
  "co_data (fold (\<lambda>k. clear_overlay k room) ks co) = co_data co"
  "co_startup_states (fold (\<lambda>k. clear_overlay k room) ks co) = co_startup_states co"
  "co_runtimes (fold (\<lambda>k. clear_overlay k room) ks co) = co_runtimes co"
  "co_writes (fold (\<lambda>k. clear_overlay k room) ks co) = co_writes co"
  by (induction ks arbitrary: co) simp_all

lemma clear_flow_fields [simp]:
  "co_data (clear_flow_overlays room co) = co_data co"
  "co_startup_states (clear_flow_overlays room co) = co_startup_states co"
  "co_runtimes (clear_flow_overlays room co) = co_runtimes co"
  "co_writes (clear_flow_overlays room co) = co_writes co"
  unfolding clear_flow_overlays_def by (rule clears_fields)+

lemma shown_after_clear_flow [simp]: "shown_value (clear_flow_overlays room co) (room_key room) k = None"
  unfolding clear_flow_overlays_def shown_after_clears by (cases k) simp_all

lemma shown_with_writes [simp]: "shown_value (with_writes t f co) key k = shown_value co key k"
  by (cases k) simp_all

lemma shown_listeners [simp]: "shown_value (update_listeners co) key k = shown_value co key k"
  by (cases k) simp_all

lemma shown_runtime [simp]: "shown_value (set_runtime room f co) key k = shown_value co key k"
  by (cases k) (simp_all add: set_runtime_def)

lemma runtime_fields [simp]:
  "co_writes (set_runtime room f co) = co_writes co" "co_levels (set_runtime room f co) = co_levels co"
  "co_presets (set_runtime room f co) = co_presets co" "co_intensive (set_runtime room f co) = co_intensive co"
  by (simp_all add: set_runtime_def)

lemma group_health_cong:
  "co_data co' = co_data co \<Longrightarrow> co_startup_states co' = co_startup_states co \<Longrightarrow>
     group_health co' room g = group_health co room g"
  by (simp add: group_health_def room_state_of_def cong: option.case_cong)

lemma runtime_of_cong: "co_runtimes co' = co_runtimes co \<Longrightarrow> runtime_of co' room = runtime_of co room"
  by (simp add: runtime_of_def)

section \<open>A cancelled write\<close>

lemma cancelled_write_fields:
  fixes co room k v base ck
  defines "co' \<equiv> cancelled_write ck room k v base co"
  shows "co_data co' = co_data co" "co_startup_states co' = co_startup_states co"
    and "confirmation_of (co_writes co') (room_key room) k =
      Some \<lparr>expected_value = v, started_at = utcnow ck, status = Unconfirmed, actual_value = None,
            write_error = Some ''Write was cancelled'', issue_counted = True, baseline = base\<rparr>"
    and "write_group k = ''flow_control'' \<Longrightarrow> rt_uncertain_flow (runtime_of co' room) =
      Some (base, group_health co room ''flow'')"
    and "write_group k = ''flow_control'' \<Longrightarrow> shown_value co' (room_key room) k' = None"
proof -
  define co1 where "co1 = (if write_group k = ''flow_control''
     then clear_flow_overlays room (set_runtime room
       (\<lambda>rt. rt\<lparr>rt_uncertain_flow := Some (base, group_health co room ''flow'')\<rparr>) co)
     else clear_overlay k room co)"
  have co': "co' = update_listeners (with_writes (monotonic ck)
      (\<lambda>wc. fst (mark_unconfirmed (room_key room) k ''Write was cancelled''
        (record_pending ck (room_key room) k v base (fst (supersede (room_key room) k wc))))) co1)"
    by (simp only: co'_def cancelled_write_def Let_def co1_def)
  show "co_data co' = co_data co" "co_startup_states co' = co_startup_states co"
    unfolding co' by (simp_all add: co1_def del: clear_overlay.simps)
  have "fst (mark_unconfirmed (room_key room) k e (record_pending ck (room_key room) k v base wc)) =
      fst (set_status (room_key room) k Unconfirmed (Some e) None (record_pending ck (room_key room) k v base wc))"
    for e wc by (simp add: mark_unconfirmed_def confirmation_of_record_pending)
  then show "confirmation_of (co_writes co') (room_key room) k =
      Some \<lparr>expected_value = v, started_at = utcnow ck, status = Unconfirmed, actual_value = None,
            write_error = Some ''Write was cancelled'', issue_counted = True, baseline = base\<rparr>"
    unfolding co' by (simp add: co1_def confirmation_of_set_status confirmation_of_record_pending const_simps del: clear_overlay.simps)
  assume flow: "write_group k = ''flow_control''"
  have "co_runtimes co' = co_runtimes (set_runtime room
      (\<lambda>rt. rt\<lparr>rt_uncertain_flow := Some (base, group_health co room ''flow'')\<rparr>) co)"
    unfolding co' using flow by (simp add: co1_def)
  from runtime_of_cong [OF this, of room]
  show "rt_uncertain_flow (runtime_of co' room) = Some (base, group_health co room ''flow'')" by simp
  show "shown_value co' (room_key room) k' = None"
    unfolding co' using flow
    by (simp add: co1_def del: shown_value.simps)
qed

lemma range_check_flow: "write_group k = ''flow_control'' \<Longrightarrow> range_check co room k v = Inr ()"
  by (cases k) (simp_all add: range_check_def)

lemma uncertain_until_read:
  assumes "rt_uncertain_flow (runtime_of co room) = Some (base, flow)"
    and "\<And>s. room_state_of co room = Some s \<Longrightarrow>
      read_health_for s ''flow_control'' = base \<and> read_health_for s ''flow'' = flow"
  shows "flow_write_uncertain ck room co = (True, co)"
    and "resolve_levels ck room co = (((None, None), None), co)"
    and "set_direction_level_locked env room dir level co w = (CommandFailed airflow_unknown, co, w)"
    and "set_operation_mode_locked env room mode co w = (CommandFailed airflow_unknown, co, w)"
proof -
  have blocked: "flow_write_uncertain ck room co = (True, co)" for ck
    using assms by (auto simp: flow_write_uncertain_def levels_reported_since_def read_since_def split: option.split)
  then show "flow_write_uncertain ck room co = (True, co)"
    "resolve_levels ck room co = (((None, None), None), co)"
    "set_direction_level_locked env room dir level co w = (CommandFailed airflow_unknown, co, w)"
    "set_operation_mode_locked env room mode co w = (CommandFailed airflow_unknown, co, w)"
    by (simp_all add: resolve_levels_def set_direction_level_locked_def set_operation_mode_locked_def)
qed

text \<open>
  C2. A cancelled airflow write leaves nothing trusted. When a write of the airflow group is cancelled,
  the command ends as cancelled without another request, its outcome is unconfirmed, no value is shown
  for the unit any more, and as long as no state that was read later is published, the unit's levels are
  unknown and commands that would build on them - one direction's level, an operating mode - are refused
  without a request.
\<close>

theorem cancelled_flow_write_blocks:
  assumes "write_group k = ''flow_control''"
    and "ce_write env command w = (CallCancelled, w1)"
    and "write_with_confirmation env room k v command read_back use_result co w = (result, co', w')"
    and "\<And>s. map_of states (room_key room) = Some s \<Longrightarrow>
      read_health_for s ''flow_control'' = group_health co room ''flow_control''
      \<and> read_health_for s ''flow'' = group_health co room ''flow''"
  shows "result = CommandCancelled \<and> w' = w1
    \<and> map_option status (confirmation_of (co_writes co') (room_key room) k) = Some Unconfirmed
    \<and> shown_value co' (room_key room) k' = None
    \<and> fst (resolve_levels ck room (co'\<lparr>co_data := states\<rparr>)) = ((None, None), None)
    \<and> set_direction_level_locked env room dir level (co'\<lparr>co_data := states\<rparr>) w2
        = (CommandFailed airflow_unknown, co'\<lparr>co_data := states\<rparr>, w2)
    \<and> set_operation_mode_locked env room mode (co'\<lparr>co_data := states\<rparr>) w2
        = (CommandFailed airflow_unknown, co'\<lparr>co_data := states\<rparr>, w2)"
proof -
  have co': "co' = cancelled_write (ce_clocks env w1) room k v (group_health co room ''flow_control'') co"
    "result = CommandCancelled" "w' = w1"
    using assms(3) by (auto simp: write_with_confirmation_def range_check_flow [OF assms(1)] assms(1,2) Let_def)
  note c = cancelled_write_fields [where co = co and room = room and k = k and v = v
      and base = "group_health co room ''flow_control''" and ck = "ce_clocks env w1", folded co'(1)]
  let ?co = "co'\<lparr>co_data := states\<rparr>"
  have u: "rt_uncertain_flow (runtime_of ?co room) =
      Some (group_health co room ''flow_control'', group_health co room ''flow'')"
    using c(4) [OF assms(1)] by (simp add: runtime_of_def)
  have fresh: "room_state_of ?co room = Some s \<Longrightarrow> read_health_for s ''flow_control'' = group_health co room ''flow_control''
      \<and> read_health_for s ''flow'' = group_health co room ''flow''" for s
    using assms(4) by (simp add: room_state_of_def)
  show ?thesis
    using co'(2,3) c(3) c(5) [OF assms(1)]
    by (simp add: uncertain_until_read(2-4) [OF u fresh])
qed

definition cut_env :: "real client_env" where
  "cut_env = deaf_env\<lparr>ce_write := (\<lambda>_ w. (CallCancelled, w))\<rparr>"

lemma cancelled_flow_write_blocks_witness:
  "\<exists>co. write_with_confirmation cut_env (plain_room ''a'' 2) AirflowLevels (WPair 30 30)
      (WriteLevel (plain_room ''a'' 2) 30) False False deaf_start 0 = (CommandCancelled, co, 0)
    \<and> fst (set_operation_mode_locked cut_env (plain_room ''a'' 2) ''manual'' (co\<lparr>co_data := []\<rparr>) 5)
        = CommandFailed airflow_unknown"
proof -
  let ?room = "plain_room ''a'' 2"
  have cut: "ce_write cut_env command w = (CallCancelled, w)" for command w by (simp add: cut_env_def)
  obtain result co' w' where r: "write_with_confirmation cut_env ?room AirflowLevels (WPair 30 30)
      (WriteLevel ?room 30) False False deaf_start 0 = (result, co', w')" by (cases rule: prod_cases3)
  from cancelled_flow_write_blocks [OF _ cut r, of "[]"] show ?thesis using r by auto
qed

section \<open>What a readback cannot change\<close>

text \<open>
  The contract of a fact about writes and overlays that survives readbacks: it depends on nothing else,
  and judging pending writes and settling overlays keep it.
\<close>

locale readback_stable =
  fixes P :: "coordinator \<Rightarrow> bool"
  assumes writes_and_overlays: "P co \<Longrightarrow> co_writes co' = co_writes co \<Longrightarrow> co_levels co' = co_levels co \<Longrightarrow>
      co_presets co' = co_presets co \<Longrightarrow> co_intensive co' = co_intensive co \<Longrightarrow> P co'"
    and judge: "P co \<Longrightarrow> P (with_writes t (\<lambda>wc. fst (confirm ck states wc)) co)"
    and prepare: "P co \<Longrightarrow> P (with_writes t (\<lambda>wc. fst (prepare_balanced_target_readback ck key s previous wc)) co)"
    and settle_levels: "P co \<Longrightarrow> P (co\<lparr>co_levels := fst (settle_if_read LEVELS_OVERLAY ck key st c1 (co_levels co))\<rparr>)"
    and settle_presets: "P co \<Longrightarrow> P (co\<lparr>co_presets := fst (settle_if_read PRESET_OVERLAY ck key st c2 (co_presets co))\<rparr>)"
    and settle_intensive: "P co \<Longrightarrow> P (co\<lparr>co_intensive := fst (settle_if_read INTENSIVE_OVERLAY ck key st c3 (co_intensive co))\<rparr>)"
begin

lemma display: "P co \<Longrightarrow> P (update_listeners co)" "P co \<Longrightarrow> P (limit_next_update_to keys co)"
  "P co \<Longrightarrow> P (set_runtime room f co)" "P co \<Longrightarrow> P (fst (wait_for_room_read env co w))"
  "P co \<Longrightarrow> P (co\<lparr>co_data := d\<rparr>)" "P co \<Longrightarrow> P (co\<lparr>co_data := d, co_last_update_success := b\<rparr>)"
  "P co \<Longrightarrow> P (co\<lparr>co_runtimes := rs\<rparr>)"
  by (erule writes_and_overlays;
      simp add: limit_next_update_to_def wait_for_room_read_def Let_def)+

lemma settle_room_keeps:
  assumes "P (fst acc)" shows "P (fst (settle_room ck entry acc))"
proof -
  obtain key state where e: "entry = (key, state)" by fastforce
  obtain co changed where a: "acc = (co, changed)" by fastforce
  let ?l = "fst (settle_if_read LEVELS_OVERLAY ck key (Some state) (fst (reported_levels ck state)) (co_levels co))"
  let ?p = "fst (settle_if_read PRESET_OVERLAY ck key (Some state) (preset_mode state) (co_presets co))"
  let ?i = "fst (settle_if_read INTENSIVE_OVERLAY ck key (Some state) (intensive_active state) (co_intensive co))"
  let ?co = "co\<lparr>co_levels := ?l, co_presets := ?p, co_intensive := ?i\<rparr>"
  have "P ?co"
    using assms settle_intensive [OF settle_presets [OF settle_levels, of co]] by (simp add: a)
  moreover have "fst (settle_room ck entry acc) = ?co \<or>
      (\<exists>rs. fst (settle_room ck entry acc) = ?co\<lparr>co_runtimes := rs\<rparr>)"
    by (auto simp: settle_room_def e a Let_def split: prod.splits option.splits)
  ultimately show ?thesis using display(7) by metis
qed

lemma settle_rooms_keeps: "P (fst acc) \<Longrightarrow> P (fst (fold (settle_room ck) states acc))"
  by (induction states arbitrary: acc) (simp_all add: settle_room_keeps)

lemma confirm_keeps: "P co \<Longrightarrow> P (confirm_pending_writes ck states notify rooms co)"
proof -
  let ?co = "with_writes (monotonic ck) (\<lambda>wc. fst (confirm ck states wc)) co"
  assume "P co"
  then have "P (fst (fold (settle_room ck) states (?co, snd (confirm ck states (co_writes co)))))"
    using judge by (intro settle_rooms_keeps) simp
  then show ?thesis
    by (auto simp: confirm_pending_writes_def intro!: display(1,2) split: prod.splits option.split)
qed

lemma balanced_target_keeps:
  assumes "read_balanced_target_if_pending env room s previous co w = (r, co', w')" "P co"
  shows "P co'"
proof -
  obtain wc s1 b where p: "prepare_balanced_target_readback (ce_clocks env w) (room_key room) s previous
      (co_writes co) = (wc, s1, b)" by (cases rule: prod_cases3)
  let ?co = "with_writes (now_of env w) (\<lambda>_. wc) co"
  obtain co2 w1 where wait: "wait_for_room_read env ?co w = (co2, w1)" by fastforce
  have "?co = with_writes (now_of env w)
      (\<lambda>wc. fst (prepare_balanced_target_readback (ce_clocks env w) (room_key room) s previous wc)) co"
    using p by (intro with_writes_cong) simp
  then have "P ?co" using prepare [OF assms(2)] by simp
  moreover from this have "P co2" using display(4) [of ?co env w] by (simp add: wait)
  ultimately show ?thesis
    using assms(1)
    by (simp add: read_balanced_target_if_pending_def p)
      (auto simp: Let_def wait intro: display split: if_splits prod.splits call_reply.splits)
qed

lemma finish_refresh_keeps: "P co \<Longrightarrow> P (finish_refresh env w room previous refreshed b co)"
  unfolding finish_refresh_def publish_def Let_def
  by (auto intro!: display confirm_keeps split: prod.split)

lemma refresh_room_keeps:
  assumes "refresh_room_after_write env room plan co w = (r, co', w')" "P co"
  shows "P co'"
proof -
  obtain co1 w1 where wait: "wait_for_room_read env co w = (co1, w1)" by fastforce
  define previous where "previous = state_or_empty (co_data co1) room"
  obtain a w2 where rep: "ce_read_room env room previous plan w1 = (a, w2)" by fastforce
  have p1: "P co1" using display(4) [OF assms(2), of env w] by (simp add: wait)
  note def = assms(1) [unfolded refresh_room_after_write_def wait prod.case Let_def previous_def [symmetric] rep]
  show ?thesis
  proof (cases a)
    case (Replied rr)
    obtain s co2 w3 where t: "(if refresh_airflow plan
        then read_balanced_target_if_pending env room (rr_state rr) previous co1 w2
        else (Inr (rr_state rr), co1, w2)) = (s, co2, w3)" by (cases rule: prod_cases3)
    then have "P co2" using balanced_target_keeps [OF _ p1] p1 by (auto split: if_splits)
    then show ?thesis using def by (auto simp: Replied t intro: finish_refresh_keeps split: sum.splits)
  qed (use def p1 in \<open>auto intro: finish_refresh_keeps\<close>)
qed

end

text \<open>A failed outcome is final, and an empty overlay stays empty.\<close>

definition outcome_failed :: "string \<Rightarrow> write_key \<Rightarrow> write_confirmation \<Rightarrow> coordinator \<Rightarrow> bool" where
  "outcome_failed key k c co \<longleftrightarrow>
     confirmation_of (co_writes co) key k = Some c \<and> status c = WriteFailed
     \<and> (key, k, WriteFailed) \<in> set (issues (co_writes co))"

definition shows_nothing :: "string \<Rightarrow> write_key \<Rightarrow> coordinator \<Rightarrow> bool" where
  "shows_nothing key k co \<longleftrightarrow> shown_value co key k = None"

lemma settle_keeps_empty:
  "pending_value ov key = None \<Longrightarrow> pending_value (fst (settle_if_read cfg ck key' st c ov)) key = None"
  using pending_step [of ov key None cfg "OverlaySettleIfRead ck key' st c"]
  by (auto simp: pending_value_def)

interpretation failed_outcome: readback_stable "outcome_failed key k c" for key k c
proof unfold_locales
  fix co t ck states
  assume P: "outcome_failed key k c co"
  have "fst (confirm_entry ck state k c) = c" if "status c = WriteFailed" for state
    using that checked_final [of c state k] by (simp add: confirm_entry_def const_simps)
  moreover have kept: "set (issues wc) \<subseteq> set (issues (fst (confirm ck states wc)))" for wc
    by (auto simp: confirm_def)
  ultimately show "outcome_failed key k c (with_writes t (\<lambda>wc. fst (confirm ck states wc)) co)"
    using P kept [of "co_writes co"] by (auto simp: outcome_failed_def confirmation_of_confirm split: option.split)
next
  fix co t ck key' s previous
  assume "outcome_failed key k c co"
  moreover obtain wc s' b where p: "prepare_balanced_target_readback ck key' s previous (co_writes co) = (wc, s', b)"
    by (cases rule: prod_cases3)
  ultimately show "outcome_failed key k c
      (with_writes t (\<lambda>wc. fst (prepare_balanced_target_readback ck key' s previous wc)) co)"
    by (simp add: outcome_failed_def confirmation_of_cong [OF prepare_frame(1) [OF p]] prepare_frame(2) [OF p])
qed (simp_all add: outcome_failed_def)

interpretation empty_overlay: readback_stable "shows_nothing key k" for key k
  by unfold_locales (cases k; simp add: shows_nothing_def settle_keeps_empty)+

section \<open>A failed write\<close>



section \<open>An accepted write\<close>

lemma accepted_levels:
  fixes co room s e v base ck
  defines "co' \<equiv> accepted_write ck room AirflowLevels (WPair s e) v base co"
  shows "co_data co' = co_data co" "co_runtimes co' = co_runtimes co"
    and "confirmation_of (co_writes co') (room_key room) AirflowLevels =
      Some \<lparr>expected_value = v, started_at = utcnow ck, status = Pending, actual_value = None,
            write_error = None, issue_counted = False, baseline = base\<rparr>"
    and "k' \<in> {OperationMode, PresetMode} \<Longrightarrow>
      confirmation_of (co_writes co') (room_key room) k' = Some c \<Longrightarrow> status c \<in> set FINAL_STATUSES"
    and "co_levels co' = fst (overlay_set LEVELS_OVERLAY ck (room_state_of co room) (room_key room) (s, e)
      (co_levels (fold (\<lambda>k. clear_overlay k room)
        (snd (supersede (room_key room) AirflowLevels (co_writes co))) co)))"
    and "shown_value co (room_key room) k' = None \<Longrightarrow> k' \<noteq> AirflowLevels \<Longrightarrow> shown_value co' (room_key room) k' = None"
proof -
  let ?ks = "snd (supersede (room_key room) AirflowLevels (co_writes co))"
  define co1 where "co1 = with_writes (monotonic ck)
    (\<lambda>wc. record_pending ck (room_key room) AirflowLevels v base
      (fst (supersede (room_key room) AirflowLevels wc))) co"
  have co': "co' = show_overlay ck AirflowLevels room (WPair s e) (fold (\<lambda>k. clear_overlay k room) ?ks co1)"
    by (simp add: co'_def accepted_write_def Let_def co1_def)
  show "co_data co' = co_data co" "co_runtimes co' = co_runtimes co"
    unfolding co' by (simp_all add: co1_def)
  show "confirmation_of (co_writes co') (room_key room) AirflowLevels =
      Some \<lparr>expected_value = v, started_at = utcnow ck, status = Pending, actual_value = None,
            write_error = None, issue_counted = False, baseline = base\<rparr>"
    unfolding co' by (simp add: co1_def confirmation_of_record_pending)
  have "k' \<in> {OperationMode, PresetMode} \<Longrightarrow> confirmation_of (co_writes co') (room_key room) k' =
      map_option (\<lambda>c. if supersedes AirflowLevels k' c then c\<lparr>status := Superseded\<rparr> else c)
        (confirmation_of (co_writes co) (room_key room) k')"
    unfolding co'
    by (auto simp: co1_def confirmation_of_record_pending confirmation_of_supersede const_simps)
  then show "k' \<in> {OperationMode, PresetMode} \<Longrightarrow>
      confirmation_of (co_writes co') (room_key room) k' = Some c \<Longrightarrow> status c \<in> set FINAL_STATUSES"
    by (cases "confirmation_of (co_writes co) (room_key room) k'")
      (auto simp: supersedes_def const_simps split: if_splits)
  have levels: "co_levels (fold (\<lambda>k. clear_overlay k room) ks co1)
      = co_levels (fold (\<lambda>k. clear_overlay k room) ks co)" for ks
  proof -
    have same: "co_levels c = co_levels d \<Longrightarrow> co_levels (fold (\<lambda>k. clear_overlay k room) ks c)
        = co_levels (fold (\<lambda>k. clear_overlay k room) ks d)" for c d
    proof (induction ks arbitrary: c d)
      case (Cons k ks)
      have "co_levels (clear_overlay k room c) = co_levels (clear_overlay k room d)"
        using Cons.prems by (cases k) (simp_all split: prod.split)
      from Cons.IH [OF this] show ?case by simp
    qed simp
    show ?thesis by (rule same) (simp add: co1_def)
  qed
  have state: "room_state_of (fold (\<lambda>k. clear_overlay k room) ks co1) room = room_state_of co room" for ks
    by (simp add: room_state_of_def co1_def)
  have set: "co_levels (show_overlay ck AirflowLevels room (WPair s e) d)
      = fst (overlay_set LEVELS_OVERLAY ck (room_state_of d room) (room_key room) (s, e) (co_levels d))" for d
    by simp
  show "co_levels co' = fst (overlay_set LEVELS_OVERLAY ck (room_state_of co room) (room_key room) (s, e)
      (co_levels (fold (\<lambda>k. clear_overlay k room) ?ks co)))"
    unfolding co' set state levels ..
  have "shown_value (show_overlay ck AirflowLevels room (WPair s e) d) key k' = shown_value d key k'"
    if "k' \<noteq> AirflowLevels" for d key
    using that by (cases k') simp_all
  then show "shown_value co (room_key room) k' = None \<Longrightarrow> k' \<noteq> AirflowLevels \<Longrightarrow> shown_value co' (room_key room) k' = None"
    unfolding co' by (simp add: shown_after_clears co1_def del: shown_value.simps show_overlay.simps clear_overlay.simps)
qed

lemma overlay_active_fresh:
  assumes "monotonic ck' < monotonic ck + ttl_seconds cfg" "st = None \<Longrightarrow> c = None"
  shows "overlay_active cfg ck' room st c (fst (overlay_set cfg ck st room v ov)) = Some v"
proof (cases st)
  case None
  then show ?thesis
    using assms
    by (simp add: overlay_active_def read_since_set_def overlay_get_def overlay_defs Let_def update_conv)
next
  case (Some s)
  then show ?thesis using overlay_active_after_set [OF assms(1)] by simp
qed

lemma overlay_active_nothing: "pending_value ov room = None \<Longrightarrow> overlay_active cfg ck room st c ov = None"
  by (simp add: overlay_active_def overlay_get_def pending_value_def split: option.split)


definition obedient_env :: "real client_env" where
  "obedient_env = deaf_env\<lparr>ce_write := (\<lambda>_ w. (Replied None, w + 1))\<rparr>"


end
