(* ===== verification/Units.thy ===== *)
theory Units
  imports Repair_Issues Modbus_Helpers
begin

text \<open>
  \<open>units.py\<close> and \<open>identifiers.py\<close>: the units of a gateway as they are stored in config subentries, the
  configuration built from them, and the identifiers of devices and entities.
\<close>

section \<open>Dictionaries built from pairs\<close>

lemma map_of_dict_of: "map_of (dict_of ps) k = map_of (rev ps) k"
proof -
  have "map_of (fold (\<lambda>(k, v) d. AList.update k v d) ps d) k = (case map_of (rev ps) k of None \<Rightarrow> map_of d k | v \<Rightarrow> v)" for d
    by (induction ps arbitrary: d) (auto simp: update_conv map_add_def split: option.splits)
  then show ?thesis by (simp add: dict_of_def split: option.splits)
qed

lemma map_of_dict_of_in: "map_of (dict_of ps) k = Some v \<Longrightarrow> (k, v) \<in> set ps"
  by (metis map_of_dict_of map_of_SomeD set_rev)

section \<open>Stored values\<close>

text \<open>
  What the flows store for a unit: strings, integers, booleans and \<open>None\<close>. A stored unit is a
  dictionary of them.
\<close>

datatype cell = CNone | CStr string | CInt int | CBool bool

type_synonym stored_room = "(string, cell) dict"

definition cell_of :: "stored_room \<Rightarrow> string \<Rightarrow> cell" where
  "cell_of room key = dict_get room key CNone"

lemma cell_of_update [simp]:
  "cell_of (AList.update k v room) k' = (if k' = k then v else cell_of room k')"
  by (simp add: cell_of_def)

text \<open>\<open>str(x)\<close> and \<open>int(x)\<close>; \<open>int\<close> of a text allows blanks around it, a sign, and single underscores.\<close>

definition int_text :: "int \<Rightarrow> string" where
  "int_text n = (if n < 0 then CHR ''-'' # decimal (nat (- n)) else decimal (nat n))"

lemma decimal_inject [simp]: "decimal m = decimal n \<longleftrightarrow> m = n"
  by (metis number_of_decimal)

lemma int_text_inject [simp]: "int_text m = int_text n \<longleftrightarrow> m = n"
proof -
  have "decimal k \<noteq> CHR ''-'' # s" for k s
    using decimal_digits [of k] by (auto simp: isdigit_def)
  then show ?thesis by (auto simp: int_text_def split: if_splits) metis+
qed

fun py_str :: "cell \<Rightarrow> string" where
  "py_str CNone = ''None''"
| "py_str (CStr s) = s"
| "py_str (CInt n) = int_text n"
| "py_str (CBool b) = (if b then ''True'' else ''False'')"

definition py_space :: "char \<Rightarrow> bool" where
  "py_space c \<longleftrightarrow> (of_char c :: nat) \<in> {9, 10, 11, 12, 13, 28, 29, 30, 31, 32, 133, 160}"

definition py_strip :: "string \<Rightarrow> string" where
  "py_strip s = rev (dropWhile py_space (rev (dropWhile py_space s)))"

fun digit_groups :: "string \<Rightarrow> bool" where
  "digit_groups [] \<longleftrightarrow> False"
| "digit_groups [c] \<longleftrightarrow> isdigit c"
| "digit_groups (c # d # s) \<longleftrightarrow>
     isdigit c \<and> (if d = CHR ''_'' then digit_groups s else digit_groups (d # s))"

definition parse_int :: "string \<Rightarrow> int option" where
  "parse_int text =
     (let s = py_strip text;
          negative = (s \<noteq> [] \<and> hd s = CHR ''-'');
          digits = (if s \<noteq> [] \<and> hd s \<in> {CHR ''-'', CHR ''+''} then tl s else s);
          n = int (number_of (filter isdigit digits))
      in if digit_groups digits then Some (if negative then - n else n) else None)"

lemma digits_not_space: "isdigit c \<Longrightarrow> \<not> py_space c"
  by (auto simp: isdigit_def py_space_def)

lemma all_digits_kept:
  assumes "s \<noteq> []" "list_all isdigit s"
  shows "py_strip s = s" "digit_groups s" "filter isdigit s = s" "hd s \<notin> {CHR ''-'', CHR ''+''}"
proof -
  show "filter isdigit s = s" using assms(2) by (simp add: filter_id_conv list_all_iff)
  have "dropWhile py_space t = t" if "set t \<subseteq> set s" for t
    using that assms(2) digits_not_space by (cases t) (auto simp: list_all_iff)
  then show "py_strip s = s" by (simp add: py_strip_def)
  show "hd s \<notin> {CHR ''-'', CHR ''+''}" using assms by (cases s) (auto simp: isdigit_def)
  show "digit_groups s" using assms
  proof (induction s rule: digit_groups.induct)
    case (3 c d s)
    then have "d \<noteq> CHR ''_''" by (auto simp: isdigit_def)
    with 3 show ?case by simp
  qed simp_all
qed

lemma parse_decimal: "parse_int (decimal n) = Some (int n)"
proof -
  have "decimal n \<noteq> []" "list_all isdigit (decimal n)" using decimal_digits [of n] by simp_all
  note this all_digits_kept [OF this]
  then show ?thesis by (simp add: parse_int_def Let_def number_of_decimal)
qed

lemma parse_int_text: "parse_int (int_text n) = Some n"
proof (cases "n < 0")
  case True
  let ?ds = "decimal (nat (- n))"
  have ds: "?ds \<noteq> []" "list_all isdigit ?ds" using decimal_digits [of "nat (- n)"] by simp_all
  note kept = all_digits_kept [OF ds]
  have "\<not> py_space (last ?ds)" using ds digits_not_space by (simp add: list_all_iff)
  then have "dropWhile py_space (rev (CHR ''-'' # ?ds)) = rev (CHR ''-'' # ?ds)"
    using ds(1) by (cases ?ds rule: rev_cases) auto
  moreover have "\<not> py_space (CHR ''-'')" by (simp add: py_space_def)
  ultimately have "py_strip (CHR ''-'' # ?ds) = CHR ''-'' # ?ds" by (simp only: py_strip_def) simp
  then show ?thesis using True kept by (simp add: parse_int_def int_text_def Let_def number_of_decimal)
next
  case False
  then show ?thesis by (simp add: int_text_def parse_decimal)
qed

fun py_int :: "cell \<Rightarrow> meltem_error + int" where
  "py_int CNone = Inl (ValueError ''int() argument must be a string or a number, not None'')"
| "py_int (CStr s) = (case parse_int s of
     None \<Rightarrow> Inl (ValueError ''invalid literal for int()'') | Some n \<Rightarrow> Inr n)"
| "py_int (CInt n) = Inr n"
| "py_int (CBool b) = Inr (of_bool b)"

text \<open>\<open>room[key]\<close>.\<close>

definition item :: "stored_room \<Rightarrow> string \<Rightarrow> meltem_error + cell" where
  "item room key = (case map_of room key of None \<Rightarrow> Inl (KeyError key) | Some v \<Rightarrow> Inr v)"

text \<open>One step after another, the first error ending the computation.\<close>

fun and_then :: "'e + 'a \<Rightarrow> ('a \<Rightarrow> 'e + 'b) \<Rightarrow> 'e + 'b" where
  "and_then (Inl e) f = Inl e"
| "and_then (Inr a) f = f a"

lemma and_then_Inr: "and_then r f = Inr b \<longleftrightarrow> (\<exists>a. r = Inr a \<and> f a = Inr b)"
  by (cases r) auto

fun all_right :: "('e + 'a) list \<Rightarrow> 'e + 'a list" where
  "all_right [] = Inr []"
| "all_right (r # rs) = and_then r (\<lambda>a. and_then (all_right rs) (\<lambda>as. Inr (a # as)))"

section \<open>Subentries\<close>

definition UNIT_DATA_KEYS :: "string list" where [const_simps]:
  "UNIT_DATA_KEYS =
     [''key'', ''slave'', ''profile'', ''preview'', ''product_id'', ''app_setup_code'',
      ''name_is_device_name'']"

definition unit_data :: "stored_room \<Rightarrow> stored_room" where
  "unit_data room =
     map (\<lambda>key. (key, cell_of room key)) (filter (\<lambda>key. cell_of room key \<noteq> CNone) UNIT_DATA_KEYS)"

record unit_subentry =
  sub_id :: string
  sub_title :: string
  sub_unique_id :: "string option"
  sub_data :: stored_room

record subentry_data =
  new_data :: stored_room
  new_title :: string
  new_unique_id :: "string option"

definition unit_subentry_data :: "stored_room \<Rightarrow> meltem_error + subentry_data" where
  "unit_subentry_data room =
     and_then (item room ''name'') (\<lambda>name. and_then (item room ''slave'') (\<lambda>slave.
       Inr \<lparr>new_data = unit_data room, new_title = py_str name, new_unique_id = Some (py_str slave)\<rparr>))"

definition subentry_slave :: "unit_subentry \<Rightarrow> meltem_error + int" where
  "subentry_slave s = and_then (item (sub_data s) ''slave'') py_int"

text \<open>\<open>sorted\<close> computes every key first, so one unreadable address raises.\<close>

definition unit_subentries :: "unit_subentry list \<Rightarrow> meltem_error + unit_subentry list" where
  "unit_subentries subentries =
     and_then (all_right (map subentry_slave subentries))
       (\<lambda>slaves. Inr (map snd (sort_key fst (zip slaves subentries))))"

definition unit_rooms :: "unit_subentry list \<Rightarrow> meltem_error + (int, stored_room) dict" where
  "unit_rooms subentries =
     and_then (unit_subentries subentries) (\<lambda>units.
       and_then (all_right (map subentry_slave units)) (\<lambda>slaves.
         Inr (dict_of (zip slaves
           (map (\<lambda>s. AList.update ''name'' (CStr (sub_title s)) (sub_data s)) units)))))"

definition optional_cell :: "stored_room \<Rightarrow> string \<Rightarrow> (cell \<Rightarrow> meltem_error + 'a) \<Rightarrow> meltem_error + 'a option" where
  "optional_cell room key f =
     (if cell_of room key = CNone then Inr None
      else and_then (f (cell_of room key)) (\<lambda>v. Inr (Some v)))"

text \<open>
  \<open>room_config\<close> of a subentry. The preview is passed on as it is stored, a text or \<open>None\<close>.
\<close>

definition room_config_of :: "unit_subentry \<Rightarrow> meltem_error + room_config" where
  "room_config_of s =
     and_then (item (sub_data s) ''profile'') (\<lambda>profile.
     and_then (item (sub_data s) ''key'') (\<lambda>key.
     and_then (subentry_slave s) (\<lambda>slave.
     and_then (optional_cell (sub_data s) ''product_id'' py_int) (\<lambda>product.
       Inr \<lparr>room_key = py_str key, room_name = sub_title s, room_profile = py_str profile,
          room_slave = slave,
          room_preview = (case cell_of (sub_data s) ''preview'' of CStr t \<Rightarrow> Some t | _ \<Rightarrow> None),
          supported_entity_keys = Some (set (supported_entity_keys_for_profile (py_str profile))),
          room_product_id = product,
          room_app_setup_code = (if cell_of (sub_data s) ''app_setup_code'' = CNone then None
            else Some (py_str (cell_of (sub_data s) ''app_setup_code''))),
          subentry_id = Some (sub_id s),
          name_is_device_name = (cell_of (sub_data s) ''name_is_device_name'' = CBool True)\<rparr>))))"

section \<open>Identifiers\<close>

definition DOMAIN :: string where [simp]: "DOMAIN = ''meltem_ventilation''"

definition APP_SETUP_CODE_IDENTIFIER_PREFIX :: string where [simp]:
  "APP_SETUP_CODE_IDENTIFIER_PREFIX = ''app_setup_code:''"

type_synonym device_identifier = "string \<times> string"

definition gateway_identifiers :: "string \<Rightarrow> device_identifier set" where
  "gateway_identifiers entry_id = {(DOMAIN, entry_id)}"

definition room_identifiers :: "room_config \<Rightarrow> device_identifier set" where
  "room_identifiers room =
     insert (DOMAIN, room_key room)
       (case room_app_setup_code room of
          None \<Rightarrow> {} | Some code \<Rightarrow> {(DOMAIN, APP_SETUP_CODE_IDENTIFIER_PREFIX @ code)})"

definition gateway_entity_unique_id :: "string \<Rightarrow> string \<Rightarrow> string" where
  "gateway_entity_unique_id entry_id entity_key = DOMAIN @ ''_'' @ entry_id @ ''_'' @ entity_key"

definition room_entity_unique_id :: "string \<Rightarrow> string \<Rightarrow> string \<Rightarrow> string" where
  "room_entity_unique_id entry_id key entity_key =
     DOMAIN @ ''_'' @ entry_id @ ''_'' @ key @ ''_'' @ entity_key"

definition legacy_room_entity_unique_id :: "string \<Rightarrow> string \<Rightarrow> string" where
  "legacy_room_entity_unique_id key entity_key = DOMAIN @ ''_'' @ key @ ''_'' @ entity_key"


section \<open>Reading stored units back\<close>

lemma map_of_graph: "map_of (map (\<lambda>k. (k, f k)) ks) k = (if k \<in> set ks then Some (f k) else None)"
  by (induction ks) auto

lemma map_of_unit_data:
  "map_of (unit_data room) k =
     (if k \<in> set UNIT_DATA_KEYS \<and> cell_of room k \<noteq> CNone then Some (cell_of room k) else None)"
  by (simp add: unit_data_def map_of_graph)

lemma cell_of_unit_data:
  "cell_of (unit_data room) k = (if k \<in> set UNIT_DATA_KEYS then cell_of room k else CNone)"
  by (auto simp: cell_of_def [of "unit_data room"] dict_get_def map_of_unit_data)

lemma item_cell:
  "cell_of room k \<noteq> CNone \<Longrightarrow> item room k = Inr (cell_of room k)"
  by (auto simp: cell_of_def dict_get_def item_def split: option.splits)

lemma item_unit_data:
  "k \<in> set UNIT_DATA_KEYS \<Longrightarrow> cell_of room k \<noteq> CNone \<Longrightarrow> item (unit_data room) k = item room k"
  by (simp add: item_cell cell_of_unit_data)

lemma unit_data_keys:
  "{''key'', ''slave'', ''profile'', ''preview'', ''product_id'', ''app_setup_code'', ''name_is_device_name''}
     = set UNIT_DATA_KEYS"
  by (auto simp: UNIT_DATA_KEYS_def)

lemma unit_data_unnamed [simp]: "''name'' \<notin> set UNIT_DATA_KEYS"
  by (simp add: UNIT_DATA_KEYS_def)

lemma unit_data_cong:
  "(\<And>k. k \<in> set UNIT_DATA_KEYS \<Longrightarrow> cell_of room k = cell_of room' k) \<Longrightarrow> unit_data room = unit_data room'"
  unfolding unit_data_def by (rule map_cong, rule filter_cong) auto

definition unit_facts_known :: "stored_room \<Rightarrow> bool" where
  "unit_facts_known room \<longleftrightarrow> list_all (\<lambda>k. cell_of room k \<noteq> CNone) [''name'', ''key'', ''slave'', ''profile'']"

lemma subentry_data_known:
  "unit_facts_known room \<Longrightarrow> unit_subentry_data room =
     Inr \<lparr>new_data = unit_data room, new_title = py_str (cell_of room ''name''),
        new_unique_id = Some (py_str (cell_of room ''slave''))\<rparr>"
  by (simp add: unit_facts_known_def unit_subentry_data_def item_cell)

text \<open>
  C28. A unit is stored without loss: what is kept in its subentry gives the same configuration as the
  facts it was made from (title and ID are the subentry's), and storing the loaded unit once more gives
  the same subentry, so that a rescan which changes nothing rewrites nothing.
\<close>

theorem stored_unit_round_trip:
  assumes known: "unit_facts_known room" and stored: "unit_subentry_data room = Inr d"
    and s: "sub_data s = new_data d" "sub_title s = new_title d"
  shows "room_config_of s = room_config_of (s\<lparr>sub_data := room\<rparr>)
    \<and> unit_subentry_data (AList.update ''name'' (CStr (sub_title s)) (sub_data s)) = Inr d"
proof
  have d: "d = \<lparr>new_data = unit_data room, new_title = py_str (cell_of room ''name''),
      new_unique_id = Some (py_str (cell_of room ''slave''))\<rparr>"
    using stored by (simp add: subentry_data_known [OF known])
  have data: "sub_data s = unit_data room" using s d by simp
  note facts = known [unfolded unit_facts_known_def]
  have items: "item (unit_data room) k = item room k" if "k \<in> {''key'', ''slave'', ''profile''}" for k
    using that facts by (intro item_unit_data) (auto simp: UNIT_DATA_KEYS_def)
  have cells: "cell_of (unit_data room) k = cell_of room k"
    if "k \<in> {''preview'', ''product_id'', ''app_setup_code'', ''name_is_device_name''}" for k
    using that by (auto simp: cell_of_unit_data UNIT_DATA_KEYS_def)
  show "room_config_of s = room_config_of (s\<lparr>sub_data := room\<rparr>)"
    by (simp add: room_config_of_def subentry_slave_def optional_cell_def data items cells)
  let ?loaded = "AList.update ''name'' (CStr (sub_title s)) (unit_data room)"
  have "unit_facts_known ?loaded"
    using facts by (simp add: unit_facts_known_def cell_of_unit_data UNIT_DATA_KEYS_def)
  moreover have "unit_data ?loaded = unit_data room"
    by (rule unit_data_cong) (auto simp: cell_of_unit_data)
  ultimately show "unit_subentry_data (AList.update ''name'' (CStr (sub_title s)) (sub_data s)) = Inr d"
    by (simp add: subentry_data_known cell_of_unit_data d data s UNIT_DATA_KEYS_def)
qed

definition example_unit :: stored_room where
  "example_unit =
     [(''key'', CStr ''slave_2''), (''name'', CStr ''Kitchen''), (''slave'', CInt 2),
      (''profile'', CStr ''ii_fc''), (''preview'', CNone), (''product_id'', CInt 116852)]"

lemma two_text: "int_text 2 = ''2''"
  by code_simp

lemma stored_unit_round_trip_witness:
  "room_config_of \<lparr>sub_id = ''a'', sub_title = ''Kitchen'', sub_unique_id = Some ''2'',
       sub_data = unit_data example_unit\<rparr>
     = room_config_of \<lparr>sub_id = ''a'', sub_title = ''Kitchen'', sub_unique_id = Some ''2'', sub_data = example_unit\<rparr>
   \<and> unit_subentry_data (AList.update ''name'' (CStr ''Kitchen'') (unit_data example_unit))
     = Inr \<lparr>new_data = unit_data example_unit, new_title = ''Kitchen'', new_unique_id = Some ''2''\<rparr>"
  using stored_unit_round_trip [of example_unit
      "\<lparr>new_data = unit_data example_unit, new_title = ''Kitchen'', new_unique_id = Some ''2''\<rparr>"
      "\<lparr>sub_id = ''a'', sub_title = ''Kitchen'', sub_unique_id = Some ''2'', sub_data = unit_data example_unit\<rparr>"]
  by (simp add: subentry_data_known unit_facts_known_def example_unit_def cell_of_def dict_get_def two_text)

section \<open>Identifiers never collide\<close>

definition ends_in_digit :: "string \<Rightarrow> bool" where
  "ends_in_digit s \<longleftrightarrow> s \<noteq> [] \<and> isdigit (last s)"

text \<open>The rests of a text behind an underscore that follows a digit.\<close>

fun digit_rests :: "string \<Rightarrow> string list" where
  "digit_rests (c # d # s) =
     (if isdigit c \<and> d = CHR ''_'' then s # digit_rests (d # s) else digit_rests (d # s))"
| "digit_rests _ = []"

lemma digit_rests_split: "isdigit c \<Longrightarrow> s \<in> set (digit_rests (u @ c # CHR ''_'' # s))"
  by (induction u rule: digit_rests.induct) auto

lemma digit_rests_append:
  "ends_in_digit u \<Longrightarrow> s \<in> set (digit_rests (u @ CHR ''_'' # s))"
  using digit_rests_split by (cases u rule: rev_cases) (auto simp: ends_in_digit_def)

text \<open>Keys of which none is the rest of another.\<close>

definition keys_unsplit :: "string list \<Rightarrow> bool" where
  "keys_unsplit keys \<longleftrightarrow> list_all (\<lambda>e. list_all (\<lambda>s. s \<notin> set keys) (digit_rests e)) keys"

lemma entity_keys_unsplit: "keys_unsplit (map fst ENTITY_PLATFORM_BY_KEY)"
  by code_simp

lemma gateway_keys_unsplit: "list_all (\<lambda>g. digit_rests g = []) (map fst GATEWAY_ENTITY_PLATFORM_BY_KEY)"
  by code_simp

lemma key_unsplit:
  assumes "keys_unsplit keys" "ends_in_digit u" "e \<in> set keys" "u @ CHR ''_'' # e = e'"
  shows "e' \<notin> set keys"
  using digit_rests_append [OF assms(2), of e] assms(1,3,4) by (force simp: keys_unsplit_def list_all_iff)

lemma room_part_unique:
  assumes "keys_unsplit keys" "ends_in_digit k" "ends_in_digit k'" "e \<in> set keys" "e' \<in> set keys"
    and same: "k @ CHR ''_'' # e = k' @ CHR ''_'' # e'"
  shows "k = k' \<and> e = e'"
proof -
  have no: False
    if us: "us \<noteq> []" "l = l' @ us" "us @ CHR ''_'' # f = CHR ''_'' # f'" "ends_in_digit l"
      "f \<in> set keys" "f' \<in> set keys" for us l l' f f'
  proof -
    obtain u where u: "us = CHR ''_'' # u" "u @ CHR ''_'' # f = f'"
      using us(1,3) by (cases us) auto
    have "ends_in_digit u"
      using us(2,4) u(1) by (auto simp: ends_in_digit_def isdigit_def split: if_splits)
    then show False using key_unsplit [OF assms(1) _ us(5) u(2)] us(6) by blast
  qed
  from same consider us where "k = k' @ us" "us @ CHR ''_'' # e = CHR ''_'' # e'"
    | us where "k' = k @ us" "us @ CHR ''_'' # e' = CHR ''_'' # e"
    by (auto simp: append_eq_append_conv2)
  then show ?thesis
  proof cases
    case 1
    then show ?thesis using no [OF _ 1 assms(2,4,5)] by (cases "us = []") auto
  next
    case 2
    then show ?thesis using no [OF _ 2 assms(3,5,4)] by (cases "us = []") auto
  qed
qed

lemma room_id_unique:
  assumes "length a = length b" "ends_in_digit k" "ends_in_digit k'"
    and "e \<in> fst ` set ENTITY_PLATFORM_BY_KEY" "e' \<in> fst ` set ENTITY_PLATFORM_BY_KEY"
  shows "room_entity_unique_id a k e = room_entity_unique_id b k' e' \<longleftrightarrow> a = b \<and> k = k' \<and> e = e'"
  using room_part_unique [OF entity_keys_unsplit assms(2,3), of e e'] assms(1,4,5)
  by (auto simp: room_entity_unique_id_def)

lemma gateway_id_unique:
  assumes "length a = length b" "ends_in_digit k" "g \<in> fst ` set GATEWAY_ENTITY_PLATFORM_BY_KEY"
  shows "gateway_entity_unique_id a g \<noteq> room_entity_unique_id b k e"
proof -
  have "g \<noteq> k @ CHR ''_'' # e"
    using gateway_keys_unsplit digit_rests_append [OF assms(2), of e] assms(3)
    by (force simp: list_all_iff)
  then show ?thesis
    using assms(1) by (auto simp: gateway_entity_unique_id_def room_entity_unique_id_def)
qed

text \<open>
  C29. Unique IDs are unique. Room keys end in a digit, and entry IDs of one installation have one
  length: then the ID of a unit's entity determines the gateway, the unit and the entity, and no
  entity of a gateway has the ID of a unit's entity.
\<close>

theorem entity_unique_ids_distinct:
  assumes "length a = length b" "ends_in_digit k" "ends_in_digit k'"
    and "e \<in> fst ` set ENTITY_PLATFORM_BY_KEY" "e' \<in> fst ` set ENTITY_PLATFORM_BY_KEY"
    and "g \<in> fst ` set GATEWAY_ENTITY_PLATFORM_BY_KEY"
  shows "(room_entity_unique_id a k e = room_entity_unique_id b k' e' \<longleftrightarrow> a = b \<and> k = k' \<and> e = e')
    \<and> gateway_entity_unique_id a g \<noteq> room_entity_unique_id b k e"
  using room_id_unique [OF assms(1-5)] gateway_id_unique [OF assms(1,2,6)] by blast

lemma entity_unique_ids_distinct_witness:
  "(room_entity_unique_id ''e1'' ''slave_2'' ''error_status'' = room_entity_unique_id ''e1'' ''slave_3'' ''value_error_status''
      \<longleftrightarrow> ''e1'' = ''e1'' \<and> ''slave_2'' = ''slave_3'' \<and> ''error_status'' = ''value_error_status'')
    \<and> gateway_entity_unique_id ''e1'' ''gateway_connectivity'' \<noteq> room_entity_unique_id ''e1'' ''slave_2'' ''error_status''"
  by (rule entity_unique_ids_distinct)
    (simp_all add: ends_in_digit_def isdigit_def ENTITY_PLATFORM_BY_KEY_def GATEWAY_ENTITY_PLATFORM_BY_KEY_def)

end
