(* ===== verification/Gateway_Connection.thy ===== *)
theory Gateway_Connection
  imports Units
begin

text \<open>
  \<open>gateway_connection.py\<close>: the three ways to reach a gateway, how they are written to and read from an
  entry, their unique IDs, and the normalisation of host names and addresses.
\<close>

section \<open>Hosts\<close>

text \<open>
  Strings hold the first 256 code points, so an encoding of other text cannot be computed here: IDNA of
  a host that is not ASCII is a parameter, and so is the text \<open>ipaddress\<close> gives an IPv6 address, with
  its scope. IPv4 addresses and ASCII hosts are written out.
\<close>

record host_rules =
  hr_v6 :: "string \<Rightarrow> (string \<times> string option) option"
  hr_idna :: "string \<Rightarrow> string option"

fun split_on :: "char \<Rightarrow> string \<Rightarrow> string list" where
  "split_on c [] = [[]]"
| "split_on c (x # s) =
     (if x = c then [] # split_on c s
      else case split_on c s of [] \<Rightarrow> [[x]] | p # ps \<Rightarrow> (x # p) # ps)"

definition ascii :: "char \<Rightarrow> bool" where
  "ascii c \<longleftrightarrow> (of_char c :: nat) < 128"

definition lower_letter :: "char \<Rightarrow> bool" where
  "lower_letter c \<longleftrightarrow> 97 \<le> (of_char c :: nat) \<and> (of_char c :: nat) \<le> 122"

definition upper_letter :: "char \<Rightarrow> bool" where
  "upper_letter c \<longleftrightarrow> 65 \<le> (of_char c :: nat) \<and> (of_char c :: nat) \<le> 90"

definition lower :: "string \<Rightarrow> string" where
  "lower s = map (\<lambda>c. if upper_letter c then char_of ((of_char c :: nat) + 32) else c) s"

text \<open>\<open>ipaddress.IPv4Address\<close>: four decimal octets without leading zeros.\<close>

definition octet :: "string \<Rightarrow> nat option" where
  "octet s =
     (if s \<noteq> [] \<and> list_all isdigit s \<and> length s \<le> 3 \<and> (s = ''0'' \<or> hd s \<noteq> CHR ''0'') \<and> number_of s \<le> 255
      then Some (number_of s) else None)"

definition v4_text :: "nat \<times> nat \<times> nat \<times> nat \<Rightarrow> string" where
  "v4_text = (\<lambda>(a, b, c, d).
     decimal a @ CHR ''.'' # decimal b @ CHR ''.'' # decimal c @ CHR ''.'' # decimal d)"

definition v4_address :: "string \<Rightarrow> (nat \<times> nat \<times> nat \<times> nat) option" where
  "v4_address s =
     (case map octet (split_on (CHR ''.'') s) of
        [Some a, Some b, Some c, Some d] \<Rightarrow> Some (a, b, c, d)
      | _ \<Rightarrow> None)"

text \<open>\<open>str\<close> of an IPv6 address with its scope.\<close>

definition v6_text :: "string \<Rightarrow> string option \<Rightarrow> string" where
  "v6_text text scope = (case scope of None \<Rightarrow> text | Some s \<Rightarrow> text @ CHR ''%'' # s)"

definition scope_char :: "char \<Rightarrow> bool" where
  "scope_char c \<longleftrightarrow> isdigit c \<or> lower_letter c \<or> upper_letter c \<or> c \<in> {CHR ''_'', CHR ''.'', CHR ''-''}"

definition ipv6_scope :: "string \<Rightarrow> bool" where
  "ipv6_scope s \<longleftrightarrow> s \<noteq> [] \<and> list_all scope_char s"

definition host_label :: "string \<Rightarrow> bool" where
  "host_label s \<longleftrightarrow>
     s \<noteq> [] \<and> length s \<le> 63 \<and> list_all (\<lambda>c. isdigit c \<or> lower_letter c \<or> c = CHR ''-'') s
     \<and> hd s \<noteq> CHR ''-'' \<and> last s \<noteq> CHR ''-''"

text \<open>\<open>host.encode("idna")\<close>: an ASCII host is taken as it is, if its labels are not too long.\<close>

definition to_ascii :: "host_rules \<Rightarrow> string \<Rightarrow> string option" where
  "to_ascii rules host =
     (if list_all ascii host
      then (let parts = split_on (CHR ''.'') host
            in if host = [] then Some []
               else if list_all (\<lambda>l. l \<noteq> []) (butlast parts) \<and> list_all (\<lambda>l. length l < 64) parts
               then Some host else None)
      else hr_idna rules host)"

definition INVALID_HOST :: "meltem_error" where
  "INVALID_HOST = ValueError ''Invalid gateway hostname or IP address''"

definition hostname_of :: "host_rules \<Rightarrow> string \<Rightarrow> meltem_error + string" where
  "hostname_of rules host =
     (case map_option lower (to_ascii rules host) of
        None \<Rightarrow> Inl INVALID_HOST
      | Some hostname \<Rightarrow>
          let labels = (if hostname \<noteq> [] \<and> last hostname = CHR ''.'' then butlast hostname else hostname)
          in if labels = [] \<or> 253 < length labels \<or> \<not> list_all host_label (split_on (CHR ''.'') labels)
             then Inl INVALID_HOST else Inr hostname)"

definition unbracketed :: "string \<Rightarrow> string" where
  "unbracketed host =
     (if host \<noteq> [] \<and> hd host = CHR ''['' \<and> last host = CHR '']'' then butlast (tl host) else host)"

definition normalize_host :: "host_rules \<Rightarrow> string \<Rightarrow> meltem_error + string" where
  "normalize_host rules text =
     (let host = unbracketed (py_strip text)
      in case v4_address host of
           Some octets \<Rightarrow> Inr (v4_text octets)
         | None \<Rightarrow>
             (case hr_v6 rules host of
                Some (address, scope) \<Rightarrow>
                  (if (case scope of None \<Rightarrow> False | Some s \<Rightarrow> \<not> ipv6_scope s) then Inl INVALID_HOST
                   else Inr (v6_text address scope))
              | None \<Rightarrow> hostname_of rules host))"

section \<open>Connections\<close>

datatype gateway_connection =
    SerialGatewayConnection string
  | RtuTcpGatewayConnection string int
  | ModbusTcpGatewayConnection string int

text \<open>\<open>__post_init__\<close> of the network connections, on the values an entry or a form holds.\<close>

definition network_endpoint :: "host_rules \<Rightarrow> cell \<Rightarrow> cell \<Rightarrow> meltem_error + string \<times> int" where
  "network_endpoint rules host port =
     (case host of
        CStr h \<Rightarrow>
          (case port of
             CInt p \<Rightarrow>
               if 1 \<le> p \<and> p \<le> 65535 then and_then (normalize_host rules h) (\<lambda>h. Inr (h, p))
               else Inl (ValueError ''Gateway TCP port must be between 1 and 65535'')
           | _ \<Rightarrow> Inl (ValueError ''Gateway TCP port must be between 1 and 65535''))
      | _ \<Rightarrow> Inl (ValueError ''Gateway host must be a string''))"

definition rtu_tcp_connection :: "host_rules \<Rightarrow> cell \<Rightarrow> cell \<Rightarrow> meltem_error + gateway_connection" where
  "rtu_tcp_connection rules host port =
     and_then (network_endpoint rules host port) (\<lambda>(h, p). Inr (RtuTcpGatewayConnection h p))"

definition modbus_tcp_connection :: "host_rules \<Rightarrow> cell \<Rightarrow> cell \<Rightarrow> meltem_error + gateway_connection" where
  "modbus_tcp_connection rules host port =
     and_then (network_endpoint rules host port) (\<lambda>(h, p). Inr (ModbusTcpGatewayConnection h p))"

definition endpoint :: "string \<Rightarrow> int \<Rightarrow> string" where
  "endpoint host port =
     (if CHR '':'' \<in> set host then CHR ''['' # host @ [CHR '']''] else host) @ CHR '':'' # int_text port"

fun unique_id :: "gateway_connection \<Rightarrow> string" where
  "unique_id (SerialGatewayConnection port) = port"
| "unique_id (RtuTcpGatewayConnection host port) = ''rtu-over-tcp://'' @ endpoint host port"
| "unique_id (ModbusTcpGatewayConnection host port) = ''modbus-tcp://'' @ endpoint host port"

fun connection_timeout :: "gateway_connection \<Rightarrow> seconds" where
  "connection_timeout (SerialGatewayConnection port) = FIXED_TIMEOUT"
| "connection_timeout (RtuTcpGatewayConnection host port) = NETWORK_TIMEOUT"
| "connection_timeout (ModbusTcpGatewayConnection host port) = NETWORK_TIMEOUT"

fun as_data :: "gateway_connection \<Rightarrow> (string, cell) dict" where
  "as_data (SerialGatewayConnection port) = [(''port'', CStr port)]"
| "as_data (RtuTcpGatewayConnection host port) =
     [(''connection_type'', CStr ''rtu_over_tcp''), (''host'', CStr host), (''network_port'', CInt port)]"
| "as_data (ModbusTcpGatewayConnection host port) =
     [(''connection_type'', CStr ''modbus_tcp''), (''host'', CStr host), (''network_port'', CInt port)]"

text \<open>
  The parameters \<open>modbus_connection\<close> opens a link with. Of a serial link: device, baud rate, what is
  set of byte size, parity and stop bits, and the framer where it is not the default.
\<close>

datatype modbus_params =
    ModbusSerialParams string int "(int \<times> string \<times> int) option" "string option"
  | ModbusTcpParams string int

definition SOCKET_BAUDRATE :: int where "SOCKET_BAUDRATE = 115200"

definition FIXED_PARITY :: string where "FIXED_PARITY = ''E''"

fun link_params :: "gateway_connection \<Rightarrow> modbus_params" where
  "link_params (SerialGatewayConnection port) =
     ModbusSerialParams port FIXED_BAUDRATE (Some (FIXED_BYTESIZE, FIXED_PARITY, FIXED_STOPBITS)) None"
| "link_params (RtuTcpGatewayConnection host port) =
     ModbusSerialParams (''socket://'' @ endpoint host port) SOCKET_BAUDRATE None (Some ''rtu'')"
| "link_params (ModbusTcpGatewayConnection host port) = ModbusTcpParams host port"

fun cell_repr :: "cell \<Rightarrow> string" where
  "cell_repr (CStr s) = py_repr s"
| "cell_repr v = py_str v"

definition serial_connection :: "cell \<Rightarrow> meltem_error + gateway_connection" where
  "serial_connection port =
     (case port of
        CStr p \<Rightarrow> Inr (SerialGatewayConnection p)
      | _ \<Rightarrow> Inl (ValueError ''Serial device path must be a string''))"

definition gateway_connection_from_data ::
  "host_rules \<Rightarrow> (string, cell) dict \<Rightarrow> meltem_error + gateway_connection" where
  "gateway_connection_from_data rules data =
     (let connection_type = dict_get data ''connection_type'' (CStr ''serial'')
      in if connection_type = CStr ''serial''
         then and_then (item data ''port'') serial_connection
         else if connection_type = CStr ''rtu_over_tcp''
         then and_then (item data ''host'') (\<lambda>host. and_then (item data ''network_port'')
             (rtu_tcp_connection rules host))
         else if connection_type = CStr ''modbus_tcp''
         then and_then (item data ''host'') (\<lambda>host. and_then (item data ''network_port'')
             (modbus_tcp_connection rules host))
         else Inl (ValueError (''Unknown gateway connection type: '' @ cell_repr connection_type)))"


section \<open>Normalising twice\<close>

text \<open>What \<open>ipaddress\<close> documents: the text of an IPv6 address has a colon, is written with hexadecimal
  digits, colons and dots, and denotes the same address.\<close>

definition v6_char :: "char \<Rightarrow> bool" where
  "v6_char c \<longleftrightarrow> isdigit c \<or> c \<in> set ''abcdef:.''"

definition documented :: "host_rules \<Rightarrow> bool" where
  "documented rules \<longleftrightarrow>
     (\<forall>h t s. hr_v6 rules h = Some (t, s) \<longrightarrow>
        CHR '':'' \<in> set h \<and> CHR '':'' \<in> set t \<and> list_all v6_char t \<and> hr_v6 rules (v6_text t s) = Some (t, s))"

fun join_on :: "char \<Rightarrow> string list \<Rightarrow> string" where
  "join_on c [] = []"
| "join_on c [p] = p"
| "join_on c (p # q # ps) = p @ c # join_on c (q # ps)"

lemma split_on_nonempty [simp]: "split_on c s \<noteq> []"
  by (induction s) (auto split: list.split)

lemma join_split [simp]: "join_on c (split_on c s) = s"
proof (induction s)
  case (Cons x s)
  then show ?case by (cases "split_on c s"; cases "tl (split_on c s)") auto
qed simp

lemma split_on_parts: "set s \<subseteq> insert c (\<Union> (set ` set (split_on c s)))"
proof (induction s)
  case (Cons x s)
  then show ?case by (cases "split_on c s") auto
qed simp

lemma split_on_snoc: "split_on c (s @ [c]) = split_on c s @ [[]]"
  by (induction s) (auto split: list.split simp: Cons_eq_append_conv)

lemma digit_0: "digit 0 = CHR ''0''"
  by code_simp

lemma decimal_number_of:
  "s \<noteq> [] \<Longrightarrow> list_all isdigit s \<Longrightarrow> s = ''0'' \<or> hd s \<noteq> CHR ''0'' \<Longrightarrow> decimal (number_of s) = s"
proof (induction s rule: rev_induct)
  case (snoc c s)
  have c: "48 \<le> (of_char c :: nat)" "(of_char c :: nat) \<le> 57" using snoc.prems by (simp_all add: isdigit_def)
  then have "digit (of_char c - 48) = c" by (simp add: digit_def)
  then have c: "of_char c - (48::nat) < 10" "digit (of_char c - 48) = c"
    using c by auto
  show ?case
  proof (cases "s = []")
    case True
    then show ?thesis using c by (subst decimal.simps) (simp add: number_of_def)
  next
    case False
    then have "hd s \<noteq> CHR ''0''" using snoc.prems(3) by auto
    moreover from this have "decimal (number_of s) = s" using False snoc by simp
    moreover have "number_of s > 0"
    proof (rule ccontr)
      assume "\<not> ?thesis"
      then have "s = ''0''" using \<open>decimal (number_of s) = s\<close> by (simp add: decimal.simps digit_0)
      then show False using \<open>hd s \<noteq> _\<close> by simp
    qed
    ultimately show ?thesis using c
      by (subst decimal.simps) (simp add: number_of_def)
  qed
qed simp

lemma octet_text: "octet s = Some n \<Longrightarrow> decimal n = s"
  by (auto simp: octet_def decimal_number_of split: if_splits)

lemma v4_address_text:
  assumes "v4_address s = Some octets"
  shows "v4_text octets = s"
proof -
  obtain p q r t where parts: "split_on (CHR ''.'') s = [p, q, r, t]"
    and "octets = (the (octet p), the (octet q), the (octet r), the (octet t))"
    and "octet p \<noteq> None" "octet q \<noteq> None" "octet r \<noteq> None" "octet t \<noteq> None"
    using assms by (auto simp: v4_address_def map_eq_Cons_conv split: list.splits option.splits)
  moreover have "s = join_on (CHR ''.'') [p, q, r, t]" using join_split [of "CHR ''.''" s] parts by simp
  ultimately show ?thesis by (auto simp: v4_text_def octet_text)
qed

lemma v4_text_chars: "c \<in> set (v4_text octets) \<Longrightarrow> isdigit c \<or> c = CHR ''.''"
  using decimal_digits by (cases octets) (auto simp: v4_text_def list_all_iff)

lemma stripped:
  assumes "list_all (\<lambda>c. \<not> py_space c \<and> c \<noteq> CHR ''['') s"
  shows "unbracketed (py_strip s) = s"
proof -
  have "dropWhile py_space t = t" if "set t \<subseteq> set s" for t
    using that assms by (cases t) (auto simp: list_all_iff)
  then have "py_strip s = s" by (simp add: py_strip_def)
  then show ?thesis using assms by (cases s) (auto simp: unbracketed_def)
qed

lemma lower_plain: "list_all (\<lambda>c. \<not> upper_letter c) s \<Longrightarrow> lower s = s"
  by (simp add: lower_def list_all_iff map_idI)

definition host_char :: "char \<Rightarrow> bool" where
  "host_char c \<longleftrightarrow> isdigit c \<or> lower_letter c \<or> c \<in> {CHR ''-'', CHR ''.''}"

lemma host_char_plain:
  "host_char c \<Longrightarrow> \<not> py_space c \<and> c \<noteq> CHR ''['' \<and> \<not> upper_letter c \<and> ascii c \<and> c \<noteq> CHR '':''"
  by (auto simp: host_char_def isdigit_def lower_letter_def upper_letter_def py_space_def ascii_def)

lemma v6_char_plain: "v6_char c \<Longrightarrow> \<not> py_space c \<and> c \<noteq> CHR ''['' \<and> c \<noteq> CHR '']''"
  by (auto simp: v6_char_def isdigit_def py_space_def)

lemma scope_char_plain: "scope_char c \<Longrightarrow> \<not> py_space c \<and> c \<noteq> CHR ''['' \<and> c \<noteq> CHR '']''"
  by (auto simp: scope_char_def isdigit_def lower_letter_def upper_letter_def py_space_def)

lemma host_labels_plain:
  assumes "list_all host_label (split_on (CHR ''.'') s)" "c \<in> set s"
  shows "host_char c"
proof (cases "c = CHR ''.''")
  case False
  then obtain p where "p \<in> set (split_on (CHR ''.'') s)" "c \<in> set p"
    using split_on_parts [of s "CHR ''.''"] assms(2) by auto
  then show ?thesis using assms(1) by (auto simp: list_all_iff host_label_def host_char_def)
qed (simp add: host_char_def)

lemma host_label_size: "host_label l \<Longrightarrow> l \<noteq> [] \<and> length l < 64"
  by (simp add: host_label_def)

lemma hostname_facts:
  assumes "hostname_of rules host = Inr n"
  shows "n \<noteq> []" "list_all host_char n" "hostname_of rules n = Inr n"
proof -
  define labels where "labels = (if n \<noteq> [] \<and> last n = CHR ''.'' then butlast n else n)"
  have ok: "labels \<noteq> []" "\<not> 253 < length labels" "list_all host_label (split_on (CHR ''.'') labels)"
    using assms by (auto simp: hostname_of_def labels_def Let_def split: option.splits if_splits)
  have n: "n = labels \<or> n = labels @ [CHR ''.'']"
    by (auto simp: labels_def) (metis append_butlast_last_id)
  show n0: "n \<noteq> []" using ok(1) n by auto
  have "host_char c" if "c \<in> set n" for c
    using that n host_labels_plain [OF ok(3), of c] by (auto simp: host_char_def)
  then show chars: "list_all host_char n" by (simp add: list_all_iff)
  then have "\<forall>c \<in> set n. ascii c" "\<forall>c \<in> set n. \<not> upper_letter c"
    using host_char_plain unfolding list_all_iff by blast+
  then have plain: "list_all ascii n" "lower n = n" by (simp_all add: list_all_iff lower_plain)
  have parts: "list_all (\<lambda>l. l \<noteq> [] \<and> length l < 64) (split_on (CHR ''.'') labels)"
    using ok(3) host_label_size unfolding list_all_iff by blast
  have "to_ascii rules n = Some n"
    using n
  proof
    assume "n = labels"
    then show ?thesis using plain parts n0
      by (auto simp: to_ascii_def Let_def list_all_iff dest: in_set_butlastD)
  next
    assume "n = labels @ [CHR ''.'']"
    then show ?thesis using plain parts n0
      by (auto simp: to_ascii_def Let_def list_all_iff split_on_snoc)
  qed
  then show "hostname_of rules n = Inr n"
    using ok plain by (simp add: hostname_of_def flip: labels_def)
qed

lemma v4_address_plain: "v4_address s = Some octets \<Longrightarrow> c \<in> set s \<Longrightarrow> isdigit c \<or> c = CHR ''.''"
  using v4_address_text v4_text_chars by metis

lemma colon_no_v4: "CHR '':'' \<in> set s \<Longrightarrow> v4_address s = None"
  using v4_address_plain [of s _ "CHR '':''"] by (cases "v4_address s") (auto simp: isdigit_def)

text \<open>The three forms of a normalised host.\<close>

lemma normalize_host_cases:
  assumes "normalize_host rules h = Inr n"
  obtains octets where "v4_address n = Some octets" "n = v4_text octets"
  | t s g where "hr_v6 rules g = Some (t, s)" "n = v6_text t s" "\<And>x. s = Some x \<Longrightarrow> ipv6_scope x"
  | "list_all host_char n" "n \<noteq> []" "hostname_of rules n = Inr n"
proof -
  let ?host = "unbracketed (py_strip h)"
  show thesis
  proof (cases "v4_address ?host")
    case (Some octets)
    then have "n = v4_text octets" "v4_address n = Some octets"
      using assms v4_address_text [OF Some] by (simp_all add: normalize_host_def)
    then show ?thesis by (rule that(1) [rotated])
  next
    case None
    show ?thesis
    proof (cases "hr_v6 rules ?host")
      case (Some ts)
      then show ?thesis using None assms that(2)
        by (cases ts) (fastforce simp: normalize_host_def split: if_splits option.split_asm)
    next
      case h: None
      then show ?thesis using None assms that(3) hostname_facts by (auto simp: normalize_host_def)
    qed
  qed
qed

lemma v6_text_chars:
  assumes "documented rules" "hr_v6 rules g = Some (t, s)" "\<And>x. s = Some x \<Longrightarrow> ipv6_scope x" "c \<in> set (v6_text t s)"
  shows "\<not> py_space c \<and> c \<noteq> CHR ''['' \<and> c \<noteq> CHR '']''"
proof -
  have "list_all v6_char t" using assms(1,2) unfolding documented_def by blast
  then show ?thesis
    using assms(3,4) v6_char_plain scope_char_plain
    by (auto simp: v6_text_def ipv6_scope_def list_all_iff py_space_def split: option.splits)
qed

lemma v6_text_colon: "documented rules \<Longrightarrow> hr_v6 rules g = Some (t, s) \<Longrightarrow> CHR '':'' \<in> set (v6_text t s)"
  by (auto simp: documented_def v6_text_def split: option.split)

lemma host_char_no_v6: "documented rules \<Longrightarrow> list_all host_char n \<Longrightarrow> hr_v6 rules n = None"
  using host_char_plain by (cases "hr_v6 rules n") (fastforce simp: documented_def list_all_iff)+

lemma normalize_host_idem:
  assumes "documented rules" "normalize_host rules h = Inr n"
  shows "normalize_host rules n = Inr n"
  using assms(2)
proof (cases rule: normalize_host_cases)
  case (1 octets)
  have "list_all (\<lambda>c. \<not> py_space c \<and> c \<noteq> CHR ''['') n"
    using v4_text_chars [of _ octets] 1(2) host_char_plain by (auto simp: list_all_iff host_char_def)
  then show ?thesis using 1 by (simp add: normalize_host_def stripped)
next
  case (2 t s g)
  have "list_all (\<lambda>c. \<not> py_space c \<and> c \<noteq> CHR ''['') n"
    using v6_text_chars [OF assms(1) 2(1,3)] 2(2) by (auto simp: list_all_iff)
  moreover have "hr_v6 rules n = Some (t, s)" using assms(1) 2(1,2) unfolding documented_def by blast
  ultimately show ?thesis
    using v6_text_colon [OF assms(1) 2(1)] 2(2,3) by (auto simp: normalize_host_def stripped colon_no_v4 split: option.splits)
next
  case 3
  have "list_all (\<lambda>c. \<not> py_space c \<and> c \<noteq> CHR ''['') n"
    using 3(1) host_char_plain by (auto simp: list_all_iff)
  then show ?thesis
    using 3 host_char_no_v6 [OF assms(1) 3(1)] v4_address_text [of n]
    by (auto simp: normalize_host_def stripped split: option.split)
qed

section \<open>Entries\<close>

lemma network_endpoint_Inr:
  "network_endpoint rules host port = Inr (h, p) \<longleftrightarrow>
     (\<exists>t. host = CStr t \<and> port = CInt p \<and> 1 \<le> p \<and> p \<le> 65535 \<and> normalize_host rules t = Inr h)"
  by (cases host; cases port) (auto simp: network_endpoint_def and_then_Inr)

text \<open>A connection as its constructors leave it.\<close>

fun connection_wf :: "host_rules \<Rightarrow> gateway_connection \<Rightarrow> bool" where
  "connection_wf rules (SerialGatewayConnection port) \<longleftrightarrow> True"
| "connection_wf rules (RtuTcpGatewayConnection h p) \<longleftrightarrow>
     1 \<le> p \<and> p \<le> 65535 \<and> (\<exists>t. normalize_host rules t = Inr h)"
| "connection_wf rules (ModbusTcpGatewayConnection h p) \<longleftrightarrow>
     1 \<le> p \<and> p \<le> 65535 \<and> (\<exists>t. normalize_host rules t = Inr h)"

lemma connections_wf:
  "serial_connection port = Inr c \<Longrightarrow> connection_wf rules c"
  "rtu_tcp_connection rules host port = Inr c \<Longrightarrow> connection_wf rules c"
  "modbus_tcp_connection rules host port = Inr c \<Longrightarrow> connection_wf rules c"
  by (auto simp: serial_connection_def rtu_tcp_connection_def modbus_tcp_connection_def and_then_Inr
      network_endpoint_Inr split: cell.split_asm)

lemma from_data_wf: "gateway_connection_from_data rules data = Inr c \<Longrightarrow> connection_wf rules c"
  unfolding gateway_connection_from_data_def Let_def
  by (auto simp: and_then_Inr dest: connections_wf split: if_split_asm)

text \<open>What an entry says of the connection depends on four of its keys alone.\<close>

definition CONNECTION_KEYS :: "string list" where
  "CONNECTION_KEYS = [''port'', ''connection_type'', ''host'', ''network_port'']"

lemma stored_connection:
  assumes "documented rules" "connection_wf rules c"
    and "\<forall>k \<in> set CONNECTION_KEYS. map_of data k = map_of (as_data c) k"
  shows "gateway_connection_from_data rules data = Inr c"
proof -
  have keys: "map_of data ''port'' = map_of (as_data c) ''port''"
    "map_of data ''connection_type'' = map_of (as_data c) ''connection_type''"
    "map_of data ''host'' = map_of (as_data c) ''host''"
    "map_of data ''network_port'' = map_of (as_data c) ''network_port''"
    using assms(3) by (simp_all add: CONNECTION_KEYS_def)
  show ?thesis
    using assms(1,2) normalize_host_idem [OF assms(1)]
    by (cases c) (auto simp: gateway_connection_from_data_def dict_get_def item_def keys network_endpoint_def serial_connection_def
        rtu_tcp_connection_def modbus_tcp_connection_def)
qed

section \<open>Unique IDs\<close>

lemma host_no_bracket:
  assumes "documented rules" "normalize_host rules t = Inr h"
  shows "CHR '']'' \<notin> set h" "CHR ''['' \<notin> set h"
proof -
  have "c \<noteq> CHR ''['' \<and> c \<noteq> CHR '']''" if "c \<in> set h" for c
    using assms(2)
  proof (cases rule: normalize_host_cases)
    case (1 octets)
    then show ?thesis using v4_text_chars [of c octets] that by (auto simp: isdigit_def)
  next
    case (2 t s g)
    then show ?thesis using v6_text_chars [OF assms(1) 2(1,3)] that by blast
  next
    case 3
    then have "host_char c" using that by (simp add: list_all_iff)
    then show ?thesis by (auto simp: host_char_def isdigit_def lower_letter_def)
  qed
  then show "CHR '']'' \<notin> set h" "CHR ''['' \<notin> set h" by blast+
qed

lemma cut_at:
  assumes "a @ c # s = b @ c # t" "c \<notin> set a" "c \<notin> set b"
  shows "a = b \<and> s = t"
  using assms by (induction a arbitrary: b) (auto simp: Cons_eq_append_conv append_eq_Cons_conv)

lemma endpoint_inject:
  assumes "CHR '']'' \<notin> set h" "CHR '']'' \<notin> set k" "CHR ''['' \<notin> set h" "CHR ''['' \<notin> set k"
    and "endpoint h p = endpoint k q"
  shows "h = k \<and> p = q"
proof (cases "CHR '':'' \<in> set h \<longleftrightarrow> CHR '':'' \<in> set k")
  case True
  show ?thesis
  proof (cases "CHR '':'' \<in> set h")
    case False
    then have "h @ CHR '':'' # int_text p = k @ CHR '':'' # int_text q"
      using True assms(5) by (simp add: endpoint_def)
    from cut_at [OF this] False True show ?thesis by simp
  next
    case colon: True
    then have "h @ CHR '']'' # CHR '':'' # int_text p = k @ CHR '']'' # CHR '':'' # int_text q"
      using True assms(5) by (simp add: endpoint_def)
    from cut_at [OF this] assms(1,2) show ?thesis by simp
  qed
next
  case False
  have "hd (endpoint h p) = CHR ''['' \<longleftrightarrow> CHR '':'' \<in> set h" if "CHR ''['' \<notin> set h" for h p
    using that by (cases h) (auto simp: endpoint_def)
  then have "CHR '':'' \<in> set h \<longleftrightarrow> CHR '':'' \<in> set k" using assms(3-5) by metis
  with False show ?thesis by simp
qed

text \<open>A serial port is a device path, not the address of a network connection.\<close>

definition device_path :: "gateway_connection \<Rightarrow> bool" where
  "device_path c =
     (case c of
        SerialGatewayConnection p \<Rightarrow>
          take 15 p \<noteq> ''rtu-over-tcp://'' \<and> take 13 p \<noteq> ''modbus-tcp://''
      | _ \<Rightarrow> True)"

lemma network_unique_ids:
  assumes "documented rules" "connection_wf rules c" "connection_wf rules d"
    and "unique_id c = unique_id d" "device_path c" "device_path d"
  shows "c = d"
  using assms(2-)
  by (cases c; cases d) (auto simp: device_path_def dest!: endpoint_inject [rotated -1]
      dest: host_no_bracket [OF assms(1)])

text \<open>
  C34. What an entry stores of its gateway is read back as the same connection, whatever host was typed
  in: normalising a normalised host changes nothing. Two entries have the same unique ID only if they
  mean the same connection, so a gateway is set up once.
\<close>

theorem connection_round_trip:
  assumes "documented rules" and "gateway_connection_from_data rules data = Inr c"
  shows "gateway_connection_from_data rules (as_data c) = Inr c
    \<and> (\<forall>other d. gateway_connection_from_data rules other = Inr d \<longrightarrow> device_path c \<longrightarrow> device_path d \<longrightarrow>
         (unique_id c = unique_id d \<longleftrightarrow> c = d))"
  using stored_connection [OF assms(1) from_data_wf [OF assms(2)]] from_data_wf assms(2)
    network_unique_ids [OF assms(1)] by blast

definition plain_rules :: host_rules where
  "plain_rules = \<lparr>hr_v6 = (\<lambda>h. if h \<in> {''fe80::1%eth0'', ''FE80:0::1%eth0''} then Some (''fe80::1'', Some ''eth0'') else None),
     hr_idna = (\<lambda>h. None)\<rparr>"

lemma plain_rules_documented: "documented plain_rules"
  by (auto simp: documented_def plain_rules_def v6_text_def v6_char_def isdigit_def)

lemma typed_connection:
  "gateway_connection_from_data plain_rules
     [(''connection_type'', CStr ''modbus_tcp''), (''host'', CStr '' [FE80:0::1%eth0] ''), (''network_port'', CInt 502)]
   = Inr (ModbusTcpGatewayConnection ''fe80::1%eth0'' 502)"
  "gateway_connection_from_data plain_rules
     [(''connection_type'', CStr ''rtu_over_tcp''), (''host'', CStr ''Gateway.LOCAL''), (''network_port'', CInt 5020)]
   = Inr (RtuTcpGatewayConnection ''gateway.local'' 5020)"
  "map (normalize_host plain_rules) [''192.168.1.7'', ''192.168.01.7'', ''-bad.local'', ''a..b'', []]
   = [Inr ''192.168.1.7'', Inr ''192.168.01.7'', Inl INVALID_HOST, Inl INVALID_HOST, Inl INVALID_HOST]"
  by code_simp+

lemma connection_round_trip_witness:
  "gateway_connection_from_data plain_rules (as_data (ModbusTcpGatewayConnection ''fe80::1%eth0'' 502))
   = Inr (ModbusTcpGatewayConnection ''fe80::1%eth0'' 502)"
  using connection_round_trip [OF plain_rules_documented typed_connection(1)] by blast

end
