(* ===== verification/Unit_Building.thy ===== *)
theory Unit_Building
  imports Units Node_Discovery
begin

text \<open>
  The shared steps of the flows in \<open>flow_helpers.py\<close> that decide what is stored for a unit: the default
  profiles and names, the match of discovered addresses with the stored units, and the units a scan or
  a rescan results in.
\<close>

section \<open>Names and keys nobody uses yet\<close>

text \<open>
  \<open>while s in taken: s = pre + str(n) + post; n += 1\<close>. It ends: every turn uses up one of the taken
  texts, since different numbers are different texts.
\<close>

definition numbered_taken :: "string list \<Rightarrow> string \<Rightarrow> string \<Rightarrow> nat \<Rightarrow> string set" where
  "numbered_taken taken pre post n = {s \<in> set taken. \<exists>m \<ge> n. s = pre @ decimal m @ post}"

lemma numbered_taken_less:
  assumes "pre @ decimal n @ post \<in> set taken"
  shows "card (numbered_taken taken pre post (Suc n)) < card (numbered_taken taken pre post n)"
proof (rule psubset_card_mono)
  show "finite (numbered_taken taken pre post n)" by (simp add: numbered_taken_def)
  have "pre @ decimal n @ post \<in> numbered_taken taken pre post n"
    using assms by (auto simp: numbered_taken_def)
  moreover have "pre @ decimal n @ post \<notin> numbered_taken taken pre post (Suc n)"
    by (auto simp: numbered_taken_def)
  moreover have "numbered_taken taken pre post (Suc n) \<subseteq> numbered_taken taken pre post n"
    by (force simp: numbered_taken_def)
  ultimately show "numbered_taken taken pre post (Suc n) \<subset> numbered_taken taken pre post n" by blast
qed

function numbered_free :: "string list \<Rightarrow> string \<Rightarrow> string \<Rightarrow> nat \<Rightarrow> string" where
  "numbered_free taken pre post n =
     (if pre @ decimal n @ post \<in> set taken then numbered_free taken pre post (Suc n)
      else pre @ decimal n @ post)"
  by pat_completeness auto
termination
  by (relation "measure (\<lambda>(taken, pre, post, n). card (numbered_taken taken pre post n))")
    (auto simp: numbered_taken_less)

declare numbered_free.simps [simp del]

definition free_text :: "string list \<Rightarrow> string \<Rightarrow> string \<Rightarrow> string \<Rightarrow> string" where
  "free_text taken base pre post =
     (if base \<in> set taken then numbered_free taken pre post 2 else base)"

lemma numbered_free_fresh: "numbered_free taken pre post n \<notin> set taken"
  by (induction taken pre post n rule: numbered_free.induct)
    (subst numbered_free.simps, simp add: numbered_free.simps)

lemma free_text_fresh: "free_text taken base pre post \<notin> set taken"
  by (simp add: free_text_def numbered_free_fresh)

lemma free_text_base: "base \<notin> set taken \<Longrightarrow> free_text taken base pre post = base"
  by (simp add: free_text_def)

lemma numbered_free_form: "\<exists>m \<ge> n. numbered_free taken pre post n = pre @ decimal m @ post"
proof (induction taken pre post n rule: numbered_free.induct)
  case (1 taken pre post n)
  then show ?case
    by (subst numbered_free.simps) (auto intro: Suc_leD)
qed

section \<open>Default profiles and names\<close>

definition profile_field_key :: "int \<Rightarrow> string" where
  "profile_field_key slave = ''slave_'' @ int_text slave"

definition SUFFIX_DEFAULT_PROFILES :: "(string, string) dict" where [const_simps]:
  "SUFFIX_DEFAULT_PROFILES =
     [(''plain'', ''ii_plain''), (''f'', ''ii_f''), (''fc'', ''ii_fc''), (''fc_voc'', ''ii_fc_voc'')]"

definition detected_profile_default :: "int \<Rightarrow> (int, string) dict \<Rightarrow> string" where
  "detected_profile_default slave detected =
     dict_get SUFFIX_DEFAULT_PROFILES (dict_get detected slave []) ''ii_plain''"

fun truthy :: "cell \<Rightarrow> bool" where
  "truthy CNone \<longleftrightarrow> False"
| "truthy (CStr s) \<longleftrightarrow> s \<noteq> []"
| "truthy (CInt n) \<longleftrightarrow> n \<noteq> 0"
| "truthy (CBool b) \<longleftrightarrow> b"

definition profile_defaults ::
  "int list \<Rightarrow> (int, string) dict \<Rightarrow> (int, stored_room) dict \<Rightarrow> (int, string) dict" where
  "profile_defaults slaves detected existing =
     dict_of (map (\<lambda>slave. (slave,
       let stored = cell_of (dict_get existing slave []) ''profile''
       in if truthy stored then py_str stored else detected_profile_default slave detected)) slaves)"

text \<open>The part of a profile's label before the blank and the opening parenthesis.\<close>

fun before_variant :: "string \<Rightarrow> string" where
  "before_variant (c # d # s) =
     (if c = CHR '' '' \<and> d = CHR ''('' then [] else c # before_variant (d # s))"
| "before_variant s = s"

definition default_room_name :: "string \<Rightarrow> string option \<Rightarrow> string list \<Rightarrow> string" where
  "default_room_name profile app_setup_code used_names =
     (let family = ''Meltem '' @ before_variant (profile_label profile);
          base = (case app_setup_code of
              Some (c # code) \<Rightarrow> family @ '' ('' @ (c # code) @ '')''
            | _ \<Rightarrow> family)
      in free_text used_names base (base @ '' ('') '')'')"

lemma default_name_fresh: "default_room_name profile code used \<notin> set used"
  by (simp add: default_room_name_def Let_def free_text_fresh)

section \<open>Matching stored units\<close>

type_synonym probes = "(int, unit_probe_result) dict"
type_synonym rooms_by_slave = "(int, stored_room) dict"

abbreviation stored_code :: "stored_room \<Rightarrow> cell" where
  "stored_code room \<equiv> cell_of room ''app_setup_code''"

definition probed_code :: "probes \<Rightarrow> int \<Rightarrow> string option" where
  "probed_code probes slave =
     (case map_of probes slave of None \<Rightarrow> None | Some result \<Rightarrow> probe_setup_code result)"

definition stored_codes :: "rooms_by_slave \<Rightarrow> cell list" where
  "stored_codes existing = filter (\<lambda>code. code \<noteq> CNone) (map (\<lambda>(_, room). stored_code room) existing)"

definition probed_codes :: "probes \<Rightarrow> int list \<Rightarrow> string list" where
  "probed_codes probes slaves = List.map_filter (probed_code probes) slaves"

definition rooms_by_code :: "rooms_by_slave \<Rightarrow> (string, int \<times> stored_room) dict" where
  "rooms_by_code existing =
     dict_of (map (\<lambda>(old_slave, room). (py_str (stored_code room), (old_slave, room)))
       (filter (\<lambda>(_, room). stored_code room \<noteq> CNone
           \<and> count_list (stored_codes existing) (stored_code room) = 1) existing))"

definition readdressed :: "stored_room \<Rightarrow> int \<Rightarrow> stored_room" where
  "readdressed room slave = AList.update ''slave'' (CInt slave) room"

text \<open>The stored unit whose setup code the address reports, when the code tells units apart.\<close>

definition followed_unit :: "int list \<Rightarrow> probes \<Rightarrow> rooms_by_slave \<Rightarrow> int \<Rightarrow> (int \<times> stored_room) option" where
  "followed_unit slaves probes existing slave =
     (case probed_code probes slave of
        None \<Rightarrow> None
      | Some code \<Rightarrow>
          if count_list (probed_codes probes slaves) code = 1
          then map_of (rooms_by_code existing) code else None)"

definition follow_code ::
  "int list \<Rightarrow> probes \<Rightarrow> rooms_by_slave \<Rightarrow> int \<Rightarrow> rooms_by_slave \<times> int list \<Rightarrow> rooms_by_slave \<times> int list" where
  "follow_code slaves probes existing slave st =
     (case followed_unit slaves probes existing slave of
        None \<Rightarrow> st
      | Some (old_slave, room) \<Rightarrow>
          (AList.update slave (readdressed room slave) (fst st), snd st @ [old_slave]))"

definition keep_place :: "rooms_by_slave \<Rightarrow> int list \<Rightarrow> int \<Rightarrow> rooms_by_slave \<Rightarrow> rooms_by_slave" where
  "keep_place existing claimed slave matched =
     (if slave \<notin> fst ` set matched \<and> slave \<notin> set claimed
      then (case map_of existing slave of
          None \<Rightarrow> matched | Some room \<Rightarrow> AList.update slave (readdressed room slave) matched)
      else matched)"

definition match_existing_rooms :: "int list \<Rightarrow> probes \<Rightarrow> rooms_by_slave \<Rightarrow> rooms_by_slave" where
  "match_existing_rooms slaves probes existing =
     (let (matched, claimed) = fold (follow_code slaves probes existing) slaves ([], [])
      in fold (keep_place existing claimed) slaves matched)"

section \<open>Building the units\<close>

definition retained_app_setup_code :: "stored_room \<Rightarrow> string list \<Rightarrow> string option" where
  "retained_app_setup_code existing_room probed =
     (let code = stored_code existing_room
      in if code = CNone \<or> code \<in> CStr ` set probed then None else Some (py_str code))"

definition unit_key :: "string list \<Rightarrow> string list \<Rightarrow> stored_room \<Rightarrow> int \<Rightarrow> string" where
  "unit_key used reserved existing_room slave =
     (let stored = cell_of existing_room ''key'';
          preferred = (if truthy stored then py_str stored else ''slave_'' @ int_text slave);
          taken = (if stored \<noteq> CNone then used else used @ reserved)
      in free_text taken preferred (preferred @ ''_'') [])"

definition unit_setup_code :: "unit_probe_result option \<Rightarrow> stored_room \<Rightarrow> string list \<Rightarrow> string option" where
  "unit_setup_code result existing_room probed =
     (case result of
        Some r \<Rightarrow> (case probe_setup_code r of
            Some code \<Rightarrow> Some code | None \<Rightarrow> retained_app_setup_code existing_room probed)
      | None \<Rightarrow> retained_app_setup_code existing_room probed)"

definition unit_product :: "unit_probe_result option \<Rightarrow> stored_room \<Rightarrow> cell" where
  "unit_product result existing_room =
     (case result of
        Some r \<Rightarrow> (case probe_product_id r of
            Some p \<Rightarrow> CInt p | None \<Rightarrow> cell_of existing_room ''product_id'')
      | None \<Rightarrow> cell_of existing_room ''product_id'')"

definition unit_preview :: "unit_probe_result option \<Rightarrow> stored_room \<Rightarrow> cell" where
  "unit_preview result existing_room =
     (case result of
        Some r \<Rightarrow> (case probe_preview r of
            Some (c # text) \<Rightarrow> CStr (c # text) | _ \<Rightarrow> cell_of existing_room ''preview'')
      | None \<Rightarrow> cell_of existing_room ''preview'')"

definition unit_name :: "string list \<Rightarrow> string \<Rightarrow> string option \<Rightarrow> stored_room \<Rightarrow> string" where
  "unit_name used_names profile code existing_room =
     (let stored = cell_of existing_room ''name''
      in if truthy stored then py_str stored else default_room_name profile code used_names)"

definition built_room ::
  "string \<Rightarrow> string \<Rightarrow> int \<Rightarrow> string \<Rightarrow> unit_probe_result option \<Rightarrow> stored_room \<Rightarrow> string list \<Rightarrow> stored_room" where
  "built_room key name slave profile result existing_room probed =
     [(''key'', CStr key), (''name'', CStr name), (''slave'', CInt slave), (''profile'', CStr profile),
      (''preview'', unit_preview result existing_room)]
     @ (if \<not> truthy (cell_of existing_room ''name'')
          \<or> cell_of existing_room ''name_is_device_name'' = CBool True
        then [(''name_is_device_name'', CBool True)] else [])
     @ (if unit_product result existing_room \<noteq> CNone
        then [(''product_id'', unit_product result existing_room)] else [])
     @ (case unit_setup_code result existing_room probed of
          None \<Rightarrow> [] | Some code \<Rightarrow> [(''app_setup_code'', CStr code)])"

text \<open>
  The loop's state: the keys and the names used so far, and the units built. A form without the field
  of a unit raises.
\<close>

type_synonym build_state = "string list \<times> string list \<times> stored_room list"

definition build_unit ::
  "rooms_by_slave \<Rightarrow> probes \<Rightarrow> string list \<Rightarrow> string list \<Rightarrow> (string, string) dict \<Rightarrow> int \<Rightarrow> build_state
     \<Rightarrow> meltem_error + build_state" where
  "build_unit matched probes probed reserved selected slave st =
     (case (st, map_of selected (profile_field_key slave)) of
        (_, None) \<Rightarrow> Inl (KeyError (profile_field_key slave))
      | ((used, names, rooms), Some profile) \<Rightarrow>
          let existing_room = dict_get matched slave [];
              result = map_of probes slave;
              key = unit_key used reserved existing_room slave;
              name = unit_name names profile (unit_setup_code result existing_room probed) existing_room
          in Inr (used @ [key], names @ [name],
               rooms @ [built_room key name slave profile result existing_room probed]))"

fun each :: "('a \<Rightarrow> 's \<Rightarrow> 'e + 's) \<Rightarrow> 'a list \<Rightarrow> 's \<Rightarrow> 'e + 's" where
  "each f [] s = Inr s"
| "each f (x # xs) s = and_then (f x s) (each f xs)"

definition reserved_keys :: "rooms_by_slave \<Rightarrow> string list" where
  "reserved_keys matched =
     map py_str (filter (\<lambda>key. key \<noteq> CNone) (map (\<lambda>(_, room). cell_of room ''key'') matched))"

definition kept_names :: "int list \<Rightarrow> rooms_by_slave \<Rightarrow> string list" where
  "kept_names slaves matched =
     map (\<lambda>slave. py_str (cell_of (dict_get matched slave []) ''name''))
       (filter (\<lambda>slave. ''name'' \<in> fst ` set (dict_get matched slave [])) slaves)"

definition build_rooms_from_profiles ::
  "int list \<Rightarrow> (string, string) dict \<Rightarrow> probes \<Rightarrow> rooms_by_slave \<Rightarrow> meltem_error + stored_room list" where
  "build_rooms_from_profiles slaves selected probes existing =
     (let matched = match_existing_rooms slaves probes existing;
          probed = List.map_filter (\<lambda>(_, result). probe_setup_code result) probes
      in and_then (each (build_unit matched probes probed (reserved_keys matched) selected) slaves
             ([], kept_names slaves matched, []))
           (\<lambda>(_, _, rooms). Inr rooms))"

section \<open>One more unit\<close>

definition probe_cells :: "unit_probe_result \<Rightarrow> stored_room" where
  "probe_cells result =
     [(''preview'', case probe_preview result of None \<Rightarrow> CNone | Some t \<Rightarrow> CStr t),
      (''product_id'', case probe_product_id result of None \<Rightarrow> CNone | Some p \<Rightarrow> CInt p),
      (''app_setup_code'', case probe_setup_code result of None \<Rightarrow> CNone | Some c \<Rightarrow> CStr c)]"

definition new_unit_room ::
  "int \<Rightarrow> string \<Rightarrow> unit_probe_result option \<Rightarrow> stored_room list \<Rightarrow> meltem_error + stored_room" where
  "new_unit_room slave profile result existing =
     and_then (all_right (map (\<lambda>room. item room ''key'') existing)) (\<lambda>keys.
     and_then (all_right (map (\<lambda>room. item room ''name'') existing)) (\<lambda>names.
       let preferred = ''slave_'' @ int_text slave;
           key = free_text (map py_str keys) preferred (preferred @ ''_'') [];
           code = (case result of None \<Rightarrow> None | Some r \<Rightarrow> probe_setup_code r)
       in Inr ([(''key'', CStr key), (''name'', CStr (default_room_name profile code (map py_str names))),
            (''name_is_device_name'', CBool True), (''slave'', CInt slave), (''profile'', CStr profile)]
          @ (case result of None \<Rightarrow> [] | Some r \<Rightarrow> probe_cells r))))"

section \<open>Probing\<close>

definition failed_probe :: unit_probe_result where
  "failed_probe = \<lparr>probe_profile = ''plain'', probe_preview = None, probe_product_id = None,
     probe_setup_code = None\<rparr>"

text \<open>
  Only an error of this integration counts as a failed probe; any other one, and a cancellation, ends
  the loop.
\<close>

definition meltem_modbus_error :: "client_error \<Rightarrow> bool" where
  "meltem_modbus_error e =
     (case e of
        Translated (MeltemModbusError _) \<Rightarrow> True
      | Translated (MeltemConnectionError _) \<Rightarrow> True
      | Translated (PortInUseError _) \<Rightarrow> True
      | _ \<Rightarrow> False)"

fun probe_units ::
  "(int \<Rightarrow> 'w \<Rightarrow> unit_probe_result outcome \<times> 'w) \<Rightarrow> int list \<Rightarrow> probes \<Rightarrow> 'w \<Rightarrow> probes outcome \<times> 'w" where
  "probe_units probe [] results w = (Returned results, w)"
| "probe_units probe (slave # slaves) results w =
     (case probe slave w of
        (Returned r, w) \<Rightarrow> probe_units probe slaves (AList.update slave r results) w
      | (Erred e, w) \<Rightarrow>
          if meltem_modbus_error e
          then probe_units probe slaves (AList.update slave failed_probe results) w
          else (Erred e, w)
      | (Aborted, w) \<Rightarrow> (Aborted, w))"

definition async_probe_units ::
  "(int \<Rightarrow> 'w \<Rightarrow> unit_probe_result outcome \<times> 'w) \<Rightarrow> int list \<Rightarrow> 'w \<Rightarrow> probes outcome \<times> 'w" where
  "async_probe_units probe slaves w = probe_units probe slaves [] w"

definition probe_profiles :: "probes \<Rightarrow> (int, string) dict" where
  "probe_profiles results = map (\<lambda>(slave, result). (slave, probe_profile result)) results"

section \<open>Profiles that contradict the product\<close>

definition starts_with :: "string \<Rightarrow> string \<Rightarrow> bool" where
  "starts_with p s \<longleftrightarrow> take (length p) s = p"

definition EXPECTED_PREFIXES :: "(int, string) dict" where
  "EXPECTED_PREFIXES = [(PRODUCT_ID_M_WRG, ''s_''), (PRODUCT_ID_M_WRG_II, ''ii_'')]"

text \<open>
  Whether the selection for one address contradicts the product it reported. The code lists a line of
  text per contradiction; the model keeps the address and the profile the line is made of.
\<close>

definition contradicts :: "unit_probe_result option \<Rightarrow> string \<Rightarrow> bool" where
  "contradicts result profile =
     (case result of
        None \<Rightarrow> False
      | Some r \<Rightarrow> (case probe_product_id r of
          None \<Rightarrow> False
        | Some product \<Rightarrow> (case map_of EXPECTED_PREFIXES product of
            None \<Rightarrow> False
          | Some expected \<Rightarrow> \<not> starts_with expected profile \<and> product_metadata_of (Some product) \<noteq> None)))"

definition profile_mismatches :: "(int, string) dict \<Rightarrow> probes \<Rightarrow> (int \<times> string) list" where
  "profile_mismatches profiles probes =
     filter (\<lambda>(slave, profile). contradicts (map_of probes slave) profile) profiles"

end
