(* ===== verification/Unit_Scans.thy ===== *)
theory Unit_Scans
  imports Unit_Building
begin

text \<open>
  What a scan makes of the stored units: keys and names are kept or fresh, units follow their setup
  code, codes stay unique, and matching twice agrees with matching once.
\<close>

section \<open>Where a unit comes from\<close>

lemma map_of_map_filter:
  "map_of (List.map_filter (\<lambda>s. map_option (Pair s) (f s)) xs) s = (if s \<in> set xs then f s else None)"
  by (induction xs) (auto simp: List.map_filter_simps split: option.splits)

lemma fst_map_filter:
  "fst ` set (List.map_filter (\<lambda>s. map_option (Pair s) (f s)) xs) = {s \<in> set xs. f s \<noteq> None}"
  by (induction xs) (auto simp: List.map_filter_simps split: option.splits)

lemma map_filter_cong:
  "(\<And>x. x \<in> set xs \<Longrightarrow> f x = g x) \<Longrightarrow> List.map_filter f xs = List.map_filter g xs"
  by (induction xs) (auto simp: List.map_filter_simps split: option.splits)

definition claimed_slaves :: "int list \<Rightarrow> probes \<Rightarrow> rooms_by_slave \<Rightarrow> int list" where
  "claimed_slaves slaves probes existing =
     map fst (List.map_filter (followed_unit slaves probes existing) slaves)"

text \<open>The stored unit an address is matched with: its old address and what was stored.\<close>

definition unit_origin :: "int list \<Rightarrow> probes \<Rightarrow> rooms_by_slave \<Rightarrow> int \<Rightarrow> (int \<times> stored_room) option" where
  "unit_origin slaves probes existing slave =
     (case followed_unit slaves probes existing slave of
        Some old \<Rightarrow> Some old
      | None \<Rightarrow> if slave \<in> set (claimed_slaves slaves probes existing) then None
          else map_option (Pair slave) (map_of existing slave))"

lemma fold_follow_code:
  "distinct xs \<Longrightarrow> set xs \<inter> fst ` set m = {} \<Longrightarrow>
     fold (follow_code slaves probes existing) xs (m, c) =
       (m @ List.map_filter (\<lambda>s. map_option (Pair s)
            (map_option (\<lambda>(_, room). readdressed room s) (followed_unit slaves probes existing s))) xs,
        c @ map fst (List.map_filter (followed_unit slaves probes existing) xs))"
proof (induction xs arbitrary: m c)
  case (Cons x xs)
  show ?case
  proof (cases "followed_unit slaves probes existing x")
    case None
    then show ?thesis using Cons by (simp add: follow_code_def List.map_filter_simps)
  next
    case (Some old)
    obtain o' room where old: "old = (o', room)" by fastforce
    have "AList.update x (readdressed room x) m = m @ [(x, readdressed room x)]"
      using Cons.prems by (intro update_append_fresh) auto
    then show ?thesis
      using Cons.IH [of "m @ [(x, readdressed room x)]" "c @ [o']"] Cons.prems Some old
      by (auto simp: follow_code_def List.map_filter_simps)
  qed
qed (simp add: List.map_filter_simps)

lemma fold_keep_place:
  "distinct xs \<Longrightarrow> fold (keep_place existing claimed) xs m =
     m @ List.map_filter (\<lambda>s. map_option (Pair s)
        (if s \<notin> fst ` set m \<and> s \<notin> set claimed
         then map_option (\<lambda>room. readdressed room s) (map_of existing s) else None)) xs"
proof (induction xs arbitrary: m)
  case (Cons x xs)
  let ?g = "\<lambda>m s. map_option (Pair s) (if s \<notin> fst ` set m \<and> s \<notin> set claimed
         then map_option (\<lambda>room. readdressed room s) (map_of existing s) else None)"
  have m: "keep_place existing claimed x m = m @ List.map_filter (?g m) [x]"
    by (auto simp: keep_place_def List.map_filter_simps update_append_fresh split: option.splits)
  have "List.map_filter (?g (m @ List.map_filter (?g m) [x])) xs = List.map_filter (?g m) xs"
    using Cons.prems by (intro map_filter_cong) (auto simp: List.map_filter_simps split: option.splits)
  then show ?case using Cons by (simp add: m) (simp add: List.map_filter_simps split: option.splits)
qed (simp add: List.map_filter_simps)

lemma match_existing_eq:
  assumes "distinct slaves"
  shows "match_existing_rooms slaves probes existing =
    List.map_filter (\<lambda>s. map_option (Pair s)
       (map_option (\<lambda>(_, room). readdressed room s) (followed_unit slaves probes existing s))) slaves
    @ List.map_filter (\<lambda>s. map_option (Pair s)
       (if followed_unit slaves probes existing s = None \<and> s \<notin> set (claimed_slaves slaves probes existing)
        then map_option (\<lambda>room. readdressed room s) (map_of existing s) else None)) slaves"
  by (simp add: match_existing_rooms_def fold_follow_code fold_keep_place assms fst_map_filter
      claimed_slaves_def del: split_paired_All split_paired_Ex, rule map_filter_cong, simp)

lemma map_of_match:
  assumes "distinct slaves"
  shows "map_of (match_existing_rooms slaves probes existing) s =
    (if s \<in> set slaves
     then map_option (\<lambda>(_, room). readdressed room s) (unit_origin slaves probes existing s) else None)"
  unfolding match_existing_eq [OF assms] map_of_append map_add_def map_of_map_filter
  by (auto simp: unit_origin_def option.map_comp comp_def split: option.splits)

lemma followed_from:
  assumes "followed_unit slaves probes existing s = Some (o', room)"
  shows "(o', room) \<in> set existing \<and> stored_code room \<noteq> CNone
    \<and> probed_code probes s = Some (py_str (stored_code room))
    \<and> count_list (probed_codes probes slaves) (py_str (stored_code room)) = 1"
proof -
  obtain code where code: "probed_code probes s = Some code" "count_list (probed_codes probes slaves) code = 1"
    "map_of (rooms_by_code existing) code = Some (o', room)"
    using assms by (auto simp: followed_unit_def split: option.splits if_splits)
  from map_of_dict_of_in [OF code(3) [unfolded rooms_by_code_def]] show ?thesis using code by auto
qed

lemma origin_from:
  "unit_origin slaves probes existing s = Some (o', room) \<Longrightarrow> (o', room) \<in> set existing"
  by (auto simp: unit_origin_def split: option.splits if_splits dest: followed_from map_of_SomeD)

lemma two_places:
  assumes "x \<noteq> y" "x \<in> set xs" "y \<in> set xs"
  obtains us vs ws where "xs = us @ x # vs @ y # ws \<or> xs = us @ y # vs @ x # ws"
  using assms by (metis in_set_conv_decomp append.assoc append_Cons set_ConsD Un_iff set_append split_list)

lemma count_probed:
  assumes "count_list (probed_codes probes xs) c = 1" "distinct xs" "s \<in> set xs" "t \<in> set xs"
    and "probed_code probes s = Some c" "probed_code probes t = Some c"
  shows "s = t"
proof (rule ccontr)
  assume "s \<noteq> t"
  then obtain us vs ws where "xs = us @ s # vs @ t # ws \<or> xs = us @ t # vs @ s # ws"
    using assms(3,4) by (rule two_places)
  then show False
    using assms(1,5,6) by (auto simp: probed_codes_def List.map_filter_def)
qed

lemma origin_inj:
  assumes "distinct slaves" "distinct (map fst existing)" "s \<in> set slaves" "t \<in> set slaves"
    and s: "unit_origin slaves probes existing s = Some (o', room)"
    and t: "unit_origin slaves probes existing t = Some (o', room')"
  shows "s = t"
proof -
  have room: "room = room'"
    using origin_from [OF s] origin_from [OF t] assms(2) by (metis eq_key_imp_eq_value)
  have claims: "o' \<in> set (claimed_slaves slaves probes existing)"
    if "followed_unit slaves probes existing u = Some (o', r)" "u \<in> set slaves" for u r
    using that by (force simp: claimed_slaves_def List.map_filter_def)
  consider (both) r r' where "followed_unit slaves probes existing s = Some (o', r)"
      "followed_unit slaves probes existing t = Some (o', r')"
    | "followed_unit slaves probes existing s = None" "o' = s" "s \<notin> set (claimed_slaves slaves probes existing)"
    | "followed_unit slaves probes existing t = None" "o' = t" "t \<notin> set (claimed_slaves slaves probes existing)"
    using s t by (auto simp: unit_origin_def split: option.splits if_splits)
  then show ?thesis
  proof cases
    case both
    then have "r = room" "r' = room" using s t room by (auto simp: unit_origin_def)
    then show ?thesis
      using both [THEN followed_from] count_probed [OF _ assms(1,3,4)] by auto
  next
    case 2
    then show ?thesis
      using t claims [OF _ assms(4)] by (auto simp: unit_origin_def split: option.splits if_splits)
  next
    case 3
    then show ?thesis
      using s claims [OF _ assms(3)] by (auto simp: unit_origin_def split: option.splits if_splits)
  qed
qed


section \<open>The units a scan results in\<close>

definition key_text :: "stored_room \<Rightarrow> string" where
  "key_text room = py_str (cell_of room ''key'')"

definition name_text :: "stored_room \<Rightarrow> string" where
  "name_text room = py_str (cell_of room ''name'')"

lemma cell_of_built [simp]:
  "cell_of (built_room key name slave profile result old probed) ''key'' = CStr key"
  "cell_of (built_room key name slave profile result old probed) ''name'' = CStr name"
  "cell_of (built_room key name slave profile result old probed) ''slave'' = CInt slave"
  "cell_of (built_room key name slave profile result old probed) ''profile'' = CStr profile"
  "cell_of (built_room key name slave profile result old probed) ''preview'' = unit_preview result old"
  "stored_code (built_room key name slave profile result old probed) =
     (case unit_setup_code result old probed of None \<Rightarrow> CNone | Some code \<Rightarrow> CStr code)"
  by (simp_all add: built_room_def cell_of_def dict_get_def split: option.splits)

lemma built_texts [simp]:
  "key_text (built_room key name slave profile result old probed) = key"
  "name_text (built_room key name slave profile result old probed) = name"
  by (simp_all add: key_text_def name_text_def)

text \<open>What the loop does for the unit at one position, given the units before it.\<close>

definition built_at ::
  "rooms_by_slave \<Rightarrow> probes \<Rightarrow> string list \<Rightarrow> string list \<Rightarrow> (string, string) dict \<Rightarrow> string list \<Rightarrow> string list
     \<Rightarrow> int \<Rightarrow> stored_room \<Rightarrow> bool" where
  "built_at matched probes probed reserved selected used names slave room \<longleftrightarrow>
     (let existing_room = dict_get matched slave []; result = map_of probes slave
      in map_of selected (profile_field_key slave) = Some (py_str (cell_of room ''profile''))
        \<and> room = built_room (unit_key used reserved existing_room slave)
            (unit_name names (py_str (cell_of room ''profile''))
               (unit_setup_code result existing_room probed) existing_room)
            slave (py_str (cell_of room ''profile'')) result existing_room probed)"

lemma build_unit_step:
  "map_of selected (profile_field_key s) = Some p \<Longrightarrow>
     build_unit matched probes probed reserved selected s (used, names, rooms) =
       (let old = dict_get matched s [];
            key = unit_key used reserved old s;
            name = unit_name names p (unit_setup_code (map_of probes s) old probed) old
        in Inr (used @ [key], names @ [name], rooms @ [built_room key name s p (map_of probes s) old probed]))"
  by (simp add: build_unit_def Let_def)

lemma built_at_texts:
  assumes "built_at matched probes probed reserved selected used names s room"
  shows "key_text room = unit_key used reserved (dict_get matched s []) s"
    and "name_text room = unit_name names (py_str (cell_of room ''profile''))
      (unit_setup_code (map_of probes s) (dict_get matched s []) probed) (dict_get matched s [])"
    and "cell_of room ''slave'' = CInt s"
    and "map_of selected (profile_field_key s) = Some (py_str (cell_of room ''profile''))"
    and "stored_code room = (case unit_setup_code (map_of probes s) (dict_get matched s []) probed of
        None \<Rightarrow> CNone | Some code \<Rightarrow> CStr code)"
proof -
  let ?old = "dict_get matched s []" and ?p = "py_str (cell_of room ''profile'')"
  have room: "room = built_room (unit_key used reserved ?old s)
      (unit_name names ?p (unit_setup_code (map_of probes s) ?old probed) ?old) s ?p (map_of probes s) ?old probed"
    and "map_of selected (profile_field_key s) = Some ?p"
    using assms by (simp_all add: built_at_def Let_def)
  then show "map_of selected (profile_field_key s) = Some ?p" by blast
  show "key_text room = unit_key used reserved ?old s" by (subst room) simp
  show "name_text room = unit_name names ?p (unit_setup_code (map_of probes s) ?old probed) ?old"
    by (subst (1) room) simp
  show "cell_of room ''slave'' = CInt s" by (subst room) simp
  show "stored_code room = (case unit_setup_code (map_of probes s) ?old probed of
        None \<Rightarrow> CNone | Some code \<Rightarrow> CStr code)"
    by (subst (1) room) simp
qed

lemma in_set_take: "x \<in> set (take i xs) \<longleftrightarrow> (\<exists>j < i. j < length xs \<and> xs ! j = x)"
  by (auto simp: in_set_conv_nth)

lemma each_build:
  "each (build_unit matched probes probed reserved selected) slaves (used, names, rooms) = Inr (used', names', rooms') \<Longrightarrow>
     \<exists>new. rooms' = rooms @ new \<and> length new = length slaves
       \<and> (\<forall>i < length slaves. built_at matched probes probed reserved selected
            (used @ take i (map key_text new)) (names @ take i (map name_text new)) (slaves ! i) (new ! i))"
proof (induction slaves arbitrary: used names rooms)
  case (Cons s slaves)
  let ?ex = "dict_get matched s []"
  from Cons.prems obtain p where p: "map_of selected (profile_field_key s) = Some p"
    by (auto simp: build_unit_def split: option.splits)
  define key where "key = unit_key used reserved ?ex s"
  define name where "name = unit_name names p (unit_setup_code (map_of probes s) ?ex probed) ?ex"
  define room where "room = built_room key name s p (map_of probes s) ?ex probed"
  have "each (build_unit matched probes probed reserved selected) slaves
      (used @ [key], names @ [name], rooms @ [room]) = Inr (used', names', rooms')"
    using Cons.prems by (simp add: build_unit_step [OF p] Let_def key_def name_def room_def)
  from Cons.IH [OF this] obtain new where new: "rooms' = (rooms @ [room]) @ new" "length new = length slaves"
    "\<forall>i < length slaves. built_at matched probes probed reserved selected
        ((used @ [key]) @ take i (map key_text new)) ((names @ [name]) @ take i (map name_text new)) (slaves ! i) (new ! i)"
    by blast
  have "built_at matched probes probed reserved selected used names s room"
    by (simp add: built_at_def room_def key_def name_def p)
  with new show ?case
    by (intro exI [of _ "room # new"]) (auto simp: nth_Cons room_def split: nat.splits)
qed simp

text \<open>
  What the stored units satisfy: one per address, each with a name, a key of its own, and a setup code
  that is a text, if it has one.
\<close>

definition rooms_wf :: "rooms_by_slave \<Rightarrow> bool" where
  "rooms_wf existing \<longleftrightarrow> distinct (map fst existing)
     \<and> list_all (\<lambda>(_, room). \<exists>c s. cell_of room ''key'' = CStr (c # s)) existing
     \<and> list_all (\<lambda>(_, room). \<exists>c s. cell_of room ''name'' = CStr (c # s)) existing
     \<and> list_all (\<lambda>(_, room). stored_code room = CNone \<or> (\<exists>s. stored_code room = CStr s)) existing
     \<and> distinct (map (\<lambda>(_, room). key_text room) existing)"

lemma readdressed_cells [simp]:
  "cell_of (readdressed room s) ''key'' = cell_of room ''key''"
  "cell_of (readdressed room s) ''name'' = cell_of room ''name''"
  "stored_code (readdressed room s) = stored_code room"
  "cell_of (readdressed room s) ''slave'' = CInt s"
  by (simp_all add: readdressed_def)

lemma key_text_readdressed [simp]: "key_text (readdressed room s) = key_text room"
  by (simp add: key_text_def)

lemma key_determines_room:
  assumes "rooms_wf existing" "(a, r) \<in> set existing" "(b, r') \<in> set existing" "key_text r = key_text r'"
  shows "a = b"
  using assms by (auto simp: rooms_wf_def distinct_map inj_on_def)

abbreviation probed_of :: "probes \<Rightarrow> string list" where
  "probed_of probes \<equiv> List.map_filter (\<lambda>(_, result). probe_setup_code result) probes"

text \<open>
  Handing out keys from left to right: kept ones are reserved and differ, new ones avoid the keys handed
  out and the reserved ones. Then every unit that keeps its key gets it, and all keys differ.
\<close>

lemma keys_allocated:
  fixes kept :: "nat \<Rightarrow> 'a option"
  assumes keep: "\<And>i k. i < length keys \<Longrightarrow> kept i = Some k \<Longrightarrow> k \<in> reserved \<and> (k \<notin> set (take i keys) \<longrightarrow> keys ! i = k)"
    and new: "\<And>i. i < length keys \<Longrightarrow> kept i = None \<Longrightarrow> keys ! i \<notin> set (take i keys) \<union> reserved"
    and inj: "\<And>i j k. i < length keys \<Longrightarrow> j < length keys \<Longrightarrow> kept i = Some k \<Longrightarrow> kept j = Some k \<Longrightarrow> i = j"
  shows "(\<forall>i < length keys. \<forall>k. kept i = Some k \<longrightarrow> keys ! i = k) \<and> distinct keys"
proof -
  have kept: "keys ! i = k" if "i < length keys" "kept i = Some k" for i k
    using that
  proof (induction i arbitrary: k rule: less_induct)
    case (less i)
    have "keys ! j \<noteq> k" if "j < i" for j
    proof (cases "kept j")
      case None
      then show ?thesis using new [of j] keep [OF less.prems] that less.prems(1) by auto
    next
      case (Some l)
      then show ?thesis using less.IH [OF that, of l] inj [of i j k] less.prems that by auto
    qed
    then have "k \<notin> set (take i keys)" by (auto simp: in_set_take)
    then show ?case using keep [OF less.prems] by blast
  qed
  have "keys ! i \<noteq> keys ! j" if ij: "i < j" "j < length keys" for i j
  proof (cases "kept j")
    case None
    then show ?thesis using new [of j] ij by (force simp: in_set_take)
  next
    case (Some k)
    then have "keys ! j = k" "k \<in> reserved" using kept keep ij by auto
    moreover have "keys ! i \<notin> reserved \<or> kept i \<noteq> None" using new [of i] ij by auto
    moreover have "keys ! i \<noteq> k" if "kept i = Some l" for l
      using kept [of i l] inj [of i j k] that Some ij by auto
    ultimately show ?thesis by auto
  qed
  then have "distinct keys" by (simp add: distinct_conv_nth) (metis linorder_neqE_nat)
  with kept show ?thesis by blast
qed

definition scan_built ::
  "int list \<Rightarrow> (string, string) dict \<Rightarrow> probes \<Rightarrow> rooms_by_slave \<Rightarrow> stored_room list \<Rightarrow> bool" where
  "scan_built slaves selected probes existing rooms \<longleftrightarrow>
     distinct slaves \<and> rooms_wf existing \<and> build_rooms_from_profiles slaves selected probes existing = Inr rooms"

lemma rooms_built:
  assumes "scan_built slaves selected probes existing rooms"
  defines "matched \<equiv> match_existing_rooms slaves probes existing"
  shows "length rooms = length slaves"
    and "i < length slaves \<Longrightarrow> built_at matched probes (probed_of probes) (reserved_keys matched) selected
      (take i (map key_text rooms)) (kept_names slaves matched @ take i (map name_text rooms)) (slaves ! i) (rooms ! i)"
proof -
  obtain used names where "each (build_unit matched probes (probed_of probes) (reserved_keys matched) selected) slaves
      ([], kept_names slaves matched, []) = Inr (used, names, rooms)"
    using assms by (auto simp: scan_built_def build_rooms_from_profiles_def Let_def and_then_Inr)
  from each_build [OF this] show "length rooms = length slaves"
    "i < length slaves \<Longrightarrow> built_at matched probes (probed_of probes) (reserved_keys matched) selected
      (take i (map key_text rooms)) (kept_names slaves matched @ take i (map name_text rooms)) (slaves ! i) (rooms ! i)"
    by auto
qed

lemma matched_room:
  "distinct slaves \<Longrightarrow> s \<in> set slaves \<Longrightarrow> dict_get (match_existing_rooms slaves probes existing) s [] =
     (case unit_origin slaves probes existing s of None \<Rightarrow> [] | Some (_, room) \<Rightarrow> readdressed room s)"
  by (auto simp: dict_get_def map_of_match split: option.splits)

lemma origin_wf:
  assumes "rooms_wf existing" "unit_origin slaves probes existing s = Some (o', room)"
  shows "\<exists>c t. cell_of room ''key'' = CStr (c # t)" "\<exists>c t. cell_of room ''name'' = CStr (c # t)"
  using assms(1) origin_from [OF assms(2)] by (auto simp: rooms_wf_def list_all_iff)

lemma origin_key_inj:
  assumes "distinct slaves" "rooms_wf existing" "s \<in> set slaves" "t \<in> set slaves"
    and "unit_origin slaves probes existing s = Some (a, r)" "unit_origin slaves probes existing t = Some (b, r')"
    and "key_text r = key_text r'"
  shows "s = t"
  using key_determines_room [OF assms(2) origin_from [OF assms(5)] origin_from [OF assms(6)] assms(7)]
    origin_inj [OF assms(1) _ assms(3,4)] assms(2,5,6) by (auto simp: rooms_wf_def)

lemma origin_reserved:
  assumes "distinct slaves" "rooms_wf existing" "s \<in> set slaves" "unit_origin slaves probes existing s = Some (a, r)"
  shows "key_text r \<in> set (reserved_keys (match_existing_rooms slaves probes existing))"
proof -
  have "(s, readdressed r s) \<in> set (match_existing_rooms slaves probes existing)"
    using map_of_match [OF assms(1), of probes existing s] assms by (auto dest: map_of_SomeD)
  then show ?thesis
    using origin_wf(1) [OF assms(2,4)] by (force simp: reserved_keys_def key_text_def)
qed

definition kept_key :: "int list \<Rightarrow> probes \<Rightarrow> rooms_by_slave \<Rightarrow> nat \<Rightarrow> string option" where
  "kept_key slaves probes existing i =
     map_option (\<lambda>(_, room). key_text room) (unit_origin slaves probes existing (slaves ! i))"

lemma unit_key_new:
  "unit_key used reserved [] slave \<notin> set used \<union> set reserved"
  using free_text_fresh [of "used @ reserved"] by (simp add: unit_key_def cell_of_def)

lemma unit_key_kept:
  "cell_of room ''key'' = CStr (c # t) \<Longrightarrow> key_text room \<notin> set used \<Longrightarrow>
     unit_key used reserved room slave = key_text room"
  by (simp add: unit_key_def key_text_def free_text_base)

lemma scan_keys:
  assumes b: "scan_built slaves selected probes existing rooms"
  shows "i < length slaves \<Longrightarrow> kept_key slaves probes existing i = Some k \<Longrightarrow> key_text (rooms ! i) = k"
    and "distinct (map key_text rooms)"
    and "i < length slaves \<Longrightarrow> kept_key slaves probes existing i = None \<Longrightarrow>
      key_text (rooms ! i) \<notin> set (reserved_keys (match_existing_rooms slaves probes existing))"
proof -
  let ?m = "match_existing_rooms slaves probes existing"
  have wf: "distinct slaves" "rooms_wf existing" using b by (auto simp: scan_built_def)
  note len = rooms_built(1) [OF b]
  have key: "key_text (rooms ! i) = unit_key (take i (map key_text rooms)) (reserved_keys ?m)
      (case unit_origin slaves probes existing (slaves ! i) of
         None \<Rightarrow> [] | Some (_, room) \<Rightarrow> readdressed room (slaves ! i)) (slaves ! i)"
    if "i < length slaves" for i
    using built_at_texts(1) [OF rooms_built(2) [OF b that]] that wf by (simp add: matched_room)
  have new: "key_text (rooms ! i) \<notin> set (take i (map key_text rooms)) \<union> set (reserved_keys ?m)"
    if "i < length slaves" "kept_key slaves probes existing i = None" for i
    using that key [OF that(1)] unit_key_new by (simp add: kept_key_def)
  have "(\<forall>i < length (map key_text rooms). \<forall>k. kept_key slaves probes existing i = Some k \<longrightarrow> map key_text rooms ! i = k)
    \<and> distinct (map key_text rooms)"
  proof (rule keys_allocated [where reserved = "set (reserved_keys ?m)"])
    fix i k assume i: "i < length (map key_text rooms)" "kept_key slaves probes existing i = Some k"
    then obtain a r where r: "unit_origin slaves probes existing (slaves ! i) = Some (a, r)" "k = key_text r"
      by (auto simp: kept_key_def)
    obtain c t where "cell_of r ''key'' = CStr (c # t)" using origin_wf(1) [OF wf(2) r(1)] by blast
    then show "k \<in> set (reserved_keys ?m)
        \<and> (k \<notin> set (take i (map key_text rooms)) \<longrightarrow> map key_text rooms ! i = k)"
      using origin_reserved [OF wf _ r(1)] key [of i] unit_key_kept [of "readdressed r (slaves ! i)"] i r len
      by simp
  next
    fix i assume "i < length (map key_text rooms)" "kept_key slaves probes existing i = None"
    then show "map key_text rooms ! i \<notin> set (take i (map key_text rooms)) \<union> set (reserved_keys ?m)"
      using new [of i] len by simp
  next
    fix i j k assume ij: "i < length (map key_text rooms)" "j < length (map key_text rooms)"
      "kept_key slaves probes existing i = Some k" "kept_key slaves probes existing j = Some k"
    then have "slaves ! i = slaves ! j"
      using origin_key_inj [OF wf, of "slaves ! i" "slaves ! j"] len by (auto simp: kept_key_def)
    then show "i = j" using ij wf(1) len by (simp add: nth_eq_iff_index_eq)
  qed
  then show "i < length slaves \<Longrightarrow> kept_key slaves probes existing i = Some k \<Longrightarrow> key_text (rooms ! i) = k"
    "distinct (map key_text rooms)" using len by auto
  show "i < length slaves \<Longrightarrow> kept_key slaves probes existing i = None \<Longrightarrow> key_text (rooms ! i) \<notin> set (reserved_keys ?m)"
    using new by blast
qed


lemma cell_known: "cell_of room k \<noteq> CNone \<Longrightarrow> k \<in> fst ` set room"
  by (auto simp: cell_of_def dict_get_def split: option.splits dest!: map_of_SomeD intro: rev_image_eqI)

lemma scan_names:
  assumes b: "scan_built slaves selected probes existing rooms"
  shows "i < length slaves \<Longrightarrow> unit_origin slaves probes existing (slaves ! i) = Some (a, r) \<Longrightarrow>
      name_text (rooms ! i) = name_text r"
    and "i < length slaves \<Longrightarrow> j < length slaves \<Longrightarrow> i \<noteq> j \<Longrightarrow>
      unit_origin slaves probes existing (slaves ! i) = None \<Longrightarrow> name_text (rooms ! i) \<noteq> name_text (rooms ! j)"
proof -
  let ?m = "match_existing_rooms slaves probes existing" and ?o = "unit_origin slaves probes existing"
  have wf: "distinct slaves" "rooms_wf existing" using b by (auto simp: scan_built_def)
  note len = rooms_built(1) [OF b]
  have name: "\<exists>p code. name_text (rooms ! i) = unit_name (kept_names slaves ?m @ take i (map name_text rooms)) p code
      (case ?o (slaves ! i) of None \<Rightarrow> [] | Some (_, room) \<Rightarrow> readdressed room (slaves ! i))"
    if "i < length slaves" for i
    using built_at_texts(2) [OF rooms_built(2) [OF b that]] that wf by (auto simp: matched_room)
  show kept: "name_text (rooms ! i) = name_text r"
    if "i < length slaves" "?o (slaves ! i) = Some (a, r)" for i a r
    using name [OF that(1)] origin_wf(2) [OF wf(2) that(2)] that(2)
    by (auto simp: unit_name_def name_text_def)
  have known: "name_text r \<in> set (kept_names slaves ?m)"
    if h: "i < length slaves" "?o (slaves ! i) = Some (a, r)" for i a r
  proof -
    have "dict_get ?m (slaves ! i) [] = readdressed r (slaves ! i)"
      using h wf(1) by (simp add: matched_room)
    moreover obtain c t where "cell_of r ''name'' = CStr (c # t)" using origin_wf(2) [OF wf(2) h(2)] by blast
    then have "''name'' \<in> fst ` set (readdressed r (slaves ! i))"
      by (intro cell_known) simp
    ultimately show ?thesis
      using h(1) unfolding kept_names_def set_map set_filter
      by (intro image_eqI [of _ _ "slaves ! i"]) (auto simp: name_text_def)
  qed
  have new: "name_text (rooms ! i) \<notin> set (kept_names slaves ?m) \<union> set (take i (map name_text rooms))"
    if "i < length slaves" "?o (slaves ! i) = None" for i
    using name [OF that(1)] that(2) free_text_fresh [of "kept_names slaves ?m @ take i (map name_text rooms)"]
    by (auto simp: unit_name_def cell_of_def default_room_name_def Let_def)
  show "name_text (rooms ! i) \<noteq> name_text (rooms ! j)"
    if ij: "i < length slaves" "j < length slaves" "i \<noteq> j" "?o (slaves ! i) = None"
  proof (cases "?o (slaves ! j)")
    case None
    consider "i < j" | "j < i" using ij(3) by linarith
    then show ?thesis
    proof cases
      case 1
      then have "name_text (rooms ! i) \<in> set (take j (map name_text rooms))"
        unfolding in_set_take using ij len by (intro exI [of _ i]) simp
      then show ?thesis using new [OF ij(2) None] by auto
    next
      case 2
      then have "name_text (rooms ! j) \<in> set (take i (map name_text rooms))"
        unfolding in_set_take using ij len by (intro exI [of _ j]) simp
      then show ?thesis using new [OF ij(1,4)] by auto
    qed
  next
    case (Some old)
    then show ?thesis
      using new [OF ij(1,4)] kept [OF ij(2)] known [OF ij(2)] by (cases old) auto
  qed
qed

lemma each_build_total:
  "list_all (\<lambda>s. profile_field_key s \<in> fst ` set selected) slaves \<Longrightarrow>
     \<exists>st'. each (build_unit matched probes probed reserved selected) slaves st = Inr st'"
proof (induction slaves arbitrary: st)
  case (Cons s slaves)
  obtain used names rooms where st: "st = (used, names, rooms)" by (cases st) auto
  from Cons.prems obtain p where p: "map_of selected (profile_field_key s) = Some p"
    by (auto dest: weak_map_of_SomeI)
  show ?case using Cons by (simp add: st build_unit_step [OF p] Let_def)
qed (metis each.simps(1))

lemma scan_total:
  assumes "distinct slaves" "rooms_wf existing" "list_all (\<lambda>s. profile_field_key s \<in> fst ` set selected) slaves"
  obtains rooms where "scan_built slaves selected probes existing rooms"
proof -
  let ?m = "match_existing_rooms slaves probes existing"
  obtain used names rooms where "each (build_unit ?m probes (probed_of probes) (reserved_keys ?m) selected) slaves
      ([], kept_names slaves ?m, []) = Inr (used, names, rooms)"
    using each_build_total [OF assms(3)] by (metis prod_cases3)
  then have "scan_built slaves selected probes existing rooms"
    using assms by (simp add: scan_built_def build_rooms_from_profiles_def)
  then show ?thesis by (rule that)
qed

text \<open>
  C14. A scan keeps what is known and invents the rest: with a profile chosen for every address, there is
  one unit per address in the order of the addresses; all keys differ; a unit that was stored before,
  also under another address, keeps its key and its name wherever it now sorts; and the name of a new
  unit is no other unit's. Looking for a free key or name always ends.
\<close>

theorem scan_keeps_units:
  assumes "distinct slaves" "rooms_wf existing" "list_all (\<lambda>s. profile_field_key s \<in> fst ` set selected) slaves"
  shows "\<exists>rooms. build_rooms_from_profiles slaves selected probes existing = Inr rooms
    \<and> map (\<lambda>room. cell_of room ''slave'') rooms = map CInt slaves \<and> distinct (map key_text rooms)
    \<and> (\<forall>i < length slaves. case unit_origin slaves probes existing (slaves ! i) of
        Some (_, old) \<Rightarrow> key_text (rooms ! i) = key_text old \<and> name_text (rooms ! i) = name_text old
      | None \<Rightarrow> \<forall>j < length slaves. i \<noteq> j \<longrightarrow> name_text (rooms ! i) \<noteq> name_text (rooms ! j))"
proof -
  obtain rooms where b: "scan_built slaves selected probes existing rooms"
    using scan_total [OF assms] .
  have "map (\<lambda>room. cell_of room ''slave'') rooms = map CInt slaves"
    using built_at_texts(3) [OF rooms_built(2) [OF b]] rooms_built(1) [OF b]
    by (auto intro!: nth_equalityI)
  with b show ?thesis
    using scan_keys [OF b] scan_names [OF b]
    by (intro exI [of _ rooms]) (auto simp: scan_built_def kept_key_def split: option.splits)
qed


section \<open>Setup codes\<close>

lemma count_list_once: "distinct xs \<Longrightarrow> x \<in> set xs \<Longrightarrow> count_list xs x = 1"
  by (induction xs) auto

lemma same_code_same_room:
  assumes "count_list (stored_codes existing) (CStr code) = 1" "distinct (map fst existing)"
    and "(a, r) \<in> set existing" "(b, r') \<in> set existing" "stored_code r = CStr code" "stored_code r' = CStr code"
  shows "a = b \<and> r = r'"
proof (rule ccontr)
  assume "\<not> (a = b \<and> r = r')"
  then have "(a, r) \<noteq> (b, r')" by blast
  then obtain us vs ws where
    "existing = us @ (a, r) # vs @ (b, r') # ws \<or> existing = us @ (b, r') # vs @ (a, r) # ws"
    using assms(3,4) by (rule two_places)
  then have "2 \<le> count_list (stored_codes existing) (CStr code)"
    using assms(5,6) by (elim disjE) (simp_all add: stored_codes_def)
  with assms(1) show False by simp
qed

lemma code_found:
  assumes wf: "rooms_wf existing" and once: "count_list (stored_codes existing) (CStr code) = 1"
    and room: "(a, r) \<in> set existing" "stored_code r = CStr code"
  shows "map_of (rooms_by_code existing) code = Some (a, r)"
proof -
  let ?ps = "map (\<lambda>(old_slave, room). (py_str (stored_code room), (old_slave, room)))
       (filter (\<lambda>(_, room). stored_code room \<noteq> CNone
           \<and> count_list (stored_codes existing) (stored_code room) = 1) existing)"
  have coded: "stored_code s = CStr (py_str (stored_code s))" if "(b, s) \<in> set existing" "stored_code s \<noteq> CNone" for b s
    using wf that by (auto simp: rooms_wf_def list_all_iff)
  have "inj_on fst (set ?ps)"
  proof (rule inj_onI)
    fix x y assume xy: "x \<in> set ?ps" "y \<in> set ?ps" "fst x = fst y"
    have "\<exists>b s. (b, s) \<in> set existing \<and> stored_code s = CStr (fst z) \<and> snd z = (b, s)
        \<and> count_list (stored_codes existing) (CStr (fst z)) = 1" if "z \<in> set ?ps" for z
      using that coded by (auto simp del: py_str.simps)
    from this [OF xy(1)] this [OF xy(2)] show "x = y"
      using same_code_same_room [of existing "fst x" "fst (snd x)" "snd (snd x)" "fst (snd y)" "snd (snd y)"] wf xy(3) by (auto simp: rooms_wf_def prod_eq_iff)
  qed
  moreover have "distinct ?ps"
    using wf by (auto simp: rooms_wf_def distinct_map inj_on_def intro!: distinct_filter)
  ultimately have d: "distinct (map fst ?ps)" by (simp only: distinct_map)
  have "(code, (a, r)) \<in> set ?ps" using room once by force
  with d show ?thesis by (simp add: rooms_by_code_def)
qed

lemma unit_code:
  assumes b: "scan_built slaves selected probes existing rooms" and i: "i < length slaves"
  shows "stored_code (rooms ! i) = (case unit_setup_code (map_of probes (slaves ! i))
      (case unit_origin slaves probes existing (slaves ! i) of
         None \<Rightarrow> [] | Some (_, room) \<Rightarrow> readdressed room (slaves ! i)) (probed_of probes) of
       None \<Rightarrow> CNone | Some code \<Rightarrow> CStr code)"
  using built_at_texts(5) [OF rooms_built(2) [OF b i]] i b by (simp add: matched_room scan_built_def)

lemma probed_is_used:
  "probed_code probes s = Some code \<Longrightarrow> unit_setup_code (map_of probes s) old probed = Some code"
  by (auto simp: probed_code_def unit_setup_code_def split: option.splits)

text \<open>
  C15. A unit follows its setup code: if one address reports the code and one stored unit has it, the
  unit is recognised at that address wherever it was before, even when another stored unit lived there,
  and keeps its key, its name and its code.
\<close>

theorem unit_follows_its_code:
  assumes "distinct slaves" "rooms_wf existing"
    and "build_rooms_from_profiles slaves selected probes existing = Inr rooms"
    and "(old_slave, old) \<in> set existing" "stored_code old = CStr code"
    and "count_list (stored_codes existing) (CStr code) = 1"
    and "i < length slaves" "probed_code probes (slaves ! i) = Some code"
    and "count_list (probed_codes probes slaves) code = 1"
  shows "cell_of (rooms ! i) ''slave'' = CInt (slaves ! i) \<and> key_text (rooms ! i) = key_text old
    \<and> name_text (rooms ! i) = name_text old \<and> stored_code (rooms ! i) = CStr code"
proof -
  have b: "scan_built slaves selected probes existing rooms" using assms by (simp add: scan_built_def)
  have o': "unit_origin slaves probes existing (slaves ! i) = Some (old_slave, old)"
    using assms code_found [OF assms(2,6,4,5)] by (simp add: unit_origin_def followed_unit_def)
  show ?thesis
    using scan_keys(1) [OF b assms(7)] scan_names(1) [OF b assms(7) o'] o'
      built_at_texts(3) [OF rooms_built(2) [OF b assms(7)]] unit_code [OF b assms(7)] probed_is_used [OF assms(8)]
    by (simp add: kept_key_def)
qed

lemma distinct_map_filter_inj:
  assumes "distinct (List.map_filter f xs)" "x \<in> set xs" "y \<in> set xs" "f x = Some c" "f y = Some c"
  shows "x = y"
proof (rule ccontr)
  assume "x \<noteq> y"
  then obtain us vs ws where "xs = us @ x # vs @ y # ws \<or> xs = us @ y # vs @ x # ws"
    using assms(2,3) by (rule two_places)
  then show False using assms(1,4,5) by (auto simp: List.map_filter_def)
qed



section \<open>Matching again\<close>

lemma distinct_fst_map_filter:
  "distinct xs \<Longrightarrow> distinct (map fst (List.map_filter (\<lambda>s. map_option (Pair s) (f s)) xs))"
proof (induction xs)
  case (Cons x xs)
  then show ?case
    using fst_map_filter [of f xs] by (auto simp: List.map_filter_simps split: option.splits)
qed (simp add: List.map_filter_simps)

lemma distinct_match:
  assumes "distinct slaves"
  shows "distinct (map fst (match_existing_rooms slaves probes existing))"
  unfolding match_existing_eq [OF assms] map_append distinct_append set_map fst_map_filter
  by (intro conjI distinct_fst_map_filter assms) auto

lemma match_from:
  assumes "distinct slaves" "(s, r) \<in> set (match_existing_rooms slaves probes existing)"
  shows "s \<in> set slaves \<and> (\<exists>a r'. unit_origin slaves probes existing s = Some (a, r') \<and> r = readdressed r' s
    \<and> (a, r') \<in> set existing)"
proof -
  have "map_of (match_existing_rooms slaves probes existing) s = Some r"
    using distinct_match [OF assms(1)] assms(2) by simp
  then show ?thesis
    using origin_from by (fastforce simp: map_of_match [OF assms(1)] split: if_splits)
qed

lemma wf_match:
  assumes "distinct slaves" "rooms_wf existing"
  shows "rooms_wf (match_existing_rooms slaves probes existing)"
proof -
  let ?m = "match_existing_rooms slaves probes existing"
  note d = distinct_match [OF assms(1), of probes existing]
  have "inj_on (\<lambda>(_, room). key_text room) (set ?m)"
  proof (rule inj_onI, clarify)
    fix s r t r' assume m: "(s, r) \<in> set ?m" "(t, r') \<in> set ?m" and eq: "key_text r = key_text r'"
    obtain a q where s: "unit_origin slaves probes existing s = Some (a, q)" "r = readdressed q s" "s \<in> set slaves"
      using match_from [OF assms(1) m(1)] by blast
    obtain b q' where t: "unit_origin slaves probes existing t = Some (b, q')" "r' = readdressed q' t" "t \<in> set slaves"
      using match_from [OF assms(1) m(2)] by blast
    have "s = t" using origin_key_inj [OF assms s(3) t(3) s(1) t(1)] eq s(2) t(2) by simp
    then show "s = t \<and> r = r'" using m d by (metis eq_key_imp_eq_value)
  qed
  moreover have "distinct ?m" using d by (simp add: distinct_map)
  ultimately have "distinct (map (\<lambda>(_, room). key_text room) ?m)" by (simp add: distinct_map)
  moreover have "(\<exists>c s. cell_of r ''key'' = CStr (c # s)) \<and> (\<exists>c s. cell_of r ''name'' = CStr (c # s))
      \<and> (stored_code r = CNone \<or> (\<exists>s. stored_code r = CStr s))" if m: "(s, r) \<in> set ?m" for s r
  proof -
    from match_from [OF assms(1) m] obtain a r' where "(a, r') \<in> set existing" "r = readdressed r' s" by blast
    then show ?thesis using assms(2) by (auto simp: rooms_wf_def list_all_iff)
  qed
  ultimately show ?thesis
    using d unfolding rooms_wf_def list_all_iff by blast
qed

lemma codes_match:
  assumes "distinct slaves" "rooms_wf existing" "distinct (stored_codes existing)"
  shows "distinct (stored_codes (match_existing_rooms slaves probes existing))"
proof -
  let ?m = "match_existing_rooms slaves probes existing"
  note d = distinct_match [OF assms(1), of probes existing]
  have "inj_on (\<lambda>(_, room). stored_code room) {x \<in> set ?m. case x of (_, room) \<Rightarrow> stored_code room \<noteq> CNone}"
  proof (rule inj_onI, clarify)
    fix s r t r' assume m: "(s, r) \<in> set ?m" "(t, r') \<in> set ?m" and eq: "stored_code r = stored_code r'"
      and some: "stored_code r' \<noteq> CNone"
    obtain a q where s: "unit_origin slaves probes existing s = Some (a, q)" "r = readdressed q s"
        "(a, q) \<in> set existing" "s \<in> set slaves" using match_from [OF assms(1) m(1)] by blast
    obtain b q' where t: "unit_origin slaves probes existing t = Some (b, q')" "r' = readdressed q' t"
        "(b, q') \<in> set existing" "t \<in> set slaves" using match_from [OF assms(1) m(2)] by blast
    obtain code where code: "stored_code q = CStr code" "stored_code q' = CStr code"
      using assms(2) some eq s(2,3) t(2,3) by (auto simp: rooms_wf_def list_all_iff)
    have "CStr code \<in> set (stored_codes existing)" using s(3) code(1) by (force simp: stored_codes_def)
    from count_list_once [OF assms(3) this] have "a = b"
      using same_code_same_room [OF _ _ s(3) t(3) code] assms(2) by (auto simp: rooms_wf_def)
    then have "s = t"
      using origin_inj [OF assms(1) _ s(4) t(4) s(1)] t(1) assms(2) by (auto simp: rooms_wf_def)
    then show "s = t \<and> r = r'" using m d by (metis eq_key_imp_eq_value)
  qed
  moreover have "distinct ?m" using d by (simp add: distinct_map)
  moreover have "stored_codes ?m = map (\<lambda>(_, room). stored_code room)
      (filter (\<lambda>x. case x of (_, room) \<Rightarrow> stored_code room \<noteq> CNone) ?m)"
    by (simp add: stored_codes_def filter_map comp_def case_prod_unfold)
  ultimately show ?thesis by (simp add: distinct_map)
qed

lemma readdressed_twice [simp]: "readdressed (readdressed room s) t = readdressed room t"
proof -
  have "AList.update k v (AList.update k w d) = AList.update k v d" for k :: string and v w :: cell and d
    by (induction d) auto
  then show ?thesis by (simp add: readdressed_def)
qed

text \<open>
  Matching is settled: matching the matched units with the same scan once more changes nothing, so
  the form of a rescan, which matches once, and its saving, which matches the matched units again, agree;
  provided that no two stored units share a setup code.
\<close>

lemma matching_twice_agrees:
  assumes "distinct slaves" "rooms_wf existing" "distinct (stored_codes existing)"
  shows "match_existing_rooms slaves probes (match_existing_rooms slaves probes existing)
    = match_existing_rooms slaves probes existing"
proof -
  let ?m = "match_existing_rooms slaves probes existing"
  let ?f = "followed_unit slaves probes existing" and ?g = "followed_unit slaves probes ?m"
  have follow: "?g s = map_option (\<lambda>(_, room). (s, readdressed room s)) (?f s)" if s: "s \<in> set slaves" for s
  proof (cases "?f s")
    case (Some old)
    then obtain a r where r: "?f s = Some (a, r)" by (cases old) auto
    note from_r = followed_from [OF r]
    have o': "unit_origin slaves probes existing s = Some (a, r)" using r by (simp add: unit_origin_def)
    then have "map_of ?m s = Some (readdressed r s)" using s by (simp add: map_of_match [OF assms(1)])
    then have m: "(s, readdressed r s) \<in> set ?m" by (rule map_of_SomeD)
    obtain code where code: "stored_code r = CStr code"
      using assms(2) from_r by (auto simp: rooms_wf_def list_all_iff)
    have "CStr code \<in> set (stored_codes ?m)" using m code by (force simp: stored_codes_def)
    from code_found [OF wf_match [OF assms(1,2)] count_list_once [OF codes_match [OF assms] this] m] code
    show ?thesis using from_r r by (simp add: followed_unit_def)
  next
    case None
    have "?g s = None"
    proof (rule ccontr)
      assume "?g s \<noteq> None"
      then obtain t r where r: "?g s = Some (t, r)" by auto
      note from_r = followed_from [OF r]
      then obtain a q where q: "r = readdressed q t" "(a, q) \<in> set existing"
        using match_from [OF assms(1)] by blast
      obtain code where code: "stored_code q = CStr code"
        using assms(2) from_r q by (auto simp: rooms_wf_def list_all_iff)
      have "CStr code \<in> set (stored_codes existing)" using q code by (force simp: stored_codes_def)
      from code_found [OF assms(2) count_list_once [OF assms(3) this] q(2) code]
      show False using None from_r q code by (simp add: followed_unit_def)
    qed
    with None show ?thesis by simp
  qed
  have claimed: "s \<notin> set (claimed_slaves slaves probes ?m)" if "s \<in> set slaves" "?f s = None" for s
    using that follow by (auto simp: claimed_slaves_def List.map_filter_def)
  have place: "map_of ?m s = (if s \<notin> set (claimed_slaves slaves probes existing)
      then map_option (\<lambda>room. readdressed room s) (map_of existing s) else None)"
    if "s \<in> set slaves" "?f s = None" for s
    using that by (simp add: map_of_match [OF assms(1)] unit_origin_def option.map_comp comp_def)
  show ?thesis
    unfolding match_existing_eq [OF assms(1), of probes ?m]
    by (subst match_existing_eq [OF assms(1)], rule arg_cong2 [where f = append]; rule map_filter_cong)
      (simp_all add: follow claimed place option.map_comp comp_def case_prod_unfold)
qed


text \<open>
  Without that condition the two disagree. Units 2 and 3 are stored with one setup code, unit 3 is gone,
  and unit 5 reports the code while unit 2 reports none: the form keeps unit 2 at its address, but
  saving moves it to address 5 and makes address 2 a new unit.
\<close>

definition shared_code_rooms :: rooms_by_slave where
  "shared_code_rooms =
     map (\<lambda>(s, key, name). (s, [(''key'', CStr key), (''name'', CStr name), (''slave'', CInt s),
         (''app_setup_code'', CStr ''R00000A'')])) [(2, ''slave_2'', ''Kitchen''), (3, ''slave_3'', ''Bath'')]"

definition plain_probe :: "string option \<Rightarrow> unit_probe_result" where
  "plain_probe code =
     \<lparr>probe_profile = ''plain'', probe_preview = None, probe_product_id = None, probe_setup_code = code\<rparr>"

lemma shared_code_moves_unit:
  "let probes = [(2, plain_probe None), (5, plain_probe (Some ''R00000A''))];
       shown = match_existing_rooms [2, 5] probes shared_code_rooms;
       saved = match_existing_rooms [2, 5] probes shown
   in rooms_wf shared_code_rooms
     \<and> map (\<lambda>(s, room). (s, key_text room)) shown = [(2, ''slave_2'')]
     \<and> map (\<lambda>(s, room). (s, key_text room)) saved = [(5, ''slave_2'')]"
proof -
  have "rooms_wf shared_code_rooms"
    by (simp add: rooms_wf_def shared_code_rooms_def key_text_def cell_of_def dict_get_def)
  moreover have "map (\<lambda>(s, room). (s, key_text room))
      (match_existing_rooms [2, 5] [(2, plain_probe None), (5, plain_probe (Some ''R00000A''))] shared_code_rooms)
    = [(2, ''slave_2'')]"
    by code_simp
  moreover have "map (\<lambda>(s, room). (s, key_text room))
      (match_existing_rooms [2, 5] [(2, plain_probe None), (5, plain_probe (Some ''R00000A''))]
        (match_existing_rooms [2, 5] [(2, plain_probe None), (5, plain_probe (Some ''R00000A''))] shared_code_rooms))
    = [(5, ''slave_2'')]"
    by code_simp
  ultimately show ?thesis by (simp add: Let_def)
qed

section \<open>One more unit is a new one\<close>

lemma new_unit_is_new:
  assumes "new_unit_room slave profile result existing = Inr room"
  shows "key_text room \<notin> set (map key_text existing)" "name_text room \<notin> set (map name_text existing)"
    "cell_of room ''slave'' = CInt slave"
proof -
  have all_items: "all_right (map (\<lambda>room. item room k) rs) = Inr cs \<Longrightarrow> cs = map (\<lambda>room. cell_of room k) rs" for k rs cs
    by (induction rs arbitrary: cs)
      (auto simp: and_then_Inr item_def cell_of_def dict_get_def split: option.splits)
  from assms obtain keys names where "keys = map (\<lambda>room. cell_of room ''key'') existing"
    "names = map (\<lambda>room. cell_of room ''name'') existing"
    and room: "key_text room = free_text (map py_str keys) (''slave_'' @ int_text slave) ((''slave_'' @ int_text slave) @ ''_'') []"
      "name_text room = default_room_name profile
         (case result of None \<Rightarrow> None | Some r \<Rightarrow> probe_setup_code r) (map py_str names)"
      "cell_of room ''slave'' = CInt slave"
    by (auto simp: new_unit_room_def and_then_Inr Let_def key_text_def name_text_def cell_of_def dict_get_def dest!: all_items)
  moreover from this(1,2) have "map py_str keys = map key_text existing" "map py_str names = map name_text existing"
    by (simp_all add: key_text_def name_text_def)
  ultimately show "key_text room \<notin> set (map key_text existing)" "name_text room \<notin> set (map name_text existing)"
    "cell_of room ''slave'' = CInt slave"
    using free_text_fresh default_name_fresh by metis+
qed

section \<open>Examples\<close>

definition swapped_rooms :: rooms_by_slave where
  "swapped_rooms =
     map (\<lambda>(s, key, name, code). (s, [(''key'', CStr key), (''name'', CStr name), (''slave'', CInt s),
         (''app_setup_code'', CStr code)]))
       [(2, ''slave_2'', ''Kitchen'', ''R00000A''), (3, ''slave_3'', ''Bath'', ''R00000B'')]"

definition swapped_probes :: probes where
  "swapped_probes =
     [(2, plain_probe (Some ''R00000B'')), (3, plain_probe (Some ''R00000A'')), (4, plain_probe None)]"

definition chosen_profiles :: "(string, string) dict" where
  "chosen_profiles = [(''slave_2'', ''ii_plain''), (''slave_3'', ''ii_plain''), (''slave_4'', ''ii_f'')]"

lemma swapped_wf: "rooms_wf swapped_rooms"
  by (simp add: rooms_wf_def swapped_rooms_def key_text_def cell_of_def dict_get_def)

lemma swapped_codes: "stored_codes swapped_rooms = [CStr ''R00000A'', CStr ''R00000B'']"
  by (simp add: stored_codes_def swapped_rooms_def cell_of_def dict_get_def)

lemma chosen_fields: "list_all (\<lambda>s. profile_field_key s \<in> fst ` set chosen_profiles) [2, 3, 4]"
  by code_simp

lemma swapped_built:
  "\<exists>kitchen bath. build_rooms_from_profiles [2, 3, 4] chosen_profiles swapped_probes swapped_rooms =
     Inr [bath, kitchen,
       [(''key'', CStr ''slave_4''), (''name'', CStr ''Meltem M-WRG-II''), (''slave'', CInt 4),
        (''profile'', CStr ''ii_f''), (''preview'', CNone), (''name_is_device_name'', CBool True)]]
     \<and> key_text kitchen = ''slave_2'' \<and> key_text bath = ''slave_3''
     \<and> stored_code kitchen = CStr ''R00000A'' \<and> stored_code bath = CStr ''R00000B''"
proof -
  have "build_rooms_from_profiles [2, 3, 4] chosen_profiles swapped_probes swapped_rooms =
     Inr [[(''key'', CStr ''slave_3''), (''name'', CStr ''Bath''), (''slave'', CInt 2),
        (''profile'', CStr ''ii_plain''), (''preview'', CNone), (''app_setup_code'', CStr ''R00000B'')],
       [(''key'', CStr ''slave_2''), (''name'', CStr ''Kitchen''), (''slave'', CInt 3),
        (''profile'', CStr ''ii_plain''), (''preview'', CNone), (''app_setup_code'', CStr ''R00000A'')],
       [(''key'', CStr ''slave_4''), (''name'', CStr ''Meltem M-WRG-II''), (''slave'', CInt 4),
        (''profile'', CStr ''ii_f''), (''preview'', CNone), (''name_is_device_name'', CBool True)]]"
    by code_simp
  then show ?thesis by (simp add: key_text_def cell_of_def dict_get_def)
qed

lemma scan_keeps_units_witness:
  "\<exists>rooms. build_rooms_from_profiles [2, 3, 4] chosen_profiles swapped_probes swapped_rooms = Inr rooms
    \<and> map (\<lambda>room. cell_of room ''slave'') rooms = map CInt [2, 3, 4] \<and> distinct (map key_text rooms)
    \<and> (\<forall>i < length [2 :: int, 3, 4]. case unit_origin [2, 3, 4] swapped_probes swapped_rooms ([2, 3, 4] ! i) of
        Some (_, old) \<Rightarrow> key_text (rooms ! i) = key_text old \<and> name_text (rooms ! i) = name_text old
      | None \<Rightarrow> \<forall>j < length [2 :: int, 3, 4]. i \<noteq> j \<longrightarrow> name_text (rooms ! i) \<noteq> name_text (rooms ! j))"
  by (rule scan_keeps_units [OF _ swapped_wf chosen_fields]) simp

lemma unit_follows_its_code_witness:
  "\<exists>rooms. build_rooms_from_profiles [2, 3, 4] chosen_profiles swapped_probes swapped_rooms = Inr rooms
    \<and> cell_of (rooms ! 1) ''slave'' = CInt 3 \<and> key_text (rooms ! 1) = ''slave_2''"
proof -
  obtain rooms where rooms: "build_rooms_from_profiles [2, 3, 4] chosen_profiles swapped_probes swapped_rooms = Inr rooms"
    using swapped_built by blast
  have old: "(2, snd (swapped_rooms ! 0)) \<in> set swapped_rooms" "stored_code (snd (swapped_rooms ! 0)) = CStr ''R00000A''"
    "key_text (snd (swapped_rooms ! 0)) = ''slave_2''"
    by (simp_all add: swapped_rooms_def key_text_def cell_of_def dict_get_def)
  have "probed_code swapped_probes 3 = Some ''R00000A''"
    "count_list (probed_codes swapped_probes [2, 3, 4]) ''R00000A'' = 1"
    by (simp_all add: probed_codes_def List.map_filter_simps probed_code_def swapped_probes_def plain_probe_def)
  then show ?thesis
    using unit_follows_its_code [OF _ swapped_wf rooms old(1,2), of 1] rooms old(3) by (simp add: swapped_codes)
qed


lemma matching_twice_agrees_witness:
  "match_existing_rooms [2, 3, 4] swapped_probes (match_existing_rooms [2, 3, 4] swapped_probes swapped_rooms)
    = match_existing_rooms [2, 3, 4] swapped_probes swapped_rooms"
  by (rule matching_twice_agrees [OF _ swapped_wf]) (simp_all add: swapped_codes)

end
