(* ===== verification/Rescan.thy ===== *)
theory Rescan
  imports Unit_Scans "HOL-Library.Multiset"
begin

text \<open>
  \<open>options_flow.py\<close>: the rescan of a gateway as a state machine of forms, and how its result is stored in
  the unit subentries. Home Assistant's config entries are the calls made to them; the coordinator's
  discovery and probe are parameters.
\<close>

section \<open>Storing the units of a rescan\<close>

datatype subentry_call =
    SubentryRemoved string
  | UniqueIdCleared string
  | SubentryAdded subentry_data
  | SubentryUpdated string stored_room string

definition subentry_key :: "unit_subentry \<Rightarrow> meltem_error + string" where
  "subentry_key s = and_then (item (sub_data s) ''key'') (\<lambda>key. Inr (py_str key))"

definition slave_text :: "stored_room \<Rightarrow> string" where
  "slave_text room = py_str (cell_of room ''slave'')"

definition units_by_key :: "unit_subentry list \<Rightarrow> meltem_error + (string, unit_subentry) dict" where
  "units_by_key subentries =
     and_then (unit_subentries subentries) (\<lambda>units.
     and_then (all_right (map subentry_key units)) (\<lambda>keys. Inr (dict_of (zip keys units))))"

text \<open>\<open>pop\<close> per built unit: the kept subentry or none, and what is left over.\<close>

fun keep_units ::
  "(string, unit_subentry) dict \<Rightarrow> stored_room list
     \<Rightarrow> (unit_subentry option \<times> stored_room) list \<times> (string, unit_subentry) dict" where
  "keep_units subs [] = ([], subs)"
| "keep_units subs (room # rooms) =
     (let (kept, rest) = keep_units (AList.delete (key_text room) subs) rooms
      in ((map_of subs (key_text room), room) # kept, rest))"

fun clearing_call :: "unit_subentry option \<times> stored_room \<Rightarrow> subentry_call list" where
  "clearing_call (None, room) = []"
| "clearing_call (Some s, room) =
     (if sub_unique_id s \<noteq> Some (slave_text room) then [UniqueIdCleared (sub_id s)] else [])"

fun storing_call :: "unit_subentry option \<times> stored_room \<Rightarrow> meltem_error + subentry_call" where
  "storing_call (None, room) = and_then (unit_subentry_data room) (\<lambda>d. Inr (SubentryAdded d))"
| "storing_call (Some s, room) = Inr (SubentryUpdated (sub_id s) (unit_data room) (slave_text room))"

definition save_profiles ::
  "int list \<Rightarrow> (string, string) dict \<Rightarrow> probes \<Rightarrow> rooms_by_slave \<Rightarrow> unit_subentry list
     \<Rightarrow> meltem_error + subentry_call list" where
  "save_profiles slaves selected probes existing subentries =
     and_then (build_rooms_from_profiles slaves selected probes existing) (\<lambda>rooms.
     and_then (units_by_key subentries) (\<lambda>subs.
       let (kept, rest) = keep_units subs rooms
       in and_then (all_right (map storing_call kept)) (\<lambda>stored.
            Inr (map (\<lambda>(_, s). SubentryRemoved (sub_id s)) rest @ concat (map clearing_call kept) @ stored))))"

definition stale_subentries ::
  "int list \<Rightarrow> (string, string) dict \<Rightarrow> probes \<Rightarrow> rooms_by_slave \<Rightarrow> unit_subentry list
     \<Rightarrow> meltem_error + unit_subentry list" where
  "stale_subentries slaves selected probes existing subentries =
     and_then (build_rooms_from_profiles slaves selected probes existing) (\<lambda>rooms.
     and_then (unit_subentries subentries) (\<lambda>units.
     and_then (all_right (map subentry_key units)) (\<lambda>keys.
       Inr (map snd (filter (\<lambda>(key, _). key \<notin> key_text ` set rooms) (zip keys units))))))"

section \<open>The forms\<close>

record rescan_flow =
  rf_slaves :: "int list"
  rf_probes :: probes
  rf_detected :: "(int, string) dict"
  rf_selected :: "(string, string) dict"
  rf_mismatches :: "(int \<times> string) list"

definition NEW_FLOW :: rescan_flow where
  "NEW_FLOW = \<lparr>rf_slaves = [], rf_probes = [], rf_detected = [], rf_selected = [], rf_mismatches = []\<rparr>"

text \<open>
  What the flow answers: a menu, a form (with its error, the preselected profiles, the contradicting
  selections, the units to be removed), or the end with the calls made and the stored request rate.
\<close>

datatype flow_answer =
    InitMenu
  | RateForm real
  | RescanForm "string option"
  | ProfilesForm "(int, string) dict"
  | MismatchForm "(int \<times> string) list"
  | RemovalForm "unit_subentry list"
  | Saved "subentry_call list" real
  | RateStored bool real

record 'w options_env =
  oe_subentries :: "unit_subentry list"
  oe_stored_rate :: "real option"
  oe_running :: bool
  oe_discover :: "'w \<Rightarrow> int list outcome \<times> 'w"
  oe_probe :: "int \<Rightarrow> 'w \<Rightarrow> unit_probe_result outcome \<times> 'w"

definition max_requests_per_second :: "'w options_env \<Rightarrow> real" where
  "max_requests_per_second env =
     (case oe_stored_rate env of None \<Rightarrow> DEFAULT_MAX_REQUESTS_PER_SECOND | Some rate \<Rightarrow> rate)"

text \<open>
  A new rate goes to the running coordinator; without one it is stored and the entry reloaded, which
  the flag of \<^const>\<open>RateStored\<close> says.
\<close>

definition edit_request_rate :: "'w options_env \<Rightarrow> real option \<Rightarrow> flow_answer" where
  "edit_request_rate env input =
     (case input of
        None \<Rightarrow> RateForm (max_requests_per_second env)
      | Some rate \<Rightarrow> RateStored (\<not> oe_running env) rate)"

definition rescan ::
  "'w options_env \<Rightarrow> rescan_flow \<Rightarrow> 'w \<Rightarrow> (string option \<times> rescan_flow) outcome \<times> 'w" where
  "rescan env st w =
     (if \<not> oe_running env then (Returned (Some ''cannot_connect'', st), w)
      else case oe_discover env w of
          (Erred e, w) \<Rightarrow>
            if meltem_modbus_error e then (Returned (Some ''cannot_connect'', st), w) else (Erred e, w)
        | (Aborted, w) \<Rightarrow> (Aborted, w)
        | (Returned slaves, w) \<Rightarrow>
            if slaves = [] then (Returned (Some ''no_devices_found'', st), w)
            else await_then (async_probe_units (oe_probe env) slaves w) (\<lambda>probes w.
              (Returned (None, st\<lparr>rf_probes := probes, rf_detected := probe_profiles probes,
                 rf_slaves := slaves\<rparr>), w)))"

definition matched_rooms :: "'w options_env \<Rightarrow> rescan_flow \<Rightarrow> meltem_error + rooms_by_slave" where
  "matched_rooms env st =
     and_then (unit_rooms (oe_subentries env))
       (\<lambda>existing. Inr (match_existing_rooms (rf_slaves st) (rf_probes st) existing))"

definition chosen_for :: "(string, string) dict \<Rightarrow> int \<Rightarrow> meltem_error + int \<times> string" where
  "chosen_for selected slave =
     (case map_of selected (profile_field_key slave) of
        None \<Rightarrow> Inl (KeyError (profile_field_key slave)) | Some profile \<Rightarrow> Inr (slave, profile))"

definition finish_save :: "'w options_env \<Rightarrow> rescan_flow \<Rightarrow> rooms_by_slave \<Rightarrow> meltem_error + flow_answer" where
  "finish_save env st existing =
     and_then (save_profiles (rf_slaves st) (rf_selected st) (rf_probes st) existing (oe_subentries env))
       (\<lambda>calls. Inr (Saved calls (max_requests_per_second env)))"

definition confirm_remove :: "'w options_env \<Rightarrow> bool \<Rightarrow> rescan_flow \<Rightarrow> meltem_error + flow_answer" where
  "confirm_remove env submitted st =
     and_then (matched_rooms env st) (\<lambda>existing.
       if submitted then finish_save env st existing
       else and_then (stale_subentries (rf_slaves st) (rf_selected st) (rf_probes st) existing (oe_subentries env))
              (\<lambda>stale. Inr (RemovalForm stale)))"

definition finish_profiles :: "'w options_env \<Rightarrow> rescan_flow \<Rightarrow> rooms_by_slave \<Rightarrow> meltem_error + flow_answer" where
  "finish_profiles env st existing =
     and_then (stale_subentries (rf_slaves st) (rf_selected st) (rf_probes st) existing (oe_subentries env))
       (\<lambda>stale. if stale \<noteq> [] then confirm_remove env False st else finish_save env st existing)"

definition preselected :: "rescan_flow \<Rightarrow> rooms_by_slave \<Rightarrow> (int, string) dict" where
  "preselected st existing =
     fold (\<lambda>slave d. case map_of (rf_selected st) (profile_field_key slave) of
         None \<Rightarrow> d | Some profile \<Rightarrow> AList.update slave profile d)
       (rf_slaves st) (profile_defaults (rf_slaves st) (rf_detected st) existing)"

definition step_profiles ::
  "'w options_env \<Rightarrow> (string, string) dict option \<Rightarrow> rescan_flow \<Rightarrow> meltem_error + flow_answer \<times> rescan_flow" where
  "step_profiles env input st =
     (if rf_slaves st = [] then Inr (InitMenu, st)
      else and_then (matched_rooms env st) (\<lambda>existing.
        case input of
          None \<Rightarrow> Inr (ProfilesForm (preselected st existing), st)
        | Some selected \<Rightarrow>
            and_then (all_right (map (chosen_for selected) (rf_slaves st))) (\<lambda>profiles.
              let st1 = st\<lparr>rf_selected := selected, rf_mismatches := profile_mismatches profiles (rf_probes st)\<rparr>
              in if rf_mismatches st1 \<noteq> [] then Inr (MismatchForm (rf_mismatches st1), st1)
                 else and_then (finish_profiles env st1 existing) (\<lambda>a. Inr (a, st1)))))"

definition confirm_mismatch ::
  "'w options_env \<Rightarrow> string option \<Rightarrow> rescan_flow \<Rightarrow> meltem_error + flow_answer \<times> rescan_flow" where
  "confirm_mismatch env action st =
     (case action of
        None \<Rightarrow> Inr (MismatchForm (rf_mismatches st), st)
      | Some a \<Rightarrow>
          if a = ''correct'' then step_profiles env None st
          else and_then (matched_rooms env st) (\<lambda>existing.
            and_then (finish_profiles env st existing) (\<lambda>a. Inr (a, st))))"

definition rescan_units ::
  "'w options_env \<Rightarrow> bool \<Rightarrow> rescan_flow \<Rightarrow> 'w
     \<Rightarrow> (meltem_error + flow_answer \<times> rescan_flow) outcome \<times> 'w" where
  "rescan_units env submitted st w =
     (if \<not> submitted then (Returned (Inr (RescanForm None, st)), w)
      else await_then (rescan env st w) (\<lambda>(error, st) w.
        (Returned (case error of
            None \<Rightarrow> step_profiles env None st
          | Some e \<Rightarrow> Inr (RescanForm (Some e), st)), w)))"


section \<open>The stored units\<close>

definition slave_of :: "unit_subentry \<Rightarrow> int" where
  "slave_of s = (case cell_of (sub_data s) ''slave'' of CInt n \<Rightarrow> n | _ \<Rightarrow> 0)"

definition loaded :: "unit_subentry \<Rightarrow> stored_room" where
  "loaded s = AList.update ''name'' (CStr (sub_title s)) (sub_data s)"

text \<open>What the flows store: every unit with an address, a key, a title, and IDs of its own.\<close>

definition subentries_wf :: "unit_subentry list \<Rightarrow> bool" where
  "subentries_wf subs \<longleftrightarrow>
     list_all (\<lambda>s. (\<exists>n. cell_of (sub_data s) ''slave'' = CInt n) \<and> (\<exists>c t. cell_of (sub_data s) ''key'' = CStr (c # t))
        \<and> sub_title s \<noteq> [] \<and> (stored_code (sub_data s) = CNone \<or> (\<exists>c. stored_code (sub_data s) = CStr c))) subs
     \<and> distinct (map sub_id subs) \<and> distinct (map (\<lambda>s. key_text (sub_data s)) subs) \<and> distinct (map slave_of subs)"

lemma all_right_map: "(\<And>x. x \<in> set xs \<Longrightarrow> f x = Inr (g x)) \<Longrightarrow> all_right (map f xs) = Inr (map g xs)"
  by (induction xs) auto

lemma subentry_slave_wf: "subentries_wf subs \<Longrightarrow> s \<in> set subs \<Longrightarrow> subentry_slave s = Inr (slave_of s)"
  by (auto simp: subentries_wf_def list_all_iff subentry_slave_def slave_of_def item_cell)

lemma subentry_key_wf: "subentries_wf subs \<Longrightarrow> s \<in> set subs \<Longrightarrow> subentry_key s = Inr (key_text (sub_data s))"
  by (fastforce simp: subentries_wf_def list_all_iff subentry_key_def key_text_def item_cell)

lemma read_units:
  assumes "subentries_wf subs"
  shows "all_right (map subentry_slave subs) = Inr (map slave_of subs)"
    and "all_right (map subentry_key subs) = Inr (map (\<lambda>s. key_text (sub_data s)) subs)"
  by (rule all_right_map, simp add: subentry_slave_wf [OF assms] subentry_key_wf [OF assms])+

definition ordered_units :: "unit_subentry list \<Rightarrow> unit_subentry list" where
  "ordered_units subs = map snd (sort_key fst (zip (map slave_of subs) subs))"

lemma mset_ordered: "mset (ordered_units subs) = mset subs"
proof -
  have "mset (ordered_units subs) = mset (map snd (zip (map slave_of subs) subs))"
    by (simp only: ordered_units_def mset_map mset_sort)
  then show ?thesis by simp
qed

lemma set_ordered [simp]: "set (ordered_units subs) = set subs"
  by (metis mset_ordered set_mset_mset)

lemma distinct_ordered: "distinct (map f (ordered_units subs)) \<longleftrightarrow> distinct (map f subs)"
  by (rule mset_eq_imp_distinct_iff) (simp add: mset_ordered)

lemma wf_ordered: "subentries_wf subs \<Longrightarrow> subentries_wf (ordered_units subs)"
  by (simp add: subentries_wf_def list_all_iff distinct_ordered)

lemma unit_subentries_wf: "subentries_wf subs \<Longrightarrow> unit_subentries subs = Inr (ordered_units subs)"
  by (simp add: unit_subentries_def read_units ordered_units_def)

lemma unit_rooms_wf:
  assumes "subentries_wf subs"
  shows "unit_rooms subs = Inr (map (\<lambda>s. (slave_of s, loaded s)) (ordered_units subs))"
    and "rooms_wf (map (\<lambda>s. (slave_of s, loaded s)) (ordered_units subs))"
proof -
  note wf = wf_ordered [OF assms]
  have d: "distinct (map slave_of (ordered_units subs))" using wf by (simp add: subentries_wf_def)
  have "zip (map slave_of us) (map loaded us) = map (\<lambda>s. (slave_of s, loaded s)) us" for us
    by (induction us) auto
  then show "unit_rooms subs = Inr (map (\<lambda>s. (slave_of s, loaded s)) (ordered_units subs))"
    using d by (simp add: unit_rooms_def unit_subentries_wf [OF assms] read_units [OF wf] comp_def
        flip: loaded_def)
  have [simp]: "cell_of (loaded s) ''key'' = cell_of (sub_data s) ''key''" "cell_of (loaded s) ''name'' = CStr (sub_title s)"
    "stored_code (loaded s) = stored_code (sub_data s)" "key_text (loaded s) = key_text (sub_data s)" for s
    by (simp_all add: loaded_def key_text_def)
  show "rooms_wf (map (\<lambda>s. (slave_of s, loaded s)) (ordered_units subs))"
    using wf by (auto simp: rooms_wf_def subentries_wf_def list_all_iff comp_def neq_Nil_conv)
qed

section \<open>Kept and stale units\<close>

lemma keep_units_eq:
  "distinct (map key_text rooms) \<Longrightarrow> keep_units subs rooms =
     (map (\<lambda>room. (map_of subs (key_text room), room)) rooms,
      filter (\<lambda>(key, _). key \<notin> key_text ` set rooms) subs)"
proof (induction rooms arbitrary: subs)
  case (Cons room rooms)
  have "filter (\<lambda>(key, _). key \<notin> key_text ` set rooms) (AList.delete (key_text room) subs)
      = filter (\<lambda>(key, _). key \<notin> key_text ` set (room # rooms)) subs"
    by (auto simp: AList.delete_eq intro!: filter_cong)
  moreover have "map_of (AList.delete (key_text room) subs) (key_text r) = map_of subs (key_text r)" if "r \<in> set rooms" for r
    using Cons.prems that by (metis delete_conv distinct.simps(2) fun_upd_apply image_eqI list.simps(9) set_map)
  ultimately show ?case using Cons by simp
qed (simp add: filter_id_conv)

lemma units_by_key_wf:
  assumes "subentries_wf subs"
  shows "units_by_key subs = Inr (map (\<lambda>s. (key_text (sub_data s), s)) (ordered_units subs))"
proof -
  note wf = wf_ordered [OF assms]
  have "zip (map f us) us = map (\<lambda>s. (f s, s)) us" for f :: "unit_subentry \<Rightarrow> string" and us
    by (induction us) auto
  then show ?thesis
    using wf by (simp add: units_by_key_def unit_subentries_wf [OF assms] read_units [OF wf]
        subentries_wf_def comp_def)
qed

lemma stored_facts:
  assumes "scan_built slaves selected probes existing rooms" "room \<in> set rooms"
  shows "unit_facts_known room" "\<exists>s \<in> set slaves. cell_of room ''slave'' = CInt s"
proof -
  obtain i where i: "i < length slaves" "room = rooms ! i"
    using assms rooms_built(1) [OF assms(1)] by (auto simp: in_set_conv_nth)
  obtain key name p result old probed where "room = built_room key name (slaves ! i) p result old probed"
    using rooms_built(2) [OF assms(1) i(1)] i(2) unfolding built_at_def Let_def by blast
  then show "unit_facts_known room" "\<exists>s \<in> set slaves. cell_of room ''slave'' = CInt s"
    using i(1) by (auto simp: unit_facts_known_def)
qed

definition kept_units :: "unit_subentry list \<Rightarrow> stored_room list \<Rightarrow> (unit_subentry option \<times> stored_room) list" where
  "kept_units subs rooms =
     map (\<lambda>room. (map_of (map (\<lambda>s. (key_text (sub_data s), s)) (ordered_units subs)) (key_text room), room)) rooms"

definition stale_units :: "unit_subentry list \<Rightarrow> stored_room list \<Rightarrow> unit_subentry list" where
  "stale_units subs rooms = filter (\<lambda>s. key_text (sub_data s) \<notin> key_text ` set rooms) (ordered_units subs)"

definition stored_call :: "unit_subentry option \<times> stored_room \<Rightarrow> subentry_call" where
  "stored_call = (\<lambda>(old, room). case old of
       None \<Rightarrow> SubentryAdded \<lparr>new_data = unit_data room, new_title = name_text room, new_unique_id = Some (slave_text room)\<rparr>
     | Some s \<Rightarrow> SubentryUpdated (sub_id s) (unit_data room) (slave_text room))"

lemma storing_call_known: "unit_facts_known room \<Longrightarrow> storing_call (old, room) = Inr (stored_call (old, room))"
  by (cases old) (simp_all add: stored_call_def subentry_data_known name_text_def slave_text_def)

lemma save_profiles_eq:
  assumes b: "scan_built slaves selected probes existing rooms" and wf: "subentries_wf subs"
  shows "save_profiles slaves selected probes existing subs =
      Inr (map (\<lambda>s. SubentryRemoved (sub_id s)) (stale_units subs rooms)
        @ concat (map clearing_call (kept_units subs rooms)) @ map stored_call (kept_units subs rooms))"
    and "stale_subentries slaves selected probes existing subs = Inr (stale_units subs rooms)"
proof -
  have rooms: "build_rooms_from_profiles slaves selected probes existing = Inr rooms"
    using b by (simp add: scan_built_def)
  have "all_right (map storing_call (kept_units subs rooms)) = Inr (map stored_call (kept_units subs rooms))"
    by (rule all_right_map) (auto simp: kept_units_def storing_call_known stored_facts(1) [OF b])
  then show "save_profiles slaves selected probes existing subs =
      Inr (map (\<lambda>s. SubentryRemoved (sub_id s)) (stale_units subs rooms)
        @ concat (map clearing_call (kept_units subs rooms)) @ map stored_call (kept_units subs rooms))"
    by (simp add: save_profiles_def rooms units_by_key_wf [OF wf] keep_units_eq [OF scan_keys(2) [OF b]]
        kept_units_def stale_units_def filter_map comp_def)
  have "map snd (filter (\<lambda>(key, _). key \<notin> A) (zip (map f us) us)) = filter (\<lambda>s. f s \<notin> A) us" for f A and us :: "unit_subentry list"
    by (induction us) auto
  then show "stale_subentries slaves selected probes existing subs = Inr (stale_units subs rooms)"
    by (simp add: stale_subentries_def rooms unit_subentries_wf [OF wf]
        read_units [OF wf_ordered [OF wf]] stale_units_def)
qed


section \<open>Saving never collides\<close>

text \<open>
  What Home Assistant documents of the calls: the subentries of an entry have different unique IDs, and
  a call that would give one subentry the ID of another is refused. A subentry is its ID, none for one
  that was just added, and its unique ID.
\<close>

type_synonym held_ids = "(string option \<times> string option) set"

definition held :: "unit_subentry list \<Rightarrow> held_ids" where
  "held subs = (\<lambda>s. (Some (sub_id s), sub_unique_id s)) ` set subs"

fun accept_call :: "subentry_call \<Rightarrow> held_ids \<Rightarrow> held_ids option" where
  "accept_call (SubentryRemoved i) h = Some {x \<in> h. fst x \<noteq> Some i}"
| "accept_call (UniqueIdCleared i) h = Some ((\<lambda>x. if fst x = Some i then (Some i, None) else x) ` h)"
| "accept_call (SubentryAdded d) h =
     (if new_unique_id d \<noteq> None \<and> new_unique_id d \<in> snd ` h then None
      else Some (insert (None, new_unique_id d) h))"
| "accept_call (SubentryUpdated i data uid) h =
     (if \<exists>x \<in> h. fst x \<noteq> Some i \<and> snd x = Some uid then None
      else Some ((\<lambda>x. if fst x = Some i then (Some i, Some uid) else x) ` h))"

fun accept_calls :: "subentry_call list \<Rightarrow> held_ids \<Rightarrow> held_ids option" where
  "accept_calls [] h = Some h"
| "accept_calls (c # cs) h = (case accept_call c h of None \<Rightarrow> None | Some h \<Rightarrow> accept_calls cs h)"

lemma accept_append:
  "accept_calls (cs @ ds) h = (case accept_calls cs h of None \<Rightarrow> None | Some h \<Rightarrow> accept_calls ds h)"
  by (induction cs arbitrary: h) (auto split: option.splits)

lemma accept_removed:
  "accept_calls (map (\<lambda>s. SubentryRemoved (sub_id s)) us) h = Some {x \<in> h. fst x \<notin> (\<lambda>s. Some (sub_id s)) ` set us}"
  by (induction us arbitrary: h) (auto intro!: Collect_cong)

definition kept_id :: "unit_subentry option \<times> stored_room \<Rightarrow> string option" where
  "kept_id k = map_option sub_id (fst k)"

definition address_id :: "unit_subentry option \<times> stored_room \<Rightarrow> string option" where
  "address_id k = Some (slave_text (snd k))"

definition cleared_id :: "unit_subentry option \<times> stored_room \<Rightarrow> string option" where
  "cleared_id k = (case fst k of None \<Rightarrow> None | Some s \<Rightarrow>
     if sub_unique_id s = address_id k then sub_unique_id s else None)"

lemma cleared_cases: "cleared_id k = None \<or> cleared_id k = address_id k"
  by (auto simp: cleared_id_def split: option.splits)

definition unique_id_of :: "unit_subentry option \<times> stored_room \<Rightarrow> string option" where
  "unique_id_of k = (case fst k of None \<Rightarrow> None | Some s \<Rightarrow> sub_unique_id s)"

definition partly_cleared ::
  "(unit_subentry option \<times> stored_room) list \<Rightarrow> (unit_subentry option \<times> stored_room) list \<Rightarrow> held_ids" where
  "partly_cleared finished ks =
     (\<lambda>k. (kept_id k, cleared_id k)) ` {k \<in> set finished. fst k \<noteq> None}
     \<union> (\<lambda>k. (kept_id k, unique_id_of k)) ` {k \<in> set ks. fst k \<noteq> None}"

lemma other_id:
  assumes "distinct (map kept_id (filter (\<lambda>k. fst k \<noteq> None) (us @ k # vs)))" "fst k \<noteq> None"
    and "j \<in> set us \<union> set vs"
  shows "kept_id j \<noteq> kept_id k"
proof (cases "fst j")
  case None
  then show ?thesis using assms(2) by (auto simp: kept_id_def)
next
  case (Some s)
  have "kept_id k \<notin> kept_id ` {j \<in> set us \<union> set vs. fst j \<noteq> None}"
    using assms(1,2) by auto
  then show ?thesis using Some assms(3) by (metis (mono_tags) image_eqI mem_Collect_eq option.distinct(1))
qed

lemma stored_first:
  "fst k \<noteq> None \<Longrightarrow> {j \<in> set (k # ks). fst j \<noteq> None} = insert k {j \<in> set ks. fst j \<noteq> None}"
  by auto

lemma stored_last:
  "fst k \<noteq> None \<Longrightarrow> {j \<in> set (ks @ [k]). fst j \<noteq> None} = insert k {j \<in> set ks. fst j \<noteq> None}"
  by auto

lemma accept_cleared:
  assumes "distinct (map kept_id (filter (\<lambda>k. fst k \<noteq> None) (finished @ ks)))"
  shows "accept_calls (concat (map clearing_call ks)) (partly_cleared finished ks)
    = Some (partly_cleared (finished @ ks) [])"
  using assms
proof (induction ks arbitrary: finished)
  case (Cons k ks)
  have "accept_calls (clearing_call k) (partly_cleared finished (k # ks)) = Some (partly_cleared (finished @ [k]) ks)"
  proof (cases "fst k")
    case None
    then have "partly_cleared finished (k # ks) = partly_cleared (finished @ [k]) ks"
      by (auto simp: partly_cleared_def)
    then show ?thesis using None by (cases k) simp
  next
    case (Some s)
    have k: "fst k \<noteq> None" "kept_id k = Some (sub_id s)" "k = (Some s, snd k)"
      using Some by (auto simp: prod_eq_iff kept_id_def)
    have "x \<in> partly_cleared finished ks \<Longrightarrow> fst x \<noteq> Some (sub_id s)" for x
      using other_id [OF Cons.prems] Some k(2) by (auto simp: partly_cleared_def)
    moreover have "partly_cleared finished (k # ks) = insert (Some (sub_id s), sub_unique_id s) (partly_cleared finished ks)"
      using stored_first [OF k(1)] k(2) Some by (simp add: partly_cleared_def unique_id_of_def)
    moreover have "partly_cleared (finished @ [k]) ks = insert (Some (sub_id s), cleared_id k) (partly_cleared finished ks)"
      using stored_last [OF k(1)] k(2) by (simp add: partly_cleared_def)
    ultimately show ?thesis
      by (subst k(3)) (auto simp: cleared_id_def Some address_id_def)
  qed
  then show ?case using Cons.IH [of "finished @ [k]"] Cons.prems by (simp add: accept_append)
qed (simp add: partly_cleared_def)

text \<open>The units while they are stored one after another: those done have their address as unique ID.\<close>

definition partly_stored ::
  "(unit_subentry option \<times> stored_room) list \<Rightarrow> (unit_subentry option \<times> stored_room) list \<Rightarrow> held_ids" where
  "partly_stored finished ks =
     (\<lambda>k. (kept_id k, address_id k)) ` set finished
     \<union> (\<lambda>k. (kept_id k, cleared_id k)) ` {k \<in> set ks. fst k \<noteq> None}"

lemma accept_stored:
  assumes "distinct (map address_id (finished @ ks))"
    and "distinct (map kept_id (filter (\<lambda>k. fst k \<noteq> None) (finished @ ks)))"
  shows "accept_calls (map stored_call ks) (partly_stored finished ks) = Some (partly_stored (finished @ ks) [])"
  using assms
proof (induction ks arbitrary: finished)
  case (Cons k ks)
  obtain old room where k: "k = (old, room)" by fastforce
  have fresh: "snd x \<noteq> address_id k" if "x \<in> partly_stored finished ks" for x
  proof -
    have "\<exists>j \<in> set finished \<union> set ks. snd x = address_id j \<or> snd x = cleared_id j"
      using that unfolding partly_stored_def by force
    then obtain j where "j \<in> set finished \<union> set ks" "snd x = address_id j \<or> snd x = cleared_id j" by blast
    moreover have "address_id k \<notin> address_id ` (set finished \<union> set ks)" using Cons.prems(1) by auto
    then have "address_id j \<noteq> address_id k" using calculation(1) by (metis image_eqI)
    moreover have "address_id k \<noteq> None" by (simp add: address_id_def)
    ultimately show ?thesis using cleared_cases [of j] by metis
  qed
  have "accept_call (stored_call k) (partly_stored finished (k # ks)) = Some (partly_stored (finished @ [k]) ks)"
  proof (cases old)
    case None
    have "partly_stored finished (k # ks) = partly_stored finished ks"
      by (auto simp: partly_stored_def k None)
    moreover have "partly_stored (finished @ [k]) ks = insert (None, Some (slave_text room)) (partly_stored finished ks)"
      by (auto simp: partly_stored_def k None kept_id_def address_id_def)
    moreover have "Some (slave_text room) \<notin> snd ` partly_stored finished ks"
      using fresh by (fastforce simp: k address_id_def)
    ultimately show ?thesis by (simp add: stored_call_def k None)
  next
    case (Some s)
    have "kept_id j \<noteq> Some (sub_id s)" if "j \<in> set finished \<union> set ks" for j
      using other_id [OF Cons.prems(2) _ that] by (simp add: k Some kept_id_def [of "(Some s, room)"])
    then have "x \<in> partly_stored finished ks \<Longrightarrow> fst x \<noteq> Some (sub_id s)" for x
      by (auto simp: partly_stored_def)
    moreover have "partly_stored finished (k # ks) = insert (Some (sub_id s), cleared_id k) (partly_stored finished ks)"
      using stored_first [of k ks] by (simp add: partly_stored_def k Some kept_id_def)
    moreover have "partly_stored (finished @ [k]) ks = insert (Some (sub_id s), Some (slave_text room)) (partly_stored finished ks)"
      by (auto simp: partly_stored_def k Some kept_id_def address_id_def)
    moreover have "\<not> (\<exists>x \<in> partly_stored finished ks. snd x = Some (slave_text room))"
      using fresh by (auto simp: k address_id_def)
    ultimately show ?thesis
      by (auto simp: stored_call_def k Some)
  qed
  then show ?case using Cons.IH [of "finished @ [k]"] Cons.prems by simp
qed (simp add: partly_stored_def)

lemma kept_unit:
  assumes "subentries_wf subs" "(Some s, room) \<in> set (kept_units subs rooms)"
  shows "s \<in> set subs \<and> key_text (sub_data s) = key_text room"
  using assms by (auto simp: kept_units_def dest!: map_of_SomeD [OF sym])

lemma kept_lookup:
  assumes "subentries_wf subs" "s \<in> set subs"
  shows "map_of (map (\<lambda>s. (key_text (sub_data s), s)) (ordered_units subs)) (key_text (sub_data s)) = Some s"
  using wf_ordered [OF assms(1)] assms(2) by (intro map_of_is_SomeI) (auto simp: subentries_wf_def comp_def)

lemma kept_ids_distinct:
  assumes b: "scan_built slaves selected probes existing rooms" and wf: "subentries_wf subs"
  shows "distinct (map kept_id (filter (\<lambda>k. fst k \<noteq> None) (kept_units subs rooms)))"
    and "distinct (map address_id (kept_units subs rooms))"
proof -
  have keys: "distinct (map (\<lambda>k. key_text (snd k)) (kept_units subs rooms))"
    using scan_keys(2) [OF b] by (simp add: kept_units_def comp_def)
  then have "distinct (map (\<lambda>k. key_text (snd k)) (filter (\<lambda>k. fst k \<noteq> None) (kept_units subs rooms)))"
    by (rule distinct_map_filter)
  moreover have "key_text (snd j) = key_text (snd k)"
    if jk_in: "j \<in> set (filter (\<lambda>k. fst k \<noteq> None) (kept_units subs rooms))"
      "k \<in> set (filter (\<lambda>k. fst k \<noteq> None) (kept_units subs rooms))" "kept_id j = kept_id k" for j k
  proof -
    have "fst j \<noteq> None" "fst k \<noteq> None" using jk_in(1,2) by simp_all
    then obtain s t r q where jk: "j = (Some s, r)" "k = (Some t, q)" by (metis option.exhaust prod.collapse)
    then have "s \<in> set subs" "key_text (sub_data s) = key_text r" "t \<in> set subs" "key_text (sub_data t) = key_text q"
      using jk_in(1,2) kept_unit [OF wf] by auto
    moreover have "sub_id s = sub_id t" using jk_in(3) jk by (simp add: kept_id_def)
    ultimately show ?thesis using wf jk by (auto simp: subentries_wf_def distinct_map inj_on_def)
  qed
  ultimately show "distinct (map kept_id (filter (\<lambda>k. fst k \<noteq> None) (kept_units subs rooms)))"
    unfolding distinct_map inj_on_def by blast
  have "map address_id (kept_units subs rooms) = map (\<lambda>r. Some (py_str (cell_of r ''slave''))) rooms"
    by (simp add: kept_units_def address_id_def slave_text_def)
  also have "\<dots> = map (\<lambda>s. Some (int_text s)) slaves"
    using built_at_texts(3) [OF rooms_built(2) [OF b]] rooms_built(1) [OF b] by (auto intro!: nth_equalityI)
  finally show "distinct (map address_id (kept_units subs rooms))"
    using b by (simp add: scan_built_def distinct_map inj_on_def)
qed


lemma after_removal:
  assumes wf: "subentries_wf subs"
  shows "{x \<in> held subs. fst x \<notin> (\<lambda>s. Some (sub_id s)) ` set (stale_units subs rooms)}
    = partly_cleared [] (kept_units subs rooms)"
proof (rule set_eqI)
  fix x :: "string option \<times> string option"
  have id: "sub_id s \<in> sub_id ` set (stale_units subs rooms) \<longleftrightarrow> s \<in> set (stale_units subs rooms)" if "s \<in> set subs" for s
    using wf that by (auto simp: subentries_wf_def distinct_map inj_on_def stale_units_def)
  have kept: "(\<exists>room. (Some s, room) \<in> set (kept_units subs rooms)) \<longleftrightarrow> s \<notin> set (stale_units subs rooms)"
    if s: "s \<in> set subs" for s
  proof
    assume "\<exists>room. (Some s, room) \<in> set (kept_units subs rooms)"
    then obtain room where room: "(Some s, room) \<in> set (kept_units subs rooms)" by blast
    then have "room \<in> set rooms" by (auto simp: kept_units_def)
    then show "s \<notin> set (stale_units subs rooms)"
      using kept_unit [OF wf room] by (auto simp: stale_units_def)
  next
    assume "s \<notin> set (stale_units subs rooms)"
    then obtain room where "room \<in> set rooms" "key_text (sub_data s) = key_text room"
      using s by (auto simp: stale_units_def)
    then show "\<exists>room. (Some s, room) \<in> set (kept_units subs rooms)"
      using kept_lookup [OF wf s] by (force simp: kept_units_def)
  qed
  have "x \<in> {x \<in> held subs. fst x \<notin> (\<lambda>s. Some (sub_id s)) ` set (stale_units subs rooms)}
      \<longleftrightarrow> (\<exists>s. s \<in> set subs \<and> s \<notin> set (stale_units subs rooms) \<and> x = (Some (sub_id s), sub_unique_id s))"
    using id by (auto simp: held_def) (metis image_eqI)
  also have "\<dots> \<longleftrightarrow> (\<exists>s room. (Some s, room) \<in> set (kept_units subs rooms) \<and> x = (Some (sub_id s), sub_unique_id s))"
    using kept kept_unit [OF wf] by blast
  also have "\<dots> \<longleftrightarrow> x \<in> partly_cleared [] (kept_units subs rooms)"
    by (force simp: partly_cleared_def kept_id_def unique_id_of_def)
  finally show "x \<in> {x \<in> held subs. fst x \<notin> (\<lambda>s. Some (sub_id s)) ` set (stale_units subs rooms)}
      \<longleftrightarrow> x \<in> partly_cleared [] (kept_units subs rooms)" .
qed

lemma found_unit:
  assumes "subentries_wf subs"
  shows "map_of (map (\<lambda>s. (key_text (sub_data s), s)) (ordered_units subs)) key
    = find (\<lambda>s. key_text (sub_data s) = key) subs"
proof (cases "find (\<lambda>s. key_text (sub_data s) = key) subs")
  case None
  then have "map_of (map (\<lambda>s. (key_text (sub_data s), s)) (ordered_units subs)) key = None"
    by (auto simp: find_None_iff map_of_eq_None_iff)
  with None show ?thesis by simp
next
  case (Some s)
  then have "s \<in> set subs" "key_text (sub_data s) = key" by (auto simp: find_Some_iff)
  then show ?thesis using kept_lookup [OF assms, of s] Some by simp
qed

lemma addresses_stored:
  assumes "scan_built slaves selected probes existing rooms"
  shows "map slave_text rooms = map int_text slaves"
  using built_at_texts(3) [OF rooms_built(2) [OF assms]] rooms_built(1) [OF assms]
  by (auto simp: slave_text_def intro!: nth_equalityI)

lemma save_accepted:
  assumes b: "scan_built slaves selected probes existing rooms" and wf: "subentries_wf subs"
    and calls: "save_profiles slaves selected probes existing subs = Inr calls"
  shows "accept_calls calls (held subs) = Some ((\<lambda>room.
    (map_option sub_id (find (\<lambda>s. key_text (sub_data s) = key_text room) subs), Some (slave_text room))) ` set rooms)"
proof -
  let ?k = "kept_units subs rooms"
  note d = kept_ids_distinct [OF b wf]
  have calls': "calls = map (\<lambda>s. SubentryRemoved (sub_id s)) (stale_units subs rooms)
      @ concat (map clearing_call ?k) @ map stored_call ?k"
    using save_profiles_eq(1) [OF b wf] calls by simp
  have "accept_calls calls (held subs) = Some (partly_stored ?k [])"
    using accept_cleared [of "[]" ?k] accept_stored [of "[]" ?k] d
    by (simp add: calls' accept_append accept_removed after_removal [OF wf])
      (simp add: partly_cleared_def partly_stored_def)
  also have "partly_stored ?k [] = (\<lambda>room.
    (map_option sub_id (find (\<lambda>s. key_text (sub_data s) = key_text room) subs), Some (slave_text room))) ` set rooms"
    by (simp add: partly_stored_def kept_units_def image_image kept_id_def address_id_def found_unit [OF wf])
  finally show ?thesis .
qed

text \<open>
  C13. Storing a rescan is never refused: whichever units changed places, were added or are gone, no call
  gives a subentry the unique ID another one still has, since IDs that change are cleared first. In the
  end there is one subentry per found unit, with its address as unique ID, and a unit found again is
  stored in the subentry it had.
\<close>

theorem rescan_saves_without_conflict:
  assumes "subentries_wf subs" "unit_rooms subs = Inr existing" "distinct slaves"
    and "list_all (\<lambda>s. profile_field_key s \<in> fst ` set selected) slaves"
    and matched: "matched = match_existing_rooms slaves probes existing"
  shows "\<exists>rooms calls. build_rooms_from_profiles slaves selected probes matched = Inr rooms
    \<and> save_profiles slaves selected probes matched subs = Inr calls
    \<and> map slave_text rooms = map int_text slaves
    \<and> accept_calls calls (held subs) = Some ((\<lambda>room.
        (map_option sub_id (find (\<lambda>s. key_text (sub_data s) = key_text room) subs), Some (slave_text room))) ` set rooms)"
proof -
  have "rooms_wf existing" using unit_rooms_wf [OF assms(1)] assms(2) by simp
  then have "rooms_wf matched" using wf_match [OF assms(3)] by (simp add: matched)
  then obtain rooms where b: "scan_built slaves selected probes matched rooms"
    using scan_total [OF assms(3) _ assms(4)] by blast
  note save_profiles_eq(1) [OF b assms(1)]
  then show ?thesis
    using b addresses_stored [OF b] save_accepted [OF b assms(1)] by (auto simp: scan_built_def)
qed


section \<open>The forms in order\<close>

definition fields_filled :: "(string, string) dict \<Rightarrow> int list \<Rightarrow> bool" where
  "fields_filled selected slaves \<longleftrightarrow> list_all (\<lambda>s. profile_field_key s \<in> fst ` set selected) slaves"

text \<open>
  A run of the flow: the answers so far, latest first, and the state. Home Assistant only calls the step
  of the form it shows, and a form returns a value for every field.
\<close>

inductive options_session :: "'w options_env \<Rightarrow> rescan_flow \<Rightarrow> flow_answer list \<Rightarrow> bool" for env where
  start: "options_session env NEW_FLOW [InitMenu]"
| open_rescan: "options_session env st (InitMenu # shown) \<Longrightarrow>
    rescan_units env False st w = (Returned (Inr (a, st')), w') \<Longrightarrow> options_session env st' (a # InitMenu # shown)"
| submit_rescan: "options_session env st (RescanForm e # shown) \<Longrightarrow>
    rescan_units env True st w = (Returned (Inr (a, st')), w') \<Longrightarrow> options_session env st' (a # RescanForm e # shown)"
| submit_profiles: "options_session env st (ProfilesForm d # shown) \<Longrightarrow> fields_filled selected (rf_slaves st) \<Longrightarrow>
    step_profiles env (Some selected) st = Inr (a, st') \<Longrightarrow> options_session env st' (a # ProfilesForm d # shown)"
| submit_mismatch: "options_session env st (MismatchForm m # shown) \<Longrightarrow>
    confirm_mismatch env (Some action) st = Inr (a, st') \<Longrightarrow> options_session env st' (a # MismatchForm m # shown)"
| submit_removal: "options_session env st (RemovalForm u # shown) \<Longrightarrow>
    confirm_remove env True st = Inr a \<Longrightarrow> options_session env st (a # RemovalForm u # shown)"

definition scan_of :: "'w options_env \<Rightarrow> rescan_flow \<Rightarrow> rooms_by_slave \<Rightarrow> bool" where
  "scan_of env st existing \<longleftrightarrow> unit_rooms (oe_subentries env) = Inr existing \<and> subentries_wf (oe_subentries env)
     \<and> distinct (rf_slaves st)"

definition chosen :: "rescan_flow \<Rightarrow> (int, string) dict" where
  "chosen st = map (\<lambda>s. (s, dict_get (rf_selected st) (profile_field_key s) [])) (rf_slaves st)"

text \<open>The units the storing of the flow's selection would remove.\<close>

definition removes :: "'w options_env \<Rightarrow> rescan_flow \<Rightarrow> unit_subentry list \<Rightarrow> bool" where
  "removes env st units \<longleftrightarrow> (\<exists>existing. matched_rooms env st = Inr existing
     \<and> stale_subentries (rf_slaves st) (rf_selected st) (rf_probes st) existing (oe_subentries env) = Inr units)"

lemma chosen_all:
  "fields_filled selected slaves \<Longrightarrow>
     all_right (map (chosen_for selected) slaves) =
       Inr (map (\<lambda>s. (s, dict_get selected (profile_field_key s) [])) slaves)"
  by (rule all_right_map) (auto simp: fields_filled_def list_all_iff chosen_for_def dict_get_def
      map_of_eq_None_iff split: option.splits)

lemma no_clearing: "SubentryRemoved i \<notin> set (clearing_call k)"
  by (cases k; cases "fst k") auto

lemma flow_built:
  assumes "subentries_wf (oe_subentries env)" "distinct (rf_slaves st)" "fields_filled (rf_selected st) (rf_slaves st)"
  obtains existing rooms where "matched_rooms env st = Inr existing"
    "scan_built (rf_slaves st) (rf_selected st) (rf_probes st) existing rooms"
    "stale_subentries (rf_slaves st) (rf_selected st) (rf_probes st) existing (oe_subentries env)
       = Inr (stale_units (oe_subentries env) rooms)"
    "\<exists>stored. finish_save env st existing = Inr (Saved
       (map (\<lambda>s. SubentryRemoved (sub_id s)) (stale_units (oe_subentries env) rooms) @ stored)
       (max_requests_per_second env)) \<and> (\<forall>i. SubentryRemoved i \<notin> set stored)"
proof -
  define existing where "existing = match_existing_rooms (rf_slaves st) (rf_probes st)
      (map (\<lambda>s. (slave_of s, loaded s)) (ordered_units (oe_subentries env)))"
  have m: "matched_rooms env st = Inr existing"
    by (simp add: matched_rooms_def unit_rooms_wf(1) [OF assms(1)] existing_def)
  have "rooms_wf existing"
    using wf_match [OF assms(2) unit_rooms_wf(2) [OF assms(1)]] by (simp add: existing_def)
  then obtain rooms where b: "scan_built (rf_slaves st) (rf_selected st) (rf_probes st) existing rooms"
    using scan_total [OF assms(2)] assms(3) unfolding fields_filled_def by blast
  let ?k = "kept_units (oe_subentries env) rooms"
  have "\<forall>i. SubentryRemoved i \<notin> set (concat (map clearing_call ?k) @ map stored_call ?k)"
    using no_clearing by (auto simp: stored_call_def split: option.splits)
  then show ?thesis
    using that [OF m b] save_profiles_eq [OF b assms(1)] by (auto simp: finish_save_def)
qed

definition session_ok :: "'w options_env \<Rightarrow> rescan_flow \<Rightarrow> flow_answer list \<Rightarrow> bool" where
  "session_ok env st shown \<longleftrightarrow> distinct (rf_slaves st) \<and> (case shown of
       [] \<Rightarrow> False
     | a # before \<Rightarrow> (case a of
         ProfilesForm d \<Rightarrow> rf_slaves st \<noteq> []
       | MismatchForm m \<Rightarrow> rf_slaves st \<noteq> [] \<and> m = rf_mismatches st \<and> m \<noteq> []
           \<and> fields_filled (rf_selected st) (rf_slaves st) \<and> rf_mismatches st = profile_mismatches (chosen st) (rf_probes st)
       | RemovalForm u \<Rightarrow> fields_filled (rf_selected st) (rf_slaves st) \<and> u \<noteq> [] \<and> removes env st u
           \<and> rf_mismatches st = profile_mismatches (chosen st) (rf_probes st)
           \<and> (rf_mismatches st \<noteq> [] \<longrightarrow> MismatchForm (rf_mismatches st) \<in> set before)
       | Saved calls rate \<Rightarrow> rf_mismatches st = profile_mismatches (chosen st) (rf_probes st)
           \<and> (rf_mismatches st \<noteq> [] \<longrightarrow> MismatchForm (rf_mismatches st) \<in> set before)
           \<and> (\<forall>i. SubentryRemoved i \<in> set calls \<longrightarrow>
                (\<exists>u. hd before = RemovalForm u \<and> i \<in> sub_id ` set u))
       | _ \<Rightarrow> True))"


text \<open>Discovery returns every address once (\<open>Node_Discovery\<close>).\<close>

definition distinct_discovery :: "'w options_env \<Rightarrow> bool" where
  "distinct_discovery env \<longleftrightarrow> (\<forall>w s w'. oe_discover env w = (Returned s, w') \<longrightarrow> distinct s)"

lemma rescan_distinct:
  assumes "distinct_discovery env"
    and "rescan env st w = (Returned (e, st'), w')" "distinct (rf_slaves st)"
  shows "distinct (rf_slaves st')"
  using assms by (auto simp: distinct_discovery_def rescan_def await_then_def
      split: if_splits prod.splits outcome.splits) blast

lemma profiles_without_input:
  assumes "step_profiles env None st = Inr (a, st')"
  shows "st' = st \<and> (a = InitMenu \<or> (\<exists>d. a = ProfilesForm d \<and> rf_slaves st \<noteq> []))"
  using assms by (auto simp: step_profiles_def and_then_Inr split: if_splits)

lemma rescan_answers:
  assumes "distinct_discovery env"
    and "rescan_units env submitted st w = (Returned (Inr (a, st')), w')" "distinct (rf_slaves st)"
  shows "distinct (rf_slaves st') \<and> (a = InitMenu \<or> (\<exists>e. a = RescanForm e)
    \<or> (\<exists>d. a = ProfilesForm d \<and> rf_slaves st' \<noteq> []))"
proof (cases submitted)
  case True
  then obtain e st1 w1 where "rescan env st w = (Returned (e, st1), w1)"
    and "(case e of None \<Rightarrow> step_profiles env None st1 | Some e \<Rightarrow> Inr (RescanForm (Some e), st1)) = Inr (a, st')"
    using assms(2) by (auto simp: rescan_units_def await_then_def split: prod.splits outcome.splits)
  then show ?thesis
    using rescan_distinct [OF assms(1) _ assms(3)] profiles_without_input [of env st1 a st'] by (cases e) auto
qed (use assms in \<open>auto simp: rescan_units_def\<close>)

text \<open>How a confirmed selection goes on: units that would be removed are shown first.\<close>

lemma finish_profiles_cases:
  assumes "subentries_wf (oe_subentries env)" "distinct (rf_slaves st)" "fields_filled (rf_selected st) (rf_slaves st)"
    and "matched_rooms env st = Inr existing"
  obtains (stale) u where "finish_profiles env st existing = Inr (RemovalForm u)" "u \<noteq> []" "removes env st u"
    | (saved) calls rate where "finish_profiles env st existing = Inr (Saved calls rate)"
      "\<forall>i. SubentryRemoved i \<notin> set calls"
proof -
  obtain existing' rooms where b: "matched_rooms env st = Inr existing'"
    "stale_subentries (rf_slaves st) (rf_selected st) (rf_probes st) existing' (oe_subentries env)
       = Inr (stale_units (oe_subentries env) rooms)"
    "\<exists>stored. finish_save env st existing' = Inr (Saved
       (map (\<lambda>s. SubentryRemoved (sub_id s)) (stale_units (oe_subentries env) rooms) @ stored)
       (max_requests_per_second env)) \<and> (\<forall>i. SubentryRemoved i \<notin> set stored)"
    using flow_built [OF assms(1-3)] by metis
  have e: "existing' = existing" using b(1) assms(4) by simp
  show ?thesis
  proof (cases "stale_units (oe_subentries env) rooms = []")
    case True
    then show ?thesis using that(2) b by (auto simp: finish_profiles_def e)
  next
    case False
    then show ?thesis
      using that(1) b by (auto simp: finish_profiles_def confirm_remove_def removes_def e)
  qed
qed

lemma removal_saves:
  assumes "subentries_wf (oe_subentries env)" "distinct (rf_slaves st)" "fields_filled (rf_selected st) (rf_slaves st)"
    and "removes env st u"
  obtains calls rate where "confirm_remove env True st = Inr (Saved calls rate)"
    "\<forall>i. SubentryRemoved i \<in> set calls \<longrightarrow> i \<in> sub_id ` set u"
proof -
  obtain existing rooms where b: "matched_rooms env st = Inr existing"
    "stale_subentries (rf_slaves st) (rf_selected st) (rf_probes st) existing (oe_subentries env)
       = Inr (stale_units (oe_subentries env) rooms)"
    "\<exists>stored. finish_save env st existing = Inr (Saved
       (map (\<lambda>s. SubentryRemoved (sub_id s)) (stale_units (oe_subentries env) rooms) @ stored)
       (max_requests_per_second env)) \<and> (\<forall>i. SubentryRemoved i \<notin> set stored)"
    using flow_built [OF assms(1-3)] by metis
  moreover have "u = stale_units (oe_subentries env) rooms" using b assms(4) by (simp add: removes_def)
  ultimately show ?thesis using that by (fastforce simp: confirm_remove_def)
qed

lemma session_invariant:
  assumes wf: "subentries_wf (oe_subentries env)"
    and disc: "distinct_discovery env"
    and "options_session env st shown"
  shows "session_ok env st shown"
  using assms(3)
proof (induction rule: options_session.induct)
  case start
  show ?case by (simp add: session_ok_def NEW_FLOW_def)
next
  case (open_rescan st shown w a st' w')
  then show ?case using rescan_answers [OF disc open_rescan(2)] by (auto simp: session_ok_def)
next
  case (submit_rescan st e shown w a st' w')
  then show ?case using rescan_answers [OF disc submit_rescan(2)] by (auto simp: session_ok_def)
next
  case (submit_profiles st d shown selected a st')
  then have d: "distinct (rf_slaves st)" "rf_slaves st \<noteq> []" by (simp_all add: session_ok_def)
  define st1 where "st1 = st\<lparr>rf_selected := selected, rf_mismatches := profile_mismatches
      (map (\<lambda>s. (s, dict_get selected (profile_field_key s) [])) (rf_slaves st)) (rf_probes st)\<rparr>"
  have st1: "rf_slaves st1 = rf_slaves st" "rf_mismatches st1 = profile_mismatches (chosen st1) (rf_probes st1)"
    "fields_filled (rf_selected st1) (rf_slaves st1)"
    using submit_profiles.hyps(2) by (simp_all add: st1_def chosen_def)
  obtain existing where m: "matched_rooms env st = Inr existing"
    using submit_profiles.hyps(3) d by (auto simp: step_profiles_def and_then_Inr)
  have m1: "matched_rooms env st1 = Inr existing" using m by (simp add: matched_rooms_def st1_def)
  have step: "(if rf_mismatches st1 \<noteq> [] then Inr (MismatchForm (rf_mismatches st1), st1)
      else and_then (finish_profiles env st1 existing) (\<lambda>a. Inr (a, st1))) = Inr (a, st')"
    using submit_profiles.hyps(3)
    by (simp only: step_profiles_def d(2) m chosen_all [OF submit_profiles.hyps(2)] st1_def Let_def if_False
        and_then.simps option.simps rescan_flow.simps)
  show ?case
  proof (cases "rf_mismatches st1 = []")
    case False
    then show ?thesis using step d st1 by (auto simp: session_ok_def)
  next
    case True
    have d1: "distinct (rf_slaves st1)" using d st1 by simp
    from wf d1 st1(3) m1 show ?thesis
    proof (cases rule: finish_profiles_cases)
      case (stale u)
      then show ?thesis using step d st1 True by (auto simp: session_ok_def)
    next
      case (saved calls rate)
      then show ?thesis using step d st1 True by (auto simp: session_ok_def)
    qed
  qed
next
  case (submit_mismatch st m shown action a st')
  then have ok: "distinct (rf_slaves st)" "fields_filled (rf_selected st) (rf_slaves st)" "m = rf_mismatches st"
    "rf_mismatches st = profile_mismatches (chosen st) (rf_probes st)"
    by (simp_all add: session_ok_def)
  show ?case
  proof (cases "action = ''correct''")
    case True
    then show ?thesis
      using submit_mismatch.hyps(2) profiles_without_input [of env st a st'] ok(1)
      by (auto simp: confirm_mismatch_def session_ok_def)
  next
    case False
    then obtain existing where m: "matched_rooms env st = Inr existing"
      and step: "and_then (finish_profiles env st existing) (\<lambda>a. Inr (a, st)) = Inr (a, st')"
      using submit_mismatch.hyps(2) by (auto simp: confirm_mismatch_def and_then_Inr)
    from wf ok(1,2) m show ?thesis
    proof (cases rule: finish_profiles_cases)
      case (stale u)
      then show ?thesis using step ok by (auto simp: session_ok_def)
    next
      case (saved calls rate)
      then show ?thesis using step ok by (auto simp: session_ok_def)
    qed
  qed
next
  case (submit_removal st u shown a)
  then have ok: "distinct (rf_slaves st)" "fields_filled (rf_selected st) (rf_slaves st)" "removes env st u"
    "rf_mismatches st = profile_mismatches (chosen st) (rf_probes st)"
    "rf_mismatches st \<noteq> [] \<longrightarrow> MismatchForm (rf_mismatches st) \<in> set shown"
    unfolding session_ok_def list.case flow_answer.case by blast+
  from wf ok(1-3) show ?case
    by (rule removal_saves) (use submit_removal.hyps(2) ok in \<open>auto simp: session_ok_def\<close>)
qed




section \<open>Examples\<close>

definition stored_unit :: "int \<Rightarrow> string \<Rightarrow> string \<Rightarrow> unit_subentry" where
  "stored_unit slave key title =
     \<lparr>sub_id = key, sub_title = title, sub_unique_id = Some (int_text slave),
      sub_data = [(''key'', CStr key), (''slave'', CInt slave), (''profile'', CStr ''ii_plain'')]\<rparr>"

definition two_units :: "unit_subentry list" where
  "two_units = [stored_unit 2 ''slave_2'' ''Kitchen'', stored_unit 3 ''slave_3'' ''Bath'']"

definition one_unit_left :: "unit options_env" where
  "one_unit_left =
     \<lparr>oe_subentries = two_units, oe_stored_rate = None, oe_running = True,
      oe_discover = (\<lambda>w. (Returned [2], w)),
      oe_probe = (\<lambda>s w. (Returned \<lparr>probe_profile = ''plain'', probe_preview = None,
         probe_product_id = Some PRODUCT_ID_M_WRG, probe_setup_code = None\<rparr>, w))\<rparr>"

lemma two_units_wf: "subentries_wf two_units"
  by (simp add: subentries_wf_def two_units_def stored_unit_def cell_of_def dict_get_def key_text_def slave_of_def)

lemma one_unit_env: "subentries_wf (oe_subentries one_unit_left)" "distinct_discovery one_unit_left"
  by (simp_all add: one_unit_left_def two_units_wf distinct_discovery_def)

lemma rescan_saves_without_conflict_witness:
  "\<exists>rooms calls. build_rooms_from_profiles [2, 4] chosen_profiles [] (match_existing_rooms [2, 4] []
        (map (\<lambda>s. (slave_of s, loaded s)) (ordered_units two_units))) = Inr rooms
    \<and> save_profiles [2, 4] chosen_profiles [] (match_existing_rooms [2, 4] []
        (map (\<lambda>s. (slave_of s, loaded s)) (ordered_units two_units))) two_units = Inr calls
    \<and> map slave_text rooms = map int_text [2, 4]
    \<and> accept_calls calls (held two_units) = Some ((\<lambda>room.
        (map_option sub_id (find (\<lambda>s. key_text (sub_data s) = key_text room) two_units), Some (slave_text room))) ` set rooms)"
  by (rule rescan_saves_without_conflict [OF two_units_wf unit_rooms_wf(1) [OF two_units_wf] _ _ refl])
    (simp, code_simp)

definition scanned_flow :: rescan_flow where
  "scanned_flow = \<lparr>rf_slaves = [2], rf_probes = [(2, \<lparr>probe_profile = ''plain'', probe_preview = None,
       probe_product_id = Some PRODUCT_ID_M_WRG, probe_setup_code = None\<rparr>)],
     rf_detected = [(2, ''plain'')], rf_selected = [], rf_mismatches = []\<rparr>"

definition answered_flow :: rescan_flow where
  "answered_flow = scanned_flow\<lparr>rf_selected := [(''slave_2'', ''ii_plain'')], rf_mismatches := [(2, ''ii_plain'')]\<rparr>"

lemma one_unit_steps:
  "rescan_units one_unit_left False NEW_FLOW () = (Returned (Inr (RescanForm None, NEW_FLOW)), ())"
  "rescan_units one_unit_left True NEW_FLOW () = (Returned (Inr (ProfilesForm [(2, ''ii_plain'')], scanned_flow)), ())"
  "step_profiles one_unit_left (Some [(''slave_2'', ''ii_plain'')]) scanned_flow =
     Inr (MismatchForm [(2, ''ii_plain'')], answered_flow)"
  "confirm_mismatch one_unit_left (Some ''confirm'') answered_flow =
     Inr (RemovalForm [stored_unit 3 ''slave_3'' ''Bath''], answered_flow)"
  by code_simp+

lemma one_unit_removed:
  "\<exists>calls rate. confirm_remove one_unit_left True answered_flow = Inr (Saved calls rate)
     \<and> SubentryRemoved ''slave_3'' \<in> set calls"
proof -
  have "save_profiles [2] [(''slave_2'', ''ii_plain'')] (rf_probes scanned_flow)
      (match_existing_rooms [2] (rf_probes scanned_flow) (map (\<lambda>s. (slave_of s, loaded s)) (ordered_units two_units))) two_units
    = Inr [SubentryRemoved ''slave_3'', SubentryUpdated ''slave_2''
       [(''key'', CStr ''slave_2''), (''slave'', CInt 2), (''profile'', CStr ''ii_plain''), (''product_id'', CInt 116819)] ''2'']"
    by code_simp
  then show ?thesis
    by (simp add: confirm_remove_def matched_rooms_def finish_save_def one_unit_left_def answered_flow_def
        scanned_flow_def unit_rooms_wf(1) [OF two_units_wf])
qed

lemmas scanned_session =
  submit_rescan [OF open_rescan [OF options_session.start one_unit_steps(1)] one_unit_steps(2)]

lemma removal_session:
  "\<exists>calls rate. options_session one_unit_left answered_flow
       [Saved calls rate, RemovalForm [stored_unit 3 ''slave_3'' ''Bath''], MismatchForm [(2, ''ii_plain'')],
        ProfilesForm [(2, ''ii_plain'')], RescanForm None, InitMenu]
     \<and> SubentryRemoved ''slave_3'' \<in> set calls"
proof -
  have "fields_filled [(''slave_2'', ''ii_plain'')] (rf_slaves scanned_flow)" by code_simp
  from submit_mismatch [OF submit_profiles [OF scanned_session this one_unit_steps(3)] one_unit_steps(4)]
  show ?thesis using one_unit_removed submit_removal by blast
qed



end
