(* ===== verification/Unit_Flow.thy ===== *)
theory Unit_Flow
  imports Rescan
begin

text \<open>
  \<open>subentry_flow.py\<close>: the forms that add one unit to a gateway or change the profile of one. The
  coordinator's discovery and probe are the parameters of the rescan; the subentry a reconfiguration is
  about, and whether the entry has update listeners, come from Home Assistant.
\<close>

section \<open>The flow\<close>

datatype profile_source = FromUser | FromProfile | FromReconfigure

record unit_flow =
  uf_slaves :: "int list"
  uf_slave :: int
  uf_probes :: probes
  uf_selected :: "string option"
  uf_mismatches :: "(int \<times> string) list"
  uf_source :: "profile_source option"

definition NEW_UNIT_FLOW :: unit_flow where
  "NEW_UNIT_FLOW = \<lparr>uf_slaves = [], uf_slave = 0, uf_probes = [], uf_selected = None, uf_mismatches = [],
     uf_source = None\<rparr>"

record 'w unit_flow_env = "'w options_env" +
  ue_listeners :: bool
  ue_subentry :: unit_subentry

text \<open>
  The forms with what they preselect; a unit that is created, a profile that is stored (and whether the
  flow itself reloads the entry), and an abort with its reason.
\<close>

datatype unit_answer =
    UnitForm "int list" "int option" "(int, string) dict"
  | UnitProfileForm int string
  | UnitMismatchForm "(int \<times> string) list"
  | UnitReconfigureForm int string
  | UnitCreated subentry_data
  | UnitProfileStored bool string stored_room
  | UnitAborted string

type_synonym unit_result = "meltem_error + unit_answer \<times> unit_flow"

definition user_form :: "unit_flow \<Rightarrow> unit_answer" where
  "user_form st =
     UnitForm (uf_slaves st) (if uf_slave st = 0 then None else Some (uf_slave st))
       (dict_of (map (\<lambda>slave. (slave,
          case uf_selected st of
            Some profile \<Rightarrow> if slave = uf_slave st then profile
              else detected_profile_default slave (probe_profiles (uf_probes st))
          | None \<Rightarrow> detected_profile_default slave (probe_profiles (uf_probes st)))) (uf_slaves st)))"

text \<open>\<open>self._selected_profile or ...\<close>: an empty selection counts as none.\<close>

definition selected_or :: "unit_flow \<Rightarrow> string \<Rightarrow> string" where
  "selected_or st preset = (case uf_selected st of Some (c # s) \<Rightarrow> c # s | _ \<Rightarrow> preset)"

definition profile_form :: "unit_flow \<Rightarrow> unit_answer" where
  "profile_form st =
     UnitProfileForm (uf_slave st)
       (selected_or st (detected_profile_default (uf_slave st) (probe_profiles (uf_probes st))))"

definition stored_unit_probe :: "stored_room \<Rightarrow> unit_probe_result" where
  "stored_unit_probe room =
     \<lparr>probe_profile = [], probe_preview = None,
      probe_product_id = (case cell_of room ''product_id'' of
          CInt n \<Rightarrow> Some n | CBool b \<Rightarrow> Some (of_bool b) | _ \<Rightarrow> None),
      probe_setup_code = (case cell_of room ''app_setup_code'' of CStr c \<Rightarrow> Some c | _ \<Rightarrow> None)\<rparr>"

definition create_unit :: "'w unit_flow_env \<Rightarrow> int \<Rightarrow> string \<Rightarrow> unit_flow \<Rightarrow> unit_result" where
  "create_unit env slave profile st =
     and_then (unit_rooms (oe_subentries env)) (\<lambda>existing.
       if slave \<in> fst ` set existing then Inr (UnitAborted ''already_configured'', st)
       else and_then (new_unit_room slave profile (map_of (uf_probes st) slave) (map snd existing)) (\<lambda>room.
            and_then (item room ''name'') (\<lambda>name.
              Inr (UnitCreated \<lparr>new_data = unit_data room, new_title = py_str name,
                new_unique_id = Some (int_text slave)\<rparr>, st))))"

definition finish_profile :: "'w unit_flow_env \<Rightarrow> unit_flow \<Rightarrow> unit_result" where
  "finish_profile env st =
     (case (uf_selected st, uf_source st) of
        (Some profile, Some FromReconfigure) \<Rightarrow>
          Inr (UnitProfileStored (\<not> ue_listeners env) (sub_id (ue_subentry env))
            (AList.update ''profile'' (CStr profile) (sub_data (ue_subentry env))), st)
      | (Some profile, Some _) \<Rightarrow> create_unit env (uf_slave st) profile st
      | _ \<Rightarrow> Inl (RuntimeError ''No profile selected''))"

definition select_profile ::
  "'w unit_flow_env \<Rightarrow> int \<Rightarrow> string \<Rightarrow> profile_source \<Rightarrow> unit_flow \<Rightarrow> unit_result" where
  "select_profile env slave profile source st =
     (let probes = (if source = FromReconfigure then [(slave, stored_unit_probe (sub_data (ue_subentry env)))]
                    else uf_probes st);
          st1 = st\<lparr>uf_slave := slave, uf_selected := Some profile, uf_source := Some source,
                   uf_mismatches := profile_mismatches [(slave, profile)] probes\<rparr>
      in if uf_mismatches st1 \<noteq> [] then Inr (UnitMismatchForm (uf_mismatches st1), st1)
         else finish_profile env st1)"

text \<open>The form of the addresses sends the address as text, and a profile for every address.\<close>

definition select_unit :: "'w unit_flow_env \<Rightarrow> (string, string) dict \<Rightarrow> unit_flow \<Rightarrow> unit_result" where
  "select_unit env input st =
     (case map_of input ''slave'' of
        None \<Rightarrow> Inl (KeyError ''slave'')
      | Some text \<Rightarrow>
          and_then (py_int (CStr text)) (\<lambda>slave.
          and_then (chosen_for input slave) (\<lambda>(_, profile). select_profile env slave profile FromUser st)))"

definition step_profile :: "'w unit_flow_env \<Rightarrow> string option \<Rightarrow> unit_flow \<Rightarrow> unit_result" where
  "step_profile env input st =
     (case input of
        Some profile \<Rightarrow> select_profile env (uf_slave st) profile FromProfile st
      | None \<Rightarrow> Inr (profile_form st, st))"

definition found_units :: "'w unit_flow_env \<Rightarrow> int list \<Rightarrow> probes \<Rightarrow> unit_flow \<Rightarrow> unit_result" where
  "found_units env slaves probes st =
     (let st1 = st\<lparr>uf_slaves := slaves, uf_probes := probes\<rparr>
      in case slaves of
           [slave] \<Rightarrow> step_profile env None (st1\<lparr>uf_slave := slave\<rparr>)
         | _ \<Rightarrow> Inr (user_form st1, st1))"

definition unit_step_user ::
  "'w unit_flow_env \<Rightarrow> (string, string) dict option \<Rightarrow> unit_flow \<Rightarrow> 'w \<Rightarrow> unit_result outcome \<times> 'w" where
  "unit_step_user env input st w =
     (case input of
        Some fields_sent \<Rightarrow> (Returned (select_unit env fields_sent st), w)
      | None \<Rightarrow>
          if \<not> oe_running env then (Returned (Inr (UnitAborted ''entry_not_loaded'', st)), w)
          else case oe_discover env w of
              (Erred e, w) \<Rightarrow>
                if meltem_modbus_error e then (Returned (Inr (UnitAborted ''cannot_connect'', st)), w) else (Erred e, w)
            | (Aborted, w) \<Rightarrow> (Aborted, w)
            | (Returned slaves, w) \<Rightarrow>
                (case unit_rooms (oe_subentries env) of
                   Inl e \<Rightarrow> (Returned (Inl e), w)
                 | Inr existing \<Rightarrow>
                     let new = filter (\<lambda>slave. slave \<notin> fst ` set existing) slaves
                     in if new = [] then (Returned (Inr (UnitAborted ''no_new_units'', st\<lparr>uf_slaves := []\<rparr>)), w)
                        else await_then (async_probe_units (oe_probe env) new w) (\<lambda>probes w.
                          (Returned (found_units env new probes st), w))))"

definition unit_step_reconfigure :: "'w unit_flow_env \<Rightarrow> string option \<Rightarrow> unit_flow \<Rightarrow> unit_result" where
  "unit_step_reconfigure env input st =
     and_then (subentry_slave (ue_subentry env)) (\<lambda>slave.
       case input of
         Some profile \<Rightarrow> select_profile env slave profile FromReconfigure st
       | None \<Rightarrow>
           and_then (unit_rooms (oe_subentries env)) (\<lambda>_.
           and_then (item (sub_data (ue_subentry env)) ''profile'') (\<lambda>profile.
             Inr (UnitReconfigureForm slave (selected_or st (py_str profile)), st))))"

definition unit_confirm_mismatch :: "'w unit_flow_env \<Rightarrow> string option \<Rightarrow> unit_flow \<Rightarrow> unit_result" where
  "unit_confirm_mismatch env action st =
     (case action of
        None \<Rightarrow> Inr (UnitMismatchForm (uf_mismatches st), st)
      | Some a \<Rightarrow>
          if a = ''correct''
          then (case uf_source st of
              Some FromUser \<Rightarrow> Inr (user_form st, st)
            | Some FromProfile \<Rightarrow> step_profile env None st
            | Some FromReconfigure \<Rightarrow> unit_step_reconfigure env None st
            | None \<Rightarrow> Inl (RuntimeError ''No profile selection to correct''))
          else finish_profile env st)"

section \<open>Runs of the forms\<close>

text \<open>
  The answers of one flow, the last one first. Home Assistant checks a submitted form against its schema:
  the address is one of those listed.
\<close>

inductive unit_session :: "'w unit_flow_env \<Rightarrow> unit_flow \<Rightarrow> unit_answer list \<Rightarrow> bool" for env where
  add_unit: "unit_step_user env None NEW_UNIT_FLOW w = (Returned (Inr (a, st)), w') \<Longrightarrow> unit_session env st [a]"
| change_profile: "unit_step_reconfigure env None NEW_UNIT_FLOW = Inr (a, st) \<Longrightarrow> unit_session env st [a]"
| submit_unit: "unit_session env st (UnitForm slaves d e # shown) \<Longrightarrow>
    map_of input ''slave'' \<in> Some ` int_text ` set slaves \<Longrightarrow>
    unit_step_user env (Some input) st w = (Returned (Inr (a, st')), w') \<Longrightarrow>
    unit_session env st' (a # UnitForm slaves d e # shown)"
| submit_profile: "unit_session env st (UnitProfileForm s p # shown) \<Longrightarrow>
    step_profile env (Some profile) st = Inr (a, st') \<Longrightarrow> unit_session env st' (a # UnitProfileForm s p # shown)"
| submit_reconfigure: "unit_session env st (UnitReconfigureForm s p # shown) \<Longrightarrow>
    unit_step_reconfigure env (Some profile) st = Inr (a, st') \<Longrightarrow>
    unit_session env st' (a # UnitReconfigureForm s p # shown)"
| submit_mismatch: "unit_session env st (UnitMismatchForm m # shown) \<Longrightarrow>
    unit_confirm_mismatch env (Some action) st = Inr (a, st') \<Longrightarrow>
    unit_session env st' (a # UnitMismatchForm m # shown)"

text \<open>What the selection contradicts, and what was found out about the address.\<close>

definition known_probes :: "'w unit_flow_env \<Rightarrow> unit_flow \<Rightarrow> probes" where
  "known_probes env st =
     (if uf_source st = Some FromReconfigure
      then [(uf_slave st, stored_unit_probe (sub_data (ue_subentry env)))] else uf_probes st)"

definition selection_mismatches :: "'w unit_flow_env \<Rightarrow> unit_flow \<Rightarrow> (int \<times> string) list" where
  "selection_mismatches env st =
     (case uf_selected st of None \<Rightarrow> [] | Some p \<Rightarrow> profile_mismatches [(uf_slave st, p)] (known_probes env st))"

fun shown_sound :: "'w unit_flow_env \<Rightarrow> unit_flow \<Rightarrow> unit_answer \<Rightarrow> unit_answer list \<Rightarrow> bool" where
  "shown_sound env st (UnitForm slaves d e) shown \<longleftrightarrow> slaves = uf_slaves st"
| "shown_sound env st (UnitProfileForm s p) shown \<longleftrightarrow> s = uf_slave st \<and> s \<in> set (uf_slaves st)"
| "shown_sound env st (UnitMismatchForm m) shown \<longleftrightarrow>
     m = selection_mismatches env st \<and> m = uf_mismatches st \<and> uf_selected st \<noteq> None \<and> uf_source st \<noteq> None
     \<and> (uf_source st = Some FromReconfigure \<or> uf_slave st \<in> set (uf_slaves st))"
| "shown_sound env st (UnitReconfigureForm s p) shown \<longleftrightarrow> subentry_slave (ue_subentry env) = Inr s"
| "shown_sound env st (UnitCreated d) shown \<longleftrightarrow>
     uf_slave st \<in> set (uf_slaves st)
     \<and> (\<exists>p. uf_selected st = Some p \<and> create_unit env (uf_slave st) p st = Inr (UnitCreated d, st))
     \<and> (selection_mismatches env st \<noteq> [] \<longrightarrow> hd shown = UnitMismatchForm (selection_mismatches env st))"
| "shown_sound env st (UnitProfileStored r i data) shown \<longleftrightarrow>
     r = (\<not> ue_listeners env) \<and> i = sub_id (ue_subentry env)
     \<and> (\<exists>p. uf_selected st = Some p \<and> data = AList.update ''profile'' (CStr p) (sub_data (ue_subentry env)))
     \<and> (selection_mismatches env st \<noteq> [] \<longrightarrow> hd shown = UnitMismatchForm (selection_mismatches env st))"
| "shown_sound env st (UnitAborted r) shown \<longleftrightarrow> True"

lemma create_unit_cases:
  assumes "create_unit env slave profile st = Inr (a, st')"
  shows "st' = st \<and> (a = UnitAborted ''already_configured'' \<or> (\<exists>d. a = UnitCreated d))"
  using assms by (auto simp: create_unit_def and_then_Inr split: if_split_asm)

lemma finish_profile_sound:
  assumes "finish_profile env st = Inr (a, st')"
    and "uf_source st = Some FromReconfigure \<or> uf_slave st \<in> set (uf_slaves st)"
    and "selection_mismatches env st \<noteq> [] \<longrightarrow> hd shown = UnitMismatchForm (selection_mismatches env st)"
  shows "st' = st \<and> shown_sound env st a shown"
proof -
  obtain profile source where sel: "uf_selected st = Some profile" "uf_source st = Some source"
    using assms(1) by (auto simp: finish_profile_def split: option.split_asm)
  show ?thesis
  proof (cases "source = FromReconfigure")
    case True
    then show ?thesis using assms sel by (auto simp: finish_profile_def)
  next
    case False
    then have created: "create_unit env (uf_slave st) profile st = Inr (a, st')"
      using assms(1) sel by (cases source) (auto simp: finish_profile_def)
    with create_unit_cases [OF this] show ?thesis using assms(2,3) False sel by auto
  qed
qed

lemma select_profile_sound:
  assumes "select_profile env slave profile source st = Inr (a, st')"
    and "source = FromReconfigure \<or> slave \<in> set (uf_slaves st)"
  shows "uf_slaves st' = uf_slaves st \<and> shown_sound env st' a shown"
proof -
  define st1 where "st1 = st\<lparr>uf_slave := slave, uf_selected := Some profile, uf_source := Some source,
      uf_mismatches := profile_mismatches [(slave, profile)] (if source = FromReconfigure
        then [(slave, stored_unit_probe (sub_data (ue_subentry env)))] else uf_probes st)\<rparr>"
  have m: "uf_mismatches st1 = selection_mismatches env st1"
    by (simp add: selection_mismatches_def known_probes_def st1_def)
  have facts: "uf_slaves st1 = uf_slaves st" "uf_slave st1 = slave" "uf_source st1 = Some source" "uf_selected st1 = Some profile"
    by (simp_all add: st1_def)
  have "(if uf_mismatches st1 \<noteq> [] then Inr (UnitMismatchForm (uf_mismatches st1), st1) else finish_profile env st1) = Inr (a, st')"
    using assms(1) by (simp only: select_profile_def Let_def st1_def)
  then show ?thesis
    using finish_profile_sound [of env st1 a st' shown] facts m assms(2) by (auto split: if_split_asm)
qed

lemma unit_user_sound:
  assumes "unit_step_user env None st w = (Returned (Inr (a, st')), w')"
  shows "shown_sound env st' a shown"
  using assms
  by (auto simp: unit_step_user_def await_then_def found_units_def step_profile_def profile_form_def user_form_def Let_def
      split: if_split_asm prod.split_asm outcome.split_asm sum.split_asm list.split_asm)

lemma select_unit_sound:
  assumes "select_unit env input st = Inr (a, st')" "map_of input ''slave'' \<in> Some ` int_text ` set (uf_slaves st)"
  shows "shown_sound env st' a shown"
proof -
  obtain slave where slave: "slave \<in> set (uf_slaves st)" "map_of input ''slave'' = Some (int_text slave)"
    using assms(2) by auto
  then obtain profile where "select_profile env slave profile FromUser st = Inr (a, st')"
    using assms(1) by (auto simp: select_unit_def and_then_Inr parse_int_text chosen_for_def split: option.split_asm)
  from select_profile_sound [OF this] slave(1) show ?thesis by blast
qed

lemma reconfigure_form_sound:
  assumes "unit_step_reconfigure env None st = Inr (a, st')"
  shows "shown_sound env st' a shown"
proof -
  obtain s p where "subentry_slave (ue_subentry env) = Inr s" "a = UnitReconfigureForm s p"
    using assms unfolding unit_step_reconfigure_def and_then_Inr option.case by auto
  then show ?thesis by simp
qed

lemma confirm_mismatch_sound:
  assumes "unit_confirm_mismatch env (Some action) st = Inr (a, st')" "shown_sound env st (UnitMismatchForm m) before"
  shows "shown_sound env st' a (UnitMismatchForm m # shown)"
proof (cases "action = ''correct''")
  case True
  then have corrected: "(case uf_source st of
      Some FromUser \<Rightarrow> Inr (user_form st, st) | Some FromProfile \<Rightarrow> step_profile env None st
    | Some FromReconfigure \<Rightarrow> unit_step_reconfigure env None st
    | None \<Rightarrow> Inl (RuntimeError ''No profile selection to correct'')) = Inr (a, st')"
    using assms(1) by (simp add: unit_confirm_mismatch_def)
  obtain source where source: "uf_source st = Some source" using assms(2) by auto
  show ?thesis
  proof (cases source)
    case FromReconfigure
    then have "unit_step_reconfigure env None st = Inr (a, st')" using corrected source by simp
    then show ?thesis by (rule reconfigure_form_sound)
  qed (use corrected source assms(2) in \<open>auto simp: user_form_def step_profile_def profile_form_def\<close>)
next
  case False
  then show ?thesis
    using finish_profile_sound [of env st a st' "UnitMismatchForm m # shown"] assms
    by (auto simp: unit_confirm_mismatch_def)
qed

lemma session_shown:
  assumes "unit_session env st shown"
  shows "\<exists>a rest. shown = a # rest \<and> shown_sound env st a rest"
  using assms
proof (induction rule: unit_session.induct)
  case (add_unit w a st w')
  from unit_user_sound [OF this] show ?case by blast
next
  case (change_profile a st)
  from reconfigure_form_sound [OF this] show ?case by blast
next
  case (submit_unit st slaves d e shown input w a st' w')
  from submit_unit.hyps(3) have "select_unit env input st = Inr (a, st')"
    by (simp add: unit_step_user_def)
  moreover have "map_of input ''slave'' \<in> Some ` int_text ` set (uf_slaves st)"
    using submit_unit.IH submit_unit.hyps(2) by simp
  ultimately have "shown_sound env st' a (UnitForm slaves d e # shown)" by (rule select_unit_sound)
  then show ?case by blast
next
  case (submit_profile st s p shown profile a st')
  then have "select_profile env (uf_slave st) profile FromProfile st = Inr (a, st')" "uf_slave st \<in> set (uf_slaves st)"
    by (auto simp: step_profile_def)
  from select_profile_sound [OF this(1)] this(2) show ?case by auto
next
  case (submit_reconfigure st s p shown profile a st')
  then obtain slave where "select_profile env slave profile FromReconfigure st = Inr (a, st')"
    unfolding unit_step_reconfigure_def and_then_Inr option.case by blast
  from select_profile_sound [OF this] show ?case by auto
next
  case (submit_mismatch st m shown action a st')
  then have "shown_sound env st (UnitMismatchForm m) shown" by (metis list.inject)
  from confirm_mismatch_sound [OF submit_mismatch.hyps(2) this] show ?case by blast
qed

section \<open>What is added\<close>

text \<open>A new subentry, with the ID Home Assistant gives it.\<close>

definition created_subentry :: "string \<Rightarrow> subentry_data \<Rightarrow> unit_subentry" where
  "created_subentry i d =
     \<lparr>sub_id = i, sub_title = new_title d, sub_unique_id = new_unique_id d, sub_data = new_data d\<rparr>"

text \<open>What the flows know of a unit when they store it.\<close>

definition storable :: "stored_room \<Rightarrow> int \<Rightarrow> bool" where
  "storable room slave \<longleftrightarrow> cell_of room ''slave'' = CInt slave \<and> (\<exists>c t. cell_of room ''key'' = CStr (c # t))
     \<and> (\<exists>c t. cell_of room ''name'' = CStr (c # t)) \<and> (stored_code room = CNone \<or> (\<exists>c. stored_code room = CStr c))"

lemma storable_subentry:
  assumes "storable room slave"
  defines "d \<equiv> \<lparr>new_data = unit_data room, new_title = name_text room, new_unique_id = Some (int_text slave)\<rparr>"
  shows "slave_of (created_subentry i d) = slave" "key_text (sub_data (created_subentry i d)) = key_text room"
    "sub_title (created_subentry i d) \<noteq> []" "sub_id (created_subentry i d) = i"
    "stored_code (sub_data (created_subentry i d)) = stored_code room"
    "cell_of (sub_data (created_subentry i d)) ''slave'' = CInt slave"
    "\<exists>c t. cell_of (sub_data (created_subentry i d)) ''key'' = CStr (c # t)"
  using assms(1) by (auto simp: storable_def created_subentry_def d_def slave_of_def key_text_def name_text_def
      cell_of_unit_data UNIT_DATA_KEYS_def)

lemma storable_wf:
  assumes "storable room slave"
  defines "d \<equiv> \<lparr>new_data = unit_data room, new_title = name_text room, new_unique_id = Some (int_text slave)\<rparr>"
  assumes "subentries_wf subs" "i \<notin> sub_id ` set subs" "slave \<notin> slave_of ` set subs"
    "key_text room \<notin> (\<lambda>s. key_text (sub_data s)) ` set subs"
  shows "subentries_wf (subs @ [created_subentry i d])"
  using assms(3-6) storable_subentry [OF assms(1), of i] assms(1)
  by (auto simp: subentries_wf_def storable_def simp flip: d_def)

lemma numbered_free_prefix: "pre \<noteq> [] \<Longrightarrow> numbered_free taken pre post n \<noteq> []"
  using numbered_free_form [of n taken pre post] by auto

lemma free_text_nonempty: "base \<noteq> [] \<Longrightarrow> pre \<noteq> [] \<Longrightarrow> free_text taken base pre post \<noteq> []"
  by (simp add: free_text_def numbered_free_prefix)

lemma new_unit_storable:
  assumes "new_unit_room slave profile result existing = Inr room"
  shows "storable room slave"
proof -
  obtain key name rest where room: "room = [(''key'', CStr key), (''name'', CStr name),
      (''name_is_device_name'', CBool True), (''slave'', CInt slave), (''profile'', CStr profile)] @ rest"
    and rest: "rest = [] \<or> (\<exists>r. rest = probe_cells r)" and "key \<noteq> []" "name \<noteq> []"
    using assms free_text_nonempty
    by (fastforce simp: new_unit_room_def and_then_Inr Let_def default_room_name_def split: option.splits list.splits)
  then show ?thesis
    by (auto simp: storable_def cell_of_def dict_get_def probe_cells_def neq_Nil_conv split: option.splits)
qed

text \<open>
  C32. A unit is added once and is told apart from the others: what the flow stores has an address the
  gateway listed and no stored unit has, a key and a name of its own, and it leaves the stored units
  consistent. A profile that contradicts what the unit reported is stored only right after a form that
  said so, for a new unit and for a changed one.
\<close>

theorem unit_is_added_once:
  assumes "subentries_wf (oe_subentries env)" and "unit_session env st (a # shown)"
  shows "(\<forall>d i. a = UnitCreated d \<longrightarrow> i \<notin> sub_id ` set (oe_subentries env) \<longrightarrow>
        subentries_wf (oe_subentries env @ [created_subentry i d])
        \<and> slave_of (created_subentry i d) = uf_slave st \<and> uf_slave st \<in> set (uf_slaves st)
        \<and> new_unique_id d = Some (int_text (uf_slave st)) \<and> new_title d \<notin> sub_title ` set (oe_subentries env))
    \<and> (\<forall>d r i data. a = UnitCreated d \<or> a = UnitProfileStored r i data \<longrightarrow> selection_mismatches env st \<noteq> [] \<longrightarrow>
        hd shown = UnitMismatchForm (selection_mismatches env st))"
proof -
  have sound: "shown_sound env st a shown" using session_shown [OF assms(2)] by auto
  have "subentries_wf (oe_subentries env @ [created_subentry i d])
      \<and> slave_of (created_subentry i d) = uf_slave st \<and> uf_slave st \<in> set (uf_slaves st)
      \<and> new_unique_id d = Some (int_text (uf_slave st)) \<and> new_title d \<notin> sub_title ` set (oe_subentries env)"
    if a: "a = UnitCreated d" and i: "i \<notin> sub_id ` set (oe_subentries env)" for d i
  proof -
    let ?subs = "oe_subentries env"
    let ?existing = "map (\<lambda>s. (slave_of s, loaded s)) (ordered_units ?subs)"
    obtain profile where slave: "uf_slave st \<in> set (uf_slaves st)"
      "create_unit env (uf_slave st) profile st = Inr (UnitCreated d, st)"
      using sound a by auto
    then obtain room where room: "new_unit_room (uf_slave st) profile (map_of (uf_probes st) (uf_slave st))
        (map snd ?existing) = Inr room" "uf_slave st \<notin> slave_of ` set ?subs"
      and "\<exists>name. item room ''name'' = Inr name \<and> d = \<lparr>new_data = unit_data room, new_title = py_str name,
        new_unique_id = Some (int_text (uf_slave st))\<rparr>"
      by (auto simp: create_unit_def unit_rooms_wf(1) [OF assms(1)] and_then_Inr image_comp comp_def split: if_split_asm)
    note st = new_unit_storable [OF room(1)]
    then have d: "d = \<lparr>new_data = unit_data room, new_title = name_text room, new_unique_id = Some (int_text (uf_slave st))\<rparr>"
      using \<open>\<exists>name. _\<close> by (auto simp: storable_def item_cell name_text_def)
    have loaded_texts: "key_text (loaded s) = key_text (sub_data s)" "name_text (loaded s) = sub_title s" for s
      by (simp_all add: loaded_def key_text_def name_text_def)
    have "key_text room \<notin> (\<lambda>s. key_text (sub_data s)) ` set ?subs" "name_text room \<notin> sub_title ` set ?subs"
      using new_unit_is_new(1,2) [OF room(1)] by (auto simp: loaded_texts)
    then show ?thesis
      using storable_wf [OF st assms(1) i room(2)] storable_subentry(1) [OF st, of i] slave(1) d by simp
  qed
  moreover have "hd shown = UnitMismatchForm (selection_mismatches env st)"
    if "a = UnitCreated d \<or> a = UnitProfileStored r i data" "selection_mismatches env st \<noteq> []" for d r i data
    using sound that by auto
  ultimately show ?thesis by blast
qed

section \<open>Example\<close>

text \<open>The unit at address 3 is stored; the gateway lists 3 and 4, and 4 reports the code of an M-WRG-II.\<close>

definition second_unit :: "unit unit_flow_env" where
  "second_unit =
     \<lparr>oe_subentries = [stored_unit 3 ''slave_3'' ''Bath''], oe_stored_rate = None, oe_running = True,
      oe_discover = (\<lambda>w. (Returned [3, 4], w)),
      oe_probe = (\<lambda>slave w. (Returned \<lparr>probe_profile = ''f'', probe_preview = None,
         probe_product_id = Some PRODUCT_ID_M_WRG_II, probe_setup_code = Some ''RA00004''\<rparr>, w)),
      ue_listeners = True, ue_subentry = stored_unit 3 ''slave_3'' ''Bath''\<rparr>"

definition second_found :: unit_flow where
  "second_found = \<lparr>uf_slaves = [4], uf_slave = 4,
     uf_probes = [(4, \<lparr>probe_profile = ''f'', probe_preview = None,
         probe_product_id = Some PRODUCT_ID_M_WRG_II, probe_setup_code = Some ''RA00004''\<rparr>)],
     uf_selected = None, uf_mismatches = [], uf_source = None\<rparr>"

definition second_chosen :: unit_flow where
  "second_chosen = second_found\<lparr>uf_selected := Some ''s_f'', uf_source := Some FromProfile, uf_mismatches := [(4, ''s_f'')]\<rparr>"

definition second_data :: subentry_data where
  "second_data = \<lparr>new_data = [(''key'', CStr ''slave_4''), (''slave'', CInt 4), (''profile'', CStr ''s_f''),
       (''product_id'', CInt PRODUCT_ID_M_WRG_II), (''app_setup_code'', CStr ''RA00004''), (''name_is_device_name'', CBool True)],
     new_title = ''Meltem M-WRG-S (RA00004)'', new_unique_id = Some ''4''\<rparr>"

lemma second_steps:
  "unit_step_user second_unit None NEW_UNIT_FLOW () = (Returned (Inr (UnitProfileForm 4 ''ii_f'', second_found)), ())"
  "step_profile second_unit (Some ''s_f'') second_found = Inr (UnitMismatchForm [(4, ''s_f'')], second_chosen)"
  "unit_confirm_mismatch second_unit (Some ''confirm'') second_chosen = Inr (UnitCreated second_data, second_chosen)"
  by code_simp+

lemma second_session:
  "unit_session second_unit second_chosen [UnitCreated second_data, UnitMismatchForm [(4, ''s_f'')], UnitProfileForm 4 ''ii_f'']"
  by (rule unit_session.intros second_steps)+

lemma second_wf: "subentries_wf (oe_subentries second_unit)"
  by (simp add: subentries_wf_def second_unit_def stored_unit_def cell_of_def dict_get_def)

lemma unit_is_added_once_witness:
  "subentries_wf (oe_subentries second_unit @ [created_subentry ''new'' second_data])
   \<and> slave_of (created_subentry ''new'' second_data) = 4"
proof -
  have "''new'' \<notin> sub_id ` set (oe_subentries second_unit)" "uf_slave second_chosen = 4" by code_simp+
  then show ?thesis using unit_is_added_once [OF second_wf second_session] by simp
qed

end
