(* ===== verification/Entity_Tables.thy ===== *)
theory Entity_Tables
  imports Units
begin

text \<open>
  Which entities a unit and a gateway have: the descriptions of \<open>sensor.py\<close>, \<open>binary_sensor.py\<close>,
  \<open>fan.py\<close>, \<open>number.py\<close>, \<open>select.py\<close> and \<open>switch.py\<close>, the rule in \<open>entity.py\<close>, the filter of
  \<open>automation.py\<close>, and what an entity shows of the polled state. Units of measurement, device classes
  and other texts for display are left out.
\<close>

section \<open>The rule for an entity\<close>

definition room_has_entity :: "room_config \<Rightarrow> string \<Rightarrow> bool" where
  "room_has_entity room entity_key =
     (if entity_key = DATA_HEALTH_ENTITY_KEY then supports_any room [''supply_air_flow'', ''extract_air_flow'']
      else case map_of ENTITY_PROFILES entity_key of
          Some profiles \<Rightarrow> room_profile room \<in> set profiles \<and> supports room entity_key
        | None \<Rightarrow> supports room entity_key)"

definition room_entity_platforms :: "room_config \<Rightarrow> (string, platform) dict" where
  "room_entity_platforms room = filter (\<lambda>(key, _). room_has_entity room key) ENTITY_PLATFORM_BY_KEY"

section \<open>Sensors\<close>

datatype reading = Whole int | Decimal real

abbreviation whole_reading :: "int option \<Rightarrow> reading option" where
  "whole_reading \<equiv> map_option Whole"

abbreviation decimal_reading :: "real option \<Rightarrow> reading option" where
  "decimal_reading \<equiv> map_option Decimal"

record sensor_description =
  sd_key :: string
  sd_extra_read_group :: "string option"
  sd_value :: "room_state \<Rightarrow> reading option"

definition sensor :: "string \<Rightarrow> (room_state \<Rightarrow> reading option) \<Rightarrow> sensor_description" where
  "sensor key f = \<lparr>sd_key = key, sd_extra_read_group = None, sd_value = f\<rparr>"

definition airflow_balance :: "room_state \<Rightarrow> reading option" where
  "airflow_balance state =
     (case (supply_air_flow state, extract_air_flow state) of
        (Some supply, Some extract) \<Rightarrow> Some (Whole (supply - extract))
      | _ \<Rightarrow> None)"

definition SENSOR_DESCRIPTIONS :: "sensor_description list" where
  "SENSOR_DESCRIPTIONS =
     [sensor ''airflow_balance'' airflow_balance,
      sensor ''exhaust_temperature'' (\<lambda>s. decimal_reading (exhaust_temperature s)),
      sensor ''outdoor_air_temperature'' (\<lambda>s. decimal_reading (outdoor_air_temperature s)),
      sensor ''extract_air_temperature'' (\<lambda>s. decimal_reading (extract_air_temperature s)),
      sensor ''supply_air_temperature'' (\<lambda>s. decimal_reading (supply_air_temperature s)),
      sensor ''humidity_extract_air'' (\<lambda>s. whole_reading (humidity_extract_air s)),
      sensor ''humidity_supply_air'' (\<lambda>s. whole_reading (humidity_supply_air s)),
      \<lparr>sd_key = ''absolute_humidity_extract_air'', sd_extra_read_group = Some ''temperature'',
       sd_value = (\<lambda>s. decimal_reading (absolute_humidity_extract_air s))\<rparr>,
      \<lparr>sd_key = ''absolute_humidity_supply_air'', sd_extra_read_group = Some ''temperature'',
       sd_value = (\<lambda>s. decimal_reading (absolute_humidity_supply_air s))\<rparr>,
      sensor ''co2_extract_air'' (\<lambda>s. whole_reading (co2_extract_air s)),
      sensor ''co2_supply_air'' (\<lambda>s. whole_reading (co2_supply_air s)),
      sensor ''voc_extract_air'' (\<lambda>s. whole_reading (voc_extract_air s)),
      sensor ''voc_supply_air'' (\<lambda>s. whole_reading (voc_supply_air s)),
      sensor ''extract_air_flow'' (\<lambda>s. whole_reading (extract_air_flow s)),
      sensor ''supply_air_flow'' (\<lambda>s. whole_reading (supply_air_flow s)),
      sensor ''days_until_filter_change'' (\<lambda>s. whole_reading (days_until_filter_change s)),
      sensor ''operating_hours'' (\<lambda>s. whole_reading (operating_hours s)),
      sensor ''fan_motor_hours'' (\<lambda>s. whole_reading (fan_motor_hours s)),
      sensor ''rf_last_seen_age_seconds'' (\<lambda>s. whole_reading (rf_last_seen_age_seconds s)),
      sensor ''rf_signal_strength'' (\<lambda>s. whole_reading (rf_signal_strength s))]"

definition EXTERNAL_INPUT_SENSOR_DESCRIPTIONS :: "string list" where
  "EXTERNAL_INPUT_SENSOR_DESCRIPTIONS =
     [''external_input_level'', ''external_input_on_delay'', ''external_input_run_on'']"

definition ROOM_DIAGNOSTIC_DESCRIPTIONS :: "string list" where
  "ROOM_DIAGNOSTIC_DESCRIPTIONS = [''last_successful_update'']"

definition sensor_entities :: "room_config \<Rightarrow> string list" where
  "sensor_entities room =
     (if room_has_entity room ''modbus_slave_id'' then [''modbus_slave_id''] else [])
     @ (if room_has_entity room ''app_setup_code'' then [''app_setup_code''] else [])
     @ filter (room_has_entity room) (map sd_key SENSOR_DESCRIPTIONS)
     @ filter (room_has_entity room) EXTERNAL_INPUT_SENSOR_DESCRIPTIONS
     @ filter (room_has_entity room) ROOM_DIAGNOSTIC_DESCRIPTIONS"

section \<open>Binary sensors\<close>

definition BINARY_SENSOR_DESCRIPTIONS :: "(string \<times> (room_state \<Rightarrow> bool option)) list" where
  "BINARY_SENSOR_DESCRIPTIONS =
     [(''error_status'', error_status),
      (''frost_protection_active'', frost_protection_active),
      (''filter_change_due'', filter_change_due),
      (''rf_comm_status'', rf_comm_status),
      (''device_fault'', device_fault),
      (''value_error_status'', value_error_status)]"

definition binary_sensor_entities :: "room_config \<Rightarrow> string list" where
  "binary_sensor_entities room =
     filter (room_has_entity room) (map fst BINARY_SENSOR_DESCRIPTIONS)
     @ (if room_has_entity room DATA_HEALTH_ENTITY_KEY then [DATA_HEALTH_ENTITY_KEY] else [])
     @ (if room_has_entity room ''connectivity'' then [''connectivity''] else [])"

section \<open>Controls\<close>

definition fan_entities :: "room_config \<Rightarrow> string list" where
  "fan_entities room =
     filter (room_has_entity room)
       (map (\<lambda>direction. direction @ ''_level'') [DIRECTION_SUPPLY, DIRECTION_EXTRACT])"

definition CONTROL_SETTING_DESCRIPTIONS :: "(string \<times> int \<times> int \<times> int) list" where
  "CONTROL_SETTING_DESCRIPTIONS =
     map (\<lambda>key. (key, dict_get CONTROL_SETTING_LIMITS key (0, 0, 0)))
       [''humidity_starting_point'', ''humidity_min_level'', ''humidity_max_level'',
        ''co2_starting_point'', ''co2_min_level'', ''co2_max_level'']"

definition number_entities :: "room_config \<Rightarrow> string list" where
  "number_entities room = filter (room_has_entity room) (map fst CONTROL_SETTING_DESCRIPTIONS)"

definition select_entities :: "room_config \<Rightarrow> string list" where
  "select_entities room =
     (if room_has_entity room ''operation_mode'' then [''operation_mode''] else [])
     @ (if room_has_entity room ''preset_mode'' then [''preset_mode''] else [])"

definition switch_entities :: "room_config \<Rightarrow> string list" where
  "switch_entities room = (if room_has_entity room ''intensive'' then [''intensive''] else [])"

definition created_entities :: "room_config \<Rightarrow> (string \<times> platform) list" where
  "created_entities room =
     map (\<lambda>key. (key, SENSOR)) (sensor_entities room)
     @ map (\<lambda>key. (key, BINARY_SENSOR)) (binary_sensor_entities room)
     @ map (\<lambda>key. (key, FAN)) (fan_entities room)
     @ map (\<lambda>key. (key, NUMBER)) (number_entities room)
     @ map (\<lambda>key. (key, SELECT)) (select_entities room)
     @ map (\<lambda>key. (key, SWITCH)) (switch_entities room)"

section \<open>Entities of the gateway\<close>

definition GATEWAY_SENSOR_KEYS :: "string list" where
  "GATEWAY_SENSOR_KEYS =
     [''gateway_rf_messages_current_hour'', ''gateway_rf_messages_previous_hour'',
      ''gateway_rf_load_current_hour'', ''gateway_rf_load_previous_hour'',
      ''gateway_supply_air_flow'', ''gateway_extract_air_flow'', ''gateway_airflow_delta'',
      ''gateway_response_time'', ''gateway_success_rate'', ''gateway_last_answer'']"

definition CUMULATIVE_GATEWAY_SENSOR_KEYS :: "string list" where
  "CUMULATIVE_GATEWAY_SENSOR_KEYS =
     [''gateway_modbus_attempts_total'', ''gateway_modbus_failures_total'', ''gateway_link_recycles_total'',
      ''gateway_failed_read_groups_total'', ''gateway_write_issues_total'']"

definition gateway_entities :: "(string \<times> platform) list" where
  "gateway_entities =
     map (\<lambda>key. (key, SENSOR))
       ([''modbus_device_path'', ''gateway_uptime'', ''gateway_utc_clock'', ''gateway_connected_devices'']
        @ GATEWAY_SENSOR_KEYS @ CUMULATIVE_GATEWAY_SENSOR_KEYS)
     @ [(''gateway_connectivity'', BINARY_SENSOR)]"

section \<open>Adding the entities\<close>

text \<open>
  \<open>async_add_room_entities\<close>: the entities of a platform per unit, with the subentry they are added to;
  a unit without entities adds nothing.
\<close>

definition add_room_entities ::
  "room_config list \<Rightarrow> (room_config \<Rightarrow> string list) \<Rightarrow> (string option \<times> string \<times> string list) list" where
  "add_room_entities rooms entities_of =
     map (\<lambda>room. (subentry_id room, room_key room, entities_of room))
       (filter (\<lambda>room. entities_of room \<noteq> []) rooms)"

record device_info =
  di_identifiers :: "device_identifier set"
  di_model :: string
  di_model_id :: "string option"
  di_name :: string
  di_hw_version :: "string option"
  di_sw_version :: "string option"
  di_via_device :: "string option"

definition INTEGRATION_NAME :: string where "INTEGRATION_NAME = ''Meltem Modbus''"
definition GATEWAY_NAME :: string where "GATEWAY_NAME = ''Meltem Gateway M-WRG-GW''"

definition room_device_info :: "room_config \<Rightarrow> room_state \<Rightarrow> string option \<Rightarrow> device_info" where
  "room_device_info room state gateway_device =
     \<lparr>di_identifiers = room_identifiers room, di_model = profile_label (room_profile room),
      di_model_id = map_option model_id (product_metadata_of (room_product_id room)),
      di_name = (if name_is_device_name room then room_name room
        else INTEGRATION_NAME @ '' '' @ room_name room),
      di_hw_version = map_option int_text (room_product_id room),
      di_sw_version = map_option int_text (software_version state),
      di_via_device = gateway_device\<rparr>"

definition gateway_device_info :: "string \<Rightarrow> device_info" where
  "gateway_device_info entry_id =
     \<lparr>di_identifiers = gateway_identifiers entry_id, di_model = ''M-WRG-GW'', di_model_id = None,
      di_name = GATEWAY_NAME, di_hw_version = None, di_sw_version = None, di_via_device = None\<rparr>"

section \<open>Automations\<close>

record registry_entry =
  re_entity_id :: string
  re_unique_id :: string
  re_domain :: string
  re_platform :: string

definition ends_with :: "string \<Rightarrow> string \<Rightarrow> bool" where
  "ends_with s sfx \<longleftrightarrow> length sfx \<le> length s \<and> drop (length s - length sfx) s = sfx"

definition filter_change_due_entities ::
  "(string \<Rightarrow> registry_entry option) \<Rightarrow> string list \<Rightarrow> string list" where
  "filter_change_due_entities registry entity_ids =
     filter (\<lambda>i. case registry i of
         None \<Rightarrow> False
       | Some e \<Rightarrow> re_platform e = DOMAIN \<and> ends_with (re_unique_id e) ''_filter_change_due'') entity_ids"

section \<open>The platforms and the rule agree\<close>

lemma created_filter:
  "created_entities room = filter (\<lambda>(key, _). room_has_entity room key)
     (map (\<lambda>key. (key, SENSOR)) ([''modbus_slave_id'', ''app_setup_code''] @ map sd_key SENSOR_DESCRIPTIONS
        @ EXTERNAL_INPUT_SENSOR_DESCRIPTIONS @ ROOM_DIAGNOSTIC_DESCRIPTIONS)
      @ map (\<lambda>key. (key, BINARY_SENSOR)) (map fst BINARY_SENSOR_DESCRIPTIONS @ [DATA_HEALTH_ENTITY_KEY, ''connectivity''])
      @ map (\<lambda>key. (key, FAN)) (map (\<lambda>direction. direction @ ''_level'') [DIRECTION_SUPPLY, DIRECTION_EXTRACT])
      @ map (\<lambda>key. (key, NUMBER)) (map fst CONTROL_SETTING_DESCRIPTIONS)
      @ map (\<lambda>key. (key, SELECT)) [''operation_mode'', ''preset_mode'']
      @ map (\<lambda>key. (key, SWITCH)) [''intensive''])"
proof -
  have "map (\<lambda>key. (key, p)) (filter f keys) = filter (\<lambda>(key, _). f key) (map (\<lambda>key. (key, p)) keys)"
    for f :: "string \<Rightarrow> bool" and p :: platform and keys
    by (induction keys) auto
  moreover have "map (\<lambda>key. (key, p)) (if f k then [k] else []) = filter (\<lambda>(key, _). f key) [(k, p)]"
    for f :: "string \<Rightarrow> bool" and p :: platform and k
    by simp
  ultimately show ?thesis
    unfolding created_entities_def sensor_entities_def binary_sensor_entities_def fan_entities_def
      number_entities_def select_entities_def switch_entities_def
    by (simp only: map_append filter_append append.assoc list.map append.simps filter.simps if_cancel
        flip: append_Cons) (simp add: if_distrib)
qed


definition ROOM_ENTITIES :: "(string \<times> platform) list" where
  "ROOM_ENTITIES =
     map (\<lambda>key. (key, SENSOR)) ([''modbus_slave_id'', ''app_setup_code''] @ map sd_key SENSOR_DESCRIPTIONS
        @ EXTERNAL_INPUT_SENSOR_DESCRIPTIONS @ ROOM_DIAGNOSTIC_DESCRIPTIONS)
      @ map (\<lambda>key. (key, BINARY_SENSOR)) (map fst BINARY_SENSOR_DESCRIPTIONS @ [DATA_HEALTH_ENTITY_KEY, ''connectivity''])
      @ map (\<lambda>key. (key, FAN)) (map (\<lambda>direction. direction @ ''_level'') [DIRECTION_SUPPLY, DIRECTION_EXTRACT])
      @ map (\<lambda>key. (key, NUMBER)) (map fst CONTROL_SETTING_DESCRIPTIONS)
      @ map (\<lambda>key. (key, SELECT)) [''operation_mode'', ''preset_mode'']
      @ map (\<lambda>key. (key, SWITCH)) [''intensive'']"

lemma room_entities_table:
  "list_all (\<lambda>e. e \<in> set ENTITY_PLATFORM_BY_KEY) ROOM_ENTITIES"
  "list_all (\<lambda>e. e \<in> set ROOM_ENTITIES) ENTITY_PLATFORM_BY_KEY"
  "distinct (map fst ROOM_ENTITIES)"
  "distinct (map fst ENTITY_PLATFORM_BY_KEY)"
  by code_simp+

lemma gateway_entities_table:
  "list_all (\<lambda>e. e \<in> set GATEWAY_ENTITY_PLATFORM_BY_KEY) gateway_entities"
  "list_all (\<lambda>e. e \<in> set gateway_entities) GATEWAY_ENTITY_PLATFORM_BY_KEY"
  "distinct (map fst gateway_entities)"
  by code_simp+

lemma created_set: "set (created_entities room) = set (room_entity_platforms room)"
proof -
  have "set ROOM_ENTITIES = set ENTITY_PLATFORM_BY_KEY"
    using room_entities_table(1,2) by (auto simp only: list_all_iff)
  then show ?thesis
    by (simp add: created_filter [folded ROOM_ENTITIES_def] room_entity_platforms_def)
qed

lemma created_known: "(key, p) \<in> set (created_entities room) \<Longrightarrow> (key, p) \<in> set ENTITY_PLATFORM_BY_KEY"
  using created_set [of room] by (auto simp: room_entity_platforms_def)

text \<open>
  C26. The platforms create exactly the entities the one rule allows: for every unit, whatever its profile
  and its supported keys, no entity is created twice, and the entities of the six platforms are those
  setup keeps in the registry, on the same platform; the same holds for the gateway.
\<close>

theorem platforms_create_by_rule:
  "distinct (map fst (created_entities room)) \<and> set (created_entities room) = set (room_entity_platforms room)
   \<and> distinct (map fst gateway_entities) \<and> set gateway_entities = set GATEWAY_ENTITY_PLATFORM_BY_KEY"
proof -
  have "set gateway_entities = set GATEWAY_ENTITY_PLATFORM_BY_KEY"
    using gateway_entities_table(1,2) by (auto simp only: list_all_iff)
  then show ?thesis
    using room_entities_table(3) gateway_entities_table(3)
    by (simp add: created_set) (simp add: created_filter [folded ROOM_ENTITIES_def] distinct_map_filter)
qed

end
