(* ===== verification/Setup_Flows.thy ===== *)
theory Setup_Flows
  imports Gateway_Connection Unit_Flow Entity_Tables
begin

text \<open>
  The flow that sets up a gateway in \<open>config_flow.py\<close>, with the temporary link of \<open>flow_helpers.py\<close> it
  scans over. What lies outside is a parameter: Home Assistant's entries and flows, the resolution of
  serial paths, and the temporary units of its Modbus integration.
\<close>

section \<open>The temporary link of a flow step\<close>

text \<open>
  Holding a unit succeeds, is refused with Home Assistant's own error, fails otherwise, or is
  cancelled. \<open>fh_unit\<close> is the held unit after \<open>prepare_unit\<close> with the timeout of the connection.
  \<open>fh_entry\<close> finds the entry with a unique ID, \<open>fh_busy\<close> says whether another flow has claimed it.
\<close>

datatype hold_reply = UnitHeld | HoldRefused string | HoldFailed exn | HoldCancelled

record 'w flow_host =
  fh_rules :: host_rules
  fh_resolve :: "string \<Rightarrow> 'w \<Rightarrow> string outcome \<times> 'w"
  fh_hold :: "modbus_params \<Rightarrow> int \<Rightarrow> 'w \<Rightarrow> hold_reply \<times> 'w"
  fh_unit :: "modbus_params \<Rightarrow> seconds \<Rightarrow> int \<Rightarrow> 'w unit_link"
  fh_release :: "modbus_params \<Rightarrow> int \<Rightarrow> 'w \<Rightarrow> 'w"
  fh_entry :: "string \<Rightarrow> string option"
  fh_busy :: "string \<Rightarrow> bool"

text \<open>The state of the exit stack: the world, and the units held so far.\<close>

type_synonym 'w lease = "'w \<times> int list"

definition unit_for :: "'w flow_host \<Rightarrow> gateway_connection \<Rightarrow> int \<Rightarrow> 'w lease \<Rightarrow> unit outcome \<times> 'w lease" where
  "unit_for env c slave s =
     (case fh_hold env (link_params c) slave (fst s) of
        (UnitHeld, w) \<Rightarrow> (Returned (), (w, snd s @ [slave]))
      | (HoldRefused text, w) \<Rightarrow> (Erred (Translated (PortInUseError text)), (w, snd s))
      | (HoldFailed e, w) \<Rightarrow> (Erred (Untranslated e), (w, snd s))
      | (HoldCancelled, w) \<Rightarrow> (Aborted, (w, snd s)))"

definition link_for :: "'w flow_host \<Rightarrow> gateway_connection \<Rightarrow> int \<Rightarrow> 'w unit_link" where
  "link_for env c = fh_unit env (link_params c) (connection_timeout c)"

definition on_link :: "('w \<Rightarrow> 'a outcome \<times> 'w) \<Rightarrow> 'w lease \<Rightarrow> 'a outcome \<times> 'w lease" where
  "on_link action s = (case action (fst s) of (r, w) \<Rightarrow> (r, (w, snd s)))"

text \<open>The exit stack lets the units go in reverse order, however the body ended.\<close>

definition temporary_units ::
  "'w flow_host \<Rightarrow> gateway_connection \<Rightarrow> ('w lease \<Rightarrow> 'a outcome \<times> 'w lease) \<Rightarrow> 'w \<Rightarrow> 'a outcome \<times> 'w" where
  "temporary_units env c body w =
     (case body (w, []) of (r, s) \<Rightarrow>
        (r, fold (fh_release env (link_params c)) (rev (snd s)) (fst s)))"

definition probe_held ::
  "'w flow_host \<Rightarrow> gateway_connection \<Rightarrow> int \<Rightarrow> 'w lease \<Rightarrow> unit_probe_result outcome \<times> 'w lease" where
  "probe_held env c slave s =
     await_then (unit_for env c slave s) (\<lambda>_. on_link (detect_slave_details (link_for env c slave)))"

definition async_discover_units ::
  "'w flow_host \<Rightarrow> gateway_connection \<Rightarrow> 'w \<Rightarrow> (int list \<times> probes) outcome \<times> 'w" where
  "async_discover_units env c =
     temporary_units env c (\<lambda>s.
       await_then (unit_for env c DEFAULT_GATEWAY_DEVICE_ID s) (\<lambda>_ s.
       await_then (on_link (discover_gateway_nodes (link_for env c DEFAULT_GATEWAY_DEVICE_ID) (unique_id c)
           DEFAULT_SCAN_SLAVE_START DEFAULT_SCAN_SLAVE_END False) s) (\<lambda>slaves s.
       await_then (async_probe_units (probe_held env c) slaves s) (\<lambda>probes s.
         (Returned (slaves, probes), s)))))"

definition async_validate_port :: "'w flow_host \<Rightarrow> gateway_connection \<Rightarrow> 'w \<Rightarrow> unit outcome \<times> 'w" where
  "async_validate_port env c =
     temporary_units env c (\<lambda>s.
       await_then (unit_for env c DEFAULT_GATEWAY_DEVICE_ID s) (\<lambda>_ s.
       await_then (on_link (read_gateway_node_count (link_for env c DEFAULT_GATEWAY_DEVICE_ID)) s) (\<lambda>_ s.
         (Returned (), s))))"

definition connection_error :: "client_error \<Rightarrow> string" where
  "connection_error e =
     (case e of
        Translated (PortInUseError _) \<Rightarrow> ''port_in_use''
      | _ \<Rightarrow> if meltem_modbus_error e then ''cannot_connect'' else ''unknown'')"

section \<open>Forms and answers\<close>

text \<open>What the connection form sends, after its schema: every field but the type may be missing.\<close>

record connection_input =
  ci_type :: "string option"
  ci_port :: "string option"
  ci_host :: "string option"
  ci_network_port :: "int option"
  ci_modbus_tcp_port :: "int option"

definition given :: "'a option \<Rightarrow> 'a \<Rightarrow> 'a" where
  "given v d = (case v of None \<Rightarrow> d | Some x \<Rightarrow> x)"

record setup_flow =
  cf_port :: string
  cf_connection :: gateway_connection
  cf_slaves :: "int list"
  cf_probes :: probes
  cf_detected :: "(int, string) dict"
  cf_selected :: "(string, string) dict"
  cf_mismatches :: "(int \<times> string) list"
  cf_usb :: "(string \<times> string \<times> string) option"

definition DEFAULT_PORT :: string where "DEFAULT_PORT = ''/dev/ttyACM0''"

definition NEW_SETUP :: setup_flow where
  "NEW_SETUP = \<lparr>cf_port = DEFAULT_PORT, cf_connection = SerialGatewayConnection DEFAULT_PORT, cf_slaves = [],
     cf_probes = [], cf_detected = [], cf_selected = [], cf_mismatches = [], cf_usb = None\<rparr>"

text \<open>
  A form comes with what it is filled with and its error, an abort with its reason and what it changes
  in the existing entry. \<open>EntryUpdated\<close> says whether the flow itself reloads the entry.
\<close>

datatype setup_answer =
    ConnectionForm gateway_connection "connection_input option" "string option"
  | UsbForm string "string \<times> string \<times> string" "string option"
  | SetupProfilesForm "(int, string) dict"
  | SetupMismatchForm "(int \<times> string) list"
  | ReconfigureForm gateway_connection "connection_input option" "string option"
  | EntryCreated string "(string, cell) dict" "subentry_data list"
  | EntryUpdated bool string "(string, cell) dict"
  | SetupAborted string "(string, cell) dict"

type_synonym setup_result = "meltem_error + setup_answer \<times> setup_flow"

text \<open>\<open>async_set_unique_id\<close> and \<open>_abort_if_unique_id_configured\<close>: why the flow ends, if it does.\<close>

definition claim_unique_id ::
  "'w flow_host \<Rightarrow> string \<Rightarrow> (string, cell) dict \<Rightarrow> setup_answer option" where
  "claim_unique_id env uid updates =
     (if fh_busy env uid then Some (SetupAborted ''already_in_progress'' [])
      else if fh_entry env uid \<noteq> None then Some (SetupAborted ''already_configured'' updates)
      else None)"

definition async_connection ::
  "'w flow_host \<Rightarrow> connection_input \<Rightarrow> 'w \<Rightarrow> (meltem_error + gateway_connection) outcome \<times> 'w" where
  "async_connection env input w =
     (if ci_type input = Some ''rtu_over_tcp''
      then (Returned (rtu_tcp_connection (fh_rules env) (CStr (given (ci_host input) []))
          (CInt (given (ci_network_port input) DEFAULT_NETWORK_PORT))), w)
      else if ci_type input = Some ''modbus_tcp''
      then (Returned (modbus_tcp_connection (fh_rules env) (CStr (given (ci_host input) []))
          (CInt (given (ci_modbus_tcp_port input) DEFAULT_MODBUS_TCP_PORT))), w)
      else if py_strip (given (ci_port input) []) = []
      then (Returned (Inl (ValueError ''Serial device path is required'')), w)
      else await_then (fh_resolve env (py_strip (given (ci_port input) [])) w) (\<lambda>port w.
        (Returned (Inr (SerialGatewayConnection port)), w)))"

fun serial_port :: "gateway_connection \<Rightarrow> string option" where
  "serial_port (SerialGatewayConnection port) = Some port"
| "serial_port _ = None"

text \<open>\<open>_async_scan\<close>: the error of the form, and the flow with what was found.\<close>

definition scanned :: "gateway_connection \<Rightarrow> int list \<Rightarrow> probes \<Rightarrow> setup_flow \<Rightarrow> setup_flow" where
  "scanned c slaves probes st =
     st\<lparr>cf_connection := c, cf_port := given (serial_port c) (cf_port st), cf_slaves := slaves,
        cf_probes := probes, cf_detected := probe_profiles probes\<rparr>"

definition async_scan ::
  "'w flow_host \<Rightarrow> gateway_connection \<Rightarrow> setup_flow \<Rightarrow> 'w \<Rightarrow> (string option \<times> setup_flow) outcome \<times> 'w" where
  "async_scan env c st w =
     (case async_discover_units env c w of
        (Erred e, w) \<Rightarrow> (Returned (Some (connection_error e), st), w)
      | (Aborted, w) \<Rightarrow> (Aborted, w)
      | (Returned (slaves, probes), w) \<Rightarrow>
          (Returned (if slaves = [] then (Some ''no_devices_found'', st)
                     else (None, scanned c slaves probes st)), w))"

section \<open>Profiles\<close>

definition create_profiles :: "setup_flow \<Rightarrow> setup_result" where
  "create_profiles st =
     and_then (build_rooms_from_profiles (cf_slaves st) (cf_selected st) (cf_probes st) []) (\<lambda>rooms.
     and_then (all_right (map unit_subentry_data rooms)) (\<lambda>units.
       Inr (EntryCreated GATEWAY_NAME (as_data (cf_connection st)) units, st)))"

definition default_selection :: "setup_flow \<Rightarrow> (int, string) dict" where
  "default_selection st =
     fold (\<lambda>slave d. case map_of (cf_selected st) (profile_field_key slave) of
         None \<Rightarrow> d | Some profile \<Rightarrow> AList.update slave profile d)
       (cf_slaves st) (profile_defaults (cf_slaves st) (cf_detected st) [])"

definition setup_profiles :: "(string, string) dict option \<Rightarrow> setup_flow \<Rightarrow> setup_result" where
  "setup_profiles input st =
     (if cf_slaves st = [] then Inr (ConnectionForm (cf_connection st) None None, st)
      else case input of
          None \<Rightarrow> Inr (SetupProfilesForm (default_selection st), st)
        | Some selected \<Rightarrow>
            and_then (all_right (map (chosen_for selected) (cf_slaves st))) (\<lambda>profiles.
              let st1 = st\<lparr>cf_selected := selected, cf_mismatches := profile_mismatches profiles (cf_probes st)\<rparr>
              in if cf_mismatches st1 \<noteq> [] then Inr (SetupMismatchForm (cf_mismatches st1), st1)
                 else create_profiles st1))"

definition setup_mismatch :: "string option \<Rightarrow> setup_flow \<Rightarrow> setup_result" where
  "setup_mismatch action st =
     (case action of
        None \<Rightarrow> Inr (SetupMismatchForm (cf_mismatches st), st)
      | Some a \<Rightarrow> if a = ''correct'' then setup_profiles None st else create_profiles st)"

section \<open>The steps before\<close>

definition step_user ::
  "'w flow_host \<Rightarrow> connection_input option \<Rightarrow> setup_flow \<Rightarrow> 'w \<Rightarrow> setup_result outcome \<times> 'w" where
  "step_user env input st w =
     (case input of
        None \<Rightarrow> (Returned (Inr (ConnectionForm (cf_connection st) None None, st)), w)
      | Some typed \<Rightarrow>
          await_then (async_connection env typed w) (\<lambda>made w.
            case made of
              Inl (ValueError _) \<Rightarrow>
                (Returned (Inr (ConnectionForm (cf_connection st) input (Some ''invalid_connection''), st)), w)
            | Inl e \<Rightarrow> (Returned (Inl e), w)
            | Inr c \<Rightarrow>
                let st1 = st\<lparr>cf_connection := c\<rparr>
                in case claim_unique_id env (unique_id c) [] of
                     Some end_answer \<Rightarrow> (Returned (Inr (end_answer, st1)), w)
                   | None \<Rightarrow>
                       await_then (async_scan env c st1 w) (\<lambda>(error, st2) w.
                         (Returned (case error of
                            None \<Rightarrow> setup_profiles None st2
                          | Some text \<Rightarrow> Inr (ConnectionForm (cf_connection st2) input (Some text), st2)), w))))"

definition usb_form :: "setup_flow \<Rightarrow> string option \<Rightarrow> setup_answer" where
  "usb_form st error =
     UsbForm (cf_port st) (given (cf_usb st) (cf_port st, ''Unknown'', ''Unknown USB device'')) error"

definition or_unknown :: "string option \<Rightarrow> string \<Rightarrow> string" where
  "or_unknown text unknown = (case text of Some (c # s) \<Rightarrow> c # s | _ \<Rightarrow> unknown)"

definition step_usb ::
  "'w flow_host \<Rightarrow> string \<Rightarrow> string option \<Rightarrow> string option \<Rightarrow> setup_flow \<Rightarrow> 'w \<Rightarrow> setup_result outcome \<times> 'w" where
  "step_usb env dev manufacturer description st w =
     await_then (fh_resolve env dev w) (\<lambda>port w.
       (Returned (Inr (case claim_unique_id env port [(''port'', CStr port)] of
          Some end_answer \<Rightarrow> (end_answer, st)
        | None \<Rightarrow>
            let st1 = st\<lparr>cf_port := port, cf_usb := Some (port, or_unknown manufacturer ''Unknown'',
                          or_unknown description ''Unknown USB device'')\<rparr>
            in (usb_form st1 None, st1))), w))"

definition step_scan :: "'w flow_host \<Rightarrow> setup_flow \<Rightarrow> 'w \<Rightarrow> setup_result outcome \<times> 'w" where
  "step_scan env st w =
     await_then (fh_resolve env (cf_port st) w) (\<lambda>port w.
       let st1 = st\<lparr>cf_port := port\<rparr>
       in case claim_unique_id env port [] of
            Some end_answer \<Rightarrow> (Returned (Inr (end_answer, st1)), w)
          | None \<Rightarrow>
              await_then (async_scan env (SerialGatewayConnection port) st1 w) (\<lambda>(error, st2) w.
                (Returned (case error of
                   Some text \<Rightarrow> Inr (usb_form st2 (Some text), st2)
                 | None \<Rightarrow> setup_profiles None st2), w)))"

definition confirm_usb ::
  "'w flow_host \<Rightarrow> string option \<Rightarrow> setup_flow \<Rightarrow> 'w \<Rightarrow> setup_result outcome \<times> 'w" where
  "confirm_usb env input st w =
     (case input of
        None \<Rightarrow> (Returned (Inr (usb_form st None, st)), w)
      | Some port \<Rightarrow> step_scan env (st\<lparr>cf_port := port\<rparr>) w)"

section \<open>Another connection for an entry\<close>

text \<open>
  The entry that is reconfigured. \<open>en_disconnect\<close> is there when the entry is loaded: it lets go of the
  running coordinator's own link.
\<close>

record 'w connected_entry =
  en_id :: string
  en_data :: "(string, cell) dict"
  en_listeners :: bool
  en_disconnect :: "('w \<Rightarrow> unit outcome \<times> 'w) option"

definition CONNECTION_FIELDS :: "string list" where
  "CONNECTION_FIELDS = [''port'', ''connection_type'', ''host'', ''network_port'', ''modbus_tcp_port'']"

definition reconnected_data :: "(string, cell) dict \<Rightarrow> gateway_connection \<Rightarrow> (string, cell) dict" where
  "reconnected_data data c =
     fold (\<lambda>(k, v) d. AList.update k v d) (as_data c)
       (filter (\<lambda>(k, v). k \<notin> set CONNECTION_FIELDS) data)"

text \<open>A serial path is resolved again before it is compared with the new one.\<close>

definition resolved_connection ::
  "'w flow_host \<Rightarrow> gateway_connection \<Rightarrow> 'w \<Rightarrow> gateway_connection outcome \<times> 'w" where
  "resolved_connection env c w =
     (case serial_port c of
        None \<Rightarrow> (Returned c, w)
      | Some port \<Rightarrow> await_then (fh_resolve env port w) (\<lambda>port w. (Returned (SerialGatewayConnection port), w)))"

text \<open>
  \<open>async_validate_replacement\<close> of the running coordinator, when both links are network links: the old
  link is dropped before the new one is tried.
\<close>

definition validate_replacement ::
  "'w flow_host \<Rightarrow> 'w connected_entry \<Rightarrow> gateway_connection \<Rightarrow> gateway_connection \<Rightarrow> 'w \<Rightarrow> unit outcome \<times> 'w" where
  "validate_replacement env entry current c w =
     (case en_disconnect entry of
        Some disconnect \<Rightarrow>
          if serial_port current = None \<and> serial_port c = None
          then await_then (disconnect w) (\<lambda>_. async_validate_port env c)
          else async_validate_port env c w
      | None \<Rightarrow> async_validate_port env c w)"

definition replacement_error ::
  "'w flow_host \<Rightarrow> 'w connected_entry \<Rightarrow> gateway_connection \<Rightarrow> gateway_connection \<Rightarrow> 'w
     \<Rightarrow> string option outcome \<times> 'w" where
  "replacement_error env entry current c w =
     (if c = current then (Returned None, w)
      else case validate_replacement env entry current c w of
          (Returned _, w) \<Rightarrow> (Returned None, w)
        | (Erred e, w) \<Rightarrow> (Returned (Some (connection_error e)), w)
        | (Aborted, w) \<Rightarrow> (Aborted, w))"

definition replace_connection ::
  "'w flow_host \<Rightarrow> 'w connected_entry \<Rightarrow> connection_input \<Rightarrow> gateway_connection \<Rightarrow> gateway_connection \<Rightarrow> 'w
     \<Rightarrow> (meltem_error + setup_answer) outcome \<times> 'w" where
  "replace_connection env entry typed current c w =
     (if fh_entry env (unique_id c) \<notin> {None, Some (en_id entry)}
      then (Returned (Inr (SetupAborted ''already_configured'' [])), w)
      else await_then (replacement_error env entry current c w) (\<lambda>error w.
        (Returned (Inr (case error of
           None \<Rightarrow> EntryUpdated (\<not> en_listeners entry) (unique_id c) (reconnected_data (en_data entry) c)
         | Some text \<Rightarrow> ReconfigureForm c (Some typed) (Some text))), w)))"

definition step_reconfigure ::
  "'w flow_host \<Rightarrow> 'w connected_entry \<Rightarrow> connection_input option \<Rightarrow> 'w
     \<Rightarrow> (meltem_error + setup_answer) outcome \<times> 'w" where
  "step_reconfigure env entry input w =
     (case gateway_connection_from_data (fh_rules env) (en_data entry) of
        Inl e \<Rightarrow> (Returned (Inl e), w)
      | Inr current \<Rightarrow>
          (case input of
             None \<Rightarrow> (Returned (Inr (ReconfigureForm current None None)), w)
           | Some typed \<Rightarrow>
               await_then (async_connection env typed w) (\<lambda>made w.
                 case made of
                   Inl (ValueError _) \<Rightarrow>
                     (Returned (Inr (ReconfigureForm current input (Some ''invalid_connection''))), w)
                 | Inl e \<Rightarrow> (Returned (Inl e), w)
                 | Inr c \<Rightarrow>
                     await_then (resolved_connection env current w) (\<lambda>current.
                       replace_connection env entry typed current c))))"

section \<open>Units are let go\<close>

text \<open>
  \<open>open_units\<close> observes which temporary units a world has open: holding one opens it last, letting the
  last one go closes it, and talking to a unit changes nothing.
\<close>

definition link_keeps :: "('w \<Rightarrow> bool) \<Rightarrow> 'w unit_link \<Rightarrow> bool" where
  "link_keeps P link \<longleftrightarrow> (\<forall>w. P w \<longrightarrow> (\<forall>b. P (snd (ul_update link b w))) \<and> (\<forall>a n. P (snd (ul_registers link a n w)))
     \<and> (\<forall>t. P (snd (ul_sleep link t w))))"

definition units_observed :: "'w flow_host \<Rightarrow> ('w \<Rightarrow> int list) \<Rightarrow> bool" where
  "units_observed env open_units \<longleftrightarrow>
     (\<forall>p slave w r w'. fh_hold env p slave w = (r, w') \<longrightarrow>
        open_units w' = (if r = UnitHeld then open_units w @ [slave] else open_units w))
     \<and> (\<forall>p slave w us. open_units w = us @ [slave] \<longrightarrow> open_units (fh_release env p slave w) = us)
     \<and> (\<forall>p t slave us. link_keeps (\<lambda>w. open_units w = us) (fh_unit env p t slave))"

definition kept :: "('w \<Rightarrow> bool) \<Rightarrow> 'a outcome \<times> 'w \<Rightarrow> bool" where
  "kept P r \<longleftrightarrow> P (snd r)"

lemma kept_pair [simp]: "kept P (r, w) = P w"
  by (simp add: kept_def)

lemma await_keeps:
  assumes "kept P r" "\<And>a w. P w \<Longrightarrow> kept P (f a w)"
  shows "kept P (await_then r f)"
  using assms by (cases r; cases "fst r") (auto simp: await_then_def kept_def)

lemma link_keeps_simps:
  assumes "link_keeps P link" "P w"
  shows "kept P (ul_update link b w)" "kept P (ul_registers link m n w)" "kept P (ul_sleep link t w)"
  using assms by (auto simp: link_keeps_def kept_def)

lemma probe_read_keeps:
  assumes link: "link_keeps P link" and rd: "\<forall>w. P w \<longrightarrow> kept P (rd w)" and "P w"
  shows "kept P (probe_read link rd heard retried w)"
proof -
  have second: "kept P (probe_read link rd h True w)" if "P w" for h w
  proof -
    obtain r w1 where r: "rd w = (r, w1)" by force
    then have "P w1" using rd that by (metis kept_pair)
    then show ?thesis
      using r by (subst probe_read.simps) (simp split: outcome.split client_error.split)
  qed
  have "kept P (probe_read link rd heard False w)"
  proof -
    obtain r w1 where r: "rd w = (r, w1)" by force
    then have w1: "P w1" using rd assms(3) by (metis kept_pair)
    obtain r2 w2 where sleep: "ul_sleep link TRANSPORT_READ_RECOVERY_SECONDS w1 = (r2, w2)" by force
    then have w2: "P w2" using link_keeps_simps(3) [OF link w1] by (metis kept_pair)
    show ?thesis
      using w1 w2 r sleep second [OF w2]
      by (subst probe_read.simps) (simp split: outcome.split client_error.split)
  qed
  then show ?thesis using second assms(3) by (cases retried) simp_all
qed

lemma probe_components_keeps:
  "link_keeps P link \<Longrightarrow> P w \<Longrightarrow> kept P (probe_components link names heard found w)"
proof (induction names arbitrary: heard found w)
  case (Cons name names)
  have "kept P (probe_read link (ul_update link (probe_block name)) heard False w)"
    by (rule probe_read_keeps) (use Cons.prems link_keeps_simps(1) in auto)
  then show ?case
    unfolding probe_components.simps
    by (rule await_keeps) (use Cons in \<open>auto split: prod.split\<close>)
qed simp

lemma detect_keeps:
  assumes "link_keeps P link" "P w"
  shows "kept P (detect_slave_details link w)"
proof -
  have code: "\<forall>w. P w \<longrightarrow> kept P (read_app_setup_code link w)"
    unfolding read_app_setup_code_def
    by (intro allI impI await_keeps link_keeps_simps(1) [OF assms(1)]) auto
  show ?thesis
    unfolding detect_slave_details_def
  proof (rule await_keeps [OF probe_components_keeps [OF assms]])
    fix a w assume "P w"
    then have "kept P (probe_read link (read_app_setup_code link) h False w)" for h
      by (rule probe_read_keeps [OF assms(1) code])
    then show "kept P ((case a of (silent, heard, found) \<Rightarrow> \<lambda>w.
        if silent then (Returned (probe_result found None), w)
        else await_then (probe_read link (read_app_setup_code link) heard False w) (\<lambda>(_, code) w.
          (Returned (probe_result found (case code of Some (Some c) \<Rightarrow> Some c | _ \<Rightarrow> None)), w))) w)"
      using \<open>P w\<close> by (auto split: prod.split intro!: await_keeps)
  qed
qed

lemma node_count_keeps: "link_keeps P link \<Longrightarrow> P w \<Longrightarrow> kept P (read_node_count link w)"
  unfolding read_node_count_def by (rule await_keeps [OF link_keeps_simps(1)]) auto

lemma discover_keeps:
  assumes "link_keeps P link" "P w"
  shows "kept P (discover_gateway_nodes link port m n strict w)"
proof -
  obtain r w1 where count: "read_node_count link w = (r, w1)" by force
  then have w1: "P w1" using node_count_keeps [OF assms] by simp
  obtain r2 w2 where addresses: "read_node_addresses link (min MAX_NODE_ADDRESSES k) w1 = (r2, w2)"
    if "r = Returned k" for k
    by (cases r) force+
  have "P w2" if "r = Returned k" for k
    using link_keeps_simps(2) [OF assms(1) w1] addresses [OF that] by (metis kept_pair read_node_addresses_def)
  then show ?thesis
    using w1 count addresses unfolding discover_gateway_nodes_def
    by (simp split: outcome.split client_error.split)
qed

lemma gateway_count_keeps:
  assumes "link_keeps P link" "P w"
  shows "kept P (read_gateway_node_count link w)"
  using node_count_keeps [OF assms]
  by (auto simp: read_gateway_node_count_def kept_def split: prod.split outcome.split client_error.split)

text \<open>Between the steps, the open units are those from before and the held ones.\<close>

definition leased :: "('w \<Rightarrow> int list) \<Rightarrow> int list \<Rightarrow> 'w lease \<Rightarrow> bool" where
  "leased open_units us s \<longleftrightarrow> open_units (fst s) = us @ snd s"

lemma unit_for_leased:
  assumes "units_observed env open_units" "leased open_units us s"
  shows "kept (leased open_units us) (unit_for env c slave s)"
proof -
  obtain r w where "fh_hold env (link_params c) slave (fst s) = (r, w)" by force
  then show ?thesis using assms by (cases r) (auto simp: units_observed_def leased_def unit_for_def)
qed

lemma on_link_leased:
  assumes "\<And>us w. open_units w = us \<Longrightarrow> kept (\<lambda>w. open_units w = us) (action w)" "leased open_units us s"
  shows "kept (leased open_units us) (on_link action s)"
proof -
  obtain r w where action: "action (fst s) = (r, w)" by force
  then have "open_units w = open_units (fst s)" using assms(1) [of "fst s"] by (metis kept_pair)
  then show ?thesis using assms(2) action by (simp add: leased_def on_link_def)
qed

lemma temporary_units_close:
  assumes "units_observed env open_units"
    and "leased open_units (open_units w) (w, []) \<Longrightarrow> kept (leased open_units (open_units w)) (body (w, []))"
  shows "open_units (snd (temporary_units env c body w)) = open_units w"
proof -
  have release: "open_units (fold (fh_release env p) (rev held) w') = us" if "open_units w' = us @ held" for p held w' us
    using that
  proof (induction held arbitrary: w' rule: rev_induct)
    case (snoc slave held)
    then have "open_units (fh_release env p slave w') = us @ held"
      using assms(1) by (simp add: units_observed_def)
    then show ?case using snoc.IH by simp
  qed simp
  obtain r w' held where body: "body (w, []) = (r, (w', held))" by (metis prod_cases3)
  then have "open_units w' = open_units w @ held"
    using assms(2) by (simp add: leased_def)
  then show ?thesis using release body by (simp add: temporary_units_def)
qed

lemma probe_units_leased:
  assumes "units_observed env open_units" "leased open_units us s"
  shows "kept (leased open_units us) (probe_units (probe_held env c) slaves results s)"
  using assms(2)
proof (induction slaves arbitrary: results s)
  case (Cons slave slaves)
  have "link_keeps (\<lambda>w. open_units w = vs) (link_for env c slave)" for vs
    using assms(1) by (simp add: units_observed_def link_for_def)
  then have "kept (leased open_units us) (probe_held env c slave s)"
    unfolding probe_held_def
    by (intro await_keeps unit_for_leased [OF assms(1)] on_link_leased Cons.prems detect_keeps)
  moreover obtain r s' where "probe_held env c slave s = (r, s')" by (metis surj_pair)
  ultimately show ?case using Cons.IH by (simp split: outcome.split)
qed simp

text \<open>
  C33. A scan of the setup flow, and the check of a new connection, leave no unit of the gateway held:
  whatever happens on the way, refusals, a dead link, cancellation, the units open afterwards are those
  that were open before.
\<close>

theorem flow_lets_units_go:
  assumes "units_observed env open_units"
  shows "open_units (snd (async_discover_units env c w)) = open_units w
    \<and> open_units (snd (async_validate_port env c w)) = open_units w"
proof -
  have link: "link_keeps (\<lambda>w. open_units w = us) (link_for env c slave)" for us slave
    using assms by (simp add: units_observed_def link_for_def)
  have "open_units (snd (async_discover_units env c w)) = open_units w"
    unfolding async_discover_units_def async_probe_units_def
    by (rule temporary_units_close [OF assms])
      (intro await_keeps unit_for_leased [OF assms] on_link_leased discover_keeps [OF link] probe_units_leased [OF assms];
        simp)
  moreover have "open_units (snd (async_validate_port env c w)) = open_units w"
    unfolding async_validate_port_def
    by (rule temporary_units_close [OF assms])
      (intro await_keeps unit_for_leased [OF assms] on_link_leased gateway_count_keeps [OF link]; simp)
  ultimately show ?thesis by blast
qed

section \<open>Runs of the forms\<close>

inductive setup_session :: "'w flow_host \<Rightarrow> setup_flow \<Rightarrow> setup_answer list \<Rightarrow> bool" for env where
  open_user: "step_user env None NEW_SETUP w = (Returned (Inr (a, st)), w') \<Longrightarrow> setup_session env st [a]"
| open_usb: "step_usb env dev m d NEW_SETUP w = (Returned (Inr (a, st)), w') \<Longrightarrow> setup_session env st [a]"
| submit_user: "setup_session env st (ConnectionForm c v e # shown) \<Longrightarrow>
    step_user env (Some typed) st w = (Returned (Inr (a, st')), w') \<Longrightarrow>
    setup_session env st' (a # ConnectionForm c v e # shown)"
| submit_usb: "setup_session env st (UsbForm q t e # shown) \<Longrightarrow>
    confirm_usb env (Some port) st w = (Returned (Inr (a, st')), w') \<Longrightarrow>
    setup_session env st' (a # UsbForm q t e # shown)"
| submit_profiles: "setup_session env st (SetupProfilesForm d # shown) \<Longrightarrow> fields_filled selected (cf_slaves st) \<Longrightarrow>
    setup_profiles (Some selected) st = Inr (a, st') \<Longrightarrow> setup_session env st' (a # SetupProfilesForm d # shown)"
| submit_mismatch: "setup_session env st (SetupMismatchForm m # shown) \<Longrightarrow>
    setup_mismatch (Some action) st = Inr (a, st') \<Longrightarrow> setup_session env st' (a # SetupMismatchForm m # shown)"

text \<open>The gateway of the flow is nobody else's, and its units are known.\<close>

definition claimed :: "'w flow_host \<Rightarrow> setup_flow \<Rightarrow> bool" where
  "claimed env st \<longleftrightarrow> cf_slaves st \<noteq> [] \<and> distinct (cf_slaves st) \<and> fh_entry env (unique_id (cf_connection st)) = None
     \<and> connection_wf (fh_rules env) (cf_connection st)"

definition setup_chosen :: "setup_flow \<Rightarrow> (int, string) dict" where
  "setup_chosen st = map (\<lambda>s. (s, dict_get (cf_selected st) (profile_field_key s) [])) (cf_slaves st)"

definition setup_contradictions :: "setup_flow \<Rightarrow> (int \<times> string) list" where
  "setup_contradictions st = profile_mismatches (setup_chosen st) (cf_probes st)"

definition profiles_chosen :: "'w flow_host \<Rightarrow> setup_flow \<Rightarrow> bool" where
  "profiles_chosen env st \<longleftrightarrow> claimed env st \<and> fields_filled (cf_selected st) (cf_slaves st)"

fun setup_sound :: "'w flow_host \<Rightarrow> setup_flow \<Rightarrow> setup_answer \<Rightarrow> setup_answer list \<Rightarrow> bool" where
  "setup_sound env st (ConnectionForm c v e) shown \<longleftrightarrow> cf_slaves st = []"
| "setup_sound env st (UsbForm q t e) shown \<longleftrightarrow> cf_slaves st = []"
| "setup_sound env st (SetupProfilesForm d) shown \<longleftrightarrow> claimed env st"
| "setup_sound env st (SetupMismatchForm m) shown \<longleftrightarrow> profiles_chosen env st \<and> m = setup_contradictions st"
| "setup_sound env st (EntryCreated title data units) shown \<longleftrightarrow>
     profiles_chosen env st \<and> create_profiles st = Inr (EntryCreated title data units, st)
     \<and> (setup_contradictions st \<noteq> [] \<longrightarrow> hd shown = SetupMismatchForm (setup_contradictions st))"
| "setup_sound env st (SetupAborted reason updates) shown \<longleftrightarrow> True"
| "setup_sound env st _ shown \<longleftrightarrow> False"

lemma distinct_kept: "distinct acc \<Longrightarrow> distinct (fold (keep_address a b) xs acc)"
  by (induction xs arbitrary: acc) (auto simp: keep_address_def)

lemma discovered_distinct:
  assumes "discover_gateway_nodes link port a b strict w = (Returned slaves, w')"
  shows "distinct slaves"
  using assms distinct_kept [of "[]" a b]
  by (auto simp: discover_gateway_nodes_def discovery_failed_def split: prod.split_asm outcome.split_asm
      client_error.split_asm if_split_asm)

lemma await_Returned:
  "await_then r f = (Returned b, w') \<longleftrightarrow> (\<exists>a w. r = (Returned a, w) \<and> f a w = (Returned b, w'))"
  by (cases r; cases "fst r") (auto simp: await_then_def)

lemma scan_distinct:
  assumes "async_discover_units env c w = (Returned (slaves, probes), w')"
  shows "distinct slaves"
proof -
  obtain s s' where "on_link (discover_gateway_nodes (link_for env c DEFAULT_GATEWAY_DEVICE_ID) (unique_id c)
      DEFAULT_SCAN_SLAVE_START DEFAULT_SCAN_SLAVE_END False) s = (Returned slaves, s')"
    using assms unfolding async_discover_units_def temporary_units_def
    by (auto simp: await_Returned split: prod.split_asm)
  then show ?thesis using discovered_distinct by (auto simp: on_link_def split: prod.split_asm)
qed

lemma async_scan_cases:
  assumes "async_scan env c st w = (Returned (error, st'), w')"
    and "fh_entry env (unique_id c) = None" "connection_wf (fh_rules env) c"
  shows "(\<exists>text. error = Some text \<and> st' = st) \<or> (error = None \<and> claimed env st')"
  using assms scan_distinct [of env c w]
  by (auto simp: async_scan_def claimed_def scanned_def split: prod.split_asm outcome.split_asm if_split_asm)

lemma typed_connection_wf:
  "async_connection env typed w = (Returned (Inr c), w') \<Longrightarrow> connection_wf (fh_rules env) c"
  using connections_wf by (auto simp: async_connection_def await_Returned split: if_split_asm)

lemma claim_free:
  "claim_unique_id env uid u = None \<Longrightarrow> fh_entry env uid = None"
  "claim_unique_id env uid u = Some a \<Longrightarrow> setup_sound env st a shown"
  by (auto simp: claim_unique_id_def split: if_split_asm)

lemma profiles_form_sound:
  assumes "setup_profiles None st = Inr (a, st')" "cf_slaves st \<noteq> [] \<longrightarrow> claimed env st"
  shows "setup_sound env st' a shown"
  using assms by (auto simp: setup_profiles_def split: if_split_asm)

lemma scan_step_sound:
  assumes "await_then (async_scan env c st w) (\<lambda>(error, st2) w.
      (Returned (case error of None \<Rightarrow> setup_profiles None st2 | Some text \<Rightarrow> Inr (form st2 text, st2)), w))
    = (Returned (Inr (a, st')), w')"
    and "fh_entry env (unique_id c) = None" "connection_wf (fh_rules env) c" "cf_slaves st = []"
    and "\<And>st text. cf_slaves st = [] \<Longrightarrow> setup_sound env st (form st text) shown"
  shows "setup_sound env st' a shown"
proof -
  obtain error st2 w2 where scan: "async_scan env c st w = (Returned (error, st2), w2)"
    and a: "(case error of None \<Rightarrow> setup_profiles None st2 | Some text \<Rightarrow> Inr (form st2 text, st2)) = Inr (a, st')"
    using assms(1) by (auto simp: await_Returned)
  from async_scan_cases [OF scan assms(2,3)] show ?thesis
  proof
    assume "error = None \<and> claimed env st2"
    then show ?thesis using a profiles_form_sound [of st2 a st' env shown] by simp
  qed (use a assms(4,5) in auto)
qed

lemma step_user_sound:
  assumes "step_user env input st w = (Returned (Inr (a, st')), w')" "cf_slaves st = []"
  shows "setup_sound env st' a shown"
proof (cases input)
  case None
  then show ?thesis using assms by (auto simp: step_user_def)
next
  case (Some typed)
  obtain made w1 where made: "async_connection env typed w = (Returned made, w1)"
    and rest: "(case made of
              Inl (ValueError _) \<Rightarrow>
                (Returned (Inr (ConnectionForm (cf_connection st) input (Some ''invalid_connection''), st)), w1)
            | Inl e \<Rightarrow> (Returned (Inl e), w1)
            | Inr c \<Rightarrow>
                let st1 = st\<lparr>cf_connection := c\<rparr>
                in case claim_unique_id env (unique_id c) [] of
                     Some end_answer \<Rightarrow> (Returned (Inr (end_answer, st1)), w1)
                   | None \<Rightarrow>
                       await_then (async_scan env c st1 w1) (\<lambda>(error, st2) w.
                         (Returned (case error of
                            None \<Rightarrow> setup_profiles None st2
                          | Some text \<Rightarrow> Inr (ConnectionForm (cf_connection st2) input (Some text), st2)), w)))
      = (Returned (Inr (a, st')), w')"
    using assms(1) unfolding step_user_def Some option.case await_Returned by blast
  show ?thesis
  proof (cases made)
    case (Inl e)
    then show ?thesis using rest assms(2) by (cases e) auto
  next
    case (Inr c)
    show ?thesis
    proof (cases "claim_unique_id env (unique_id c) []")
      case None
      have wf: "connection_wf (fh_rules env) c" using typed_connection_wf made Inr by metis
      show ?thesis
        using rest scan_step_sound [where form = "\<lambda>st text. ConnectionForm (cf_connection st) input (Some text)",
            OF _ claim_free(1) [OF None] wf] assms(2)
        by (simp add: Inr None Let_def)
    next
      case (Some answer)
      then show ?thesis using rest claim_free(2) [OF Some] by (auto simp: Inr Let_def)
    qed
  qed
qed

lemma step_usb_sound:
  assumes "step_usb env dev m d st w = (Returned (Inr (a, st')), w')" "cf_slaves st = []"
  shows "setup_sound env st' a shown"
  using assms claim_free(2)
  by (auto simp: step_usb_def await_Returned usb_form_def Let_def split: option.split_asm)

lemma confirm_usb_sound:
  assumes "confirm_usb env (Some port) st w = (Returned (Inr (a, st')), w')" "cf_slaves st = []"
  shows "setup_sound env st' a shown"
proof -
  obtain q w1 where rest: "(case claim_unique_id env q [] of
      Some end_answer \<Rightarrow> (Returned (Inr (end_answer, st\<lparr>cf_port := port\<rparr>\<lparr>cf_port := q\<rparr>)), w1)
    | None \<Rightarrow> await_then (async_scan env (SerialGatewayConnection q) (st\<lparr>cf_port := port\<rparr>\<lparr>cf_port := q\<rparr>) w1) (\<lambda>(error, st2) w.
        (Returned (case error of
           Some text \<Rightarrow> Inr (usb_form st2 (Some text), st2)
         | None \<Rightarrow> setup_profiles None st2), w))) = (Returned (Inr (a, st')), w')"
    using assms(1) unfolding confirm_usb_def step_scan_def option.case await_Returned Let_def by blast
  show ?thesis
  proof (cases "claim_unique_id env q []")
    case None
    then have "fh_entry env (unique_id (SerialGatewayConnection q)) = None" using claim_free(1) by auto
    then show ?thesis
      using rest None assms(2) scan_step_sound [of env "SerialGatewayConnection q" "st\<lparr>cf_port := q\<rparr>" w1
          "\<lambda>st text. usb_form st (Some text)" a st' w' shown]
      by (simp add: usb_form_def)
  next
    case (Some answer)
    then show ?thesis using rest claim_free(2) [OF Some] by auto
  qed
qed

lemma create_profiles_answer:
  "create_profiles st = Inr (a, st') \<Longrightarrow> st' = st \<and> (\<exists>title data units. a = EntryCreated title data units)"
  by (auto simp: create_profiles_def and_then_Inr)

lemma profiles_sound:
  assumes "setup_profiles (Some selected) st = Inr (a, st')" "claimed env st" "fields_filled selected (cf_slaves st)"
  shows "setup_sound env st' a shown"
proof -
  define st1 where "st1 = st\<lparr>cf_selected := selected, cf_mismatches := profile_mismatches
      (map (\<lambda>s. (s, dict_get selected (profile_field_key s) [])) (cf_slaves st)) (cf_probes st)\<rparr>"
  have chosen: "profiles_chosen env st1" "cf_mismatches st1 = setup_contradictions st1"
    using assms(2,3) by (simp_all add: st1_def profiles_chosen_def claimed_def setup_contradictions_def setup_chosen_def)
  have "cf_slaves st \<noteq> []" using assms(2) by (simp add: claimed_def)
  then have step: "(if cf_mismatches st1 \<noteq> [] then Inr (SetupMismatchForm (cf_mismatches st1), st1) else create_profiles st1)
      = Inr (a, st')"
    using assms(1) by (simp add: setup_profiles_def chosen_all [OF assms(3)] Let_def st1_def cong: if_cong)
  show ?thesis
  proof (cases "setup_contradictions st1 = []")
    case True
    then have "create_profiles st1 = Inr (a, st')" using step chosen(2) by simp
    from create_profiles_answer [OF this] this show ?thesis using chosen(1) True by auto
  next
    case False
    then show ?thesis using step chosen by auto
  qed
qed

lemma mismatch_sound:
  assumes "setup_mismatch (Some action) st = Inr (a, st')" "setup_sound env st (SetupMismatchForm m) before"
  shows "setup_sound env st' a (SetupMismatchForm m # shown)"
proof (cases "action = ''correct''")
  case True
  then have "setup_profiles None st = Inr (a, st')" using assms(1) by (simp add: setup_mismatch_def)
  from profiles_form_sound [OF this, of env] assms(2) show ?thesis by (simp add: profiles_chosen_def)
next
  case False
  then have "create_profiles st = Inr (a, st')" using assms(1) by (simp add: setup_mismatch_def)
  from create_profiles_answer [OF this] this show ?thesis using assms(2) by auto
qed

lemma setup_shown:
  assumes "setup_session env st shown"
  shows "\<exists>a rest. shown = a # rest \<and> setup_sound env st a rest"
  using assms
proof (induction rule: setup_session.induct)
  case (open_user w a st w')
  from step_user_sound [OF this] show ?case by (simp add: NEW_SETUP_def)
next
  case (open_usb dev m d w a st w')
  from step_usb_sound [OF this] show ?case by (simp add: NEW_SETUP_def)
next
  case (submit_user st c v e shown typed w a st' w')
  then have "cf_slaves st = []" by simp
  from step_user_sound [OF submit_user.hyps(2) this] show ?case by simp
next
  case (submit_usb st q t e shown port w a st' w')
  then have "cf_slaves st = []" by simp
  from confirm_usb_sound [OF submit_usb.hyps(2) this] show ?case by simp
next
  case (submit_profiles st d shown selected a st')
  then have "claimed env st" by simp
  from profiles_sound [OF submit_profiles.hyps(3) this submit_profiles.hyps(2)] show ?case by simp
next
  case (submit_mismatch st m shown action a st')
  then have "setup_sound env st (SetupMismatchForm m) shown" by (metis list.inject)
  from mismatch_sound [OF submit_mismatch.hyps(2) this] show ?case by simp
qed

section \<open>What a new entry holds\<close>

lemma no_stored_match: "match_existing_rooms slaves probes [] = []"
proof -
  have "fold (follow_code slaves probes []) xs ([], []) = ([], [])" for xs
    by (induction xs) (auto simp: follow_code_def followed_unit_def rooms_by_code_def dict_of_def split: option.split)
  moreover have "fold (keep_place [] []) xs [] = []" for xs
    by (induction xs) (simp_all add: keep_place_def)
  ultimately show ?thesis by (simp add: match_existing_rooms_def)
qed

lemma default_name_nonempty: "default_room_name profile code used \<noteq> []"
  by (simp add: default_room_name_def Let_def free_text_nonempty split: option.split list.split)

lemma new_room_storable:
  assumes "scan_built slaves selected probes [] rooms" "i < length slaves"
  shows "storable (rooms ! i) (slaves ! i)"
proof -
  obtain used reserved names p code result probed where "rooms ! i = built_room (unit_key used reserved [] (slaves ! i))
      (unit_name names p code []) (slaves ! i) p result [] probed"
    using rooms_built(2) [OF assms] unfolding built_at_def Let_def no_stored_match by (simp add: dict_get_def) blast
  moreover have "unit_key used reserved [] (slaves ! i) \<noteq> []"
    by (simp add: unit_key_def cell_of_def dict_get_def Let_def free_text_nonempty)
  moreover have "unit_name names p code [] \<noteq> []"
    by (simp add: unit_name_def cell_of_def dict_get_def default_name_nonempty)
  ultimately show ?thesis by (auto simp: storable_def neq_Nil_conv split: option.split)
qed

definition stored_form :: "stored_room \<Rightarrow> int \<Rightarrow> subentry_data" where
  "stored_form room slave =
     \<lparr>new_data = unit_data room, new_title = name_text room, new_unique_id = Some (int_text slave)\<rparr>"

lemma storable_data: "storable room slave \<Longrightarrow> unit_subentry_data room = Inr (stored_form room slave)"
  by (auto simp: storable_def unit_subentry_data_def item_cell stored_form_def name_text_def)

lemma all_right_storable:
  "length rooms = length slaves \<Longrightarrow> \<forall>i < length slaves. storable (rooms ! i) (slaves ! i) \<Longrightarrow>
     all_right (map unit_subentry_data rooms) = Inr (map2 stored_form rooms slaves)"
proof (induction rooms slaves rule: list_induct2)
  case (Cons room rooms slave slaves)
  then have "storable room slave" "\<forall>i < length slaves. storable (rooms ! i) (slaves ! i)" by force+
  then show ?case using Cons.IH by (simp add: storable_data)
qed simp

lemma created_wf:
  assumes "length rooms = length slaves" "\<forall>i < length slaves. storable (rooms ! i) (slaves ! i)"
    and "distinct slaves" "distinct (map key_text rooms)" "distinct ids" "length ids = length slaves"
  shows "subentries_wf (map2 created_subentry ids (map2 stored_form rooms slaves))"
proof -
  let ?subs = "map2 created_subentry ids (map2 stored_form rooms slaves)"
  have nth: "?subs ! i = created_subentry (ids ! i) (stored_form (rooms ! i) (slaves ! i))" if "i < length slaves" for i
    using assms(1,6) that by simp
  have len: "length ?subs = length slaves" using assms(1,6) by simp
  note fact = storable_subentry [folded stored_form_def]
  have ok: "storable (rooms ! i) (slaves ! i)" if "i < length slaves" for i using assms(2) that by blast
  have "map sub_id ?subs = ids" "map slave_of ?subs = slaves" "map (\<lambda>s. key_text (sub_data s)) ?subs = map key_text rooms"
    using nth len assms(1,6) fact(1,2,4) [OF ok] by (auto intro!: nth_equalityI)
  moreover have "(\<exists>n. cell_of (sub_data s) ''slave'' = CInt n) \<and> (\<exists>c t. cell_of (sub_data s) ''key'' = CStr (c # t))
      \<and> sub_title s \<noteq> [] \<and> (stored_code (sub_data s) = CNone \<or> (\<exists>c. stored_code (sub_data s) = CStr c))"
    if member: "s \<in> set ?subs" for s
  proof -
    obtain i where i: "i < length slaves" "s = ?subs ! i" using member unfolding in_set_conv_nth len by blast
    then have s: "s = created_subentry (ids ! i) (stored_form (rooms ! i) (slaves ! i))" using nth by simp
    have "stored_code (rooms ! i) = CNone \<or> (\<exists>c. stored_code (rooms ! i) = CStr c)"
      using ok [OF i(1)] by (auto simp: storable_def)
    then show ?thesis using fact(3,5,6,7) [OF ok [OF i(1)], of "ids ! i"] s by simp
  qed
  ultimately show ?thesis using assms(3-5) by (simp add: subentries_wf_def list_all_iff)
qed

text \<open>
  C30. Setting up a gateway ends in an entry that works: what it stores of the connection is read back as
  the connection that was scanned, no entry has its unique ID, and its units are the listed addresses,
  each with a key, a name and a unique ID, consistent from the start. Profiles that contradict what the
  units reported are stored only right after a form that listed them.
\<close>

theorem setup_stores_gateway:
  assumes "documented (fh_rules env)" and "setup_session env st (EntryCreated title data units # shown)"
  shows "gateway_connection_from_data (fh_rules env) data = Inr (cf_connection st)
    \<and> fh_entry env (unique_id (cf_connection st)) = None
    \<and> map new_unique_id units = map (\<lambda>slave. Some (int_text slave)) (cf_slaves st) \<and> units \<noteq> []
    \<and> (\<forall>ids. distinct ids \<longrightarrow> length ids = length units \<longrightarrow> subentries_wf (map2 created_subentry ids units))
    \<and> (setup_contradictions st \<noteq> [] \<longrightarrow> hd shown = SetupMismatchForm (setup_contradictions st))"
proof -
  have sound: "setup_sound env st (EntryCreated title data units) shown" using setup_shown [OF assms(2)] by auto
  then have claimed: "claimed env st" and filled: "fields_filled (cf_selected st) (cf_slaves st)"
    and created: "create_profiles st = Inr (EntryCreated title data units, st)"
    by (auto simp: profiles_chosen_def)
  have distinct: "distinct (cf_slaves st)" "cf_slaves st \<noteq> []" using claimed by (auto simp: claimed_def)
  obtain rooms where rooms: "scan_built (cf_slaves st) (cf_selected st) (cf_probes st) [] rooms"
    using scan_total [of "cf_slaves st" "[]"] distinct(1) filled by (auto simp: rooms_wf_def fields_filled_def)
  note len = rooms_built(1) [OF rooms]
  have ok: "\<forall>i < length (cf_slaves st). storable (rooms ! i) (cf_slaves st ! i)"
    using new_room_storable [OF rooms] by blast
  have "units = map2 stored_form rooms (cf_slaves st)" "data = as_data (cf_connection st)"
    using created rooms all_right_storable [OF len ok]
    by (auto simp: create_profiles_def and_then_Inr scan_built_def)
  moreover have "map new_unique_id (map2 stored_form rooms (cf_slaves st)) = map (\<lambda>slave. Some (int_text slave)) (cf_slaves st)"
    using len by (auto simp: stored_form_def intro!: nth_equalityI)
  moreover have "map2 stored_form rooms (cf_slaves st) \<noteq> []" using len distinct(2) by (cases rooms; cases "cf_slaves st") auto
  moreover have "subentries_wf (map2 created_subentry ids (map2 stored_form rooms (cf_slaves st)))"
    if "distinct ids" "length ids = length (map2 stored_form rooms (cf_slaves st))" for ids
    using created_wf [OF len ok distinct(1) scan_keys(2) [OF rooms] that(1)] that(2) len by simp
  moreover have "gateway_connection_from_data (fh_rules env) (as_data (cf_connection st)) = Inr (cf_connection st)"
    by (rule stored_connection [OF assms(1)]) (use claimed in \<open>simp_all add: claimed_def\<close>)
  ultimately show ?thesis using claimed sound by (simp add: claimed_def)
qed

section \<open>What a new connection keeps\<close>

lemma reconnected_fields:
  "map_of (reconnected_data data c) k =
     (case map_of (as_data c) k of Some v \<Rightarrow> Some v | None \<Rightarrow> if k \<in> set CONNECTION_FIELDS then None else map_of data k)"
proof -
  have "map_of (filter (\<lambda>(k, v). k \<notin> set CONNECTION_FIELDS) data) k = (if k \<in> set CONNECTION_FIELDS then None else map_of data k)"
    by (induction data) auto
  then show ?thesis
    by (cases c) (auto simp: reconnected_data_def update_conv)
qed

text \<open>
  C31. A new connection takes effect and nothing else changes: the updated entry is read back as the
  connection that was typed in, all its other fields are as before, its unique ID is that of the new
  connection and belongs to no other entry, and unless the connection is the old one, its gateway
  answered.
\<close>

theorem reconfigure_takes_effect:
  assumes "documented (fh_rules env)"
    and "step_reconfigure env entry (Some typed) w = (Returned (Inr (EntryUpdated reload uid data)), w')"
  shows "\<exists>c w1. async_connection env typed w = (Returned (Inr c), w1) \<and> uid = unique_id c
    \<and> gateway_connection_from_data (fh_rules env) data = Inr c
    \<and> (\<forall>k. k \<notin> set CONNECTION_FIELDS \<longrightarrow> map_of data k = map_of (en_data entry) k)
    \<and> fh_entry env uid \<in> {None, Some (en_id entry)} \<and> reload = (\<not> en_listeners entry)
    \<and> (\<exists>before current w2. gateway_connection_from_data (fh_rules env) (en_data entry) = Inr before
        \<and> resolved_connection env before w1 = (Returned current, w2)
        \<and> (c = current \<or> (\<exists>w3. async_validate_port env c w3 = (Returned (), w'))))"
proof -
  obtain before where before: "gateway_connection_from_data (fh_rules env) (en_data entry) = Inr before"
    using assms(2) by (cases "gateway_connection_from_data (fh_rules env) (en_data entry)") (simp_all add: step_reconfigure_def)
  then obtain typed_result w1 where typed_result: "async_connection env typed w = (Returned typed_result, w1)"
    and rest: "(case typed_result of
        Inl (ValueError _) \<Rightarrow> (Returned (Inr (ReconfigureForm before (Some typed) (Some ''invalid_connection''))), w1)
      | Inl e \<Rightarrow> (Returned (Inl e), w1)
      | Inr c \<Rightarrow> await_then (resolved_connection env before w1) (\<lambda>current. replace_connection env entry typed current c))
      = (Returned (Inr (EntryUpdated reload uid data)), w')"
    using assms(2) unfolding step_reconfigure_def await_Returned by (simp add: await_Returned) blast
  obtain c where "typed_result = Inr c"
    using rest by (cases typed_result) (auto split: meltem_error.split_asm)
  then have made: "async_connection env typed w = (Returned (Inr c), w1)"
    and "await_then (resolved_connection env before w1) (\<lambda>current. replace_connection env entry typed current c)
      = (Returned (Inr (EntryUpdated reload uid data)), w')"
    using typed_result rest by simp_all
  then obtain current w2 where resolved: "resolved_connection env before w1 = (Returned current, w2)"
    and replaced: "replace_connection env entry typed current c w2 = (Returned (Inr (EntryUpdated reload uid data)), w')"
    unfolding await_Returned by blast
  have free: "fh_entry env (unique_id c) \<in> {None, Some (en_id entry)}"
    and checked: "replacement_error env entry current c w2 = (Returned None, w')"
    and stored: "uid = unique_id c" "data = reconnected_data (en_data entry) c" "reload = (\<not> en_listeners entry)"
    using replaced by (auto simp: replace_connection_def await_Returned split: if_split_asm option.split_asm)
  have "gateway_connection_from_data (fh_rules env) data = Inr c"
    by (rule stored_connection [OF assms(1) typed_connection_wf [OF made]])
      (auto simp: stored(2) reconnected_fields CONNECTION_KEYS_def CONNECTION_FIELDS_def split: option.split)
  moreover have "map_of data k = map_of (en_data entry) k" if "k \<notin> set CONNECTION_FIELDS" for k
    using that by (cases c) (auto simp: stored(2) reconnected_fields CONNECTION_FIELDS_def)
  moreover have "c = current \<or> (\<exists>w3. async_validate_port env c w3 = (Returned (), w'))"
    using checked by (auto simp: replacement_error_def validate_replacement_def await_Returned
        split: if_split_asm prod.split_asm outcome.split_asm option.split_asm)
  ultimately show ?thesis using made free stored(1,3) resolved before by blast
qed

section \<open>Example\<close>

text \<open>A gateway that lists one unit, which reports a product and has no sensors.\<close>

definition plain_unit :: "register_block \<Rightarrow> (string \<Rightarrow> raw_value option) outcome" where
  "plain_unit b = (if b = ProductId then Returned (\<lambda>name. Some (RInt 7)) else Erred (Untranslated refused_block))"

definition example_host :: "int list flow_host" where
  "example_host =
     \<lparr>fh_rules = plain_rules, fh_resolve = (\<lambda>port w. (Returned port, w)),
      fh_hold = (\<lambda>p slave w. (UnitHeld, w @ [slave])),
      fh_unit = (\<lambda>p t slave. \<lparr>ul_update = (\<lambda>b w. (if slave = 1 then Returned (\<lambda>name. Some (RInt 1)) else plain_unit b, w)),
         ul_registers = (\<lambda>a n w. (Returned [3], w)), ul_connected = (\<lambda>w. True),
         ul_sleep = (\<lambda>t w. (Returned (), w)), ul_superclasses = (\<lambda>_. [])\<rparr>),
      fh_release = (\<lambda>p slave w. butlast w), fh_entry = (\<lambda>uid. None), fh_busy = (\<lambda>uid. False)\<rparr>"

definition example_typed :: connection_input where
  "example_typed = \<lparr>ci_type = Some ''rtu_over_tcp'', ci_port = None, ci_host = Some ''Gateway.LOCAL'',
     ci_network_port = None, ci_modbus_tcp_port = None\<rparr>"

definition example_probe :: unit_probe_result where
  "example_probe = \<lparr>probe_profile = ''plain'', probe_preview = Some ''ID 7 | basic'',
     probe_product_id = Some 7, probe_setup_code = None\<rparr>"

definition example_scanned :: setup_flow where
  "example_scanned = NEW_SETUP\<lparr>cf_connection := RtuTcpGatewayConnection ''gateway.local'' 5020, cf_slaves := [3],
     cf_probes := [(3, example_probe)], cf_detected := [(3, ''plain'')]\<rparr>"

definition example_finished :: setup_flow where
  "example_finished = example_scanned\<lparr>cf_selected := [(''slave_3'', ''ii_plain'')]\<rparr>"

definition example_unit_data :: subentry_data where
  "example_unit_data =
     \<lparr>new_data = [(''key'', CStr ''slave_3''), (''slave'', CInt 3), (''profile'', CStr ''ii_plain''),
        (''preview'', CStr ''ID 7 | basic''),
        (''product_id'', CInt 7), (''name_is_device_name'', CBool True)],
      new_title = ''Meltem M-WRG-II'', new_unique_id = Some ''3''\<rparr>"

definition example_data :: "(string, cell) dict" where
  "example_data = as_data (RtuTcpGatewayConnection ''gateway.local'' 5020)"

lemma example_opened:
  "step_user example_host None NEW_SETUP [] = (Returned (Inr (ConnectionForm (cf_connection NEW_SETUP) None None, NEW_SETUP)), [])"
  by code_simp

lemma example_listed:
  "discover_gateway_nodes (link_for example_host c 1) port 2 16 False w = (Returned [3], w)"
  by code_simp

lemma probe_answered: "rd w = (Returned v, w') \<Longrightarrow> probe_read link rd h r w = (Returned (VALUE, Some v), w')"
  by (subst probe_read.simps) simp

lemma probe_refused:
  "rd w = (Erred (Untranslated refused_block), w') \<Longrightarrow> probe_read link rd h r w = (Returned (ABSENT, None), w')"
  by (subst probe_read.simps) (simp add: refused_block_def isinstance_def)

lemma example_read: "ul_update (link_for example_host c 3) b w = (plain_unit b, w)"
  by (simp add: link_for_def example_host_def)

lemma example_blocks:
  "probe_block ''product_id'' = ProductId"
  "probe_block ''humidity_extract_air'' = RegisterAt REGISTER_HUMIDITY_EXTRACT_AIR"
  "probe_block ''humidity_supply_air'' = RegisterAt REGISTER_HUMIDITY_SUPPLY_AIR"
  "probe_block ''co2_extract_air'' = RegisterAt REGISTER_CO2_EXTRACT_AIR"
  "probe_block ''voc_supply_air'' = RegisterAt REGISTER_VOC_SUPPLY_AIR"
  by code_simp+

lemma example_components:
  "probe_components (link_for example_host c 3) PROBE_COMPONENTS False [] w
   = (Returned (False, True, [(''product_id'', Some 7)]), w)"
  by (simp add: PROBE_COMPONENTS_def example_blocks probe_answered probe_refused example_read plain_unit_def probe_value_def
      int_field_def)

lemma example_detected: "detect_slave_details (link_for example_host c 3) w = (Returned example_probe, w)"
proof -
  have "read_app_setup_code (link_for example_host c 3) w = (Erred (Untranslated refused_block), w)"
    by (simp add: read_app_setup_code_def example_read plain_unit_def)
  moreover have "probe_result [(''product_id'', Some 7)] None = example_probe" by code_simp
  ultimately show ?thesis
    by (simp add: detect_slave_details_def example_components probe_refused)
qed

lemma example_held: "unit_for example_host c slave (w, hs) = (Returned (), (w @ [slave], hs @ [slave]))"
  by (simp add: unit_for_def example_host_def)

lemma example_probed:
  "probe_held example_host c 3 (w, hs) = (Returned example_probe, (w @ [3], hs @ [3]))"
  by (simp add: probe_held_def example_held on_link_def example_detected)

lemma example_scan:
  "async_discover_units example_host c w = (Returned ([3], [(3, example_probe)]), w)"
proof -
  have "fh_release example_host p slave w = butlast w" for p slave and w :: "int list"
    by (simp add: example_host_def)
  moreover have "butlast (butlast (w @ [1, 3])) = w" by (simp add: butlast_append)
  ultimately show ?thesis
    by (simp add: async_discover_units_def temporary_units_def example_held on_link_def example_listed
        async_probe_units_def example_probed)
qed

lemma example_submitted:
  "step_user example_host (Some example_typed) NEW_SETUP []
   = (Returned (Inr (SetupProfilesForm [(3, ''ii_plain'')], example_scanned)), [])"
proof -
  have "async_connection example_host example_typed [] = (Returned (Inr (RtuTcpGatewayConnection ''gateway.local'' 5020)), [])"
    "setup_profiles None example_scanned = Inr (SetupProfilesForm [(3, ''ii_plain'')], example_scanned)"
    "claim_unique_id example_host uid [] = None" for uid
    by (code_simp, code_simp, simp add: claim_unique_id_def example_host_def)
  moreover have "scanned (RtuTcpGatewayConnection ''gateway.local'' 5020) [3] [(3, example_probe)]
      (NEW_SETUP\<lparr>cf_connection := RtuTcpGatewayConnection ''gateway.local'' 5020\<rparr>) = example_scanned"
    by code_simp
  ultimately show ?thesis by (simp add: step_user_def async_scan_def example_scan Let_def)
qed

lemma example_created:
  "setup_profiles (Some [(''slave_3'', ''ii_plain'')]) example_scanned
   = Inr (EntryCreated GATEWAY_NAME example_data [example_unit_data], example_finished)"
  by code_simp

lemma example_filled:
  "fields_filled [(''slave_3'', ''ii_plain'')] (cf_slaves example_scanned)"
  by code_simp

lemmas example_steps = example_opened example_submitted example_created example_filled

lemma example_documented: "documented (fh_rules example_host)"
  by (simp add: example_host_def plain_rules_documented)

lemma example_observed: "units_observed example_host id"
  unfolding units_observed_def
proof (intro conjI allI impI)
  fix p and slave :: int and w r w'
  assume "fh_hold example_host p slave w = (r, w')"
  then show "id w' = (if r = UnitHeld then id w @ [slave] else id w)" by (auto simp: example_host_def)
next
  fix p and slave :: int and w us
  assume "id w = us @ [slave]"
  then show "id (fh_release example_host p slave w) = us" by (simp add: example_host_def)
next
  fix p t and slave :: int and us
  show "link_keeps (\<lambda>w. id w = us) (fh_unit example_host p t slave)" by (simp add: example_host_def link_keeps_def)
qed

lemma flow_lets_units_go_witness:
  "id (snd (async_discover_units example_host (SerialGatewayConnection ''/dev/ttyACM0'') [7])) = [7]
   \<and> id (snd (async_validate_port example_host (SerialGatewayConnection ''/dev/ttyACM0'') [7])) = [7]"
  using flow_lets_units_go [OF example_observed, of "SerialGatewayConnection ''/dev/ttyACM0''" "[7]"] by simp

lemma setup_stores_gateway_witness:
  "gateway_connection_from_data (fh_rules example_host) example_data = Inr (cf_connection example_finished)
   \<and> subentries_wf [created_subentry ''first'' example_unit_data]"
proof -
  have "setup_session example_host example_finished
      [EntryCreated GATEWAY_NAME example_data [example_unit_data], SetupProfilesForm [(3, ''ii_plain'')],
       ConnectionForm (cf_connection NEW_SETUP) None None]"
    by (rule setup_session.intros example_steps)+
  note stored = setup_stores_gateway [OF example_documented this]
  then have "subentries_wf (map2 created_subentry [''first''] [example_unit_data])" by (metis distinct_singleton length_Cons list.size(3))
  then show ?thesis using stored by simp
qed

definition example_entry :: "int list connected_entry" where
  "example_entry = \<lparr>en_id = ''e1'', en_data = [(''port'', CStr ''/dev/ttyACM0''), (''note'', CStr ''kept'')],
     en_listeners = True, en_disconnect = Some (\<lambda>w. (Returned (), w))\<rparr>"

lemma example_typed_connection:
  "async_connection example_host example_typed w = (Returned (Inr (RtuTcpGatewayConnection ''gateway.local'' 5020)), w)"
  by code_simp

lemma example_reconfigured:
  "step_reconfigure example_host example_entry (Some example_typed) []
   = (Returned (Inr (EntryUpdated False (unique_id (RtuTcpGatewayConnection ''gateway.local'' 5020)) ((''note'', CStr ''kept'') # example_data))), [])"
proof -
  have "read_gateway_node_count (link_for example_host c 1) w = (Returned 1, w)" for c w by code_simp
  then have "async_validate_port example_host c [] = (Returned (), [])" for c
    by (simp add: async_validate_port_def temporary_units_def example_held on_link_def) (simp add: example_host_def)
  moreover have "gateway_connection_from_data (fh_rules example_host) (en_data example_entry) = Inr (SerialGatewayConnection ''/dev/ttyACM0'')"
    "reconnected_data (en_data example_entry) (RtuTcpGatewayConnection ''gateway.local'' 5020) = (''note'', CStr ''kept'') # example_data"
    by code_simp+
  moreover have "fh_entry example_host uid = None" "fh_resolve example_host port w = (Returned port, w)"
    "en_listeners example_entry" "en_disconnect example_entry = Some (\<lambda>w. (Returned (), w))" for uid port w
    by (simp_all add: example_host_def example_entry_def)
  ultimately show ?thesis
    by (simp add: step_reconfigure_def example_typed_connection resolved_connection_def replace_connection_def
        replacement_error_def validate_replacement_def del: unique_id.simps)
qed

lemma reconfigure_takes_effect_witness:
  "gateway_connection_from_data (fh_rules example_host) ((''note'', CStr ''kept'') # example_data)
   = Inr (RtuTcpGatewayConnection ''gateway.local'' 5020)"
proof -
  obtain c w1 where "async_connection example_host example_typed [] = (Returned (Inr c), w1)"
    "gateway_connection_from_data (fh_rules example_host) ((''note'', CStr ''kept'') # example_data) = Inr c"
    using reconfigure_takes_effect [OF example_documented example_reconfigured] by blast
  then show ?thesis by (simp add: example_typed_connection)
qed

end
