(* ===== verification/Entry_Setup.thy ===== *)
theory Entry_Setup
  imports Entity_Tables Unit_Building
begin

text \<open>
  \<open>__init__.py\<close>: loading the units of an entry, removing registry entries nothing creates any more,
  aligning the devices with the units, setting an entry up, and reloading it after a change. The
  registries, the entry and the tasks are Home Assistant's; what setup asks of them is recorded.
\<close>

section \<open>The configured units\<close>

definition code_is :: "string \<Rightarrow> room_config \<Rightarrow> bool" where
  "code_is code room \<longleftrightarrow> room_app_setup_code room = Some code"

definition ambiguous_keys :: "room_config list \<Rightarrow> string list" where
  "ambiguous_keys rooms =
     map room_key (filter (\<lambda>room. case room_app_setup_code room of
         Some (c # code) \<Rightarrow> 1 < length (filter (code_is (c # code)) rooms)
       | _ \<Rightarrow> False) rooms)"

definition room_configs :: "unit_subentry list \<Rightarrow> meltem_error + room_config list" where
  "room_configs subentries =
     and_then (unit_subentries subentries) (\<lambda>units.
     and_then (all_right (map room_config_of units)) (\<lambda>rooms.
       let ambiguous = ambiguous_keys rooms
       in Inr (if ambiguous = [] then rooms
               else map (\<lambda>room. if room_key room \<in> set ambiguous
                      then room\<lparr>room_app_setup_code := None\<rparr> else room) rooms)))"

section \<open>Removing registry entries\<close>

fun platform_domain :: "platform \<Rightarrow> string" where
  "platform_domain SENSOR = ''sensor''"
| "platform_domain BINARY_SENSOR = ''binary_sensor''"
| "platform_domain FAN = ''fan''"
| "platform_domain NUMBER = ''number''"
| "platform_domain SELECT = ''select''"
| "platform_domain SWITCH = ''switch''"

definition expected_entities :: "string \<Rightarrow> room_config list \<Rightarrow> (string, string) dict" where
  "expected_entities entry_id rooms =
     dict_of (concat (map (\<lambda>room. map (\<lambda>(key, p). (room_entity_unique_id entry_id (room_key room) key, platform_domain p))
         (room_entity_platforms room)) rooms)
       @ map (\<lambda>(key, p). (gateway_entity_unique_id entry_id key, platform_domain p)) GATEWAY_ENTITY_PLATFORM_BY_KEY)"

definition unsupported_entities ::
  "string \<Rightarrow> room_config list \<Rightarrow> registry_entry list \<Rightarrow> registry_entry list" where
  "unsupported_entities entry_id rooms registry =
     filter (\<lambda>e. starts_with (DOMAIN @ ''_'') (re_unique_id e)
         \<and> map_of (expected_entities entry_id rooms) (re_unique_id e) \<noteq> Some (re_domain e)) registry"

section \<open>Aligning the devices\<close>

text \<open>A registered device; iterating over its identifiers goes in the order of the list.\<close>

record device =
  dev_id :: string
  dev_identifiers :: "device_identifier list"

datatype device_call = DeviceRemoved string | IdentifiersSet string "device_identifier list"

definition stale_identifier :: "device_identifier set \<Rightarrow> device_identifier \<Rightarrow> bool" where
  "stale_identifier kept i \<longleftrightarrow>
     fst i = DOMAIN \<and> starts_with APP_SETUP_CODE_IDENTIFIER_PREFIX (snd i) \<and> i \<notin> kept"

definition room_identifiers_of :: "room_config list \<Rightarrow> string \<Rightarrow> device_identifier set option" where
  "room_identifiers_of rooms key = map_of (dict_of (map (\<lambda>room. (room_key room, room_identifiers room)) rooms)) key"

definition sync_device :: "string \<Rightarrow> room_config list \<Rightarrow> device \<Rightarrow> device_call list" where
  "sync_device entry_id rooms d =
     (let configured = (\<lambda>room. (DOMAIN, room_key room)) ` set rooms \<union> gateway_identifiers entry_id
      in if set (dev_identifiers d) \<inter> configured = {} then [DeviceRemoved (dev_id d)]
         else case find (\<lambda>i. fst i = DOMAIN \<and> room_identifiers_of rooms (snd i) \<noteq> None) (dev_identifiers d) of
             None \<Rightarrow> []
           | Some (_, key) \<Rightarrow>
               let kept = the (room_identifiers_of rooms key)
               in if list_ex (stale_identifier kept) (dev_identifiers d)
                  then [IdentifiersSet (dev_id d) (filter (\<lambda>i. \<not> stale_identifier kept i) (dev_identifiers d))]
                  else [])"

definition sync_devices :: "string \<Rightarrow> room_config list \<Rightarrow> device list \<Rightarrow> device_call list" where
  "sync_devices entry_id rooms devices = concat (map (sync_device entry_id rooms) devices)"

section \<open>Setting up, reloading, unloading\<close>

datatype setup_action =
    EntitiesRemoved
  | DevicesSynced
  | DiagnosticsLoaded
  | ClientCreated
  | ClientShutDown
  | DiagnosticsFlushed
  | CoordinatorCreated
  | PlatformsForwarded
  | CoordinatorShutDown
  | RuntimeDropped
  | ListenerAdded
  | FirstRefreshStarted
  | ReloadScheduled

datatype setup_result = SetUp | NotReady | EntryError | SetupRaised

text \<open>How the awaited calls of setup end.\<close>

datatype call_end = CallReturned | CallMeltemError | CallHomeAssistantError | CallOtherError

definition close_client :: "call_end \<Rightarrow> setup_result \<Rightarrow> setup_action list \<times> setup_result" where
  "close_client flushed result =
     (if flushed = CallReturned then ([ClientShutDown, DiagnosticsFlushed], result)
      else ([ClientShutDown], SetupRaised))"

text \<open>
  \<open>finally\<close> after the platforms were not set up: the coordinator is shut down, and the client whether or
  not that raised; the error that ended the setup, or the one of the shutdown, is raised.
\<close>

definition undo_setup :: "setup_action list" where
  "undo_setup = [CoordinatorShutDown, ClientShutDown, RuntimeDropped]"

definition setup_entry :: "call_end \<Rightarrow> call_end \<Rightarrow> call_end \<Rightarrow> setup_action list \<times> setup_result" where
  "setup_entry validated flushed forwarded =
     (let begun = [EntitiesRemoved, DevicesSynced, DiagnosticsLoaded, ClientCreated]
      in case validated of
           CallMeltemError \<Rightarrow> (let (as, r) = close_client flushed NotReady in (begun @ as, r))
         | CallHomeAssistantError \<Rightarrow> (let (as, r) = close_client flushed EntryError in (begun @ as, r))
         | CallOtherError \<Rightarrow> (begun, SetupRaised)
         | CallReturned \<Rightarrow>
             if forwarded = CallReturned
             then (begun @ [CoordinatorCreated, PlatformsForwarded, ListenerAdded, FirstRefreshStarted], SetUp)
             else (begun @ [CoordinatorCreated] @ undo_setup, SetupRaised))"

type_synonym unit_snapshot = "(string, string \<times> stored_room) dict"

definition units_snapshot :: "unit_subentry list \<Rightarrow> meltem_error + unit_snapshot" where
  "units_snapshot subentries =
     and_then (unit_subentries subentries) (\<lambda>units.
       Inr (dict_of (map (\<lambda>s. (sub_id s, (sub_title s, sub_data s))) units)))"

text \<open>Two Python dictionaries are equal when they have the same items, in any order.\<close>

definition same_dict :: "('v \<Rightarrow> 'v \<Rightarrow> bool) \<Rightarrow> ('k, 'v) dict \<Rightarrow> ('k, 'v) dict \<Rightarrow> bool" where
  "same_dict eq a b \<longleftrightarrow>
     list_all (\<lambda>(k, _). case (map_of a k, map_of b k) of (Some v, Some w) \<Rightarrow> eq v w | _ \<Rightarrow> False) (a @ b)"

definition same_units :: "unit_snapshot \<Rightarrow> unit_snapshot \<Rightarrow> bool" where
  "same_units = same_dict (\<lambda>(title, data) (title', data'). title = title' \<and> same_dict (=) data data')"

record runtime_data =
  rd_snapshot :: unit_snapshot
  rd_connection :: "(string, cell) dict"
  rd_reload_scheduled :: bool

definition reload_on_change ::
  "(string, cell) dict \<Rightarrow> unit_subentry list \<Rightarrow> runtime_data option
     \<Rightarrow> meltem_error + setup_action list \<times> runtime_data option" where
  "reload_on_change connection subentries runtime =
     (case runtime of
        None \<Rightarrow> Inr ([], None)
      | Some rd \<Rightarrow>
          if rd_reload_scheduled rd then Inr ([], Some rd)
          else and_then (units_snapshot subentries) (\<lambda>units.
            if same_dict (=) connection (rd_connection rd) \<and> same_units units (rd_snapshot rd)
            then Inr ([], Some rd)
            else Inr ([ReloadScheduled], Some (rd\<lparr>rd_reload_scheduled := True\<rparr>))))"

definition unload_entry :: "bool \<Rightarrow> setup_action list" where
  "unload_entry platforms_unloaded =
     (if platforms_unloaded then [CoordinatorShutDown, ClientShutDown] else [])"


section \<open>What is removed from the registry\<close>

lemma dict_of_functional:
  assumes "\<And>v w. (k, v) \<in> set ps \<Longrightarrow> (k, w) \<in> set ps \<Longrightarrow> v = w"
  shows "map_of (dict_of ps) k = Some v \<longleftrightarrow> (k, v) \<in> set ps"
proof
  show "map_of (dict_of ps) k = Some v \<Longrightarrow> (k, v) \<in> set ps"
    by (metis map_of_dict_of map_of_SomeD set_rev)
next
  assume v: "(k, v) \<in> set ps"
  then obtain w where "map_of (rev ps) k = Some w" by (metis set_rev weak_map_of_SomeI)
  then show "map_of (dict_of ps) k = Some v"
    using assms [OF v] by (metis map_of_dict_of map_of_SomeD set_rev)
qed

text \<open>The entities that exist after setup: those the platforms create for the units and the gateway.\<close>

definition created_in :: "string \<Rightarrow> room_config list \<Rightarrow> string \<Rightarrow> string \<Rightarrow> bool" where
  "created_in entry_id rooms unique_id domain \<longleftrightarrow>
     list_ex (\<lambda>room. list_ex (\<lambda>(key, p). unique_id = room_entity_unique_id entry_id (room_key room) key
         \<and> domain = platform_domain p) (created_entities room)) rooms
     \<or> list_ex (\<lambda>(key, p). unique_id = gateway_entity_unique_id entry_id key \<and> domain = platform_domain p)
         gateway_entities"

lemma room_platforms_in_table: "set (room_entity_platforms room) \<subseteq> set ENTITY_PLATFORM_BY_KEY"
  by (auto simp: room_entity_platforms_def)

lemma platform_unique:
  "(key, p) \<in> set ENTITY_PLATFORM_BY_KEY \<Longrightarrow> (key, q) \<in> set ENTITY_PLATFORM_BY_KEY \<Longrightarrow> p = q"
  using room_entities_table(4) by (metis eq_key_imp_eq_value)

lemma gateway_table: "distinct (map fst GATEWAY_ENTITY_PLATFORM_BY_KEY)"
  by code_simp

definition expected_pairs :: "string \<Rightarrow> room_config list \<Rightarrow> (string \<times> string) list" where
  "expected_pairs entry_id rooms =
     concat (map (\<lambda>room. map (\<lambda>(key, p). (room_entity_unique_id entry_id (room_key room) key, platform_domain p))
         (room_entity_platforms room)) rooms)
       @ map (\<lambda>(key, p). (gateway_entity_unique_id entry_id key, platform_domain p)) GATEWAY_ENTITY_PLATFORM_BY_KEY"

lemma expected_pair_cases:
  assumes "(i, v) \<in> set (expected_pairs entry_id rooms)"
  obtains (room) room key p where "room \<in> set rooms" "(key, p) \<in> set (room_entity_platforms room)"
      "i = room_entity_unique_id entry_id (room_key room) key" "v = platform_domain p"
    | (gateway) key p where "(key, p) \<in> set GATEWAY_ENTITY_PLATFORM_BY_KEY"
      "i = gateway_entity_unique_id entry_id key" "v = platform_domain p"
  using assms by (auto simp: expected_pairs_def)

lemma expected_functional:
  assumes keys: "list_all (\<lambda>room. ends_in_digit (room_key room)) rooms"
    and v: "(i, v) \<in> set (expected_pairs entry_id rooms)" and w: "(i, w) \<in> set (expected_pairs entry_id rooms)"
  shows "v = w"
proof -
  have digit: "ends_in_digit (room_key room)" if "room \<in> set rooms" for room
    using that keys by (simp add: list_all_iff)
  have in_table: "(key, p) \<in> set ENTITY_PLATFORM_BY_KEY \<and> key \<in> fst ` set ENTITY_PLATFORM_BY_KEY"
    if "(key, p) \<in> set (room_entity_platforms room)" for key p room
    using that room_platforms_in_table [of room] by force
  from v show ?thesis
  proof (cases rule: expected_pair_cases)
    case v: (room room key p)
    from w show ?thesis
    proof (cases rule: expected_pair_cases)
      case w: (room room' key' q)
      have "key = key'"
        using room_id_unique [OF refl digit [OF v(1)] digit [OF w(1)]] in_table v w by metis
      then show ?thesis using in_table v w platform_unique by metis
    next
      case w: (gateway g q)
      then show ?thesis
        using gateway_id_unique [OF refl digit [OF v(1)], of g entry_id key] v by force
    qed
  next
    case v: (gateway g p)
    from w show ?thesis
    proof (cases rule: expected_pair_cases)
      case w: (room room' key' q)
      then show ?thesis
        using gateway_id_unique [OF refl digit [OF w(1)], of g entry_id key'] v by force
    next
      case w: (gateway g' q)
      have "g = g'" using v(2) w(2) by (simp add: gateway_entity_unique_id_def)
      then show ?thesis using v w gateway_table by (metis eq_key_imp_eq_value)
    qed
  qed
qed

lemma expected_iff_created:
  assumes "list_all (\<lambda>room. ends_in_digit (room_key room)) rooms"
  shows "map_of (expected_entities entry_id rooms) unique_id = Some domain \<longleftrightarrow> created_in entry_id rooms unique_id domain"
proof -
  have "expected_entities entry_id rooms = dict_of (expected_pairs entry_id rooms)"
    by (simp only: expected_entities_def expected_pairs_def)
  moreover have "map_of (dict_of (expected_pairs entry_id rooms)) unique_id = Some domain
      \<longleftrightarrow> (unique_id, domain) \<in> set (expected_pairs entry_id rooms)"
    using expected_functional [OF assms] by (rule dict_of_functional)
  moreover have "set gateway_entities = set GATEWAY_ENTITY_PLATFORM_BY_KEY"
    using gateway_entities_table(1,2) by (auto simp only: list_all_iff)
  then have "(unique_id, domain) \<in> set (expected_pairs entry_id rooms) \<longleftrightarrow> created_in entry_id rooms unique_id domain"
    unfolding created_in_def list_ex_iff created_set by (force simp: expected_pairs_def)
  ultimately show ?thesis by simp
qed

text \<open>
  C17. Setup cleans up exactly: among the registry entries of an entry, those whose ID is this
  integration's are removed unless a platform creates that very entity for a configured unit or the
  gateway, in the same domain; nothing else is removed.
\<close>

theorem setup_removes_exactly:
  assumes "list_all (\<lambda>room. ends_in_digit (room_key room)) rooms"
  shows "unsupported_entities entry_id rooms registry =
    filter (\<lambda>e. starts_with (DOMAIN @ ''_'') (re_unique_id e) \<and> \<not> created_in entry_id rooms (re_unique_id e) (re_domain e)) registry"
  by (simp only: unsupported_entities_def expected_iff_created [OF assms] cong: filter_cong)

section \<open>Codes and devices\<close>

lemma room_configs_codes:
  assumes "room_configs subs = Inr rooms" "i < length rooms" "j < length rooms" "i \<noteq> j"
    and "room_app_setup_code (rooms ! i) = Some code" "code \<noteq> []"
  shows "room_app_setup_code (rooms ! j) \<noteq> Some code"
proof
  assume eq: "room_app_setup_code (rooms ! j) = Some code"
  obtain rs where rs: "rooms = (if ambiguous_keys rs = [] then rs else map (\<lambda>room. if room_key room \<in> set (ambiguous_keys rs)
      then room\<lparr>room_app_setup_code := None\<rparr> else room) rs)"
    using assms(1) unfolding room_configs_def and_then_Inr Let_def sum.inject by blast
  then have len: "length rs = length rooms" by (auto split: if_splits)
  have code: "room_app_setup_code (rs ! k) = Some code" "room_key (rs ! k) \<notin> set (ambiguous_keys rs)"
    if k: "k < length rooms" "room_app_setup_code (rooms ! k) = Some code" for k
  proof -
    have "room_app_setup_code (rs ! k) = Some code \<and> room_key (rs ! k) \<notin> set (ambiguous_keys rs)"
    proof (cases "ambiguous_keys rs = []")
      case True
      then have "rooms = rs" using rs by simp
      with k True show ?thesis by simp
    next
      case False
      then have map: "rooms = map (\<lambda>room. if room_key room \<in> set (ambiguous_keys rs)
          then room\<lparr>room_app_setup_code := None\<rparr> else room) rs" using rs by (simp only: if_False)
      have "k < length rs" using k(1) len by simp
      then have "rooms ! k = (if room_key (rs ! k) \<in> set (ambiguous_keys rs)
          then (rs ! k)\<lparr>room_app_setup_code := None\<rparr> else rs ! k)"
        by (subst map) simp
      then show ?thesis using k(2) by (auto split: if_splits)
    qed
    then show "room_app_setup_code (rs ! k) = Some code" "room_key (rs ! k) \<notin> set (ambiguous_keys rs)" by auto
  qed
  have "2 \<le> length (filter (code_is code) rs)"
  proof -
    have "{i, j} \<subseteq> {k. k < length rs \<and> code_is code (rs ! k)}"
      using assms(2,3) len code [OF assms(2,5)] code [OF assms(3) eq] by (auto simp: code_is_def)
    then have "card {i, j} \<le> card {k. k < length rs \<and> code_is code (rs ! k)}"
      by (intro card_mono) auto
    then show ?thesis using assms(4) by (simp add: length_filter_conv_card)
  qed
  moreover obtain c cs where "code = c # cs" using assms(6) by (cases code) auto
  moreover have "rs ! i \<in> set rs" using assms(2) len by simp
  ultimately have "room_key (rs ! i) \<in> set (ambiguous_keys rs)"
    using code(1) [OF assms(2,5)] by (force simp: ambiguous_keys_def)
  then show False using code(2) [OF assms(2,5)] by simp
qed

text \<open>A device after setup: gone, or with the identifiers it was left with.\<close>

definition device_after :: "string \<Rightarrow> room_config list \<Rightarrow> device \<Rightarrow> device_identifier list option" where
  "device_after entry_id rooms d =
     (case sync_device entry_id rooms d of
        [] \<Rightarrow> Some (dev_identifiers d)
      | DeviceRemoved _ # _ \<Rightarrow> None
      | IdentifiersSet _ ids # _ \<Rightarrow> Some ids)"

text \<open>
  What the registry holds: a device is the gateway's, with no other identifier, or belongs to at most one
  unit. A unit's key is no setup code and not the ID of the entry.
\<close>

definition device_wf :: "string \<Rightarrow> room_config list \<Rightarrow> device \<Rightarrow> bool" where
  "device_wf entry_id rooms d \<longleftrightarrow>
     ((DOMAIN, entry_id) \<in> set (dev_identifiers d) \<longrightarrow> dev_identifiers d = [(DOMAIN, entry_id)])
     \<and> (\<forall>room \<in> set rooms. \<forall>room' \<in> set rooms. (DOMAIN, room_key room) \<in> set (dev_identifiers d) \<longrightarrow>
          (DOMAIN, room_key room') \<in> set (dev_identifiers d) \<longrightarrow> room_key room = room_key room')"

definition keys_wf :: "string \<Rightarrow> room_config list \<Rightarrow> bool" where
  "keys_wf entry_id rooms \<longleftrightarrow> distinct (map room_key rooms)
     \<and> list_all (\<lambda>room. room_key room \<noteq> entry_id
         \<and> \<not> starts_with APP_SETUP_CODE_IDENTIFIER_PREFIX (room_key room)) rooms
     \<and> \<not> starts_with APP_SETUP_CODE_IDENTIFIER_PREFIX entry_id"

lemma room_identifiers_of_room:
  assumes "distinct (map room_key rooms)" "room \<in> set rooms"
  shows "room_identifiers_of rooms (room_key room) = Some (room_identifiers room)"
  using assms by (auto simp: room_identifiers_of_def comp_def intro!: map_of_is_SomeI)

lemma room_identifiers_of_key:
  assumes "room_identifiers_of rooms key \<noteq> None"
  shows "key \<in> room_key ` set rooms"
proof -
  obtain ids where "map_of (dict_of (map (\<lambda>room. (room_key room, room_identifiers room)) rooms)) key = Some ids"
    using assms by (auto simp: room_identifiers_of_def)
  from map_of_dict_of_in [OF this] show ?thesis by auto
qed

lemma find_in: "find P xs = Some x \<Longrightarrow> P x \<and> x \<in> set xs"
  by (induction xs) (auto split: if_splits)

lemma device_keeps:
  assumes wf: "keys_wf entry_id rooms" "device_wf entry_id rooms d" and left: "device_after entry_id rooms d = Some ids"
  shows "ids = [(DOMAIN, entry_id)] \<and> (DOMAIN, entry_id) \<in> set (dev_identifiers d)
    \<or> (\<exists>room \<in> set rooms. (DOMAIN, room_key room) \<in> set ids
        \<and> (\<forall>i \<in> set ids. \<not> stale_identifier (room_identifiers room) i) \<and> set ids \<subseteq> set (dev_identifiers d)
        \<and> dev_identifiers d \<noteq> [(DOMAIN, entry_id)])"
proof -
  let ?known = "\<lambda>i. fst i = DOMAIN \<and> room_identifiers_of rooms (snd i) \<noteq> None"
  have keys: "distinct (map room_key rooms)" using wf(1) by (simp add: keys_wf_def)
  have hit: "set (dev_identifiers d) \<inter> ((\<lambda>room. (DOMAIN, room_key room)) ` set rooms \<union> gateway_identifiers entry_id) \<noteq> {}"
    using left by (auto simp: device_after_def sync_device_def Let_def split: if_splits)
  from hit consider "(DOMAIN, entry_id) \<in> set (dev_identifiers d)"
    | room where "room \<in> set rooms" "(DOMAIN, room_key room) \<in> set (dev_identifiers d)"
    by (auto simp: gateway_identifiers_def)
  then show ?thesis
  proof cases
    case 1
    then have ids: "dev_identifiers d = [(DOMAIN, entry_id)]" using wf(2) by (simp add: device_wf_def)
    have "room_identifiers_of rooms entry_id = None"
      using wf(1) room_identifiers_of_key by (fastforce simp: keys_wf_def list_all_iff)
    then show ?thesis
      using left ids by (auto simp: device_after_def sync_device_def Let_def gateway_identifiers_def)
  next
    case (2 room)
    have not_gateway: "dev_identifiers d \<noteq> [(DOMAIN, entry_id)]"
      using wf(1) 2 by (auto simp: keys_wf_def list_all_iff)
    have "?known (DOMAIN, room_key room)" using room_identifiers_of_room [OF keys 2(1)] by simp
    then obtain i where i: "find ?known (dev_identifiers d) = Some i"
      using 2(2) find_None_iff [of ?known "dev_identifiers d"]
      by (cases "find ?known (dev_identifiers d)") blast+
    from find_in [OF i] have "?known i" "i \<in> set (dev_identifiers d)" by auto
    then obtain room' where room': "room' \<in> set rooms" "i = (DOMAIN, room_key room')"
      using room_identifiers_of_key [of rooms "snd i"] by (auto simp: prod_eq_iff)
    then have same: "room_identifiers_of rooms (snd i) = Some (room_identifiers room')"
      using room_identifiers_of_room [OF keys] by simp
    have "\<not> stale_identifier (room_identifiers room') i" using room' by (simp add: stale_identifier_def room_identifiers_def)
    moreover have "sync_device entry_id rooms d =
        (if list_ex (stale_identifier (room_identifiers room')) (dev_identifiers d)
         then [IdentifiersSet (dev_id d)
           (filter (\<lambda>i. \<not> stale_identifier (room_identifiers room') i) (dev_identifiers d))] else [])"
      using same by (simp only: sync_device_def Let_def hit if_False i option.case room'(2) prod.case snd_conv option.sel)
    then have "ids = filter (\<lambda>i. \<not> stale_identifier (room_identifiers room') i) (dev_identifiers d)"
      using left by (simp add: device_after_def filter_id_conv list_ex_iff split: if_splits)
    ultimately show ?thesis
      using room' \<open>i \<in> set (dev_identifiers d)\<close> not_gateway by (intro disjI2 bexI [of _ room']) auto
  qed
qed

text \<open>
  C25. Setup codes can move: after setup every remaining device that shares an identifier with a unit,
  its key or its setup code, is the device of that unit's key, so registering the unit there never
  collides with another device; also when units changed addresses, or shared a stored code.
\<close>

theorem device_identifiers_never_collide:
  assumes "room_configs subs = Inr rooms" "keys_wf entry_id rooms" "device_wf entry_id rooms d"
    and "device_after entry_id rooms d = Some ids" "room \<in> set rooms" "room_app_setup_code room \<noteq> Some []"
    and "set ids \<inter> room_identifiers room \<noteq> {}"
  shows "(DOMAIN, room_key room) \<in> set ids"
proof -
  obtain i where i: "i \<in> set ids" "i \<in> room_identifiers room" using assms(7) by blast
  from i(2) consider "i = (DOMAIN, room_key room)"
    | code where "room_app_setup_code room = Some code" "i = (DOMAIN, APP_SETUP_CODE_IDENTIFIER_PREFIX @ code)"
    by (auto simp: room_identifiers_def split: option.splits)
  then show ?thesis
  proof cases
    case 1
    then show ?thesis using i by simp
  next
    case (2 code)
    have coded: "starts_with APP_SETUP_CODE_IDENTIFIER_PREFIX (snd i)" using 2 by (simp add: starts_with_def)
    from device_keeps [OF assms(2-4)] show ?thesis
    proof
      assume "ids = [(DOMAIN, entry_id)] \<and> (DOMAIN, entry_id) \<in> set (dev_identifiers d)"
      then show ?thesis using assms(2) i coded by (auto simp: keys_wf_def)
    next
      assume "\<exists>room \<in> set rooms. (DOMAIN, room_key room) \<in> set ids
        \<and> (\<forall>i \<in> set ids. \<not> stale_identifier (room_identifiers room) i) \<and> set ids \<subseteq> set (dev_identifiers d)
        \<and> dev_identifiers d \<noteq> [(DOMAIN, entry_id)]"
      then obtain r' where r': "r' \<in> set rooms" "(DOMAIN, room_key r') \<in> set ids" "\<not> stale_identifier (room_identifiers r') i"
        using i(1) by blast
      then have "i \<in> room_identifiers r'" using coded 2 by (simp add: stale_identifier_def)
      moreover have "i \<noteq> (DOMAIN, room_key r')"
        using assms(2) r'(1) coded by (auto simp: keys_wf_def list_all_iff)
      ultimately have code': "room_app_setup_code r' = Some code"
        using 2 by (auto simp: room_identifiers_def split: option.splits)
      obtain j k where jk: "j < length rooms" "room = rooms ! j" "k < length rooms" "r' = rooms ! k"
        using assms(5) r'(1) by (metis in_set_conv_nth)
      have "code \<noteq> []" using assms(6) 2 by auto
      then have "j = k"
        using room_configs_codes [OF assms(1) jk(1,3)] 2(1) code' jk by auto
      then show ?thesis using r'(2) jk by simp
    qed
  qed
qed


section \<open>A failed setup and later changes\<close>

lemma failed_setup_closes_client:
  assumes "setup_entry validated flushed forwarded = (actions, result)" "result \<noteq> SetUp" "validated \<noteq> CallOtherError"
  shows "ClientShutDown \<in> set actions \<and> (CoordinatorCreated \<in> set actions \<longrightarrow> CoordinatorShutDown \<in> set actions)
    \<and> PlatformsForwarded \<notin> set actions"
  using assms by (auto simp: setup_entry_def close_client_def undo_setup_def Let_def split: call_end.splits if_splits)

text \<open>The update listener called once per change of the entry, in order.\<close>

fun listener_runs ::
  "((string, cell) dict \<times> unit_subentry list) list \<Rightarrow> runtime_data option
     \<Rightarrow> meltem_error + setup_action list \<times> runtime_data option" where
  "listener_runs [] rt = Inr ([], rt)"
| "listener_runs ((connection, subs) # changes) rt =
     and_then (reload_on_change connection subs rt) (\<lambda>(as, rt).
     and_then (listener_runs changes rt) (\<lambda>(bs, rt). Inr (as @ bs, rt)))"

definition entry_changed :: "runtime_data \<Rightarrow> (string, cell) dict \<times> unit_subentry list \<Rightarrow> bool" where
  "entry_changed rd change \<longleftrightarrow> (case units_snapshot (snd change) of
       Inl e \<Rightarrow> False
     | Inr units \<Rightarrow> \<not> (same_dict (=) (fst change) (rd_connection rd) \<and> same_units units (rd_snapshot rd)))"

lemma listener_after_reload:
  "rd_reload_scheduled rd \<Longrightarrow> listener_runs changes (Some rd) = Inr ([], Some rd)"
  by (induction changes) (auto simp: reload_on_change_def)

text \<open>
  One change, one reload: however often the listener runs for a change of several units, a reload is
  scheduled exactly once, and only if the connection or a unit differs from what setup read; a new request
  rate alone schedules none. The units of every call can be read.
\<close>

lemma reload_scheduled_once:
  assumes "\<not> rd_reload_scheduled rd" "list_all (\<lambda>(_, subs). \<exists>units. unit_subentries subs = Inr units) changes"
  shows "\<exists>rt. listener_runs changes (Some rd) =
    Inr (if list_ex (entry_changed rd) changes then [ReloadScheduled] else [], rt)"
  using assms(2)
proof (induction changes)
  case (Cons change changes)
  obtain connection subs where c: "change = (connection, subs)" by fastforce
  with Cons.prems obtain units where units: "units_snapshot subs = Inr units"
    by (auto simp: units_snapshot_def)
  show ?case
  proof (cases "same_dict (=) connection (rd_connection rd) \<and> same_units units (rd_snapshot rd)")
    case True
    then show ?thesis
      using Cons assms(1) units by (auto simp: c reload_on_change_def entry_changed_def)
  next
    case False
    then show ?thesis
      using assms(1) units listener_after_reload [of "rd\<lparr>rd_reload_scheduled := True\<rparr>" changes]
      by (auto simp: c reload_on_change_def entry_changed_def)
  qed
qed simp

section \<open>Examples\<close>

definition setup_unit :: "int \<Rightarrow> string \<Rightarrow> string \<Rightarrow> unit_subentry" where
  "setup_unit slave key code =
     \<lparr>sub_id = key, sub_title = key, sub_unique_id = Some (int_text slave),
      sub_data = [(''key'', CStr key), (''slave'', CInt slave), (''profile'', CStr ''ii_f''),
        (''app_setup_code'', CStr code)]\<rparr>"

definition setup_room :: "int \<Rightarrow> string \<Rightarrow> string option \<Rightarrow> room_config" where
  "setup_room slave key code =
     \<lparr>room_key = key, room_name = key, room_profile = ''ii_f'', room_slave = slave, room_preview = None,
      supported_entity_keys = Some (set (supported_entity_keys_for_profile ''ii_f'')), room_product_id = None,
      room_app_setup_code = code, subentry_id = Some key, name_is_device_name = False\<rparr>"

lemma setup_rooms:
  "room_configs [setup_unit 3 ''slave_2'' ''R00000A'', setup_unit 2 ''slave_3'' ''R00000B''] =
     Inr [setup_room 2 ''slave_3'' (Some ''R00000B''), setup_room 3 ''slave_2'' (Some ''R00000A'')]"
  by (simp add: room_configs_def unit_subentries_def setup_unit_def subentry_slave_def item_def room_config_of_def
      cell_of_def dict_get_def optional_cell_def setup_room_def ambiguous_keys_def code_is_def Let_def)

lemma setup_removes_exactly_witness:
  "unsupported_entities ''e1'' [setup_room 2 ''slave_2'' None]
     [\<lparr>re_entity_id = ''switch.a'', re_unique_id = room_entity_unique_id ''e1'' ''slave_2'' ''intensive'',
       re_domain = ''fan'', re_platform = DOMAIN\<rparr>] =
   filter (\<lambda>e. starts_with (DOMAIN @ ''_'') (re_unique_id e)
       \<and> \<not> created_in ''e1'' [setup_room 2 ''slave_2'' None] (re_unique_id e) (re_domain e))
     [\<lparr>re_entity_id = ''switch.a'', re_unique_id = room_entity_unique_id ''e1'' ''slave_2'' ''intensive'',
       re_domain = ''fan'', re_platform = DOMAIN\<rparr>]"
  by (rule setup_removes_exactly) (simp add: setup_room_def ends_in_digit_def isdigit_def)

lemma device_identifiers_never_collide_witness:
  "let rooms = [setup_room 2 ''slave_3'' (Some ''R00000B''), setup_room 3 ''slave_2'' (Some ''R00000A'')];
       d = \<lparr>dev_id = ''d'', dev_identifiers = [(DOMAIN, ''slave_2''), (DOMAIN, ''app_setup_code:R00000B''),
              (DOMAIN, ''app_setup_code:R00000A'')]\<rparr>
   in device_after ''e1'' rooms d = Some [(DOMAIN, ''slave_2''), (DOMAIN, ''app_setup_code:R00000A'')]
      \<and> (DOMAIN, room_key (rooms ! 1)) \<in> set [(DOMAIN, ''slave_2''), (DOMAIN, ''app_setup_code:R00000A'')]"
proof -
  define rooms where "rooms = [setup_room 2 ''slave_3'' (Some ''R00000B''), setup_room 3 ''slave_2'' (Some ''R00000A'')]"
  define d where "d = \<lparr>dev_id = ''d'', dev_identifiers = [(DOMAIN, ''slave_2''), (DOMAIN, ''app_setup_code:R00000B''),
              (DOMAIN, ''app_setup_code:R00000A'')]\<rparr>"
  have "keys_wf ''e1'' rooms" "device_wf ''e1'' rooms d"
    by (simp_all add: keys_wf_def device_wf_def rooms_def d_def setup_room_def starts_with_def)
  moreover have after: "device_after ''e1'' rooms d = Some [(DOMAIN, ''slave_2''), (DOMAIN, ''app_setup_code:R00000A'')]"
    by (simp add: device_after_def sync_device_def rooms_def d_def setup_room_def gateway_identifiers_def
        room_identifiers_of_def room_identifiers_def stale_identifier_def starts_with_def Let_def)
  ultimately have "(DOMAIN, room_key (rooms ! 1)) \<in> set [(DOMAIN, ''slave_2''), (DOMAIN, ''app_setup_code:R00000A'')]"
    using setup_rooms
    by (intro device_identifiers_never_collide [where rooms = rooms and d = d])
      (auto simp: rooms_def setup_room_def room_identifiers_def)
  with after show ?thesis by (simp add: rooms_def d_def Let_def)
qed

lemma reload_scheduled_once_witness:
  "\<exists>rt. listener_runs [([], []), ([], [setup_unit 2 ''slave_2'' ''R00000A'']), ([], [])]
      (Some \<lparr>rd_snapshot = [], rd_connection = [], rd_reload_scheduled = False\<rparr>) =
    Inr (if list_ex (entry_changed \<lparr>rd_snapshot = [], rd_connection = [], rd_reload_scheduled = False\<rparr>)
          [([], []), ([], [setup_unit 2 ''slave_2'' ''R00000A'']), ([], [])] then [ReloadScheduled] else [], rt)"
  by (rule reload_scheduled_once)
    (simp_all add: unit_subentries_def setup_unit_def subentry_slave_def item_def)

end
