(* ===== verification/Migration.thy ===== *)
theory Migration
  imports Entry_Setup Unit_Scans "HOL-Library.Sublist"
begin

text \<open>
  \<open>migration.py\<close>: config entries of older releases. The entry, its subentries and the two registries are
  the state; the entity registry refuses a unique ID that another of its entries holds.
\<close>

section \<open>The stored state\<close>

record entity_entry =
  ee_entity_id :: string
  ee_unique_id :: string
  ee_subentry :: "string option"

record device_entry =
  de_identifiers :: "device_identifier list"
  de_subentry :: "string option"

record entry_data =
  ed_rooms :: "stored_room list option"
  ed_rate :: "real option"
  ed_connection :: "(string, cell) dict"

record config_entry =
  ce_id :: string
  ce_version :: int
  ce_minor :: int
  ce_data :: entry_data
  ce_rate :: "real option"
  ce_subentries :: "unit_subentry list"
  ce_entities :: "entity_entry list"
  ce_devices :: "device_entry list"

text \<open>\<open>data[CONF_ROOMS]\<close> and \<open>data.get(CONF_ROOMS, [])\<close>.\<close>

definition stored_rooms :: "entry_data \<Rightarrow> meltem_error + stored_room list" where
  "stored_rooms d = (case ed_rooms d of None \<Rightarrow> Inl (KeyError ''rooms'') | Some rooms \<Rightarrow> Inr rooms)"

definition rooms_or_none :: "entry_data \<Rightarrow> stored_room list" where
  "rooms_or_none d = (case ed_rooms d of None \<Rightarrow> [] | Some rooms \<Rightarrow> rooms)"

text \<open>\<open>async_update_entity\<close> of the entity registry.\<close>

definition set_unique_id ::
  "string \<Rightarrow> string \<Rightarrow> string option \<Rightarrow> entity_entry list \<Rightarrow> meltem_error + entity_entry list" where
  "set_unique_id entity_id uid sub registry =
     (if list_ex (\<lambda>e. ee_unique_id e = uid \<and> ee_entity_id e \<noteq> entity_id) registry
      then Inl (ValueError ''the unique ID is already in use'')
      else Inr (map (\<lambda>e. if ee_entity_id e = entity_id
          then e\<lparr>ee_unique_id := uid, ee_subentry := (case sub of None \<Rightarrow> ee_subentry e | s \<Rightarrow> s)\<rparr> else e) registry))"

definition by_unique_id :: "entity_entry list \<Rightarrow> (string, string) dict" where
  "by_unique_id registry = dict_of (map (\<lambda>e. (ee_unique_id e, ee_entity_id e)) registry)"

section \<open>Identity values in the preview\<close>

text \<open>\<open>preview.split(" | ")\<close>.\<close>

fun split_bars :: "string \<Rightarrow> string list" where
  "split_bars (a # b # c # s) =
     (if [a, b, c] = '' | '' then [] # split_bars s
      else (case split_bars (b # c # s) of [] \<Rightarrow> [[a]] | p # ps \<Rightarrow> (a # p) # ps))"
| "split_bars s = [s]"

definition has_key :: "stored_room \<Rightarrow> string \<Rightarrow> bool" where
  "has_key room key \<longleftrightarrow> map_of room key \<noteq> None"

definition valid_setup_code :: "string \<Rightarrow> bool" where
  "valid_setup_code code \<longleftrightarrow>
     length code = 7 \<and> starts_with ''R'' code \<and> list_all (\<lambda>c. c \<in> set ''0123456789ABCDEF'') (drop 1 code)"

definition migrate_part :: "string \<Rightarrow> stored_room \<Rightarrow> stored_room" where
  "migrate_part part room =
     (if starts_with ''ID '' part \<and> \<not> has_key room ''product_id''
      then (case parse_int (drop 3 part) of
          None \<Rightarrow> room | Some n \<Rightarrow> AList.update ''product_id'' (CInt n) room)
      else if starts_with ''R-Code '' part \<and> \<not> has_key room ''app_setup_code''
      then (if valid_setup_code (drop 7 part)
            then AList.update ''app_setup_code'' (CStr (drop 7 part)) room else room)
      else room)"

definition migrate_room_identity_fields :: "stored_room \<Rightarrow> stored_room" where
  "migrate_room_identity_fields room =
     (case map_of room ''preview'' of
        Some (CStr preview) \<Rightarrow> fold migrate_part (split_bars preview) room
      | _ \<Rightarrow> room)"

section \<open>The steps\<close>

text \<open>1.2: the state of the loop is the table of the registry and the registry.\<close>

definition rename_data_health ::
  "stored_room \<Rightarrow> (string, string) dict \<times> entity_entry list
     \<Rightarrow> meltem_error + (string, string) dict \<times> entity_entry list" where
  "rename_data_health room st =
     and_then (item room ''key'') (\<lambda>key.
       case map_of (fst st) (legacy_room_entity_unique_id (py_str key) ''airflow_data_stale'') of
         None \<Rightarrow> Inr st
       | Some entity_id \<Rightarrow>
           if map_of (fst st) (legacy_room_entity_unique_id (py_str key) ''data_health'') \<noteq> None then Inr st
           else and_then (set_unique_id entity_id (legacy_room_entity_unique_id (py_str key) ''data_health'') None (snd st))
                  (\<lambda>registry. Inr (AList.update (legacy_room_entity_unique_id (py_str key) ''data_health'') entity_id (fst st),
                     registry)))"

definition migrate_data_health_entities :: "config_entry \<Rightarrow> meltem_error + config_entry" where
  "migrate_data_health_entities entry =
     and_then (stored_rooms (ce_data entry)) (\<lambda>rooms.
     and_then (each rename_data_health rooms (by_unique_id (ce_entities entry), ce_entities entry))
       (\<lambda>st. Inr (entry\<lparr>ce_entities := snd st\<rparr>)))"

text \<open>1.3: the request rate moves to the options, unless they have one.\<close>

definition move_request_rate :: "config_entry \<Rightarrow> config_entry" where
  "move_request_rate entry =
     (case ed_rate (ce_data entry) of
        None \<Rightarrow> entry\<lparr>ce_minor := 3\<rparr>
      | Some rate \<Rightarrow> entry\<lparr>ce_minor := 3, ce_data := (ce_data entry)\<lparr>ed_rate := None\<rparr>,
          ce_rate := (case ce_rate entry of None \<Rightarrow> Some rate | kept \<Rightarrow> kept)\<rparr>)"

text \<open>1.4.\<close>

definition move_identity_fields :: "config_entry \<Rightarrow> meltem_error + config_entry" where
  "move_identity_fields entry =
     and_then (stored_rooms (ce_data entry)) (\<lambda>rooms.
       Inr (entry\<lparr>ce_minor := 4,
         ce_data := (ce_data entry)\<lparr>ed_rooms := Some (map migrate_room_identity_fields rooms)\<rparr>\<rparr>))"

text \<open>
  2.1. The IDs of the subentries are drawn by Home Assistant, the n-th one is \<open>ulid n\<close>. The state of the
  loop is the unique IDs used so far and the entry.
\<close>

definition RENAMED_ENTITY_KEYS :: "(string, string) dict" where [const_simps]:
  "RENAMED_ENTITY_KEYS = [(''rf_fault_status'', ''device_fault'')]"

definition ALL_ENTITY_KEYS :: "string list" where
  "ALL_ENTITY_KEYS = map fst ENTITY_PLATFORM_BY_KEY @ map fst RENAMED_ENTITY_KEYS"

definition move_entity ::
  "(string, string) dict \<Rightarrow> string \<Rightarrow> string \<Rightarrow> string \<Rightarrow> string \<Rightarrow> entity_entry list
     \<Rightarrow> meltem_error + entity_entry list" where
  "move_entity table entry_id sub key entity_key registry =
     (case map_of table (legacy_room_entity_unique_id key entity_key) of
        None \<Rightarrow> Inr registry
      | Some entity_id \<Rightarrow>
          set_unique_id entity_id (room_entity_unique_id entry_id key entity_key) (Some sub) registry)"

text \<open>The first device with the identifier, if there is one, moves to the subentry.\<close>

fun move_device :: "device_identifier \<Rightarrow> string \<Rightarrow> device_entry list \<Rightarrow> device_entry list" where
  "move_device identifier sub [] = []"
| "move_device identifier sub (d # ds) =
     (if identifier \<in> set (de_identifiers d) then d\<lparr>de_subentry := Some sub\<rparr> # ds
      else d # move_device identifier sub ds)"

definition moved_subentry :: "(nat \<Rightarrow> string) \<Rightarrow> string option list \<Rightarrow> config_entry \<Rightarrow> subentry_data \<Rightarrow> unit_subentry" where
  "moved_subentry ulid used entry d =
     \<lparr>sub_id = ulid (length (ce_subentries entry)), sub_title = new_title d,
      sub_unique_id = (if new_unique_id d \<in> set used then None else new_unique_id d),
      sub_data = new_data d\<rparr>"

definition move_unit ::
  "(nat \<Rightarrow> string) \<Rightarrow> (string, string) dict \<Rightarrow> stored_room
     \<Rightarrow> string option list \<times> config_entry \<Rightarrow> meltem_error + string option list \<times> config_entry" where
  "move_unit ulid table room st =
     (case st of (used, entry) \<Rightarrow>
       and_then (item room ''key'') (\<lambda>key.
       and_then (unit_subentry_data room) (\<lambda>d.
       and_then (each (move_entity table (ce_id entry) (sub_id (moved_subentry ulid used entry d)) (py_str key))
           ALL_ENTITY_KEYS (ce_entities entry)) (\<lambda>registry.
         Inr (used @ [sub_unique_id (moved_subentry ulid used entry d)],
           entry\<lparr>ce_subentries := ce_subentries entry @ [moved_subentry ulid used entry d],
             ce_entities := registry,
             ce_devices := move_device (DOMAIN, py_str key) (sub_id (moved_subentry ulid used entry d))
               (ce_devices entry)\<rparr>)))))"

definition move_units_to_subentries :: "(nat \<Rightarrow> string) \<Rightarrow> config_entry \<Rightarrow> meltem_error + config_entry" where
  "move_units_to_subentries ulid entry =
     and_then (each (move_unit ulid (by_unique_id (ce_entities entry))) (rooms_or_none (ce_data entry)) ([], entry))
       (\<lambda>st. Inr ((snd st)\<lparr>ce_version := 2, ce_minor := 1,
          ce_data := (ce_data (snd st))\<lparr>ed_rooms := None\<rparr>\<rparr>))"

text \<open>2.2: \<open>unique_ids\<close> and the registry are the state of the loop.\<close>

definition without_suffix :: "string \<Rightarrow> string \<Rightarrow> string" where
  "without_suffix s sfx = take (length s - length sfx) s"

definition renamed_id :: "string \<Rightarrow> string \<Rightarrow> string \<Rightarrow> string" where
  "renamed_id uid old_key new_key = without_suffix uid (''_'' @ old_key) @ ''_'' @ new_key"

definition rename_key ::
  "entity_entry \<Rightarrow> string \<times> string \<Rightarrow> string list \<times> entity_entry list
     \<Rightarrow> meltem_error + string list \<times> entity_entry list" where
  "rename_key e renamed st =
     (case renamed of (old_key, new_key) \<Rightarrow>
       if \<not> ends_with (ee_unique_id e) (''_'' @ old_key) then Inr st
       else if renamed_id (ee_unique_id e) old_key new_key \<in> set (fst st) then Inr st
       else and_then (set_unique_id (ee_entity_id e) (renamed_id (ee_unique_id e) old_key new_key) None (snd st))
              (\<lambda>registry. Inr (fst st @ [renamed_id (ee_unique_id e) old_key new_key], registry)))"

definition rename_entity_keys :: "config_entry \<Rightarrow> meltem_error + config_entry" where
  "rename_entity_keys entry =
     and_then (each (\<lambda>e. each (rename_key e) RENAMED_ENTITY_KEYS) (ce_entities entry)
         (map ee_unique_id (ce_entities entry), ce_entities entry))
       (\<lambda>st. Inr (entry\<lparr>ce_entities := snd st, ce_minor := 2\<rparr>))"

text \<open>\<open>async_migrate_entry\<close>: whether the entry can be used, and the migrated entry.\<close>

definition migrate_version_1 :: "(nat \<Rightarrow> string) \<Rightarrow> config_entry \<Rightarrow> meltem_error + config_entry" where
  "migrate_version_1 ulid entry =
     and_then (if ce_minor entry < 2 then migrate_data_health_entities entry else Inr entry) (\<lambda>entry.
     and_then (Inr (if ce_minor entry < 3 then move_request_rate entry else entry)) (\<lambda>entry.
     and_then (if ce_minor entry < 4 then move_identity_fields entry else Inr entry) (\<lambda>entry.
       move_units_to_subentries ulid entry)))"

definition migrate_entry :: "(nat \<Rightarrow> string) \<Rightarrow> config_entry \<Rightarrow> meltem_error + bool \<times> config_entry" where
  "migrate_entry ulid entry =
     (if ce_version entry > 2 then Inr (False, entry)
      else and_then (if ce_version entry = 1 then migrate_version_1 ulid entry else Inr entry) (\<lambda>entry.
           and_then (if ce_minor entry < 2 then rename_entity_keys entry else Inr entry) (\<lambda>entry.
             Inr (True, entry))))"


section \<open>Lists of moves\<close>

lemma each_append: "each f (xs @ ys) s = and_then (each f xs s) (each f ys)"
proof (induction xs arbitrary: s)
  case (Cons x xs)
  then show ?case by (cases "f x s") auto
qed simp

type_synonym entity_move = "string \<times> string \<times> string option"

fun apply_move :: "entity_move \<Rightarrow> entity_entry list \<Rightarrow> meltem_error + entity_entry list" where
  "apply_move (entity_id, uid, sub) = set_unique_id entity_id uid sub"

definition registry_wf :: "entity_entry list \<Rightarrow> bool" where
  "registry_wf es \<longleftrightarrow> distinct (map ee_entity_id es) \<and> distinct (map ee_unique_id es)"

definition moved :: "entity_move list \<Rightarrow> entity_entry \<Rightarrow> entity_entry" where
  "moved moves e =
     (case map_of moves (ee_entity_id e) of
        None \<Rightarrow> e
      | Some (uid, sub) \<Rightarrow> e\<lparr>ee_unique_id := uid, ee_subentry := (case sub of None \<Rightarrow> ee_subentry e | s \<Rightarrow> s)\<rparr>)"

lemma moved_entity_id [simp]: "ee_entity_id (moved moves e) = ee_entity_id e"
  by (simp add: moved_def split: option.splits)

lemma moved_entity_ids [simp]: "map ee_entity_id (map (moved moves) es) = map ee_entity_id es"
  by simp

lemma moved_unmoved: "ee_entity_id e \<notin> fst ` set moves \<Longrightarrow> moved moves e = e"
  by (simp add: moved_def map_of_eq_None_iff [THEN iffD2])

lemma apply_move_ok:
  assumes "registry_wf es" "uid \<notin> ee_unique_id ` set es"
  shows "apply_move (i, uid, sub) es = Inr (map (moved [(i, uid, sub)]) es)"
    and "registry_wf (map (moved [(i, uid, sub)]) es)"
    and "ee_unique_id ` set (map (moved [(i, uid, sub)]) es) \<subseteq> insert uid (ee_unique_id ` set es)"
proof -
  show "apply_move (i, uid, sub) es = Inr (map (moved [(i, uid, sub)]) es)"
    using assms(2) by (auto simp: set_unique_id_def list_ex_iff moved_def)
  show "ee_unique_id ` set (map (moved [(i, uid, sub)]) es) \<subseteq> insert uid (ee_unique_id ` set es)"
    by (auto simp: moved_def)
  have "inj_on ee_entity_id (set es)" "inj_on ee_unique_id (set es)" "distinct es"
    using assms(1) by (auto simp: registry_wf_def distinct_map)
  moreover from this have "inj_on (\<lambda>e. ee_unique_id (moved [(i, uid, sub)] e)) (set es)"
    using assms(2) by (auto simp: inj_on_def moved_def image_iff split: if_splits)
  ultimately show "registry_wf (map (moved [(i, uid, sub)]) es)"
    using assms(1) by (simp add: registry_wf_def distinct_map comp_def)
qed

lemma moved_Cons:
  "i \<notin> fst ` set moves \<Longrightarrow> moved moves (moved [(i, m)] e) = moved ((i, m) # moves) e"
proof (cases "ee_entity_id e = i")
  case True
  moreover assume "i \<notin> fst ` set moves"
  ultimately show ?thesis by (simp add: moved_unmoved) (simp add: moved_def)
qed (simp add: moved_def)

lemma apply_moves:
  assumes "registry_wf es" "distinct (map fst moves)" "distinct (map (\<lambda>m. fst (snd m)) moves)"
    and "\<forall>m \<in> set moves. fst (snd m) \<notin> ee_unique_id ` set es"
  shows "each apply_move moves es = Inr (map (moved moves) es) \<and> registry_wf (map (moved moves) es)"
  using assms
proof (induction moves arbitrary: es)
  case Nil
  then show ?case by (simp add: moved_unmoved map_idI)
next
  case (Cons m moves)
  obtain i uid sub where m: "m = (i, uid, sub)" by (cases m)
  note ok = apply_move_ok [OF Cons.prems(1), of uid i sub]
  have fresh: "uid \<notin> ee_unique_id ` set es" using Cons.prems(4) m by simp
  let ?es = "map (moved [(i, uid, sub)]) es"
  have rest: "each apply_move moves ?es = Inr (map (moved moves) ?es) \<and> registry_wf (map (moved moves) ?es)"
  proof (rule Cons.IH [OF ok(2) [OF fresh]])
    show "distinct (map fst moves)" "distinct (map (\<lambda>m. fst (snd m)) moves)" using Cons.prems(2,3) by simp_all
    show "\<forall>m \<in> set moves. fst (snd m) \<notin> ee_unique_id ` set ?es"
    proof
      fix n assume n: "n \<in> set moves"
      have "uid \<notin> (\<lambda>m. fst (snd m)) ` set moves" using Cons.prems(3) m by simp
      then have "fst (snd n) \<noteq> uid" using n by blast
      moreover have "fst (snd n) \<notin> ee_unique_id ` set es" using Cons.prems(4) n by simp
      ultimately show "fst (snd n) \<notin> ee_unique_id ` set ?es"
        using subsetD [OF ok(3) [OF fresh], of "fst (snd n)"] by blast
    qed
  qed
  have "map (moved moves) ?es = map (moved (m # moves)) es"
    using Cons.prems(2) m by (simp add: moved_Cons)
  with rest show ?case using ok(1) [OF fresh] m by (simp only: each.simps and_then.simps)
qed


lemma image_apart: "x \<in> A \<Longrightarrow> f y \<notin> f ` A \<Longrightarrow> f x \<noteq> f y"
  by (metis imageI)

lemma in_map_filter: "y \<in> set (List.map_filter g xs) \<longleftrightarrow> (\<exists>x \<in> set xs. g x = Some y)"
  by (induction xs) (auto simp: List.map_filter_simps split: option.splits)

lemma map_filter_append: "List.map_filter g (xs @ ys) = List.map_filter g xs @ List.map_filter g ys"
  by (simp add: List.map_filter_def)

lemma distinct_filtered:
  assumes "distinct xs"
    and "\<And>x y a b. x \<in> set xs \<Longrightarrow> y \<in> set xs \<Longrightarrow> g x = Some a \<Longrightarrow> g y = Some b \<Longrightarrow> f a = f b \<Longrightarrow> x = y"
  shows "distinct (map f (List.map_filter g xs))"
  using assms
proof (induction xs)
  case (Cons x xs)
  have "distinct (map f (List.map_filter g xs))" by (rule Cons.IH) (use Cons.prems in auto)
  moreover have "f a \<notin> f ` set (List.map_filter g xs)" if a: "g x = Some a" for a
  proof
    assume "f a \<in> f ` set (List.map_filter g xs)"
    then obtain y b where "y \<in> set xs" "g y = Some b" "f a = f b" by (auto simp: List.map_filter_def)
    then have "x = y" using Cons.prems(2) [of x y a b] a by simp
    then show False using Cons.prems(1) \<open>y \<in> set xs\<close> by simp
  qed
  ultimately show ?case by (auto simp: List.map_filter_simps split: option.splits)
qed (simp add: List.map_filter_simps)

lemma by_unique_id_wf:
  assumes "registry_wf es"
  shows "map_of (by_unique_id es) uid = Some i \<longleftrightarrow> (\<exists>e \<in> set es. ee_unique_id e = uid \<and> ee_entity_id e = i)"
proof -
  have "distinct (map fst (map (\<lambda>e. (ee_unique_id e, ee_entity_id e)) es))"
    using assms by (simp add: registry_wf_def comp_def)
  then show ?thesis by (auto simp: by_unique_id_def image_iff)
qed

lemma by_unique_id_inject:
  assumes "registry_wf es" "map_of (by_unique_id es) u = Some i" "map_of (by_unique_id es) v = Some i"
  shows "u = v"
  using assms unfolding by_unique_id_wf [OF assms(1)] registry_wf_def distinct_map inj_on_def by metis

section \<open>The identifiers of a unit's entities\<close>

definition OLD_ENTITY_KEYS :: "string list" where
  "OLD_ENTITY_KEYS = ''airflow_data_stale'' # ALL_ENTITY_KEYS"

lemma old_keys_unsplit: "keys_unsplit OLD_ENTITY_KEYS"
  by code_simp

lemma old_keys_distinct: "distinct OLD_ENTITY_KEYS"
  by code_simp

lemma all_keys_old: "k \<in> set ALL_ENTITY_KEYS \<Longrightarrow> k \<in> set OLD_ENTITY_KEYS"
  by (simp add: OLD_ENTITY_KEYS_def)

lemma legacy_id_unique:
  assumes "ends_in_digit k" "ends_in_digit k'" "e \<in> set OLD_ENTITY_KEYS" "e' \<in> set OLD_ENTITY_KEYS"
  shows "legacy_room_entity_unique_id k e = legacy_room_entity_unique_id k' e' \<longleftrightarrow> k = k' \<and> e = e'"
  using room_part_unique [OF old_keys_unsplit assms(1,2), of e e'] assms(3,4)
  by (auto simp: legacy_room_entity_unique_id_def)

lemma scoped_id_unique:
  assumes "ends_in_digit k" "ends_in_digit k'" "e \<in> set OLD_ENTITY_KEYS" "e' \<in> set OLD_ENTITY_KEYS"
  shows "room_entity_unique_id i k e = room_entity_unique_id i k' e' \<longleftrightarrow> k = k' \<and> e = e'"
  using room_part_unique [OF old_keys_unsplit assms(1,2), of e e'] assms(3,4)
  by (auto simp: room_entity_unique_id_def)

lemma legacy_not_scoped:
  assumes "ends_in_digit k" "ends_in_digit k'" "e \<in> set OLD_ENTITY_KEYS" "e' \<in> set OLD_ENTITY_KEYS"
    "\<not> starts_with (i @ ''_'') k"
  shows "legacy_room_entity_unique_id k e \<noteq> room_entity_unique_id i k' e'"
proof
  assume "legacy_room_entity_unique_id k e = room_entity_unique_id i k' e'"
  then have "k @ CHR ''_'' # e = (i @ ''_'' @ k') @ CHR ''_'' # e'"
    by (simp add: legacy_room_entity_unique_id_def room_entity_unique_id_def)
  moreover have "ends_in_digit (i @ ''_'' @ k')" using assms(2) by (auto simp: ends_in_digit_def)
  ultimately have "k = i @ ''_'' @ k'"
    using room_part_unique [OF old_keys_unsplit assms(1), of "i @ ''_'' @ k'" e e'] assms(3,4) by blast
  then show False using assms(5) by (simp add: starts_with_def)
qed


section \<open>Each step as a list of moves\<close>

text \<open>The units of an old entry: each with a name, an address and a key of its own that ends in a digit.\<close>

definition old_room_wf :: "stored_room \<Rightarrow> bool" where
  "old_room_wf room \<longleftrightarrow> ends_in_digit (key_text room)
     \<and> list_all (\<lambda>k. cell_of room k \<noteq> CNone) [''key'', ''name'', ''slave'']"

definition old_rooms_wf :: "stored_room list \<Rightarrow> bool" where
  "old_rooms_wf rooms \<longleftrightarrow> list_all old_room_wf rooms \<and> distinct (map key_text rooms)"

lemma old_room_items:
  assumes "old_room_wf room"
  shows "item room ''key'' = Inr (cell_of room ''key'')" "item room ''name'' = Inr (cell_of room ''name'')"
    "item room ''slave'' = Inr (cell_of room ''slave'')" "ends_in_digit (key_text room)"
  using assms by (auto simp: old_room_wf_def item_cell)

definition data_health_move :: "(string, string) dict \<Rightarrow> stored_room \<Rightarrow> entity_move option" where
  "data_health_move table room =
     (case map_of table (legacy_room_entity_unique_id (key_text room) ''airflow_data_stale'') of
        None \<Rightarrow> None
      | Some i \<Rightarrow>
          if map_of table (legacy_room_entity_unique_id (key_text room) ''data_health'') \<noteq> None then None
          else Some (i, legacy_room_entity_unique_id (key_text room) ''data_health'', None))"

lemma health_keys: "''airflow_data_stale'' \<in> set OLD_ENTITY_KEYS" "''data_health'' \<in> set OLD_ENTITY_KEYS"
  "''data_health'' \<in> set ALL_ENTITY_KEYS"
  by code_simp+

lemma each_data_health:
  assumes "old_rooms_wf rooms"
  shows "and_then (each rename_data_health rooms (table, registry)) (\<lambda>st. Inr (snd st))
     = each apply_move (List.map_filter (data_health_move table) rooms) registry"
  using assms
proof (induction rooms arbitrary: table registry)
  case (Cons room rooms)
  have wf: "old_room_wf room" "old_rooms_wf rooms" using Cons.prems by (auto simp: old_rooms_wf_def)
  have key: "item room ''key'' = Inr (cell_of room ''key'')" "py_str (cell_of room ''key'') = key_text room"
    using old_room_items [OF wf(1)] by (simp_all add: key_text_def)
  have other: "legacy_room_entity_unique_id (key_text r) e \<noteq> legacy_room_entity_unique_id (key_text room) ''data_health''"
    if r: "r \<in> set rooms" "e \<in> set OLD_ENTITY_KEYS" for r e
  proof -
    have "key_text room \<notin> key_text ` set rooms" "old_room_wf r"
      using Cons.prems r(1) by (auto simp: old_rooms_wf_def list_all_iff)
    moreover from r(1) this(1) have "key_text r \<noteq> key_text room" by (rule image_apart)
    ultimately show ?thesis
      using legacy_id_unique [OF old_room_items(4) [of r] old_room_items(4) [of room] r(2) health_keys(2)] wf(1) by simp
  qed
  have same: "List.map_filter (data_health_move
        (AList.update (legacy_room_entity_unique_id (key_text room) ''data_health'') i table)) rooms
      = List.map_filter (data_health_move table) rooms" for i
  proof (rule map_filter_cong)
    fix r assume r: "r \<in> set rooms"
    show "data_health_move (AList.update (legacy_room_entity_unique_id (key_text room) ''data_health'') i table) r
        = data_health_move table r"
      using other [OF r health_keys(1)] other [OF r health_keys(2)] by (simp add: data_health_move_def update_conv' split: option.split)
  qed
  show ?case
  proof (cases "data_health_move table room")
    case None
    then have "rename_data_health room (table, registry) = Inr (table, registry)"
      by (auto simp: rename_data_health_def data_health_move_def key split: option.splits if_splits)
    then show ?thesis using None Cons.IH [OF wf(2)] by (simp add: List.map_filter_simps)
  next
    case (Some m)
    then obtain i where i: "m = (i, legacy_room_entity_unique_id (key_text room) ''data_health'', None)"
      "map_of table (legacy_room_entity_unique_id (key_text room) ''airflow_data_stale'') = Some i"
      "map_of table (legacy_room_entity_unique_id (key_text room) ''data_health'') = None"
      by (auto simp: data_health_move_def split: option.splits if_splits)
    then show ?thesis
      using Some Cons.IH [OF wf(2)] same
      by (cases "apply_move m registry") (auto simp: rename_data_health_def key List.map_filter_simps)
  qed
qed (simp add: List.map_filter_simps)

definition unit_move :: "(string, string) dict \<Rightarrow> string \<Rightarrow> (string \<times> string) \<times> string \<Rightarrow> entity_move option" where
  "unit_move table entry_id p =
     (case p of ((sub, key), entity_key) \<Rightarrow>
       map_option (\<lambda>i. (i, room_entity_unique_id entry_id key entity_key, Some sub))
         (map_of table (legacy_room_entity_unique_id key entity_key)))"

lemma move_entity_move:
  "move_entity table entry_id sub key k registry =
     (case unit_move table entry_id ((sub, key), k) of None \<Rightarrow> Inr registry | Some m \<Rightarrow> apply_move m registry)"
  by (simp add: move_entity_def unit_move_def split: option.splits)

lemma each_move_entity:
  "each (move_entity table entry_id sub key) keys registry
     = each apply_move (List.map_filter (unit_move table entry_id) (map (Pair (sub, key)) keys)) registry"
proof (induction keys arbitrary: registry)
  case (Cons k keys)
  then have "each (move_entity table entry_id sub key) keys
      = each apply_move (List.map_filter (unit_move table entry_id) (map (Pair (sub, key)) keys))" by blast
  then show ?case
    by (simp add: move_entity_move [of table entry_id sub key k] List.map_filter_simps split: option.split)
qed (simp add: List.map_filter_simps)

definition subentry_of :: "(nat \<Rightarrow> string) \<Rightarrow> string option list \<Rightarrow> nat \<Rightarrow> stored_room \<Rightarrow> unit_subentry" where
  "subentry_of ulid used n room =
     \<lparr>sub_id = ulid n, sub_title = name_text room,
      sub_unique_id = (if Some (py_str (cell_of room ''slave'')) \<in> set used then None
        else Some (py_str (cell_of room ''slave''))),
      sub_data = unit_data room\<rparr>"

lemma move_unit_step:
  assumes "old_room_wf room"
  shows "move_unit ulid table room (used, entry) =
    (let sub = subentry_of ulid used (length (ce_subentries entry)) room in
     and_then (each apply_move (List.map_filter (unit_move table (ce_id entry))
         (map (Pair (sub_id sub, key_text room)) ALL_ENTITY_KEYS)) (ce_entities entry)) (\<lambda>registry.
       Inr (used @ [sub_unique_id sub],
         entry\<lparr>ce_subentries := ce_subentries entry @ [sub], ce_entities := registry,
           ce_devices := move_device (DOMAIN, key_text room) (sub_id sub) (ce_devices entry)\<rparr>)))"
  by (simp add: move_unit_def each_move_entity old_room_items [OF assms] unit_subentry_data_def
      moved_subentry_def subentry_of_def key_text_def name_text_def Let_def)

text \<open>The units after one another: their subentries, and the pairs of subentry and key.\<close>

fun subentries_of :: "(nat \<Rightarrow> string) \<Rightarrow> string option list \<Rightarrow> nat \<Rightarrow> stored_room list \<Rightarrow> unit_subentry list" where
  "subentries_of ulid used n [] = []"
| "subentries_of ulid used n (room # rooms) =
     (let sub = subentry_of ulid used n room
      in sub # subentries_of ulid (used @ [sub_unique_id sub]) (Suc n) rooms)"

definition unit_pairs :: "(nat \<Rightarrow> string) \<Rightarrow> nat \<Rightarrow> stored_room list \<Rightarrow> (string \<times> string) list" where
  "unit_pairs ulid n rooms = zip (map ulid [n..<n + length rooms]) (map key_text rooms)"

lemma unit_pairs_simps [simp]:
  "unit_pairs ulid n [] = []"
  "unit_pairs ulid n (room # rooms) = (ulid n, key_text room) # unit_pairs ulid (Suc n) rooms"
  by (simp_all add: unit_pairs_def upt_conv_Cons del: upt_Suc)

lemma unit_pairs_snd: "map snd (unit_pairs ulid n rooms) = map key_text rooms"
  by (simp add: unit_pairs_def)

lemma unit_pairs_nth: "i < length rooms \<Longrightarrow> (ulid (n + i), key_text (rooms ! i)) \<in> set (unit_pairs ulid n rooms)"
  by (force simp: unit_pairs_def set_zip)

lemma each_move_unit:
  assumes "list_all old_room_wf rooms"
    and "each apply_move (List.map_filter (unit_move table (ce_id entry))
        (List.product (unit_pairs ulid (length (ce_subentries entry)) rooms) ALL_ENTITY_KEYS)) (ce_entities entry) = Inr es"
  shows "\<exists>used' ds. each (move_unit ulid table) rooms (used, entry) = Inr (used',
      entry\<lparr>ce_subentries := ce_subentries entry @ subentries_of ulid used (length (ce_subentries entry)) rooms,
        ce_entities := es, ce_devices := ds\<rparr>)"
  using assms
proof (induction rooms arbitrary: used entry)
  case Nil
  then show ?case by (auto simp: List.map_filter_simps intro!: exI [of _ "ce_devices entry"])
next
  case (Cons room rooms)
  let ?sub = "subentry_of ulid used (length (ce_subentries entry)) room"
  have id: "sub_id ?sub = ulid (length (ce_subentries entry))" by (simp add: subentry_of_def)
  from Cons.prems(2) obtain registry where registry:
    "each apply_move (List.map_filter (unit_move table (ce_id entry))
       (map (Pair (ulid (length (ce_subentries entry)), key_text room)) ALL_ENTITY_KEYS)) (ce_entities entry) = Inr registry"
    "each apply_move (List.map_filter (unit_move table (ce_id entry))
       (List.product (unit_pairs ulid (Suc (length (ce_subentries entry))) rooms) ALL_ENTITY_KEYS)) registry = Inr es"
    by (auto simp: map_filter_append each_append and_then_Inr)
  let ?next = "entry\<lparr>ce_subentries := ce_subentries entry @ [?sub], ce_entities := registry,
      ce_devices := move_device (DOMAIN, key_text room) (sub_id ?sub) (ce_devices entry)\<rparr>"
  have "move_unit ulid table room (used, entry) = Inr (used @ [sub_unique_id ?sub], ?next)"
    using Cons.prems(1) registry(1) by (simp add: move_unit_step Let_def id)
  moreover obtain used' ds where "each (move_unit ulid table) rooms (used @ [sub_unique_id ?sub], ?next) = Inr (used',
      ?next\<lparr>ce_subentries := ce_subentries ?next @ subentries_of ulid (used @ [sub_unique_id ?sub])
          (length (ce_subentries ?next)) rooms,
        ce_entities := es, ce_devices := ds\<rparr>)"
    using Cons.IH [of ?next "used @ [sub_unique_id ?sub]"] Cons.prems(1) registry(2) by auto
  ultimately show ?case by (auto simp: Let_def)
qed


definition rename_move :: "string list \<Rightarrow> entity_entry \<Rightarrow> entity_move option" where
  "rename_move uids e =
     (if ends_with (ee_unique_id e) ''_rf_fault_status''
         \<and> renamed_id (ee_unique_id e) ''rf_fault_status'' ''device_fault'' \<notin> set uids
      then Some (ee_entity_id e, renamed_id (ee_unique_id e) ''rf_fault_status'' ''device_fault'', None) else None)"

lemma renamed_id_inject:
  assumes "ends_with u (''_'' @ old)" "ends_with v (''_'' @ old)" "renamed_id u old new = renamed_id v old new"
  shows "u = v"
proof -
  have whole: "w = without_suffix w (''_'' @ old) @ ''_'' @ old" if "ends_with w (''_'' @ old)" for w
    using that unfolding ends_with_def without_suffix_def by (metis append_take_drop_id)
  have "without_suffix u (''_'' @ old) = without_suffix v (''_'' @ old)"
    using assms(3) by (simp add: renamed_id_def)
  then show ?thesis using whole [OF assms(1)] whole [OF assms(2)] by metis
qed

lemma each_rename_keys:
  assumes "distinct (map ee_unique_id es)"
  shows "and_then (each (\<lambda>e. each (rename_key e) RENAMED_ENTITY_KEYS) es (uids, registry)) (\<lambda>st. Inr (snd st))
     = each apply_move (List.map_filter (rename_move uids) es) registry"
  using assms
proof (induction es arbitrary: uids registry)
  case (Cons e es)
  have single: "each (rename_key e) RENAMED_ENTITY_KEYS st = rename_key e (''rf_fault_status'', ''device_fault'') st" for st
    by (cases "rename_key e (''rf_fault_status'', ''device_fault'') st") (simp_all add: RENAMED_ENTITY_KEYS_def)
  show ?case
  proof (cases "rename_move uids e")
    case None
    then have "rename_key e (''rf_fault_status'', ''device_fault'') (uids, registry) = Inr (uids, registry)"
      by (auto simp: rename_move_def rename_key_def split: if_splits)
    then show ?thesis using None Cons by (simp add: single List.map_filter_simps)
  next
    case (Some m)
    let ?new = "renamed_id (ee_unique_id e) ''rf_fault_status'' ''device_fault''"
    from Some have m: "m = (ee_entity_id e, ?new, None)" "ends_with (ee_unique_id e) ''_rf_fault_status''" "?new \<notin> set uids"
      by (auto simp: rename_move_def split: if_splits)
    have "rename_move (uids @ [?new]) f = rename_move uids f" if f: "f \<in> set es" for f
    proof -
      have "ee_unique_id f \<noteq> ee_unique_id e" using Cons.prems image_apart [OF f, of ee_unique_id e] by simp
      then show ?thesis
        using renamed_id_inject [of "ee_unique_id f" "''rf_fault_status''" "ee_unique_id e" "''device_fault''"] m(2)
        by (auto simp: rename_move_def)
    qed
    then have "List.map_filter (rename_move (uids @ [?new])) es = List.map_filter (rename_move uids) es"
      by (rule map_filter_cong)
    moreover have "rename_key e (''rf_fault_status'', ''device_fault'') (uids, registry)
        = and_then (apply_move m registry) (\<lambda>registry. Inr (uids @ [?new], registry))"
      using m by (simp add: rename_key_def)
    ultimately show ?thesis
      using Some Cons.IH [of "uids @ [?new]"] Cons.prems
      by (cases "apply_move m registry") (simp_all add: single List.map_filter_simps)
  qed
qed (simp add: List.map_filter_simps)

section \<open>What each step does to an entity\<close>

lemma rename_moves_ok:
  assumes "registry_wf es"
  defines "moves \<equiv> List.map_filter (rename_move (map ee_unique_id es)) es"
  shows "each apply_move moves es = Inr (map (moved moves) es)" "registry_wf (map (moved moves) es)"
    and "e \<in> set es \<Longrightarrow> \<not> ends_with (ee_unique_id e) ''_rf_fault_status'' \<Longrightarrow> moved moves e = e"
proof -
  have inj: "inj_on ee_entity_id (set es)" "inj_on ee_unique_id (set es)" "distinct es"
    using assms(1) by (auto simp: registry_wf_def distinct_map)
  have move: "fst m = ee_entity_id f \<and> fst (snd m) = renamed_id (ee_unique_id f) ''rf_fault_status'' ''device_fault''
      \<and> ends_with (ee_unique_id f) ''_rf_fault_status'' \<and> fst (snd m) \<notin> ee_unique_id ` set es"
    if "rename_move (map ee_unique_id es) f = Some m" for f m
    using that by (auto simp: rename_move_def split: if_splits)
  have "distinct (map fst moves)" unfolding moves_def
  proof (rule distinct_filtered [OF inj(3)])
    fix x y a b assume "x \<in> set es" "y \<in> set es" "rename_move (map ee_unique_id es) x = Some a"
      "rename_move (map ee_unique_id es) y = Some b" "fst a = fst b"
    then show "x = y" using move [of x a] move [of y b] inj_onD [OF inj(1)] by simp
  qed
  moreover have "distinct (map (\<lambda>m. fst (snd m)) moves)" unfolding moves_def
  proof (rule distinct_filtered [OF inj(3)])
    fix x y a b assume x: "x \<in> set es" "y \<in> set es" "rename_move (map ee_unique_id es) x = Some a"
      "rename_move (map ee_unique_id es) y = Some b" "fst (snd a) = fst (snd b)"
    then have "ee_unique_id x = ee_unique_id y"
      using move [of x a] move [of y b]
        renamed_id_inject [of "ee_unique_id x" "''rf_fault_status''" "ee_unique_id y" "''device_fault''"] by simp
    then show "x = y" using x(1,2) inj_onD [OF inj(2)] by blast
  qed
  moreover have "\<forall>m \<in> set moves. fst (snd m) \<notin> ee_unique_id ` set es"
    unfolding moves_def by (metis in_map_filter move)
  ultimately show "each apply_move moves es = Inr (map (moved moves) es)" "registry_wf (map (moved moves) es)"
    using apply_moves [OF assms(1)] by blast+
  assume e: "e \<in> set es" "\<not> ends_with (ee_unique_id e) ''_rf_fault_status''"
  have "ee_entity_id e \<notin> fst ` set moves"
  proof
    assume "ee_entity_id e \<in> fst ` set moves"
    then obtain f m where f: "f \<in> set es" "rename_move (map ee_unique_id es) f = Some m" "fst m = ee_entity_id e"
      by (auto simp: moves_def in_map_filter)
    then have "f = e" using move [of f m] inj_onD [OF inj(1)] e(1) by simp
    then show False using move [of f m] f(2) e(2) by simp
  qed
  then show "moved moves e = e" by (rule moved_unmoved)
qed


lemma all_keys_fresh: "''airflow_data_stale'' \<notin> set ALL_ENTITY_KEYS" "distinct ALL_ENTITY_KEYS"
  using old_keys_distinct by (simp_all add: OLD_ENTITY_KEYS_def)

lemma health_moves_ok:
  assumes wf: "registry_wf es" and rooms: "old_rooms_wf rooms"
  defines "moves \<equiv> List.map_filter (data_health_move (by_unique_id es)) rooms"
  shows "each apply_move moves es = Inr (map (moved moves) es)" "registry_wf (map (moved moves) es)"
    and "e \<in> set es \<Longrightarrow> ends_in_digit key \<Longrightarrow> k \<in> set ALL_ENTITY_KEYS
      \<Longrightarrow> ee_unique_id e = legacy_room_entity_unique_id key k \<Longrightarrow> moved moves e = e"
    and "ee_unique_id ` set (map (moved moves) es)
      \<subseteq> ee_unique_id ` set es \<union> (\<lambda>room. legacy_room_entity_unique_id (key_text room) ''data_health'') ` set rooms"
proof -
  let ?stale = "\<lambda>room. legacy_room_entity_unique_id (key_text room) ''airflow_data_stale''"
  let ?health = "\<lambda>room. legacy_room_entity_unique_id (key_text room) ''data_health''"
  have digit: "ends_in_digit (key_text room)" if "room \<in> set rooms" for room
    using rooms that by (auto simp: old_rooms_wf_def list_all_iff old_room_wf_def)
  have same: "x = y" if "x \<in> set rooms" "y \<in> set rooms" "key_text x = key_text y" for x y
    using rooms that unfolding old_rooms_wf_def by (metis distinct_map inj_onD)
  have "distinct rooms" using rooms by (simp add: old_rooms_wf_def distinct_map)
  have move: "map_of (by_unique_id es) (?stale room) = Some (fst m) \<and> fst (snd m) = ?health room
      \<and> map_of (by_unique_id es) (?health room) = None"
    if "data_health_move (by_unique_id es) room = Some m" for room m
    using that by (auto simp: data_health_move_def split: option.splits if_splits)
  have "distinct (map fst moves)" unfolding moves_def
  proof (rule distinct_filtered [OF \<open>distinct rooms\<close>])
    fix x y a b assume x: "x \<in> set rooms" "y \<in> set rooms" "data_health_move (by_unique_id es) x = Some a"
      "data_health_move (by_unique_id es) y = Some b" "fst a = fst b"
    then have "?stale x = ?stale y" using move [of x a] move [of y b] by_unique_id_inject [OF wf, of "?stale x" "fst a" "?stale y"] by simp
    then have "key_text x = key_text y"
      using legacy_id_unique [OF digit [OF x(1)] digit [OF x(2)] health_keys(1) health_keys(1)] by simp
    then show "x = y" using same x(1,2) by blast
  qed
  moreover have "distinct (map (\<lambda>m. fst (snd m)) moves)" unfolding moves_def
  proof (rule distinct_filtered [OF \<open>distinct rooms\<close>])
    fix x y a b assume x: "x \<in> set rooms" "y \<in> set rooms" "data_health_move (by_unique_id es) x = Some a"
      "data_health_move (by_unique_id es) y = Some b" "fst (snd a) = fst (snd b)"
    then have "?health x = ?health y" using move [of x a] move [of y b] by simp
    then have "key_text x = key_text y"
      using legacy_id_unique [OF digit [OF x(1)] digit [OF x(2)] health_keys(2) health_keys(2)] by simp
    then show "x = y" using same x(1,2) by blast
  qed
  moreover have "\<forall>m \<in> set moves. fst (snd m) \<notin> ee_unique_id ` set es"
  proof
    fix m assume "m \<in> set moves"
    then obtain room where "data_health_move (by_unique_id es) room = Some m" by (auto simp: moves_def in_map_filter)
    from move [OF this] show "fst (snd m) \<notin> ee_unique_id ` set es"
      using by_unique_id_wf [OF wf, of "fst (snd m)"] by (metis imageE option.distinct(1))
  qed
  ultimately show "each apply_move moves es = Inr (map (moved moves) es)" "registry_wf (map (moved moves) es)"
    using apply_moves [OF wf] by blast+
  show "moved moves e = e" if e: "e \<in> set es" "ends_in_digit key" "k \<in> set ALL_ENTITY_KEYS"
      "ee_unique_id e = legacy_room_entity_unique_id key k"
  proof (rule moved_unmoved, rule notI)
    assume "ee_entity_id e \<in> fst ` set moves"
    then obtain room m where room: "room \<in> set rooms" "data_health_move (by_unique_id es) room = Some m" "fst m = ee_entity_id e"
      by (auto simp: moves_def in_map_filter)
    have "map_of (by_unique_id es) (ee_unique_id e) = Some (ee_entity_id e)"
      using by_unique_id_wf [OF wf] e(1) by blast
    then have "?stale room = ee_unique_id e"
      using move [OF room(2)] room(3) by_unique_id_inject [OF wf, of "?stale room" "fst m" "ee_unique_id e"] by simp
    with e(4) have "legacy_room_entity_unique_id key k = ?stale room" by (rule trans [OF sym sym])
    then have "k = ''airflow_data_stale''"
      using legacy_id_unique [OF e(2) digit [OF room(1)] all_keys_old [OF e(3)] health_keys(1)] by blast
    then show False using e(3) all_keys_fresh(1) by simp
  qed
  have "ee_unique_id (moved moves e) = ee_unique_id e \<or> ee_unique_id (moved moves e) \<in> ?health ` set rooms" for e
  proof (cases "map_of moves (ee_entity_id e)")
    case (Some m)
    then have "(ee_entity_id e, m) \<in> set moves" by (rule map_of_SomeD)
    then obtain room where "room \<in> set rooms" "data_health_move (by_unique_id es) room = Some (ee_entity_id e, m)"
      unfolding moves_def in_map_filter by blast
    then show ?thesis using move [of room] Some by (auto simp: moved_def split: prod.splits)
  qed (simp add: moved_def)
  then show "ee_unique_id ` set (map (moved moves) es) \<subseteq> ee_unique_id ` set es \<union> ?health ` set rooms"
    by fastforce
qed

lemma unit_moves_ok:
  fixes ulid :: "nat \<Rightarrow> string" and n :: nat
  assumes wf: "registry_wf es" and rooms: "old_rooms_wf rooms"
    and fresh: "\<forall>room \<in> set rooms. \<forall>k \<in> set ALL_ENTITY_KEYS.
      room_entity_unique_id entry_id (key_text room) k \<notin> ee_unique_id ` set es"
  defines "moves \<equiv> List.map_filter (unit_move (by_unique_id es) entry_id) (List.product (unit_pairs ulid n rooms) ALL_ENTITY_KEYS)"
  shows "each apply_move moves es = Inr (map (moved moves) es)" "registry_wf (map (moved moves) es)"
    and "e \<in> set es \<Longrightarrow> i < length rooms \<Longrightarrow> k \<in> set ALL_ENTITY_KEYS
      \<Longrightarrow> ee_unique_id e = legacy_room_entity_unique_id (key_text (rooms ! i)) k
      \<Longrightarrow> moved moves e = e\<lparr>ee_unique_id := room_entity_unique_id entry_id (key_text (rooms ! i)) k,
            ee_subentry := Some (ulid (n + i))\<rparr>"
proof -
  let ?pairs = "unit_pairs ulid n rooms"
  have in_pairs: "ends_in_digit (snd p) \<and> snd p \<in> key_text ` set rooms" if "p \<in> set ?pairs" for p
  proof -
    have "snd p \<in> set (map snd ?pairs)" using that by simp
    then show ?thesis using rooms by (auto simp: unit_pairs_snd old_rooms_wf_def list_all_iff old_room_wf_def)
  qed
  have "distinct (map snd ?pairs)" using rooms by (simp add: unit_pairs_snd old_rooms_wf_def)
  then have pairs: "distinct ?pairs" "inj_on snd (set ?pairs)" by (simp_all add: distinct_map)
  have triples: "distinct (List.product ?pairs ALL_ENTITY_KEYS)"
    by (rule distinct_product [OF pairs(1) all_keys_fresh(2)])
  have move: "fst x \<in> set ?pairs \<and> snd x \<in> set ALL_ENTITY_KEYS
      \<and> map_of (by_unique_id es) (legacy_room_entity_unique_id (snd (fst x)) (snd x)) = Some (fst m)
      \<and> snd m = (room_entity_unique_id entry_id (snd (fst x)) (snd x), Some (fst (fst x)))"
    if "x \<in> set (List.product ?pairs ALL_ENTITY_KEYS)" "unit_move (by_unique_id es) entry_id x = Some m" for x m
    using that by (auto simp: unit_move_def)
  have same: "x = y"
    if "fst x \<in> set ?pairs" "fst y \<in> set ?pairs" "snd (fst x) = snd (fst y)" "snd x = snd y" for x y :: "(string \<times> string) \<times> string"
    using that inj_onD [OF pairs(2)] by (metis prod.expand)
  have fst: "distinct (map fst moves)" unfolding moves_def
  proof (rule distinct_filtered [OF triples])
    fix x y a b assume x: "x \<in> set (List.product ?pairs ALL_ENTITY_KEYS)" "y \<in> set (List.product ?pairs ALL_ENTITY_KEYS)"
      "unit_move (by_unique_id es) entry_id x = Some a" "unit_move (by_unique_id es) entry_id y = Some b" "fst a = fst b"
    note m = move [OF x(1,3)] move [OF x(2,4)]
    then have "legacy_room_entity_unique_id (snd (fst x)) (snd x) = legacy_room_entity_unique_id (snd (fst y)) (snd y)"
      using by_unique_id_inject [OF wf, of _ "fst a"] x(5) by simp
    then have "snd (fst x) = snd (fst y) \<and> snd x = snd y"
      using legacy_id_unique [of "snd (fst x)" "snd (fst y)" "snd x" "snd y"] m in_pairs all_keys_old by blast
    then show "x = y" using same m by blast
  qed
  moreover have "distinct (map (\<lambda>m. fst (snd m)) moves)" unfolding moves_def
  proof (rule distinct_filtered [OF triples])
    fix x y a b assume x: "x \<in> set (List.product ?pairs ALL_ENTITY_KEYS)" "y \<in> set (List.product ?pairs ALL_ENTITY_KEYS)"
      "unit_move (by_unique_id es) entry_id x = Some a" "unit_move (by_unique_id es) entry_id y = Some b"
      "fst (snd a) = fst (snd b)"
    note m = move [OF x(1,3)] move [OF x(2,4)]
    then have "room_entity_unique_id entry_id (snd (fst x)) (snd x) = room_entity_unique_id entry_id (snd (fst y)) (snd y)"
      using x(5) by simp
    then have "snd (fst x) = snd (fst y) \<and> snd x = snd y"
      using scoped_id_unique [of "snd (fst x)" "snd (fst y)" "snd x" "snd y" entry_id] m in_pairs all_keys_old by blast
    then show "x = y" using same m by blast
  qed
  moreover have "\<forall>m \<in> set moves. fst (snd m) \<notin> ee_unique_id ` set es"
  proof
    fix m assume "m \<in> set moves"
    then obtain x where x: "x \<in> set (List.product ?pairs ALL_ENTITY_KEYS)" "unit_move (by_unique_id es) entry_id x = Some m"
      unfolding moves_def in_map_filter by blast
    note m = move [OF x]
    then obtain room where "room \<in> set rooms" "snd (fst x) = key_text room" using in_pairs by blast
    with m fresh show "fst (snd m) \<notin> ee_unique_id ` set es" by simp
  qed
  ultimately show "each apply_move moves es = Inr (map (moved moves) es)" "registry_wf (map (moved moves) es)"
    using apply_moves [OF wf] by blast+
  assume e: "e \<in> set es" "i < length rooms" "k \<in> set ALL_ENTITY_KEYS"
    "ee_unique_id e = legacy_room_entity_unique_id (key_text (rooms ! i)) k"
  have "map_of (by_unique_id es) (ee_unique_id e) = Some (ee_entity_id e)"
    using by_unique_id_wf [OF wf] e(1) by blast
  then have "unit_move (by_unique_id es) entry_id ((ulid (n + i), key_text (rooms ! i)), k)
      = Some (ee_entity_id e, room_entity_unique_id entry_id (key_text (rooms ! i)) k, Some (ulid (n + i)))"
    using e(4) by (simp add: unit_move_def)
  moreover have "((ulid (n + i), key_text (rooms ! i)), k) \<in> set (List.product ?pairs ALL_ENTITY_KEYS)"
    using unit_pairs_nth [OF e(2)] e(3) by simp
  ultimately have "(ee_entity_id e, room_entity_unique_id entry_id (key_text (rooms ! i)) k, Some (ulid (n + i))) \<in> set moves"
    unfolding moves_def in_map_filter by blast
  then show "moved moves e = e\<lparr>ee_unique_id := room_entity_unique_id entry_id (key_text (rooms ! i)) k,
      ee_subentry := Some (ulid (n + i))\<rparr>"
    using map_of_is_SomeI [OF fst] by (simp add: moved_def)
qed


section \<open>Identity values\<close>

lemma migrate_part_cell:
  "k \<noteq> ''product_id'' \<Longrightarrow> k \<noteq> ''app_setup_code'' \<Longrightarrow> cell_of (migrate_part part room) k = cell_of room k"
  by (simp add: migrate_part_def split: option.split)

lemma migrate_identity_cell:
  assumes "k \<noteq> ''product_id''" "k \<noteq> ''app_setup_code''"
  shows "cell_of (migrate_room_identity_fields room) k = cell_of room k"
proof -
  have "cell_of (fold migrate_part parts room) k = cell_of room k" for parts
    by (induction parts arbitrary: room) (simp_all add: migrate_part_cell [OF assms])
  then show ?thesis by (simp add: migrate_room_identity_fields_def split: option.split cell.split)
qed

lemma migrated_room_key: "key_text (migrate_room_identity_fields room) = key_text room"
  by (simp add: key_text_def migrate_identity_cell)

lemma migrated_rooms_wf: "old_rooms_wf (map migrate_room_identity_fields rooms) \<longleftrightarrow> old_rooms_wf rooms"
proof -
  have "old_room_wf (migrate_room_identity_fields room) \<longleftrightarrow> old_room_wf room" for room
    by (simp add: old_room_wf_def migrated_room_key migrate_identity_cell)
  then show ?thesis by (simp add: old_rooms_wf_def list.pred_map comp_def migrated_room_key)
qed

section \<open>The migrated entry\<close>

lemma subentries_of_facts:
  "length (subentries_of ulid used n rooms) = length rooms"
  "map sub_data (subentries_of ulid used n rooms) = map unit_data rooms"
  "map sub_id (subentries_of ulid used n rooms) = map ulid [n..<n + length rooms]"
  by (induction rooms arbitrary: used n) (simp_all add: Let_def subentry_of_def upt_conv_Cons del: upt_Suc)

text \<open>No subentry is refused for its unique ID: an address stored twice keeps it once.\<close>

lemma subentry_ids_distinct:
  "distinct (filter (\<lambda>u. u \<noteq> None) (map sub_unique_id (subentries_of ulid used n rooms)))
    \<and> (\<forall>u \<in> set (map sub_unique_id (subentries_of ulid used n rooms)). u \<noteq> None \<longrightarrow> u \<notin> set used)"
proof (induction rooms arbitrary: used n)
  case (Cons room rooms)
  let ?sub = "subentry_of ulid used n room"
  have "sub_unique_id ?sub \<notin> set used \<or> sub_unique_id ?sub = None" by (simp add: subentry_of_def)
  with Cons.IH [of "used @ [sub_unique_id ?sub]" "Suc n"] show ?case by (auto simp: Let_def)
qed simp

definition old_ids :: "string \<Rightarrow> stored_room list \<Rightarrow> entity_entry list \<Rightarrow> bool" where
  "old_ids entry_id rooms es \<longleftrightarrow>
     list_all (\<lambda>room. \<not> starts_with (entry_id @ ''_'') (key_text room)
       \<and> list_all (\<lambda>e. list_all (\<lambda>k. ee_unique_id e \<noteq> room_entity_unique_id entry_id (key_text room) k) ALL_ENTITY_KEYS) es)
       rooms"

lemma platform_keys_kept:
  "list_all (\<lambda>k. k \<in> set ALL_ENTITY_KEYS \<and> \<not> suffix (''_'' @ k) ''_rf_fault_status'' \<and> \<not> suffix ''_rf_fault_status'' (''_'' @ k))
     (map fst ENTITY_PLATFORM_BY_KEY)"
  by code_simp

lemma scoped_not_renamed:
  assumes "k \<in> set (map fst ENTITY_PLATFORM_BY_KEY)"
  shows "\<not> ends_with (room_entity_unique_id i key k) ''_rf_fault_status''"
proof
  assume "ends_with (room_entity_unique_id i key k) ''_rf_fault_status''"
  then have "suffix ''_rf_fault_status'' (room_entity_unique_id i key k)"
    unfolding ends_with_def suffix_def by (metis append_take_drop_id)
  moreover have "suffix (''_'' @ k) (room_entity_unique_id i key k)"
    by (auto simp: room_entity_unique_id_def suffix_def)
  ultimately have "suffix (''_'' @ k) ''_rf_fault_status'' \<or> suffix ''_rf_fault_status'' (''_'' @ k)"
    using suffix_same_cases by blast
  then show False using platform_keys_kept assms by (auto simp: list_all_iff)
qed


lemma unit_step:
  assumes rooms: "old_rooms_wf rooms" and wf: "registry_wf es" and ids: "old_ids entry_id rooms es"
  obtains es' where
    "each apply_move (List.map_filter (unit_move (by_unique_id es) entry_id)
        (List.product (unit_pairs ulid n rooms) ALL_ENTITY_KEYS)) es = Inr es'"
    "registry_wf es'" "map ee_entity_id es' = map ee_entity_id es"
    "\<And>i j k. i < length rooms \<Longrightarrow> k \<in> set ALL_ENTITY_KEYS \<Longrightarrow> j < length es
      \<Longrightarrow> ee_unique_id (es ! j) = legacy_room_entity_unique_id (key_text (rooms ! i)) k
      \<Longrightarrow> ee_unique_id (es' ! j) = room_entity_unique_id entry_id (key_text (rooms ! i)) k
        \<and> ee_subentry (es' ! j) = Some (ulid (n + i))"
proof -
  have "\<forall>room \<in> set rooms. \<forall>k \<in> set ALL_ENTITY_KEYS.
      room_entity_unique_id entry_id (key_text room) k \<notin> ee_unique_id ` set es"
    using ids unfolding old_ids_def list_all_iff by fastforce
  note step = unit_moves_ok [OF wf rooms this, where ulid = ulid and n = n]
  show thesis
    by (rule that [OF step(1)]) (use step(2,3) in auto)
qed

lemma health_step:
  assumes rooms: "old_rooms_wf rooms" and wf: "registry_wf es" and ids: "old_ids entry_id rooms es"
  obtains es' where
    "each apply_move (List.map_filter (data_health_move (by_unique_id es)) rooms) es = Inr es'"
    "registry_wf es'" "map ee_entity_id es' = map ee_entity_id es" "old_ids entry_id rooms es'"
    "\<And>i j k. i < length rooms \<Longrightarrow> k \<in> set ALL_ENTITY_KEYS \<Longrightarrow> j < length es
      \<Longrightarrow> ee_unique_id (es ! j) = legacy_room_entity_unique_id (key_text (rooms ! i)) k \<Longrightarrow> es' ! j = es ! j"
proof -
  note step = health_moves_ok [OF wf rooms]
  let ?es = "map (moved (List.map_filter (data_health_move (by_unique_id es)) rooms)) es"
  have digit: "ends_in_digit (key_text room)" if "room \<in> set rooms" for room
    using rooms that by (auto simp: old_rooms_wf_def list_all_iff old_room_wf_def)
  have "ee_unique_id e \<noteq> room_entity_unique_id entry_id (key_text room) k"
    if e: "e \<in> set ?es" "room \<in> set rooms" "k \<in> set ALL_ENTITY_KEYS" for e room k
  proof -
    have "ee_unique_id e \<in> ee_unique_id ` set es
        \<union> (\<lambda>room. legacy_room_entity_unique_id (key_text room) ''data_health'') ` set rooms"
      using subsetD [OF step(4)] e(1) by (metis imageI)
    then show ?thesis
    proof (elim UnE imageE)
      fix r assume r: "ee_unique_id e = legacy_room_entity_unique_id (key_text r) ''data_health''" "r \<in> set rooms"
      have "\<not> starts_with (entry_id @ ''_'') (key_text r)" using ids r(2) by (simp add: old_ids_def list_all_iff)
      then show ?thesis
        using legacy_not_scoped [OF digit [OF r(2)] digit [OF e(2)] health_keys(2) all_keys_old [OF e(3)]] r(1) by simp
    qed (use ids e(2,3) in \<open>simp add: old_ids_def list_all_iff\<close>)
  qed
  then have "old_ids entry_id rooms ?es"
    using ids by (simp add: old_ids_def list_all_iff)
  moreover have "?es ! j = es ! j"
    if "i < length rooms" "k \<in> set ALL_ENTITY_KEYS" "j < length es"
      "ee_unique_id (es ! j) = legacy_room_entity_unique_id (key_text (rooms ! i)) k" for i j k
    using step(3) [OF nth_mem digit [OF nth_mem], of j i k] that by simp
  ultimately show thesis by (rule that [OF step(1,2) moved_entity_ids])
qed


lemma migrate_version_1_ok:
  assumes version: "ce_version entry = 1" and rooms: "ed_rooms (ce_data entry) = Some rooms" "old_rooms_wf rooms"
    and wf: "registry_wf (ce_entities entry)" and ids: "old_ids (ce_id entry) rooms (ce_entities entry)"
  defines "n \<equiv> length (ce_subentries entry)"
    and "stored \<equiv> if ce_minor entry < 4 then map migrate_room_identity_fields rooms else rooms"
  obtains old where "migrate_version_1 ulid entry = Inr old"
    "ce_version old = 2" "ce_minor old = 1" "ed_rooms (ce_data old) = None" "registry_wf (ce_entities old)"
    "map ee_entity_id (ce_entities old) = map ee_entity_id (ce_entities entry)"
    "ce_subentries old = ce_subentries entry @ subentries_of ulid [] n stored"
    "\<And>i j k. i < length rooms \<Longrightarrow> k \<in> set ALL_ENTITY_KEYS \<Longrightarrow> j < length (ce_entities entry)
      \<Longrightarrow> ee_unique_id (ce_entities entry ! j) = legacy_room_entity_unique_id (key_text (rooms ! i)) k
      \<Longrightarrow> ee_unique_id (ce_entities old ! j) = room_entity_unique_id (ce_id entry) (key_text (rooms ! i)) k
        \<and> ee_subentry (ce_entities old ! j) = Some (ulid (n + i))"
proof -
  obtain es1 where es1: "each apply_move (List.map_filter (data_health_move (by_unique_id (ce_entities entry))) rooms)
        (ce_entities entry) = Inr es1"
    "registry_wf es1" "map ee_entity_id es1 = map ee_entity_id (ce_entities entry)" "old_ids (ce_id entry) rooms es1"
    "\<And>i j k. i < length rooms \<Longrightarrow> k \<in> set ALL_ENTITY_KEYS \<Longrightarrow> j < length (ce_entities entry)
      \<Longrightarrow> ee_unique_id (ce_entities entry ! j) = legacy_room_entity_unique_id (key_text (rooms ! i)) k
      \<Longrightarrow> es1 ! j = ce_entities entry ! j"
    using health_step [OF rooms(2) wf ids] by blast
  define es2 where "es2 = (if ce_minor entry < 2 then es1 else ce_entities entry)"
  define e1 where "e1 = entry\<lparr>ce_entities := es2\<rparr>"
  have first: "(if ce_minor entry < 2 then migrate_data_health_entities entry else Inr entry) = Inr e1"
    using each_data_health [OF rooms(2), of "by_unique_id (ce_entities entry)" "ce_entities entry"] es1(1) rooms(1)
    by (auto simp: migrate_data_health_entities_def stored_rooms_def and_then_Inr e1_def es2_def)
  have es2: "registry_wf es2" "map ee_entity_id es2 = map ee_entity_id (ce_entities entry)" "old_ids (ce_id entry) rooms es2"
    "\<And>i j k. i < length rooms \<Longrightarrow> k \<in> set ALL_ENTITY_KEYS \<Longrightarrow> j < length (ce_entities entry)
      \<Longrightarrow> ee_unique_id (ce_entities entry ! j) = legacy_room_entity_unique_id (key_text (rooms ! i)) k
      \<Longrightarrow> es2 ! j = ce_entities entry ! j"
    using es1(2-5) wf ids by (auto simp: es2_def)
  define e2 where "e2 = (if ce_minor e1 < 3 then move_request_rate e1 else e1)"
  have e2: "ed_rooms (ce_data e2) = Some rooms" "ce_minor e2 < 4 \<longleftrightarrow> ce_minor entry < 4" "ce_id e2 = ce_id entry"
    "ce_entities e2 = es2" "ce_subentries e2 = ce_subentries entry"
    using rooms(1) by (auto simp: e2_def e1_def move_request_rate_def split: option.split)
  define e3 where "e3 = (if ce_minor e2 < 4 then e2\<lparr>ce_minor := 4, ce_data := (ce_data e2)\<lparr>ed_rooms := Some stored\<rparr>\<rparr> else e2)"
  have third: "(if ce_minor e2 < 4 then move_identity_fields e2 else Inr e2) = Inr e3"
    using e2 by (simp add: e3_def move_identity_fields_def stored_rooms_def stored_def)
  have e3: "ed_rooms (ce_data e3) = Some stored" "ce_id e3 = ce_id entry" "ce_entities e3 = es2"
    "ce_subentries e3 = ce_subentries entry"
    using e2 by (simp_all add: e3_def stored_def)
  have stored: "old_rooms_wf stored" "map key_text stored = map key_text rooms" "old_ids (ce_id entry) stored es2"
    "length stored = length rooms" "\<And>i. i < length rooms \<Longrightarrow> key_text (stored ! i) = key_text (rooms ! i)"
    using rooms(2) es2(3) by (auto simp: stored_def migrated_rooms_wf migrated_room_key old_ids_def list.pred_map comp_def)
  obtain es3 where es3: "each apply_move (List.map_filter (unit_move (by_unique_id es2) (ce_id entry))
        (List.product (unit_pairs ulid n stored) ALL_ENTITY_KEYS)) es2 = Inr es3"
    "registry_wf es3" "map ee_entity_id es3 = map ee_entity_id es2"
    "\<And>i j k. i < length stored \<Longrightarrow> k \<in> set ALL_ENTITY_KEYS \<Longrightarrow> j < length es2
      \<Longrightarrow> ee_unique_id (es2 ! j) = legacy_room_entity_unique_id (key_text (stored ! i)) k
      \<Longrightarrow> ee_unique_id (es3 ! j) = room_entity_unique_id (ce_id entry) (key_text (stored ! i)) k
        \<and> ee_subentry (es3 ! j) = Some (ulid (n + i))"
    using unit_step [OF stored(1) es2(1) stored(3), of ulid n] by blast
  obtain used ds where units: "each (move_unit ulid (by_unique_id es2)) stored ([], e3) = Inr (used,
      e3\<lparr>ce_subentries := ce_subentries e3 @ subentries_of ulid [] n stored, ce_entities := es3, ce_devices := ds\<rparr>)"
    using each_move_unit [of stored "by_unique_id es2" e3 ulid es3 "[]"] stored(1) es3(1) e3
    by (auto simp: n_def old_rooms_wf_def)
  define old where "old = e3\<lparr>ce_subentries := ce_subentries e3 @ subentries_of ulid [] n stored, ce_entities := es3,
      ce_devices := ds, ce_version := 2, ce_minor := 1, ce_data := (ce_data e3)\<lparr>ed_rooms := None\<rparr>\<rparr>"
  have "move_units_to_subentries ulid e3 = Inr old"
    using units by (simp add: e3 move_units_to_subentries_def rooms_or_none_def old_def)
  then have "migrate_version_1 ulid entry = Inr old"
    by (simp only: migrate_version_1_def first and_then.simps third flip: e2_def)
  moreover have "ce_version old = 2" "ce_minor old = 1" "ed_rooms (ce_data old) = None" "registry_wf (ce_entities old)"
    "map ee_entity_id (ce_entities old) = map ee_entity_id (ce_entities entry)"
    "ce_subentries old = ce_subentries entry @ subentries_of ulid [] n stored"
    using es3(2,3) es2(2) e3(4) by (simp_all add: old_def)
  moreover have "ee_unique_id (ce_entities old ! j) = room_entity_unique_id (ce_id entry) (key_text (rooms ! i)) k
      \<and> ee_subentry (ce_entities old ! j) = Some (ulid (n + i))"
    if h: "i < length rooms" "k \<in> set ALL_ENTITY_KEYS" "j < length (ce_entities entry)"
      "ee_unique_id (ce_entities entry ! j) = legacy_room_entity_unique_id (key_text (rooms ! i)) k" for i j k
  proof -
    have "length es2 = length (ce_entities entry)" using es2(2) by (metis length_map)
    then show ?thesis using es3(4) [of i k j] es2(4) [OF h] h stored(4) stored(5) [OF h(1)] by (simp add: old_def)
  qed
  ultimately show thesis by (rule that)
qed




definition old_example :: config_entry where
  "old_example =
     \<lparr>ce_id = ''e1'', ce_version = 1, ce_minor = 1,
      ce_data = \<lparr>ed_rooms = Some
          [[(''key'', CStr ''slave_2''), (''name'', CStr ''Kitchen''), (''slave'', CInt 2), (''profile'', CStr ''ii_f''),
            (''preview'', CStr ''ID 10 | R-Code RA00002'')],
           [(''key'', CStr ''slave_3''), (''name'', CStr ''Bath''), (''slave'', CInt 3), (''profile'', CStr ''ii_plain'')]],
        ed_rate = Some 2, ed_connection = [(''port'', CStr ''/dev/ttyUSB0'')]\<rparr>,
      ce_rate = None, ce_subentries = [],
      ce_entities =
        [\<lparr>ee_entity_id = ''sensor.kitchen'', ee_unique_id = legacy_room_entity_unique_id ''slave_2'' ''supply_air_flow'', ee_subentry = None\<rparr>,
         \<lparr>ee_entity_id = ''binary_sensor.stale'', ee_unique_id = legacy_room_entity_unique_id ''slave_3'' ''airflow_data_stale'', ee_subentry = None\<rparr>,
         \<lparr>ee_entity_id = ''binary_sensor.rf'', ee_unique_id = legacy_room_entity_unique_id ''slave_3'' ''rf_fault_status'', ee_subentry = None\<rparr>],
      ce_devices = [\<lparr>de_identifiers = [(''meltem_ventilation'', ''slave_3'')], de_subentry = None\<rparr>]\<rparr>"

lemma old_example_migrated:
  "case migrate_entry (\<lambda>n. ''unit'' @ decimal n) old_example of
     Inr (True, new) \<Rightarrow>
       map ee_unique_id (ce_entities new) =
         [room_entity_unique_id ''e1'' ''slave_2'' ''supply_air_flow'', room_entity_unique_id ''e1'' ''slave_3'' ''data_health'',
          room_entity_unique_id ''e1'' ''slave_3'' ''device_fault'']
       \<and> map ee_subentry (ce_entities new) = [Some ''unit0'', Some ''unit1'', Some ''unit1'']
       \<and> ce_rate new = Some 2 \<and> map sub_unique_id (ce_subentries new) = [Some ''2'', Some ''3'']
       \<and> cell_of (sub_data (ce_subentries new ! 0)) ''app_setup_code'' = CStr ''RA00002''
       \<and> cell_of (sub_data (ce_subentries new ! 0)) ''product_id'' = CInt 10
   | _ \<Rightarrow> False"
  by code_simp


section \<open>Entries that need no migration\<close>

lemma current_entry_kept:
  "ce_version entry = 2 \<Longrightarrow> 2 \<le> ce_minor entry \<Longrightarrow> migrate_entry ulid entry = Inr (True, entry)"
  by (simp add: migrate_entry_def)

lemma newer_entry_refused: "2 < ce_version entry \<Longrightarrow> migrate_entry ulid entry = Inr (False, entry)"
  by (simp add: migrate_entry_def)


section \<open>Reading the preview of an old release\<close>

lemma split_bars_first:
  assumes "CHR ''|'' \<notin> set p"
  shows "split_bars (p @ '' | '' @ s) = p # split_bars s"
  using assms
proof (induction p)
  case (Cons c p)
  obtain x y rest where rest: "p @ '' | '' @ s = x # y # rest" and x: "x \<noteq> CHR ''|''"
  proof (cases p)
    case Nil
    then show thesis using that [of "CHR '' ''" "CHR ''|''" "CHR '' '' # s"] by simp
  next
    case (Cons d q)
    then show thesis using that [of d "hd (q @ '' | '' @ s)" "tl (q @ '' | '' @ s)"] Cons.prems Cons
      by (cases q) auto
  qed
  then have "split_bars (c # x # y # rest) = (c # p) # split_bars s"
    using Cons by (cases "split_bars (x # y # rest)") auto
  then show ?case using rest by simp
qed simp

lemma split_bars_single: "CHR ''|'' \<notin> set p \<Longrightarrow> split_bars p = [p]"
  by (induction p rule: split_bars.induct) auto

lemma split_bars_joined:
  "parts \<noteq> [] \<Longrightarrow> list_all (\<lambda>p. CHR ''|'' \<notin> set p) parts \<Longrightarrow> split_bars (joined_by '' | '' parts) = parts"
proof (induction parts)
  case (Cons p parts)
  then show ?case
    using split_bars_first [of p] by (cases parts) (simp_all add: split_bars_single)
qed simp

lemma preview_identity:
  assumes preview: "map_of room ''preview'' = Some (CStr (joined_by '' | '' (before @ [''ID '' @ decimal n, ''R-Code '' @ code] @ after)))"
    and bars: "list_all (\<lambda>p. CHR ''|'' \<notin> set p) (before @ after)"
    and others: "list_all (\<lambda>p. \<not> starts_with ''ID '' p \<and> \<not> starts_with ''R-Code '' p) (before @ after)"
    and code: "valid_setup_code code" and unset: "\<not> has_key room ''product_id''" "\<not> has_key room ''app_setup_code''"
  shows "migrate_room_identity_fields room
    = AList.update ''app_setup_code'' (CStr code) (AList.update ''product_id'' (CInt (int n)) room)"
proof -
  have "CHR ''|'' \<notin> set (decimal n)" for n
    using decimal_digits [of n] by (auto simp: list_all_iff isdigit_def)
  moreover have "CHR ''|'' \<notin> set code"
  proof -
    obtain rest where rest: "code = CHR ''R'' # rest"
      using code by (cases code) (auto simp: valid_setup_code_def starts_with_def)
    then have hex: "set rest \<subseteq> set ''0123456789ABCDEF''"
      using code by (simp only: valid_setup_code_def list_all_iff drop_Suc_Cons One_nat_def drop_0) blast
    have no: "CHR ''|'' \<notin> set ''0123456789ABCDEF''" "CHR ''|'' \<noteq> CHR ''R''" by simp_all
    show ?thesis
    proof
      assume "CHR ''|'' \<in> set code"
      then have "CHR ''|'' \<in> set rest" unfolding rest using no(2) set_ConsD by fast
      with hex have "CHR ''|'' \<in> set ''0123456789ABCDEF''" by (rule subsetD)
      with no(1) show False by (rule notE)
    qed
  qed
  ultimately have parts: "split_bars (joined_by '' | '' (before @ [''ID '' @ decimal n, ''R-Code '' @ code] @ after))
      = before @ [''ID '' @ decimal n, ''R-Code '' @ code] @ after"
    using bars by (intro split_bars_joined) simp_all
  have other: "fold migrate_part ps r = r" if "list_all (\<lambda>p. \<not> starts_with ''ID '' p \<and> \<not> starts_with ''R-Code '' p) ps" for ps r
    using that by (induction ps arbitrary: r) (auto simp: migrate_part_def)
  have "migrate_part (''ID '' @ decimal n) room = AList.update ''product_id'' (CInt (int n)) room"
    using unset by (simp add: migrate_part_def starts_with_def parse_decimal)
  moreover have "migrate_part (''R-Code '' @ code) (AList.update ''product_id'' (CInt (int n)) room)
      = AList.update ''app_setup_code'' (CStr code) (AList.update ''product_id'' (CInt (int n)) room)"
    using unset code by (simp add: migrate_part_def starts_with_def has_key_def update_conv')
  ultimately show ?thesis
    using others unfolding migrate_room_identity_fields_def preview option.case cell.case parts by (simp add: other)
qed

end
