(* ===== verification/Spec2Isabelle.thy ===== *)
theory Spec2Isabelle
  imports Meltem_Prelude Meltem_Const Meltem_Models Modbus_Helpers Mode_Codec Polling Read_Health
    Levels Overlay Write_Confirmation Transport_Policy Gateway_Reads Client_Reads Mock_Gateway
    Client_Writes Cumulative_Diagnostics Repair_Issues Coordinator Coordinator_Poll
    Coordinator_Writes Device_Blocks Gateway_Registers Node_Discovery Discovery_Mock Probe_Transport
    Coordinator_Steps Coordinator_Run Coordinator_Isolation Coordinator_Commands Units
    Gateway_Connection Unit_Building Unit_Scans Rescan Unit_Flow Entity_Tables Setup_Flows
    Entry_Setup Migration
begin

text \<open>
  Meltem ventilation units hang behind one Modbus gateway; the Home Assistant integration under
  \<open>src/custom_components/meltem_ventilation\<close> polls them and writes their modes and airflows. This
  library models the integration's own logic, from the request on the wire up to the coordinator that
  Home Assistant calls, and proves what makes each layer correct. Python file names below are relative
  to that directory.

  How the program works. The coordinator (\<open>coordinator.py\<close>) keeps one list of poll jobs for all units.
  A tick takes the job that is due the longest, asks the client (\<open>modbus_client.py\<close>) to read that read
  group of that unit, merges the answer into the published states, records health and failures, reads
  at most one optional value, and plans the next tick. A command of the user goes through
  \<open>write_with_confirmation\<close>: the client writes the mode registers and APPLY, the requested value is
  shown at once by an overlay (\<open>overlay.py\<close>), a readback follows, and \<open>write_confirmation.py\<close> judges
  the write by the readbacks. Every request of the client goes through the transport policy
  (\<open>device/transport.py\<close>), which spaces the reads, repeats a lost reply once and recycles a dead link.
  All of this runs under one gateway lock, so operations do not overlap; timers and callbacks run
  between them.

  Which units there are is decided before: the gateway's node list is read and every unit probed
  (\<open>modbus_helpers.py\<close>), a scan matches what it finds with the stored units (\<open>flow_helpers.py\<close>), the forms
  of a rescan ask the user and store the result (\<open>options_flow.py\<close>), and setup (\<open>__init__.py\<close>) builds the
  unit configurations, cleans up the registries and creates the entities (\<open>entity.py\<close> and the platforms).
\<close>

section \<open>Theories and sources\<close>

text \<open>
  Foundations.
  \<^item> \<open>Meltem_Prelude\<close>: Python integers, clocks, floats, exceptions of the Modbus package,
    association lists as Python dictionaries, the fact collections, and the locale \<open>keyed_store\<close> for
    whatever is read and written by key.
  \<^item> \<open>Meltem_Const\<close>: \<open>const.py\<close>, all constants and tables the model uses.
  \<^item> \<open>Meltem_Models\<close>: the dataclasses of \<open>models.py\<close>.

  Pure parts.
  \<^item> \<open>Modbus_Helpers\<close>: plausible ranges, entity keys of a profile and control settings of
    \<open>modbus_helpers.py\<close>.
  \<^item> \<open>Mode_Codec\<close>: \<open>mode_codec.py\<close>, register writes of mode commands and the decoding of the
    read-only status map.
  \<^item> \<open>Levels\<close>: \<open>levels.py\<close>, targets, measurements and the planning of one-direction commands.
  \<^item> \<open>Polling\<close>: \<open>polling.py\<close>, the poll jobs, their staggering, the due job and the backoff.
  \<^item> \<open>Read_Health\<close>: \<open>read_health.py\<close>, freshness, availability and the outcome of a read job.

  Parts with a state.
  \<^item> \<open>Overlay\<close>: \<open>overlay.py\<close>. \<open>Write_Confirmation\<close>: \<open>write_confirmation.py\<close>.
    \<open>Gateway_Reads\<close>: \<open>gateway_reads.py\<close> and the growing pauses of the client.
    \<open>Cumulative_Diagnostics\<close>: \<open>cumulative_diagnostics.py\<close>. \<open>Repair_Issues\<close>: \<open>new_units.py\<close> and
    \<open>missing_sensors.py\<close>.
  \<^item> \<open>Transport_Policy\<close>: \<open>device/transport.py\<close>, one request at a time over a link that is a
    parameter.
  \<^item> \<open>Client_Reads\<close> and \<open>Client_Writes\<close>: \<open>modbus_client.py\<close> and \<open>environment.py\<close>, the room read and
    the mode commands.
  \<^item> \<open>Mock_Gateway\<close>: \<open>tools/_mock_model.py\<close>, the repository's own model of the hardware, against
    which the commands of the client are proved.
  \<^item> \<open>Device_Blocks\<close>: the register blocks and fields of \<open>device/components.py\<close> and the three device
    classes of \<open>device/device.py\<close>. \<open>Gateway_Registers\<close>: the decoders of \<open>device/device.py\<close> and the
    gateway reads of the client.
  \<^item> \<open>Node_Discovery\<close>: the discovery of units and the probe of a unit in \<open>modbus_helpers.py\<close>.
    \<open>Discovery_Mock\<close> proves both against the mock gateway, \<open>Probe_Transport\<close> against the transport
    policy.
  \<^item> \<open>Coordinator\<close>, \<open>Coordinator_Poll\<close>, \<open>Coordinator_Writes\<close>: \<open>coordinator.py\<close> and
    \<open>room_runtime.py\<close>, its state, its polling half and its command half.

  Units, their storage and the life of an entry.
  \<^item> \<open>Units\<close>: \<open>units.py\<close> and \<open>identifiers.py\<close>, stored units, unit configurations, identifiers.
  \<^item> \<open>Unit_Building\<close>: the functions of \<open>flow_helpers.py\<close> that decide what is stored for a unit;
    \<open>Unit_Scans\<close> proves what a scan does to the stored units.
  \<^item> \<open>Gateway_Connection\<close>: \<open>gateway_connection.py\<close>, the connections an entry can store, read back and
    told apart by their unique IDs, with the normalisation of hosts.
  \<^item> \<open>Setup_Flows\<close>: \<open>config_flow.py\<close> and the temporary link of \<open>flow_helpers.py\<close>, the forms that create
    an entry from a scan or give it another connection. \<open>Unit_Flow\<close>: \<open>subentry_flow.py\<close>, the forms that
    add one unit or change its profile. Both end in stored units as \<open>Rescan\<close> assumes them.
  \<^item> \<open>Rescan\<close>: \<open>options_flow.py\<close>, its forms as a step relation and the subentry changes it makes.
  \<^item> \<open>Entity_Tables\<close>: which entities exist, from \<open>entity.py\<close>, the six platforms and
    \<open>automation.py\<close>.
  \<^item> \<open>Entry_Setup\<close>: \<open>__init__.py\<close>, setup with its cleanup and failures, reload and unload.
  \<^item> \<open>Migration\<close>: \<open>migration.py\<close>, every step from the entry of an older release to the current one,
    and that no entity of a unit is lost on the way.

  Theorems about the coordinator as a whole.
  \<^item> \<open>Coordinator_Steps\<close>: every operation as a sequence of small changes of the lasting state.
  \<^item> \<open>Coordinator_Run\<close>: everything that can happen to a coordinator as a step relation, with the
    invariants of the reachable states and the backoff as a function of the poll outcomes.
  \<^item> \<open>Coordinator_Isolation\<close>: a poll of one unit leaves the others alone.
  \<^item> \<open>Coordinator_Commands\<close>: the three ends of a command: accepted, failed, cancelled.
\<close>

section \<open>Conventions\<close>

text \<open>
  A class with mutable attributes is a record, a method a function from the state to the new state
  (paired with its result where it has one), a frozen dataclass a record, an enumeration a datatype.
  \<open>None\<close> is \<^const>\<open>None\<close>, a dictionary an association list in insertion order, a frozen set the list
  of its elements in source order. Python integers are \<^typ>\<open>int\<close>. Seconds and sensor floats are
  idealised reals, NaN and infinities a constructor of their own. Exceptions are values: an exception
  of the Modbus package is the record \<^typ>\<open>exn\<close>, which names the classes it is an instance of, and an
  operation that can raise returns a reply type whose constructors are its ways to end, cancellation
  included.

  Parameters. \<open>modbus_connection\<close>, Home Assistant and \<open>asyncio\<close> are not part of the repository.
  \<^item> \<^typ>\<open>'w link_env\<close>: what the Modbus link does with one request: how long it takes, the reply,
    and whether the client was shut down meanwhile.
  \<^item> \<^typ>\<open>device_link\<close>: what \<open>Device.async_poll\<close> reports per component, and the decoded attributes.
  \<^item> \<^typ>\<open>'w client_env\<close>: the client as the coordinator's protocol class declares it, with the
    clocks and Home Assistant's own callbacks, over a world of any type.
  \<^item> \<open>host_rules\<close> and \<open>flow_host\<close>: the text \<open>ipaddress\<close> gives an IPv6 address and IDNA beyond ASCII;
    Home Assistant's entries, the resolution of a serial path, and holding a unit for one flow step.
  No theorem assumes more of them than its statement shows; each that assumes something has a witness
  on a concrete instance.

  Interleaving. An operation of the coordinator or of the transport holds a lock to its end, so it is
  one function. What \<open>asyncio\<close> may do at an \<open>await\<close> is in the parameters: the clock moves, the answer
  may be a cancellation, and the client may have been shut down.

  Loops. Most loops of the modelled code run over finite lists or a fixed number of attempts and are
  structural recursion. Two are not: the probe of a unit repeats a block, and the search for an unused
  key or name counts up; both are recursive functions with a termination proof by a measure. No fuel is
  used.
\<close>

section \<open>Interfaces\<close>

text \<open>
  Locales state what one part relies on in another; each is interpreted on the model itself:
  \<open>keyed_store\<close> (dictionaries, health by read group, sensor streaks), \<open>room_slots\<close> (the pending values
  of the overlays), \<open>pause_cap\<close> (the capped failure counters of the client and of the optional reads
  lose nothing against the uncapped count), \<open>mode_unit\<close> (what the client's staging relies on in a unit:
  writes become visible with APPLY, interpreted on the mock gateway), \<open>readback_stable\<close> (facts of the
  coordinator that a readback keeps), \<open>transport_invariant\<close> (facts every request keeps), \<open>node_list\<close> and
  \<open>answering_unit\<close> (what discovery and probing rely on in a gateway and in a unit, interpreted on the
  mock gateway).
\<close>

section \<open>Not modelled\<close>

text \<open>
  \<^item> Opening serial and TCP links, and resolving serial port paths: host I/O.
  \<^item> The schemas and texts of the forms, what the entities show and do beyond the values
    of the unit sensors, diagnostics downloads, system health, triggers and conditions: presentation and
    glue of Home Assistant.
  \<^item> How \<open>modbus_connection\<close> reads and decodes a register block: a parameter.
  \<^item> Of the coordinator: the listeners of the diagnostic sensors, display names, and calls the flows
    pass through to the client. Of the mock: its JSON register maps and its text report.
  \<^item> Logging, everywhere.
  \<^item> The other development tools: command-line scripts around real hardware.
\<close>

end
